(* ===== verification/Cp_Prelude.thy ===== *)
theory Cp_Prelude
  imports Complex_Main "HOL-Library.Char_ord" "HOL-Library.List_Lexorder"
begin

text \<open>
  Shared automation of the development. A Python function that may raise is a HOL function
  into \<open>exc + 'a\<close>: \<open>Inl\<close> is the exception class it raises, \<open>Inr\<close> the value it returns.
  Code is written in the source's order: a guard that raises is an \<open>if\<close>, a call that may
  raise is a \<open>bindE\<close>, a handler that raises another class is a \<open>reraise\<close>. The collection
  \<open>run\<close> turns "the code returned \<open>y\<close>" into the conjunction of the guards that were
  passed, one rule per construct, so that the component proofs never unfold a nest of cases
  by hand.
\<close>

named_theorems run \<open>successful runs of guarded code\<close>

section \<open>Exceptions\<close>

text \<open>
  The exception classes the modelled code raises or catches. Only the class is modelled,
  because the code's handlers dispatch on the class; where the text of a message is stored
  (the \<open>last_error\<close> of a checkpoint) it is a separate value.
\<close>

datatype exc =
    TypeError
  | ValueError
  | KeyError
  | IndexError
  | OverflowError
  | AttributeError
  | RuntimeError
  | SessionContractError
  | TargetParseError
  | TargetExpansionLimitError
  | TargetResolutionError
  | ScanCancelledError
  | KeyboardInterrupt
  | SingleTargetScopeError
  | SessionCheckpointNotFoundError
  | SessionCheckpointIntegrityError
  | SessionCheckpointCompatibilityError
  | SessionPersistenceError
  | SessionExecutionError
  | MultiTargetSessionScopeError
  | SessionStoreV2Error
  | SessionStoreV2IntegrityError
  | DatabaseError
  | FileNotFoundError
  | OSError
  | SpecializedFlowError
  | Killed

text \<open>
  \<open>Killed\<close> is not a class of the program: it stands for the end of the process at that point,
  which no handler sees.
\<close>

text \<open>\<open>except ValueError\<close> also catches the subclasses of \<open>ValueError\<close>.\<close>

fun is_value_error :: "exc \<Rightarrow> bool" where
  "is_value_error ValueError = True"
| "is_value_error SessionContractError = True"
| "is_value_error TargetParseError = True"
| "is_value_error TargetExpansionLimitError = True"
| "is_value_error TargetResolutionError = True"
| "is_value_error _ = False"

text \<open>\<open>except (TypeError, ValueError)\<close>.\<close>

definition is_type_or_value_error :: "exc \<Rightarrow> bool" where
  "is_type_or_value_error e \<longleftrightarrow> e = TypeError \<or> is_value_error e"

lemma is_type_or_value_error_simps [simp]:
  "is_type_or_value_error TypeError" "is_type_or_value_error ValueError"
  by (simp_all add: is_type_or_value_error_def)

section \<open>Sequencing and handlers\<close>

text \<open>
  \<open>bindE m f\<close> runs \<open>m\<close> and goes on with its value, an exception skips the rest.
  \<open>reraise P e m\<close> is \<open>try: m except P: raise e\<close>.
\<close>

definition bindE :: "'e + 'a \<Rightarrow> ('a \<Rightarrow> 'e + 'b) \<Rightarrow> 'e + 'b" where
  "bindE m f = (case m of Inl e \<Rightarrow> Inl e | Inr x \<Rightarrow> f x)"

definition reraise :: "('e \<Rightarrow> bool) \<Rightarrow> 'e \<Rightarrow> 'e + 'a \<Rightarrow> 'e + 'a" where
  "reraise P e' m = (case m of Inl e \<Rightarrow> Inl (if P e then e' else e) | Inr x \<Rightarrow> Inr x)"

lemma bindE_simps [simp]:
  "bindE (Inl e) f = Inl e"
  "bindE (Inr x) f = f x"
  by (simp_all add: bindE_def)

lemma reraise_simps [simp]:
  "reraise P e' (Inl e) = Inl (if P e then e' else e)"
  "reraise P e' (Inr x) = Inr x"
  by (simp_all add: reraise_def)

lemma bindE_Inr [run]: "bindE m f = Inr y \<longleftrightarrow> (\<exists>x. m = Inr x \<and> f x = Inr y)"
  by (cases m) auto

lemma bindE_Inl: "bindE m f = Inl e \<longleftrightarrow> m = Inl e \<or> (\<exists>x. m = Inr x \<and> f x = Inl e)"
  by (cases m) auto

lemma reraise_Inr [run]: "reraise P e m = Inr y \<longleftrightarrow> m = Inr y"
  by (cases m) auto

lemma reraise_Inl:
  "reraise P e' m = Inl e \<longleftrightarrow> (\<exists>e0. m = Inl e0 \<and> e = (if P e0 then e' else e0))"
  by (cases m) auto

lemma run_if [run]:
  "(if b then Inl e else m) = Inr y \<longleftrightarrow> \<not> b \<and> m = Inr y"
  by simp

lemma run_if_else [run]:
  "(if b then m else Inl e) = Inr y \<longleftrightarrow> b \<and> m = Inr y"
  by simp

lemma bindE_cong [fundef_cong]:
  "m = m' \<Longrightarrow> (\<And>x. m' = Inr x \<Longrightarrow> f x = f' x) \<Longrightarrow> bindE m f = bindE m' f'"
  by (cases m') auto

section \<open>Mapping a raising function over a list\<close>

fun map_err :: "('a \<Rightarrow> 'e + 'b) \<Rightarrow> 'a list \<Rightarrow> 'e + 'b list" where
  "map_err f [] = Inr []"
| "map_err f (x # xs) = bindE (f x) (\<lambda>y. bindE (map_err f xs) (\<lambda>ys. Inr (y # ys)))"

lemma map_err_Inr_length: "map_err f xs = Inr ys \<Longrightarrow> length ys = length xs"
  by (induction xs arbitrary: ys) (auto simp: run)

lemma map_err_Inr_mem:
  "map_err f xs = Inr ys \<Longrightarrow> y \<in> set ys \<Longrightarrow> \<exists>x \<in> set xs. f x = Inr y"
  by (induction xs arbitrary: ys) (auto simp: run)

lemma map_err_Inr_img:
  "map_err f xs = Inr ys \<Longrightarrow> x \<in> set xs \<Longrightarrow> \<exists>y \<in> set ys. f x = Inr y"
  by (induction xs arbitrary: ys) (auto simp: run)

lemma map_err_comp: "map_err f (map g xs) = map_err (\<lambda>x. f (g x)) xs"
  by (induction xs) auto

lemma map_err_map:
  "(\<And>x. x \<in> set xs \<Longrightarrow> f (g x) = Inr (h x)) \<Longrightarrow> map_err f (map g xs) = Inr (map h xs)"
  by (induction xs) auto

lemma map_err_id:
  "(\<And>x. x \<in> set xs \<Longrightarrow> f (g x) = Inr x) \<Longrightarrow> map_err f (map g xs) = Inr xs"
  by (induction xs) auto

lemma map_err_list_all:
  "map_err f xs = Inr ys \<Longrightarrow> (\<And>x y. f x = Inr y \<Longrightarrow> P y) \<Longrightarrow> list_all P ys"
  by (induction xs arbitrary: ys) (auto simp: run)

lemma map_err_cong [fundef_cong]:
  "xs = ys \<Longrightarrow> (\<And>x. x \<in> set ys \<Longrightarrow> f x = g x) \<Longrightarrow> map_err f xs = map_err g ys"
  by (induction ys arbitrary: xs) auto

section \<open>Sorted lists of distinct elements\<close>

lemma sorted_distinct_sort [simp]: "sorted xs \<Longrightarrow> sort xs = xs"
  by (simp add: sorted_sort_id)

lemma sort_key_sorted [simp]: "sorted (map f xs) \<Longrightarrow> sort_key f xs = xs"
  by (simp add: sort_key_id_if_sorted)

lemma distinct_card_iff: "card (set xs) = length xs \<longleftrightarrow> distinct xs"
  by (metis card_distinct distinct_card)

lemma distinct_map_card: "card (f ` set xs) = length xs \<longleftrightarrow> distinct (map f xs)"
  using distinct_card_iff [of "map f xs"] by simp

lemma sorted_filter_mono: "sorted xs \<Longrightarrow> sorted (filter P xs)"
  by (rule sorted_wrt_filter)

lemma distinct_map_sort_key [simp]: "distinct (map f (sort_key g xs)) \<longleftrightarrow> distinct (map f xs)"
  by (simp add: distinct_map)

lemma map_err_list_all2_iff: "map_err f xs = Inr ys \<longleftrightarrow> list_all2 (\<lambda>x y. f x = Inr y) xs ys"
  by (induction xs arbitrary: ys) (auto simp: run list_all2_Cons1)

lemmas map_err_list_all2 = map_err_list_all2_iff [THEN iffD1]

lemma find_append: "find P (xs @ ys) = (case find P xs of None \<Rightarrow> find P ys | Some x \<Rightarrow> Some x)"
  by (induction xs) auto

end
