(* ===== verification/Py_Values.thy ===== *)
theory Py_Values
  imports Cp_Prelude
begin

text \<open>
  The Python values the program validates, and the built-in operations it applies to them:
  JSON-like values (\<open>pyval\<close>), the string methods \<open>strip\<close>, \<open>lower\<close>, \<open>split\<close> and
  \<open>partition\<close>, \<open>int(str)\<close>, \<open>float(x)\<close>, truth and equality. Strings are lists of
  code points below 256 (Latin-1), on which Python's whitespace and case tables are written
  out. A member of a \<open>str\<close>-valued enumeration equals and hashes as its value, so where
  the program accepts "a member or its value" the argument is the value.
\<close>

section \<open>Floats\<close>

text \<open>
  A Python float is a dyadic rational or one of the non-finite values. The program uses of
  them: \<open>float(int)\<close> (rounding to 53 bits, half to even, \<open>OverflowError\<close> from
  $2^{1024}$ on), \<open>math.isfinite\<close> and comparisons.
\<close>

datatype pyfloat = FNan | FPosInf | FNegInf | FFin rat

fun isfinite :: "pyfloat \<Rightarrow> bool" where
  "isfinite (FFin _) = True"
| "isfinite _ = False"

fun fl_neg :: "pyfloat \<Rightarrow> bool" where
  "fl_neg (FFin r) = (r < 0)"
| "fl_neg FNegInf = True"
| "fl_neg _ = False"

function bit_length :: "int \<Rightarrow> nat" where
  "bit_length n = (if n \<le> 0 then 0 else Suc (bit_length (n div 2)))"
  by pat_completeness auto
termination by (relation "measure nat") auto

declare bit_length.simps [simp del]

definition round53 :: "int \<Rightarrow> int" where
  "round53 n =
     (let e = bit_length n - 53; q = n div 2 ^ e; r = n mod 2 ^ e
      in if e = 0 then n
         else if 2 * r < 2 ^ e \<or> (2 * r = 2 ^ e \<and> even q) then q * 2 ^ e
         else (q + 1) * 2 ^ e)"

definition float_of_int :: "int \<Rightarrow> exc + pyfloat" where
  "float_of_int n =
     (let m = round53 \<bar>n\<bar>
      in if m \<ge> 2 ^ 1024 then Inl OverflowError
         else Inr (FFin (of_int (sgn n * m))))"

section \<open>Values\<close>

datatype pyval =
    PNone
  | PBool bool
  | PInt int
  | PFloat pyfloat
  | PStr string
  | PList "pyval list"
  | PDict "(pyval \<times> pyval) list"

text \<open>\<open>isinstance(v, int) and not isinstance(v, bool)\<close>: \<open>bool\<close> is a subclass of \<open>int\<close>.\<close>

fun is_strict_int :: "pyval \<Rightarrow> bool" where
  "is_strict_int (PInt _) = True"
| "is_strict_int _ = False"

fun is_bool :: "pyval \<Rightarrow> bool" where
  "is_bool (PBool _) = True"
| "is_bool _ = False"

fun is_str :: "pyval \<Rightarrow> bool" where
  "is_str (PStr _) = True"
| "is_str _ = False"

fun is_dict :: "pyval \<Rightarrow> bool" where
  "is_dict (PDict _) = True"
| "is_dict _ = False"

text \<open>\<open>v == n\<close> for an integer \<open>n\<close>: \<open>True == 1\<close> and \<open>1.0 == 1\<close> in Python.\<close>

fun eq_int :: "pyval \<Rightarrow> int \<Rightarrow> bool" where
  "eq_int (PInt m) n = (m = n)"
| "eq_int (PBool b) n = ((if b then 1 else 0) = n)"
| "eq_int (PFloat (FFin r)) n = (r = of_int n)"
| "eq_int _ n = False"

text \<open>\<open>bool(v)\<close>.\<close>

fun truthy :: "pyval \<Rightarrow> bool" where
  "truthy PNone = False"
| "truthy (PBool b) = b"
| "truthy (PInt n) = (n \<noteq> 0)"
| "truthy (PFloat f) = (f \<noteq> FFin 0)"
| "truthy (PStr s) = (s \<noteq> [])"
| "truthy (PList xs) = (xs \<noteq> [])"
| "truthy (PDict kvs) = (kvs \<noteq> [])"

definition str_or_none :: "string option \<Rightarrow> pyval" where
  "str_or_none x = (case x of None \<Rightarrow> PNone | Some s \<Rightarrow> PStr s)"

lemma str_or_none_simps [simp]:
  "str_or_none None = PNone"
  "str_or_none (Some s) = PStr s"
  by (simp_all add: str_or_none_def)

section \<open>Objects with string keys\<close>

text \<open>
  A dictionary is the list of its items, with distinct keys. The program reads it by string
  key (\<open>d[k]\<close>, \<open>d.get(k)\<close>) and compares its key set with a fixed set of names;
  keys that are not strings are possible in a value built by a caller.
\<close>

definition dict_get :: "(pyval \<times> pyval) list \<Rightarrow> string \<Rightarrow> pyval option" where
  "dict_get kvs k = map_of kvs (PStr k)"

definition dict_get_or :: "(pyval \<times> pyval) list \<Rightarrow> string \<Rightarrow> pyval \<Rightarrow> pyval" where
  "dict_get_or kvs k d = (case dict_get kvs k of None \<Rightarrow> d | Some v \<Rightarrow> v)"

definition dict_at :: "(pyval \<times> pyval) list \<Rightarrow> string \<Rightarrow> exc + pyval" where
  "dict_at kvs k = (case dict_get kvs k of None \<Rightarrow> Inl KeyError | Some v \<Rightarrow> Inr v)"

definition obj :: "(string \<times> pyval) list \<Rightarrow> pyval" where
  "obj fs = PDict (map (\<lambda>(k, v). (PStr k, v)) fs)"

definition dict_keys :: "(pyval \<times> pyval) list \<Rightarrow> pyval list" where
  "dict_keys kvs = map fst kvs"

text \<open>The key set of a dictionary against a set of required and a set of optional names.\<close>

definition has_fields :: "(pyval \<times> pyval) list \<Rightarrow> string list \<Rightarrow> bool" where
  "has_fields kvs req \<longleftrightarrow> list_all (\<lambda>k. PStr k \<in> set (dict_keys kvs)) req"

definition only_fields :: "(pyval \<times> pyval) list \<Rightarrow> string list \<Rightarrow> bool" where
  "only_fields kvs allowed \<longleftrightarrow> list_all (\<lambda>k. k \<in> set (map PStr allowed)) (dict_keys kvs)"

lemma dict_get_obj [simp]: "dict_get (map (\<lambda>(k, v). (PStr k, v)) fs) k = map_of fs k"
  by (induction fs) (auto simp: dict_get_def)

lemma dict_get_Cons [simp]:
  "dict_get ((PStr k', v) # kvs) k = (if k = k' then Some v else dict_get kvs k)"
  "dict_get [] k = None"
  by (auto simp: dict_get_def)

lemma dict_get_append:
  "dict_get (xs @ ys) k = (case dict_get xs k of None \<Rightarrow> dict_get ys k | Some v \<Rightarrow> Some v)"
  by (simp add: dict_get_def map_add_def split: option.splits)

lemma dict_at_Inr [run]: "dict_at kvs k = Inr v \<longleftrightarrow> dict_get kvs k = Some v"
  by (simp add: dict_at_def split: option.splits)

lemma dict_at_Some [simp]: "dict_get kvs k = Some v \<Longrightarrow> dict_at kvs k = Inr v"
  by (simp add: dict_at_def)

section \<open>String methods\<close>

definition ord :: "char \<Rightarrow> int" where
  "ord c = of_char c"

text \<open>\<open>str.isspace\<close> on one Latin-1 code point.\<close>

definition is_space :: "char \<Rightarrow> bool" where
  "is_space c \<longleftrightarrow> ord c \<in> set [9, 10, 11, 12, 13, 28, 29, 30, 31, 32, 133, 160]"

definition strip :: "string \<Rightarrow> string" where
  "strip s = rev (dropWhile is_space (rev (dropWhile is_space s)))"

definition char_lower :: "char \<Rightarrow> char" where
  "char_lower c =
     (let n = ord c
      in if (65 \<le> n \<and> n \<le> 90) \<or> (192 \<le> n \<and> n \<le> 222 \<and> n \<noteq> 215)
         then char_of (n + 32) else c)"

definition lower :: "string \<Rightarrow> string" where
  "lower s = map char_lower s"

definition is_digit :: "char \<Rightarrow> bool" where
  "is_digit c \<longleftrightarrow> 48 \<le> ord c \<and> ord c \<le> 57"

definition is_lower_hex :: "char \<Rightarrow> bool" where
  "is_lower_hex c \<longleftrightarrow> is_digit c \<or> (97 \<le> ord c \<and> ord c \<le> 102)"

definition is_hex :: "char \<Rightarrow> bool" where
  "is_hex c \<longleftrightarrow> is_lower_hex c \<or> (65 \<le> ord c \<and> ord c \<le> 70)"

definition is_alnum_ascii :: "char \<Rightarrow> bool" where
  "is_alnum_ascii c \<longleftrightarrow>
     is_digit c \<or> (97 \<le> ord c \<and> ord c \<le> 122) \<or> (65 \<le> ord c \<and> ord c \<le> 90)"

text \<open>\<open>s.split(sep)\<close> for a one-character separator: one more part than separators.\<close>

fun split_on :: "char \<Rightarrow> string \<Rightarrow> string list" where
  "split_on d [] = [[]]"
| "split_on d (c # cs) =
     (if c = d then [] # split_on d cs
      else case split_on d cs of [] \<Rightarrow> [[c]] | p # ps \<Rightarrow> (c # p) # ps)"

text \<open>\<open>s.split()\<close>: the maximal runs of non-space characters.\<close>

function split_ws :: "string \<Rightarrow> string list" where
  "split_ws [] = []"
| "split_ws (c # cs) =
     (if is_space c then split_ws cs
      else (c # takeWhile (\<lambda>x. \<not> is_space x) cs) # split_ws (dropWhile (\<lambda>x. \<not> is_space x) cs))"
  by pat_completeness auto
termination
  by (relation "measure length") (auto simp: le_imp_less_Suc length_dropWhile_le)

text \<open>\<open>s.partition(d)\<close>: the part before the first \<open>d\<close>, whether there was one, and the rest.\<close>

definition partition_on :: "char \<Rightarrow> string \<Rightarrow> string \<times> bool \<times> string" where
  "partition_on d s =
     (takeWhile (\<lambda>c. c \<noteq> d) s, d \<in> set s, tl (dropWhile (\<lambda>c. c \<noteq> d) s))"

fun join_with :: "string \<Rightarrow> string list \<Rightarrow> string" where
  "join_with d [] = []"
| "join_with d [p] = p"
| "join_with d (p # q # ps) = p @ d @ join_with d (q # ps)"

definition starts_with :: "string \<Rightarrow> string \<Rightarrow> bool" where
  "starts_with p s \<longleftrightarrow> take (length p) s = p"

definition ends_with :: "string \<Rightarrow> string \<Rightarrow> bool" where
  "ends_with p s \<longleftrightarrow> starts_with (rev p) (rev s)"

text \<open>The largest prefix that \<open>strip\<close> leaves alone: idempotence.\<close>

lemma dropWhile_fix: "(xs = [] \<or> \<not> P (hd xs)) \<Longrightarrow> dropWhile P xs = xs"
  by (cases xs) auto

lemma strip_Nil [simp]: "strip [] = []"
  by (simp add: strip_def)

lemma strip_ends: "strip s = [] \<or> (\<not> is_space (hd (strip s)) \<and> \<not> is_space (last (strip s)))"
proof (cases "strip s = []")
  case False
  let ?t = "dropWhile is_space s"
  have rl: "strip s = rev (dropWhile is_space (rev ?t))" by (simp add: strip_def)
  have ne: "dropWhile is_space (rev ?t) \<noteq> []" using False rl by simp
  have last: "\<not> is_space (last (strip s))"
    using hd_dropWhile [OF ne] rl ne by (simp add: last_rev)
  obtain zs where split: "?t = strip s @ zs"
    using takeWhile_dropWhile_id [of is_space "rev ?t"] rl
    by (metis rev_append rev_rev_ident)
  have "?t \<noteq> []" using False split by auto
  then have "\<not> is_space (hd ?t)" by (rule hd_dropWhile)
  then have "\<not> is_space (hd (strip s))" using split False by simp
  with last show ?thesis by simp
qed simp

lemma strip_fix:
  assumes "s = [] \<or> (\<not> is_space (hd s) \<and> \<not> is_space (last s))"
  shows "strip s = s"
proof -
  have "dropWhile is_space s = s" using assms by (auto intro: dropWhile_fix)
  moreover have "dropWhile is_space (rev s) = rev s"
    using assms by (intro dropWhile_fix) (auto simp: hd_rev)
  ultimately show ?thesis by (simp add: strip_def)
qed

lemma strip_strip [simp]: "strip (strip s) = strip s"
  using strip_ends by (intro strip_fix) auto

lemma set_strip: "set (strip s) \<subseteq> set s"
proof
  fix c assume "c \<in> set (strip s)"
  then have "c \<in> set (rev (dropWhile is_space s))"
    by (metis set_dropWhileD set_rev strip_def)
  then show "c \<in> set s" by (auto dest: set_dropWhileD)
qed

lemma length_strip: "length (strip s) \<le> length s"
  unfolding strip_def
  by (metis length_dropWhile_le length_rev order_trans)

section \<open>Decimal and hexadecimal numerals\<close>

definition digit_value :: "char \<Rightarrow> int" where
  "digit_value c =
     (if is_digit c then ord c - 48
      else if 97 \<le> ord c then ord c - 87 else ord c - 55)"

definition from_digits :: "int \<Rightarrow> string \<Rightarrow> int" where
  "from_digits b s = foldl (\<lambda>n c. n * b + digit_value c) 0 s"

definition digit_char :: "int \<Rightarrow> char" where
  "digit_char d = char_of (if d < 10 then d + 48 else d + 87)"

text \<open>\<open>str(n)\<close> and \<open>'%x' % n\<close>.\<close>

function to_digits :: "int \<Rightarrow> int \<Rightarrow> string" where
  "to_digits b n =
     (if b < 2 \<or> n < b then [digit_char n] else to_digits b (n div b) @ [digit_char (n mod b)])"
  by pat_completeness auto
termination
  by (relation "measure (\<lambda>(b, n). nat n)") (auto simp: int_div_less_self nat_less_eq_zless)

declare to_digits.simps [simp del]

definition int_str :: "int \<Rightarrow> string" where
  "int_str n = (if n < 0 then ''-'' @ to_digits 10 (- n) else to_digits 10 n)"

text \<open>
  \<open>int(s)\<close> on text: surrounding whitespace, an optional sign, decimal digits with single
  underscores between them.
\<close>

fun digits_us :: "bool \<Rightarrow> string \<Rightarrow> string option" where
  "digits_us after [] = (if after then Some [] else None)"
| "digits_us after (c # cs) =
     (if is_digit c then map_option ((#) c) (digits_us True cs)
      else if c = CHR ''_'' \<and> after then digits_us False cs else None)"

definition int_of_str :: "string \<Rightarrow> exc + int" where
  "int_of_str s =
     (let t = strip s;
          neg = starts_with ''-'' t;
          body = (if neg \<or> starts_with ''+'' t then tl t else t)
      in case digits_us False body of
           None \<Rightarrow> Inl ValueError
         | Some ds \<Rightarrow> Inr (if neg then - from_digits 10 ds else from_digits 10 ds))"

text \<open>Printing a number and reading it back.\<close>

lemma int_below_16:
  assumes "0 \<le> d" "d < (16::int)"
  shows "d \<in> {0, 1, 2, 3, 4, 5, 6, 7, 8, 9, 10, 11, 12, 13, 14, 15}"
  using assms by simp presburger

lemma ord_digit_char:
  assumes "0 \<le> d" "d < 16"
  shows "ord (digit_char d) = (if d < 10 then d + 48 else d + 87)"
  using int_below_16 [OF assms] by (auto simp: digit_char_def ord_def)

lemma digit_value_digit_char: "0 \<le> d \<Longrightarrow> d < 16 \<Longrightarrow> digit_value (digit_char d) = d"
  by (auto simp: digit_value_def is_digit_def ord_digit_char)

lemma from_digits_snoc: "from_digits b (s @ [c]) = from_digits b s * b + digit_value c"
  by (simp add: from_digits_def)

lemma from_to_digits [simp]:
  assumes "2 \<le> b" "b \<le> 16" "0 \<le> n"
  shows "from_digits b (to_digits b n) = n"
  using assms
proof (induction b n rule: to_digits.induct)
  case (1 b n)
  show ?case
  proof (cases "n < b")
    case True
    with 1 show ?thesis by (simp add: to_digits.simps [of b n] from_digits_def digit_value_digit_char)
  next
    case False
    with 1 have "from_digits b (to_digits b (n div b)) = n div b"
      by (simp add: pos_imp_zdiv_nonneg_iff)
    moreover from "1.prems" have "n mod b < b" "0 \<le> n mod b" by auto
    then have "0 \<le> n mod b" "n mod b < 16" using "1.prems" by linarith+
    ultimately show ?thesis using False 1
      by (simp add: to_digits.simps [of b n] from_digits_snoc digit_value_digit_char)
  qed
qed

lemma to_digits_nonempty [simp]: "to_digits b n \<noteq> []"
  by (subst to_digits.simps) simp

lemma to_digits_all:
  assumes "2 \<le> b" "b \<le> 16" "0 \<le> n" "\<And>d. 0 \<le> d \<Longrightarrow> d < b \<Longrightarrow> P (digit_char d)"
  shows "list_all P (to_digits b n)"
  using assms
proof (induction b n rule: to_digits.induct)
  case (1 b n)
  then show ?case
    by (cases "n < b") (auto simp: to_digits.simps [of b n] pos_imp_zdiv_nonneg_iff)
qed

lemma to_digits_10_digits: "0 \<le> n \<Longrightarrow> list_all is_digit (to_digits 10 n)"
  by (rule to_digits_all) (auto simp: is_digit_def ord_digit_char)

lemma to_digits_16_hex: "0 \<le> n \<Longrightarrow> list_all is_lower_hex (to_digits 16 n)"
  by (rule to_digits_all) (auto simp: is_lower_hex_def is_digit_def ord_digit_char)

lemma length_to_digits:
  assumes "2 \<le> b" "0 \<le> n" "n < b ^ k" "0 < k"
  shows "length (to_digits b n) \<le> k"
  using assms
proof (induction b n arbitrary: k rule: to_digits.induct)
  case (1 b n)
  show ?case
  proof (cases "n < b")
    case True
    with 1 show ?thesis by (simp add: to_digits.simps [of b n])
  next
    case False
    with 1 obtain j where k: "k = Suc j" "0 < j"
      by (cases k; cases "k - 1") auto
    have "n div b < b ^ j"
    proof (rule ccontr)
      assume "\<not> ?thesis"
      then have "b ^ j * b \<le> n div b * b" using "1.prems" by (intro mult_right_mono) auto
      moreover have "0 \<le> n mod b" using "1.prems" by simp
      then have "n div b * b \<le> n" using minus_mod_eq_div_mult [of n b] by linarith
      ultimately have "b ^ j * b \<le> n" by linarith
      then show False using "1.prems" k by (simp add: mult.commute)
    qed
    then have "length (to_digits b (n div b)) \<le> j"
      using 1 False k by (simp add: pos_imp_zdiv_nonneg_iff)
    with False 1 k show ?thesis by (simp add: to_digits.simps [of b n])
  qed
qed

lemma hd_to_digits:
  assumes "2 \<le> b" "b \<le> 16" "0 \<le> n" "hd (to_digits b n) = CHR ''0''"
  shows "n = 0"
  using assms
proof (induction b n rule: to_digits.induct)
  case (1 b n)
  show ?case
  proof (cases "n < b")
    case True
    with 1 have "digit_char n = CHR ''0''" by (simp add: to_digits.simps [of b n])
    then have "digit_value (digit_char n) = 0" by (simp add: digit_value_def is_digit_def ord_def)
    then show ?thesis using True 1 by (simp add: digit_value_digit_char)
  next
    case False
    with 1 have "n div b = 0" by (simp add: to_digits.simps [of b n] pos_imp_zdiv_nonneg_iff)
    then show ?thesis using False 1 by (simp add: zdiv_eq_0_iff)
  qed
qed

lemma to_digits_zero [simp]: "2 \<le> b \<Longrightarrow> to_digits b 0 = ''0''"
  by (subst to_digits.simps) (simp add: digit_char_def, code_simp)

text \<open>Joining parts with a separator that none of them holds, and splitting them again.\<close>

lemma split_on_nonempty [simp]: "split_on d s \<noteq> []"
  by (induction s) (auto split: list.splits)

lemma split_on_no_sep: "d \<notin> set p \<Longrightarrow> split_on d p = [p]"
  by (induction p) auto

lemma split_on_append:
  "d \<notin> set p \<Longrightarrow> split_on d (p @ d # s) = p # split_on d s"
  by (induction p) auto

lemma split_join [simp]:
  assumes "ps \<noteq> []" "\<And>p. p \<in> set ps \<Longrightarrow> d \<notin> set p"
  shows "split_on d (join_with [d] ps) = ps"
  using assms
proof (induction "[d]" ps rule: join_with.induct)
  case (3 p q ps)
  then show ?case by (simp add: split_on_append)
qed (auto simp: split_on_no_sep)

lemma set_join_with: "set (join_with d ps) \<subseteq> set d \<union> \<Union> (set ` set ps)"
  by (induction d ps rule: join_with.induct) auto

lemma digits_us_True: "list_all is_digit ds \<Longrightarrow> digits_us True ds = Some ds"
  by (induction ds) auto
lemma digits_us_digits: "ds \<noteq> [] \<Longrightarrow> list_all is_digit ds \<Longrightarrow> digits_us b ds = Some ds"
  by (cases ds) (simp_all add: digits_us_True)

lemma int_str_chars: "list_all (\<lambda>c. is_digit c \<or> c = CHR ''-'') (int_str n)"
  using to_digits_10_digits [of n] to_digits_10_digits [of "- n"]
  by (auto simp: int_str_def list_all_iff)

lemma digit_not_space: "is_digit c \<Longrightarrow> \<not> is_space c"
  by (auto simp: is_digit_def is_space_def)

lemma strip_no_space: "\<forall>c \<in> set s. \<not> is_space c \<Longrightarrow> strip s = s"
  by (rule strip_fix) auto

lemma int_of_str_int_str [simp]: "int_of_str (int_str n) = Inr n"
proof -
  have "\<not> is_space CHR ''-''" by (simp add: is_space_def ord_def)
  then have "strip (int_str n) = int_str n"
    using int_str_chars [of n] digit_not_space by (intro strip_no_space) (auto simp: list_all_iff)
  moreover have "\<not> starts_with ''-'' (to_digits 10 k)" "\<not> starts_with ''+'' (to_digits 10 k)"
    if "0 \<le> k" for k
    using to_digits_10_digits [OF that]
    by (cases "to_digits 10 k"; auto simp: starts_with_def is_digit_def ord_def)+
  ultimately show ?thesis
    by (auto simp: int_of_str_def Let_def int_str_def digits_us_digits to_digits_10_digits
        starts_with_def)
qed

lemma set_dropWhile_subset: "set (dropWhile P xs) \<subseteq> set xs"
  by (induction xs) auto

lemma split_ws_tokens:
  "t \<in> set (split_ws s) \<Longrightarrow> t \<noteq> [] \<and> set t \<subseteq> set s \<and> (\<forall>c \<in> set t. \<not> is_space c)"
proof (induction s rule: split_ws.induct)
  case (2 c cs)
  show ?case
  proof (cases "is_space c")
    case True
    with "2.prems" have "t \<in> set (split_ws cs)" by simp
    from "2.IH"(1) [OF True this] show ?thesis by auto
  next
    case False
    then consider "t = c # takeWhile (\<lambda>x. \<not> is_space x) cs"
      | "t \<in> set (split_ws (dropWhile (\<lambda>x. \<not> is_space x) cs))" using 2(3) by auto
    then show ?thesis
    proof cases
      case 1 with False show ?thesis by (auto dest: set_takeWhileD)
    next
      case 2 with "2.IH"(2) [OF False] set_dropWhile_subset show ?thesis by fastforce
    qed
  qed
qed simp

lemma split_on_parts: "p \<in> set (split_on d s) \<Longrightarrow> d \<notin> set p \<and> set p \<subseteq> set s"
proof (induction s arbitrary: p)
  case (Cons a s)
  obtain q qs where q: "split_on d s = q # qs" by (cases "split_on d s") auto
  have "d \<notin> set q \<and> set q \<subseteq> set s" "r \<in> set qs \<Longrightarrow> d \<notin> set r \<and> set r \<subseteq> set s" for r
    using Cons.IH [of r] Cons.IH [of q] q by auto
  with Cons.prems Cons.IH [of p] q show ?case by (fastforce split: if_splits)
qed simp

section \<open>Numeric conversions of a value\<close>

text \<open>
  \<open>int(v)\<close> truncates a float towards zero and reads text; \<open>float(v)\<close> reads text with
  the C library, which is the parameter \<open>fs\<close> (the value of a numeral, \<open>None\<close> where
  Python raises \<open>ValueError\<close>).
\<close>

definition trunc :: "rat \<Rightarrow> int" where
  "trunc r = (if r < 0 then - floor (- r) else floor r)"

fun py_int :: "pyval \<Rightarrow> exc + int" where
  "py_int (PInt n) = Inr n"
| "py_int (PBool b) = Inr (if b then 1 else 0)"
| "py_int (PFloat (FFin r)) = Inr (trunc r)"
| "py_int (PFloat FNan) = Inl ValueError"
| "py_int (PFloat _) = Inl OverflowError"
| "py_int (PStr s) = int_of_str s"
| "py_int _ = Inl TypeError"

type_synonym float_reader = "string \<Rightarrow> pyfloat option"

fun py_float :: "float_reader \<Rightarrow> pyval \<Rightarrow> exc + pyfloat" where
  "py_float fs (PFloat f) = Inr f"
| "py_float fs (PInt n) = float_of_int n"
| "py_float fs (PBool b) = Inr (FFin (if b then 1 else 0))"
| "py_float fs (PStr s) = (case fs s of None \<Rightarrow> Inl ValueError | Some f \<Rightarrow> Inr f)"
| "py_float fs _ = Inl TypeError"

section \<open>Conversion of integers to floats\<close>

lemma bit_length_bounds: "0 < n \<Longrightarrow> 2 ^ (bit_length n - 1) \<le> n \<and> n < 2 ^ bit_length n"
proof (induction n rule: bit_length.induct)
  case (1 n)
  show ?case
  proof (cases "n = 1")
    case True
    then show ?thesis by (simp add: bit_length.simps [of 1] bit_length.simps [of 0])
  next
    case False
    with 1 have m: "0 < n div 2" "2 ^ (bit_length (n div 2) - 1) \<le> n div 2"
      "n div 2 < 2 ^ bit_length (n div 2)" by auto
    then have "bit_length (n div 2) \<noteq> 0" by (auto intro: Nat.gr0I)
    then obtain k where k: "bit_length (n div 2) = Suc k" by (cases "bit_length (n div 2)") auto
    from m(2,3) have "2 * 2 ^ k \<le> n" "n < 2 * (2 * 2 ^ k)" unfolding k by simp_all
    with 1(2) show ?thesis by (simp add: bit_length.simps [of n] k)
  qed
qed

lemma float_of_int_overflow: "2 ^ 1024 \<le> n \<Longrightarrow> float_of_int n = Inl OverflowError"
proof -
  assume n: "2 ^ 1024 \<le> n"
  then have pos: "0 < n" by (rule less_le_trans [rotated]) simp
  define b where "b = bit_length n"
  from bit_length_bounds [OF pos] have b: "2 ^ (b - 1) \<le> n" "n < 2 ^ b" by (simp_all add: b_def)
  from n b(2) have "(2::int) ^ 1024 < 2 ^ b" by (rule le_less_trans)
  then have b1: "1024 < b" by (rule power_less_imp_less_exp [rotated]) simp
  define q where "q = n div 2 ^ (b - 53)"
  have e: "(2::int) ^ (b - 1) = 2 ^ 52 * 2 ^ (b - 53)"
    using b1 by (subst power_add [symmetric]) (rule arg_cong [where f = "power 2"], linarith)
  from b(1) e have "2 ^ 52 * 2 ^ (b - 53) \<le> n" by (simp only:)
  from zdiv_mono1 [OF this, of "2 ^ (b - 53)"] have "2 ^ 52 \<le> q" by (simp add: q_def)
  then have "2 ^ 52 * 2 ^ (b - 53) \<le> q * 2 ^ (b - 53)" by simp
  moreover have "(2::int) ^ 1024 \<le> 2 ^ 52 * 2 ^ (b - 53)"
    unfolding e [symmetric] by (rule power_increasing) (use b1 in simp_all)
  moreover have "q * 2 ^ (b - 53) \<le> round53 n"
    using b1 by (simp add: round53_def q_def Let_def b_def [symmetric])
  ultimately have "2 ^ 1024 \<le> round53 n" by linarith
  with pos show ?thesis by (simp add: float_of_int_def)
qed

lemma float_of_int_small: "\<bar>n\<bar> < 2 ^ 53 \<Longrightarrow> float_of_int n = Inr (FFin (of_int n))"
proof -
  assume n: "\<bar>n\<bar> < 2 ^ 53"
  have "round53 \<bar>n\<bar> = \<bar>n\<bar>"
  proof (cases "n = 0")
    case False
    then have "2 ^ (bit_length \<bar>n\<bar> - 1) \<le> \<bar>n\<bar>" using bit_length_bounds [of "\<bar>n\<bar>"] by simp
    with n have "(2::int) ^ (bit_length \<bar>n\<bar> - 1) < 2 ^ 53" by linarith
    then have "bit_length \<bar>n\<bar> - 1 < 53" by (rule power_less_imp_less_exp [rotated]) simp
    then show ?thesis by (simp add: round53_def)
  qed (simp add: round53_def bit_length.simps)
  moreover have "\<bar>n\<bar> < 2 ^ 1024" using n by (rule less_trans) simp
  ultimately show ?thesis by (simp add: float_of_int_def sgn_mult_abs)
qed

end
