(* ===== verification/Ip_Addresses.thy ===== *)
theory Ip_Addresses
  imports Py_Values
begin

text \<open>
  The part of the standard module \<open>ipaddress\<close> that \<open>src/targets.py\<close>, \<open>src/contracts.py\<close>
  and \<open>src/scanner.py\<close> call: \<open>ip_address\<close> on text and on integers, \<open>str\<close>, \<open>int\<close> and
  \<open>version\<close> of an address, and \<open>ip_network(text, strict=False)\<close> with its iteration,
  as CPython 3.10 to 3.12 define them (3.13 prints IPv4-mapped addresses differently). The
  main result is the round trip \<open>ip_address(str(a)) = a\<close>, on which every normalised
  target identity of the program relies.
\<close>

section \<open>Addresses\<close>

datatype ip = V4 int | V6 int "string option"

fun ip_version :: "ip \<Rightarrow> int" where
  "ip_version (V4 _) = 4"
| "ip_version (V6 _ _) = 6"

fun ip_int :: "ip \<Rightarrow> int" where
  "ip_int (V4 n) = n"
| "ip_int (V6 n _) = n"

subsection \<open>IPv4 text\<close>

definition parse_octet :: "string \<Rightarrow> int option" where
  "parse_octet s =
     (if s = [] \<or> \<not> list_all is_digit s \<or> length s > 3 then None
      else if s \<noteq> ''0'' \<and> hd s = CHR ''0'' then None
      else if from_digits 10 s > 255 then None
      else Some (from_digits 10 s))"

definition ipv4_of_str :: "string \<Rightarrow> int option" where
  "ipv4_of_str s =
     (case map parse_octet (split_on CHR ''.'' s) of
        [Some a, Some b, Some c, Some d] \<Rightarrow> Some (((a * 256 + b) * 256 + c) * 256 + d)
      | _ \<Rightarrow> None)"

definition ipv4_str :: "int \<Rightarrow> string" where
  "ipv4_str n =
     join_with ''.'' (map (to_digits 10)
       [n div 16777216, n div 65536 mod 256, n div 256 mod 256, n mod 256])"

subsection \<open>IPv6 text\<close>

definition parse_hextet :: "string \<Rightarrow> int option" where
  "parse_hextet s =
     (if list_all is_hex s \<and> length s \<le> 4 \<and> s \<noteq> [] then Some (from_digits 16 s) else None)"

fun fold_hextets :: "int \<Rightarrow> string list \<Rightarrow> int option" where
  "fold_hextets acc [] = Some acc"
| "fold_hextets acc (p # ps) =
     (case parse_hextet p of None \<Rightarrow> None | Some h \<Rightarrow> fold_hextets (acc * 65536 + h) ps)"

text \<open>The parts between colons, an IPv4-style last part replaced by two hextets.\<close>

definition v6_parts :: "string \<Rightarrow> string list option" where
  "v6_parts s =
     (let parts = split_on CHR '':'' s
      in if length parts < 3 then None
         else if CHR ''.'' \<in> set (last parts)
              then (case ipv4_of_str (last parts) of
                      None \<Rightarrow> None
                    | Some n \<Rightarrow> Some (butlast parts @
                        [to_digits 16 (n div 65536), to_digits 16 (n mod 65536)]))
              else Some parts)"

text \<open>The layout: how many parts stand before and after the \<open>::\<close> and how many it stands for.\<close>

definition v6_layout :: "string list \<Rightarrow> (nat \<times> nat \<times> nat) option" where
  "v6_layout parts =
     (let skips = filter (\<lambda>i. parts ! i = []) [1..<length parts - 1];
          n = length parts
      in if n > 9 then None
         else case skips of
           [] \<Rightarrow> (if n \<noteq> 8 \<or> hd parts = [] \<or> last parts = [] then None else Some (n, 0, 0))
         | [k] \<Rightarrow>
             (let hi = (if hd parts = [] then k - 1 else k);
                  lo = (if last parts = [] then n - k - 2 else n - k - 1)
              in if (hd parts = [] \<and> hi \<noteq> 0) \<or> (last parts = [] \<and> lo \<noteq> 0) then None
                 else if hi + lo \<ge> 8 then None
                 else Some (hi, 8 - (hi + lo), lo))
         | _ \<Rightarrow> None)"

definition ipv6_of_str :: "string \<Rightarrow> int option" where
  "ipv6_of_str s =
     (case v6_parts s of None \<Rightarrow> None
      | Some parts \<Rightarrow>
        (case v6_layout parts of None \<Rightarrow> None
         | Some (hi, skip, lo) \<Rightarrow>
           (case fold_hextets 0 (take hi parts) of None \<Rightarrow> None
            | Some acc \<Rightarrow> fold_hextets (acc * 65536 ^ skip) (drop (length parts - lo) parts))))"

definition hextets :: "int \<Rightarrow> int list" where
  "hextets n = map (\<lambda>i. n div 65536 ^ i mod 65536) [7, 6, 5, 4, 3, 2, 1, 0]"

text \<open>
  The loop of \<open>_compress_hextets\<close> that looks for the first longest run of zero hextets:
  the state is the best run and the current run, each as its start and length.
\<close>

fun zero_run :: "nat \<Rightarrow> nat \<times> nat \<Rightarrow> nat \<times> nat \<Rightarrow> int list \<Rightarrow> nat \<times> nat" where
  "zero_run i best cur [] = best"
| "zero_run i best cur (h # hs) =
     (if h = 0
      then (let cur' = (if snd cur = 0 then i else fst cur, Suc (snd cur))
            in zero_run (Suc i) (if snd cur' > snd best then cur' else best) cur' hs)
      else zero_run (Suc i) best (0, 0) hs)"

definition compress_parts :: "int list \<Rightarrow> string list" where
  "compress_parts hs =
     (let (b, l) = zero_run 0 (0, 0) (0, 0) hs; strs = map (to_digits 16) hs
      in if l > 1
         then (if b = 0 then [[]] else []) @ take b strs @ [[]] @ drop (b + l) strs
              @ (if b + l = length hs then [[]] else [])
         else strs)"

definition ipv6_str :: "int \<Rightarrow> string" where
  "ipv6_str n = join_with '':'' (compress_parts (hextets n))"

subsection \<open>\<open>ip_address\<close>, \<open>str\<close>, \<open>int\<close>\<close>

definition split_scope :: "string \<Rightarrow> (string \<times> string option) option" where
  "split_scope s =
     (let (addr, sep, scope) = partition_on CHR ''%'' s
      in if \<not> sep then Some (addr, None)
         else if scope = [] \<or> CHR ''%'' \<in> set scope then None
         else Some (addr, Some scope))"

definition ip_address :: "string \<Rightarrow> exc + ip" where
  "ip_address s =
     (if CHR ''/'' \<in> set s then Inl ValueError
      else case ipv4_of_str s of
        Some n \<Rightarrow> Inr (V4 n)
      | None \<Rightarrow>
        (case split_scope s of None \<Rightarrow> Inl ValueError
         | Some (addr, scope) \<Rightarrow>
           (case ipv6_of_str addr of None \<Rightarrow> Inl ValueError
            | Some n \<Rightarrow> Inr (V6 n scope))))"

text \<open>An integer below $2^{32}$ makes an IPv4 address, whatever it was meant to be.\<close>

definition ip_address_of_int :: "int \<Rightarrow> exc + ip" where
  "ip_address_of_int n =
     (if 0 \<le> n \<and> n < 2 ^ 32 then Inr (V4 n)
      else if 0 \<le> n \<and> n < 2 ^ 128 then Inr (V6 n None)
      else Inl ValueError)"

fun ip_str :: "ip \<Rightarrow> string" where
  "ip_str (V4 n) = ipv4_str n"
| "ip_str (V6 n None) = ipv6_str n"
| "ip_str (V6 n (Some scope)) = ipv6_str n @ ''%'' @ scope"

text \<open>\<open>ip_address(v)\<close> on any JSON-like value: \<open>bool\<close> is an integer, other values are
  converted with \<open>str\<close>, which never gives an address.\<close>

fun ip_address_of_val :: "pyval \<Rightarrow> exc + ip" where
  "ip_address_of_val (PStr s) = ip_address s"
| "ip_address_of_val (PInt n) = ip_address_of_int n"
| "ip_address_of_val (PBool b) = ip_address_of_int (if b then 1 else 0)"
| "ip_address_of_val _ = Inl ValueError"

section \<open>The round trip\<close>

lemma digit_not_sep:
  assumes "list_all is_lower_hex s" "c = CHR ''.'' \<or> c = CHR '':'' \<or> c = CHR ''%'' \<or> c = CHR ''/''"
  shows "c \<notin> set s"
proof
  assume "c \<in> set s"
  with assms(1) have "is_lower_hex c" by (simp add: list_all_iff)
  with assms(2) show False by (auto simp: is_lower_hex_def is_digit_def ord_def)
qed

lemma digits_lower_hex: "list_all is_digit s \<Longrightarrow> list_all is_lower_hex s"
  by (auto simp: list_all_iff is_lower_hex_def)

lemma to_digits_no_sep [simp]:
  assumes "0 \<le> n"
  shows "CHR ''.'' \<notin> set (to_digits 10 n)" "CHR '':'' \<notin> set (to_digits 10 n)"
    "CHR ''%'' \<notin> set (to_digits 10 n)" "CHR ''/'' \<notin> set (to_digits 10 n)"
    "CHR ''.'' \<notin> set (to_digits 16 n)" "CHR '':'' \<notin> set (to_digits 16 n)"
    "CHR ''%'' \<notin> set (to_digits 16 n)" "CHR ''/'' \<notin> set (to_digits 16 n)"
  using digit_not_sep [OF digits_lower_hex [OF to_digits_10_digits [OF assms]]]
    digit_not_sep [OF to_digits_16_hex [OF assms]] by blast+

lemma parse_octet_str: "0 \<le> n \<Longrightarrow> n < 256 \<Longrightarrow> parse_octet (to_digits 10 n) = Some n"
  using length_to_digits [of 10 n 3] hd_to_digits [of 10 n] to_digits_10_digits [of n]
  by (auto simp: parse_octet_def)

definition valid_ip :: "ip \<Rightarrow> bool" where
  "valid_ip a =
     (case a of
        V4 n \<Rightarrow> 0 \<le> n \<and> n < 2 ^ 32
      | V6 n scope \<Rightarrow> 0 \<le> n \<and> n < 2 ^ 128 \<and>
          (case scope of None \<Rightarrow> True
           | Some s \<Rightarrow> s \<noteq> [] \<and> CHR ''%'' \<notin> set s \<and> CHR ''/'' \<notin> set s))"

text \<open>Horner's step in base \<open>k\<close>.\<close>

lemma horner_step:
  fixes n k :: int
  assumes "0 < k"
  shows "n div k ^ Suc i * k + n div k ^ i mod k = n div k ^ i"
proof -
  have "n div k ^ Suc i = n div k ^ i div k"
    using assms zdiv_zmult2_eq [of k n "k ^ i"] by (simp only: power_Suc2)
  then show ?thesis by simp
qed

lemma ipv4_roundtrip:
  assumes "0 \<le> n" "n < 2 ^ 32"
  shows "ipv4_of_str (ipv4_str n) = Some n"
proof -
  let ?os = "[n div 16777216, n div 65536 mod 256, n div 256 mod 256, n mod 256]"
  have rng: "\<forall>k \<in> set ?os. 0 \<le> k \<and> k < 256" using assms by auto
  then have oct: "map parse_octet (map (to_digits 10) ?os) = map Some ?os"
    by (simp add: parse_octet_str)
  have "split_on CHR ''.'' (ipv4_str n) = map (to_digits 10) ?os"
    unfolding ipv4_str_def using rng
    by (intro split_join) auto
  with oct have "ipv4_of_str (ipv4_str n) =
      Some (((n div 16777216 * 256 + n div 65536 mod 256) * 256 + n div 256 mod 256) * 256 + n mod 256)"
    by (simp add: ipv4_of_str_def)
  also have "((n div 16777216 * 256 + n div 65536 mod 256) * 256 + n div 256 mod 256) * 256 + n mod 256 = n"
    using horner_step [of 256 n 0] horner_step [of 256 n 1] horner_step [of 256 n 2] by simp
  finally show ?thesis .
qed

lemma ipv4_of_str_range:
  assumes "ipv4_of_str s = Some n"
  shows "0 \<le> n \<and> n < 2 ^ 32"
proof -
  have oct: "0 \<le> k \<and> k \<le> 255" if "parse_octet p = Some k" for p k
  proof -
    have "0 \<le> from_digits 10 p" if "list_all is_digit p" for p
      using that by (induction p rule: rev_induct)
        (auto simp: from_digits_snoc digit_value_def is_digit_def from_digits_def)
    with that show ?thesis by (auto simp: parse_octet_def split: if_splits)
  qed
  obtain a b c d where "map parse_octet (split_on CHR ''.'' s) = [Some a, Some b, Some c, Some d]"
    and n: "n = ((a * 256 + b) * 256 + c) * 256 + d"
    using assms by (auto simp: ipv4_of_str_def split: list.splits option.splits)
  then have "0 \<le> a \<and> a \<le> 255" "0 \<le> b \<and> b \<le> 255" "0 \<le> c \<and> c \<le> 255" "0 \<le> d \<and> d \<le> 255"
    by (auto dest: oct)
  then show ?thesis using n by simp
qed

lemma parse_hextet_str:
  "0 \<le> n \<Longrightarrow> n < 65536 \<Longrightarrow> parse_hextet (to_digits 16 n) = Some n"
  using length_to_digits [of 16 n 4] to_digits_16_hex [of n]
  by (auto simp: parse_hextet_def list_all_iff is_hex_def)

lemma fold_hextets_str:
  "\<forall>h \<in> set hs. 0 \<le> h \<and> h < 65536 \<Longrightarrow>
   fold_hextets acc (map (to_digits 16) hs) = Some (foldl (\<lambda>a h. a * 65536 + h) acc hs)"
  by (induction hs arbitrary: acc) (auto simp: parse_hextet_str)

lemma foldl_zeros:
  "\<forall>h \<in> set hs. h = 0 \<Longrightarrow> foldl (\<lambda>a h. a * 65536 + h) acc hs = acc * (65536 :: int) ^ length hs"
  by (induction hs arbitrary: acc) auto

lemma foldl_hextets:
  assumes "0 \<le> n" "n < 2 ^ 128"
  shows "foldl (\<lambda>a h. a * 65536 + h) 0 (hextets n) = n"
proof -
  have st: "n div 65536 ^ Suc i * 65536 + n div 65536 ^ i mod 65536 = n div 65536 ^ i" for i
    by (rule horner_step) simp
  have top: "n div 65536 ^ 7 mod 65536 = n div 65536 ^ 7"
    using assms by (intro mod_pos_pos_trivial) auto
  have "n div 65536 ^ 7 * 65536 + n div 65536 ^ 6 mod 65536 = n div 65536 ^ 6" using st [of 6] by simp
  moreover have "n div 65536 ^ 6 * 65536 + n div 65536 ^ 5 mod 65536 = n div 65536 ^ 5" using st [of 5] by simp
  moreover have "n div 65536 ^ 5 * 65536 + n div 65536 ^ 4 mod 65536 = n div 65536 ^ 4" using st [of 4] by simp
  moreover have "n div 65536 ^ 4 * 65536 + n div 65536 ^ 3 mod 65536 = n div 65536 ^ 3" using st [of 3] by simp
  moreover have "n div 65536 ^ 3 * 65536 + n div 65536 ^ 2 mod 65536 = n div 65536 ^ 2" using st [of 2] by simp
  moreover have "n div 65536 ^ 2 * 65536 + n div 65536 ^ 1 mod 65536 = n div 65536 ^ 1" using st [of 1] by simp
  moreover have "n div 65536 ^ 1 * 65536 + n mod 65536 = n" using st [of 0] by simp
  ultimately show ?thesis using top by (simp only: hextets_def list.map foldl.simps mult_zero_left add_0 power_0 div_by_1)
qed

text \<open>The loop finds a run of zeros inside the list.\<close>

lemma zero_run_sound:
  assumes "zero_run i best cur hs = (b, l)" "drop i ys = hs" "i \<le> length ys"
    and "fst best + snd best \<le> i" "\<forall>j \<in> {fst best ..< fst best + snd best}. ys ! j = 0"
    and "snd cur = 0 \<or> fst cur + snd cur = i" "\<forall>j \<in> {fst cur ..< fst cur + snd cur}. ys ! j = 0"
  shows "b + l \<le> length ys \<and> (\<forall>j \<in> {b ..< b + l}. ys ! j = 0)"
  using assms
proof (induction hs arbitrary: i best cur)
  case Nil
  then show ?case by simp
next
  case (Cons h hs)
  have len: "i < length ys" using Cons.prems(2) by (metis drop_eq_Nil2 leI list.discI)
  have yi: "ys ! i = h" "drop (Suc i) ys = hs"
    using Cons.prems(2) len by (simp_all add: nth_via_drop drop_Suc tl_drop [symmetric])
  show ?case
  proof (cases "h = 0")
    case True
    let ?cur = "(if snd cur = 0 then i else fst cur, Suc (snd cur))"
    have cur: "fst ?cur + snd ?cur = Suc i" "\<forall>j \<in> {fst ?cur ..< fst ?cur + snd ?cur}. ys ! j = 0"
      using Cons.prems(6,7) yi True by (auto simp: less_Suc_eq)
    show ?thesis
    proof (rule Cons.IH [of "Suc i" "if snd ?cur > snd best then ?cur else best" ?cur])
      show "zero_run (Suc i) (if snd ?cur > snd best then ?cur else best) ?cur hs = (b, l)"
        using Cons.prems(1) True by (simp add: Let_def)
    qed (use Cons.prems(4,5) cur yi len in auto)
  next
    case False
    show ?thesis
    proof (rule Cons.IH [of "Suc i" best "(0, 0)"])
      show "zero_run (Suc i) best (0, 0) hs = (b, l)" using Cons.prems(1) False by simp
    qed (use Cons.prems(4,5) yi len in auto)
  qed
qed

lemma filter_eq_upt: "a \<le> m \<Longrightarrow> m < b \<Longrightarrow> filter (\<lambda>i. i = m) [a..<b] = [m]"
proof (induction b)
  case (Suc b)
  show ?case
  proof (cases "m = b")
    case True
    have "filter (\<lambda>i. i = b) [a..<b] = []" by (auto simp: filter_empty_conv)
    then show ?thesis using Suc.prems True by simp
  next
    case False
    then show ?thesis using Suc by simp
  qed
qed simp

text \<open>The parts of a compressed address: hextets, the empty part, hextets, padded at the ends.\<close>

definition gap_parts :: "string list \<Rightarrow> string list \<Rightarrow> string list" where
  "gap_parts A B = (if A = [] then [[]] else []) @ A @ [[]] @ B @ (if B = [] then [[]] else [])"

lemma gap_parts_nth:
  assumes "\<forall>p \<in> set A \<union> set B. p \<noteq> []" "1 \<le> i" "i < length (gap_parts A B) - 1"
  shows "gap_parts A B ! i = [] \<longleftrightarrow> i = max 1 (length A)"
proof -
  have "A \<noteq> [] \<Longrightarrow> i < length A \<Longrightarrow> A ! i \<noteq> []" using assms(1) by simp
  moreover have "j < length B \<Longrightarrow> B ! j \<noteq> []" for j using assms(1) by simp
  ultimately show ?thesis
    using assms(2,3) by (auto simp: gap_parts_def nth_append nth_Cons max_def Suc_le_eq split: if_splits nat.splits)
qed

lemma v6_layout_gap:
  assumes ne: "\<forall>p \<in> set A \<union> set B. p \<noteq> []" and len: "length A + length B < 8"
  shows "v6_layout (gap_parts A B) = Some (length A, 8 - (length A + length B), length B)"
proof -
  let ?ps = "gap_parts A B" and ?m = "max 1 (length A)"
  have m: "1 \<le> ?m" "?m < length ?ps - 1"
    by (cases A; cases B; simp add: gap_parts_def)+
  have "filter (\<lambda>i. ?ps ! i = []) [1..<length ?ps - 1] = filter (\<lambda>i. i = ?m) [1..<length ?ps - 1]"
    using gap_parts_nth [OF ne] by (intro filter_cong) auto
  then have skips: "filter (\<lambda>i. ?ps ! i = []) [1..<length ?ps - 1] = [?m]"
    using filter_eq_upt [OF m] by simp
  have hd: "hd ?ps = [] \<longleftrightarrow> A = []" using ne by (cases A) (auto simp: gap_parts_def)
  have last: "last ?ps = [] \<longleftrightarrow> B = []" using ne by (cases B rule: rev_cases) (auto simp: gap_parts_def)
  have l: "length ?ps = (if A = [] then 1 else 0) + length A + 1 + length B + (if B = [] then 1 else 0)"
    by (simp add: gap_parts_def)
  show ?thesis
    unfolding v6_layout_def Let_def skips using hd last l len by (cases A; cases B) auto
qed

lemma take_drop_gap:
  "take (length A) (gap_parts A B) = A"
  "drop (length (gap_parts A B) - length B) (gap_parts A B) = B"
  by (cases A; cases B; simp add: gap_parts_def)+

lemma v6_layout_full:
  assumes "length ps = 8" "\<forall>p \<in> set ps. p \<noteq> []"
  shows "v6_layout ps = Some (8, 0, 0)"
proof -
  have "filter (\<lambda>i. ps ! i = []) [1..<length ps - 1] = []"
    using assms by (auto simp: filter_empty_conv)
  moreover have "hd ps \<noteq> []" "last ps \<noteq> []" using assms by (metis hd_in_set list.size(3) zero_neq_numeral, metis last_in_set list.size(3) zero_neq_numeral)
  ultimately show ?thesis using assms(1) by (simp add: v6_layout_def)
qed

lemma v6_parts_join:
  assumes "3 \<le> length ps" "\<forall>p \<in> set ps. CHR '':'' \<notin> set p \<and> CHR ''.'' \<notin> set p"
  shows "v6_parts (join_with '':'' ps) = Some ps"
proof -
  have ne: "ps \<noteq> []" using assms(1) by auto
  then have "split_on CHR '':'' (join_with '':'' ps) = ps" using assms(2) by (intro split_join) auto
  moreover have "CHR ''.'' \<notin> set (last ps)" using assms(2) ne by simp
  ultimately show ?thesis using assms(1) by (simp add: v6_parts_def)
qed

lemma length_hextets [simp]: "length (hextets n) = 8"
  by (simp add: hextets_def)

lemma hextets_nonempty [simp]: "hextets n \<noteq> []"
  by (simp add: hextets_def)

lemma hextets_range: "\<forall>h \<in> set (hextets n). 0 \<le> h \<and> h < 65536"
  by (simp add: hextets_def)

lemma ipv6_roundtrip:
  assumes "0 \<le> n" "n < 2 ^ 128"
  shows "ipv6_of_str (ipv6_str n) = Some n"
proof -
  let ?hs = "hextets n" and ?f = "\<lambda>a h. a * 65536 + h :: int"
  let ?strs = "map (to_digits 16) ?hs"
  have ne: "\<forall>p \<in> set ?strs. p \<noteq> [] \<and> CHR '':'' \<notin> set p \<and> CHR ''.'' \<notin> set p"
    using hextets_range [of n] by auto
  obtain b l where bl: "zero_run 0 (0, 0) (0, 0) ?hs = (b, l)" by fastforce
  have z: "b + l \<le> 8" "\<forall>j \<in> {b ..< b + l}. ?hs ! j = 0"
    using zero_run_sound [OF bl, of ?hs] by simp_all
  show ?thesis
  proof (cases "l > 1")
    case False
    then have "compress_parts ?hs = ?strs" by (simp add: compress_parts_def bl)
    then have "v6_parts (ipv6_str n) = Some ?strs" using ne by (simp add: ipv6_str_def v6_parts_join)
    moreover have "v6_layout ?strs = Some (8, 0, 0)" using ne by (intro v6_layout_full) auto
    ultimately show ?thesis
      using fold_hextets_str [OF hextets_range, of 0 n] foldl_hextets [OF assms]
      by (simp add: ipv6_of_str_def)
  next
    case True
    let ?A = "take b ?hs" and ?B = "drop (b + l) ?hs"
    define As Bs where AB: "As = map (to_digits 16) ?A" "Bs = map (to_digits 16) ?B"
    have lens: "length As = b" "length Bs = 8 - (b + l)" using z by (simp_all add: AB)
    have neAB: "\<forall>p \<in> set As \<union> set Bs. p \<noteq> []" by (auto simp: AB dest: sym [of "[]"])
    have parts: "compress_parts ?hs = gap_parts As Bs"
      using True z lens by (auto simp: compress_parts_def bl gap_parts_def take_map drop_map AB)
    have sub: "set As \<subseteq> set ?strs" "set Bs \<subseteq> set ?strs"
      by (auto simp: AB dest: in_set_takeD in_set_dropD)
    have "\<forall>p \<in> set (gap_parts As Bs). CHR '':'' \<notin> set p \<and> CHR ''.'' \<notin> set p"
      using ne sub by (auto simp: gap_parts_def)
    moreover have "3 \<le> length (gap_parts As Bs)" by (cases As; cases Bs) (auto simp: gap_parts_def)
    ultimately have "v6_parts (ipv6_str n) = Some (gap_parts As Bs)"
      by (simp add: ipv6_str_def parts v6_parts_join)
    moreover have "v6_layout (gap_parts As Bs) = Some (length As, 8 - (length As + length Bs), length Bs)"
      using neAB True z lens by (intro v6_layout_gap) auto
    moreover have "8 - (length As + length Bs) = l" using lens z by simp
    moreover have "fold_hextets 0 As = Some (foldl ?f 0 ?A)"
      using hextets_range [of n] unfolding AB by (intro fold_hextets_str) (auto dest: in_set_takeD)
    moreover have "fold_hextets x Bs = Some (foldl ?f x ?B)" for x
      using hextets_range [of n] unfolding AB by (intro fold_hextets_str) (auto dest: in_set_dropD)
    ultimately have "ipv6_of_str (ipv6_str n) = Some (foldl ?f (foldl ?f 0 ?A * 65536 ^ l) ?B)"
      by (simp add: ipv6_of_str_def take_drop_gap)
    moreover have "foldl ?f 0 ?hs = foldl ?f (foldl ?f 0 ?A * 65536 ^ l) ?B"
    proof -
      let ?Z = "take l (drop b ?hs)"
      have "?hs = ?A @ ?Z @ ?B" by (metis append_take_drop_id drop_drop add.commute)
      then have "foldl ?f 0 ?hs = foldl ?f (foldl ?f (foldl ?f 0 ?A) ?Z) ?B" by (metis foldl_append)
      moreover have "\<forall>h \<in> set ?Z. h = 0"
        using z by (auto simp: in_set_conv_nth)
      moreover have "length ?Z = l" using z by simp
      ultimately show ?thesis by (simp add: foldl_zeros)
    qed
    ultimately show ?thesis using foldl_hextets [OF assms] by simp
  qed
qed


text \<open>A parsed IPv6 number is in range, so that its text can be parsed again.\<close>

lemma from_digits_bound:
  assumes "2 \<le> b" "\<forall>c \<in> set s. 0 \<le> digit_value c \<and> digit_value c < b"
  shows "0 \<le> from_digits b s \<and> from_digits b s < b ^ length s"
  using assms(2)
proof (induction s rule: rev_induct)
  case Nil
  then show ?case by (simp add: from_digits_def)
next
  case (snoc c s)
  then have IH: "0 \<le> from_digits b s" "from_digits b s + 1 \<le> b ^ length s" and c: "digit_value c < b"
    by auto
  then have "(from_digits b s + 1) * b \<le> b ^ length s * b" using assms(1) by (intro mult_right_mono) auto
  then show ?case using IH c snoc.prems assms(1) by (simp add: from_digits_snoc algebra_simps)
qed

lemma parse_hextet_range: "parse_hextet p = Some h \<Longrightarrow> 0 \<le> h \<and> h < 65536"
proof -
  assume "parse_hextet p = Some h"
  then have p: "list_all is_hex p" "length p \<le> 4" "h = from_digits 16 p"
    by (auto simp: parse_hextet_def split: if_splits)
  from p(1) have "\<forall>c \<in> set p. 0 \<le> digit_value c \<and> digit_value c < 16"
    by (auto simp: list_all_iff is_hex_def is_lower_hex_def is_digit_def digit_value_def)
  from from_digits_bound [OF _ this] p(3) have "0 \<le> h \<and> h < 16 ^ length p" by simp
  moreover have "(16::int) ^ length p \<le> 16 ^ 4" using p(2) by (intro power_increasing) auto
  ultimately show ?thesis by simp
qed

lemma fold_hextets_bound:
  "fold_hextets acc ps = Some n \<Longrightarrow> 0 \<le> acc \<Longrightarrow> acc < 65536 ^ k \<Longrightarrow>
   0 \<le> n \<and> n < 65536 ^ (k + length ps)"
proof (induction ps arbitrary: acc k)
  case (Cons p ps)
  then obtain h where h: "parse_hextet p = Some h" "fold_hextets (acc * 65536 + h) ps = Some n"
    by (auto split: option.splits)
  have "(acc + 1) * 65536 \<le> 65536 ^ k * 65536" using Cons.prems by (intro mult_right_mono) auto
  then have "0 \<le> acc * 65536 + h" "acc * 65536 + h < 65536 ^ Suc k"
    using parse_hextet_range [OF h(1)] Cons.prems by (auto simp: algebra_simps)
  from Cons.IH [OF h(2) this] show ?case by simp
qed simp

lemma v6_layout_sum:
  assumes "v6_layout ps = Some (hi, skip, lo)"
  shows "hi + skip + lo = 8 \<and> hi \<le> length ps \<and> lo \<le> length ps"
proof -
  have "k < length ps" if "filter (\<lambda>i. ps ! i = []) [1..<length ps - 1] = [k]" for k
  proof -
    have "k \<in> set [1..<length ps - 1]"
      using that by (metis filter_is_subset list.set_intros(1) subsetD)
    then have "k < length ps - 1" by simp
    then show ?thesis by linarith
  qed
  then show ?thesis
    using assms by (fastforce simp: v6_layout_def Let_def split: if_splits list.splits)
qed

lemma ipv6_of_str_range:
  assumes "ipv6_of_str s = Some n"
  shows "0 \<le> n \<and> n < 2 ^ 128"
proof -
  obtain ps hi skip lo acc where ps: "v6_layout ps = Some (hi, skip, lo)"
    and acc: "fold_hextets 0 (take hi ps) = Some acc"
    and n: "fold_hextets (acc * 65536 ^ skip) (drop (length ps - lo) ps) = Some n"
    using assms by (auto simp: ipv6_of_str_def split: option.splits)
  note lens = v6_layout_sum [OF ps]
  have "0 \<le> acc \<and> acc < 65536 ^ hi" using fold_hextets_bound [OF acc, of 0] lens by simp
  then have "0 \<le> acc * 65536 ^ skip \<and> acc * 65536 ^ skip < 65536 ^ (hi + skip)"
    by (simp add: power_add)
  with fold_hextets_bound [OF n, of "hi + skip"] lens have "0 \<le> n \<and> n < 65536 ^ 8"
    by (auto simp: add.assoc)
  then show ?thesis by simp
qed

subsection \<open>The result for the whole module\<close>

lemma set_ipv6_str:
  assumes "0 \<le> n"
  shows "CHR ''/'' \<notin> set (ipv6_str n)" "CHR ''%'' \<notin> set (ipv6_str n)" "CHR ''.'' \<notin> set (ipv6_str n)"
proof -
  have "c \<notin> set (ipv6_str n)" if c: "c = CHR ''/'' \<or> c = CHR ''%'' \<or> c = CHR ''.''" for c
  proof
    assume "c \<in> set (ipv6_str n)"
    with c obtain p where p: "p \<in> set (compress_parts (hextets n))" "c \<in> set p"
      using set_join_with [of "'':''" "compress_parts (hextets n)"] by (auto simp: ipv6_str_def)
    then have "p \<in> set (map (to_digits 16) (hextets n))"
      by (auto simp: compress_parts_def Let_def split: prod.splits if_splits
          dest: in_set_takeD in_set_dropD)
    with p(2) c hextets_range [of n] show False by auto
  qed
  then show "CHR ''/'' \<notin> set (ipv6_str n)" "CHR ''%'' \<notin> set (ipv6_str n)" "CHR ''.'' \<notin> set (ipv6_str n)"
    by auto
qed

lemma ipv4_of_str_no_dot: "CHR ''.'' \<notin> set s \<Longrightarrow> ipv4_of_str s = None"
  by (simp add: ipv4_of_str_def split_on_no_sep split: option.splits)


lemma partition_on_simps:
  "d \<notin> set s \<Longrightarrow> partition_on d s = (s, False, [])"
  "d \<notin> set s \<Longrightarrow> partition_on d (s @ d # t) = (s, True, t)"
proof -
  assume d: "d \<notin> set s"
  then have "takeWhile (\<lambda>c. c \<noteq> d) s = s" by auto
  moreover have "dropWhile (\<lambda>c. c \<noteq> d) s = []" using d by auto
  ultimately show "partition_on d s = (s, False, [])" using d by (simp only: partition_on_def) simp
  from d have "takeWhile (\<lambda>c. c \<noteq> d) (s @ d # t) = s" "dropWhile (\<lambda>c. c \<noteq> d) (s @ d # t) = d # t"
    by (auto simp: takeWhile_append dropWhile_append)
  then show "partition_on d (s @ d # t) = (s, True, t)" by (simp add: partition_on_def)
qed

theorem ip_roundtrip:
  assumes "valid_ip a"
  shows "ip_address (ip_str a) = Inr a"
proof (cases a)
  case (V4 n)
  with assms have n: "0 \<le> n" "n < 2 ^ 32" by (auto simp: valid_ip_def)
  have "CHR ''/'' \<notin> set (ipv4_str n)"
    using set_join_with [of "''.''"] n by (fastforce simp: ipv4_str_def)
  with V4 n show ?thesis by (simp add: ip_address_def ipv4_roundtrip)
next
  case (V6 n scope)
  with assms have n: "0 \<le> n" "n < 2 ^ 128"
    and sc: "\<And>s. scope = Some s \<Longrightarrow> s \<noteq> [] \<and> CHR ''%'' \<notin> set s \<and> CHR ''/'' \<notin> set s"
    by (auto simp: valid_ip_def)
  note seps = set_ipv6_str [OF n(1)]
  show ?thesis
  proof (cases scope)
    case None
    with V6 n seps show ?thesis
      by (simp add: ip_address_def ipv4_of_str_no_dot split_scope_def partition_on_simps ipv6_roundtrip)
  next
    case (Some s)
    note s = sc [OF Some]
    let ?t = "ipv6_str n @ CHR ''%'' # s"
    have v4: "ipv4_of_str ?t = None"
    proof (rule ccontr)
      assume "ipv4_of_str ?t \<noteq> None"
      then obtain k where "ipv4_of_str ?t = Some k" by auto
      then obtain p q r t a' where sp: "split_on CHR ''.'' ?t = [p, q, r, t]" "parse_octet p = Some a'"
        by (auto simp: ipv4_of_str_def split: list.splits option.splits)
      have "CHR ''%'' \<in> set p"
      proof -
        have "CHR ''%'' \<in> set (hd (split_on CHR ''.'' (u @ CHR ''%'' # s)))" if "CHR ''.'' \<notin> set u" for u
          using that by (induction u) (auto split: list.splits)
        from this [OF seps(3)] sp(1) show ?thesis by simp
      qed
      moreover have "list_all is_digit p" using sp(2) by (auto simp: parse_octet_def split: if_splits)
      ultimately show False by (auto simp: list_all_iff is_digit_def ord_def)
    qed
    with V6 n seps s Some show ?thesis
      by (simp add: ip_address_def split_scope_def partition_on_simps ipv6_roundtrip)
  qed
qed

lemma ip_address_valid:
  assumes "ip_address s = Inr a"
  shows "valid_ip a"
proof (cases "ipv4_of_str s")
  case (Some n)
  with assms ipv4_of_str_range [OF Some] show ?thesis
    by (auto simp: ip_address_def valid_ip_def run)
next
  case None
  then obtain addr scope n where a: "a = V6 n scope" "split_scope s = Some (addr, scope)"
    and n: "ipv6_of_str addr = Some n" and slash: "CHR ''/'' \<notin> set s"
    using assms by (auto simp: ip_address_def run split: option.splits)
  have tl_sub: "set (tl (dropWhile P u)) \<subseteq> set u" for P and u :: string
    by (metis list.sel(2) list.set_sel(2) set_dropWhileD subsetI)
  have "scope = Some t \<Longrightarrow> t \<noteq> [] \<and> CHR ''%'' \<notin> set t \<and> CHR ''/'' \<notin> set t" for t
    using a(2) slash tl_sub [of "\<lambda>c. c \<noteq> CHR ''%''" s]
    by (auto simp: split_scope_def partition_on_def Let_def split: if_splits)
  with a ipv6_of_str_range [OF n] show ?thesis by (auto simp: valid_ip_def split: option.splits)
qed

lemma ip_address_of_int_valid: "ip_address_of_int n = Inr a \<Longrightarrow> valid_ip a"
  by (auto simp: ip_address_of_int_def valid_ip_def split: if_splits)

lemma ip_address_of_val_valid: "ip_address_of_val v = Inr a \<Longrightarrow> valid_ip a"
  by (cases v) (auto intro: ip_address_valid ip_address_of_int_valid)

text \<open>The canonical text of an address: what \<open>str(ip_address(x))\<close> returns.\<close>

definition canonical_ip :: "string \<Rightarrow> bool" where
  "canonical_ip s = (case ip_address s of Inl _ \<Rightarrow> False | Inr a \<Rightarrow> ip_str a = s)"

lemma canonical_ip_str: "valid_ip a \<Longrightarrow> canonical_ip (ip_str a)"
  by (simp add: canonical_ip_def ip_roundtrip)

lemma canonical_ipD: "canonical_ip s \<Longrightarrow> \<exists>a. ip_address s = Inr a \<and> ip_str a = s"
  by (auto simp: canonical_ip_def split: sum.splits)

end
