(* ===== verification/Contracts.thy ===== *)
theory Contracts
  imports Ip_Addresses
begin

text \<open>
  \<open>src/contracts.py\<close>: the versioned records that cross the process boundary to the Rust
  and Go engines, and the identities and evidence attached to every result. A constructor of
  the source (\<open>__post_init__\<close>) is a function \<open>..._init\<close> from raw Python values to a
  record or an exception; \<open>to_contract_dict\<close> and \<open>from_contract_dict\<close> are
  \<open>..._to_dict\<close> and \<open>..._from_dict\<close>. Dictionaries are written with their keys in
  order, since the program compares and serialises them regardless of insertion order.
\<close>

section \<open>Enumerations with string values\<close>

datatype port_state =
  PS_OPEN | PS_CLOSED | PS_FILTERED | PS_UNFILTERED | PS_OPEN_FILTERED | PS_CLOSED_FILTERED

definition port_states :: "port_state list" where
  "port_states =
     [PS_OPEN, PS_CLOSED, PS_FILTERED, PS_UNFILTERED, PS_OPEN_FILTERED, PS_CLOSED_FILTERED]"

fun port_state_value :: "port_state \<Rightarrow> string" where
  "port_state_value PS_OPEN = ''open''"
| "port_state_value PS_CLOSED = ''closed''"
| "port_state_value PS_FILTERED = ''filtered''"
| "port_state_value PS_UNFILTERED = ''unfiltered''"
| "port_state_value PS_OPEN_FILTERED = ''open|filtered''"
| "port_state_value PS_CLOSED_FILTERED = ''closed|filtered''"

datatype host_state = HS_UP | HS_DOWN | HS_UNKNOWN | HS_SKIPPED

definition host_states :: "host_state list" where
  "host_states = [HS_UP, HS_DOWN, HS_UNKNOWN, HS_SKIPPED]"

fun host_state_value :: "host_state \<Rightarrow> string" where
  "host_state_value HS_UP = ''up''"
| "host_state_value HS_DOWN = ''down''"
| "host_state_value HS_UNKNOWN = ''unknown''"
| "host_state_value HS_SKIPPED = ''skipped''"

datatype address_family = AF_IPV4 | AF_IPV6

definition address_families :: "address_family list" where
  "address_families = [AF_IPV4, AF_IPV6]"

fun address_family_value :: "address_family \<Rightarrow> string" where
  "address_family_value AF_IPV4 = ''ipv4''"
| "address_family_value AF_IPV6 = ''ipv6''"

text \<open>\<open>IPV4 if address.version == 4 else IPV6\<close>.\<close>

definition family_of_ip :: "ip \<Rightarrow> address_family" where
  "family_of_ip a = (if ip_version a = 4 then AF_IPV4 else AF_IPV6)"

datatype scan_technique =
    ST_TCP_CONNECT | ST_TCP_SYN | ST_TCP_ACK | ST_TCP_FIN | ST_TCP_NULL | ST_TCP_XMAS
  | ST_UDP | ST_ARP | ST_NEIGHBOR_DISCOVERY | ST_ICMP_ECHO | ST_TCP_PING

definition scan_techniques :: "scan_technique list" where
  "scan_techniques =
     [ST_TCP_CONNECT, ST_TCP_SYN, ST_TCP_ACK, ST_TCP_FIN, ST_TCP_NULL, ST_TCP_XMAS,
      ST_UDP, ST_ARP, ST_NEIGHBOR_DISCOVERY, ST_ICMP_ECHO, ST_TCP_PING]"

fun scan_technique_value :: "scan_technique \<Rightarrow> string" where
  "scan_technique_value ST_TCP_CONNECT = ''tcp_connect''"
| "scan_technique_value ST_TCP_SYN = ''tcp_syn''"
| "scan_technique_value ST_TCP_ACK = ''tcp_ack''"
| "scan_technique_value ST_TCP_FIN = ''tcp_fin''"
| "scan_technique_value ST_TCP_NULL = ''tcp_null''"
| "scan_technique_value ST_TCP_XMAS = ''tcp_xmas''"
| "scan_technique_value ST_UDP = ''udp''"
| "scan_technique_value ST_ARP = ''arp''"
| "scan_technique_value ST_NEIGHBOR_DISCOVERY = ''neighbor_discovery''"
| "scan_technique_value ST_ICMP_ECHO = ''icmp_echo''"
| "scan_technique_value ST_TCP_PING = ''tcp_ping''"

datatype reason_code =
    RC_CONNECTION_ACCEPTED | RC_CONNECTION_REFUSED | RC_CONNECTION_RESET | RC_UDP_RESPONSE
  | RC_TIMEOUT | RC_NO_RESPONSE | RC_ICMP_UNREACHABLE | RC_ICMP_PORT_UNREACHABLE
  | RC_ICMP_ADMIN_PROHIBITED | RC_ARP_RESPONSE | RC_NEIGHBOR_ADVERTISEMENT | RC_DNS_RESOLVED
  | RC_LITERAL_ADDRESS | RC_RESOLUTION_FAILED | RC_NETWORK_UNREACHABLE | RC_HOST_UNREACHABLE
  | RC_PERMISSION_DENIED | RC_CANCELLED | RC_INTERNAL_ERROR | RC_NOT_SCANNED | RC_UNKNOWN

definition reason_codes :: "reason_code list" where
  "reason_codes =
     [RC_CONNECTION_ACCEPTED, RC_CONNECTION_REFUSED, RC_CONNECTION_RESET, RC_UDP_RESPONSE,
      RC_TIMEOUT, RC_NO_RESPONSE, RC_ICMP_UNREACHABLE, RC_ICMP_PORT_UNREACHABLE,
      RC_ICMP_ADMIN_PROHIBITED, RC_ARP_RESPONSE, RC_NEIGHBOR_ADVERTISEMENT, RC_DNS_RESOLVED,
      RC_LITERAL_ADDRESS, RC_RESOLUTION_FAILED, RC_NETWORK_UNREACHABLE, RC_HOST_UNREACHABLE,
      RC_PERMISSION_DENIED, RC_CANCELLED, RC_INTERNAL_ERROR, RC_NOT_SCANNED, RC_UNKNOWN]"

fun reason_code_value :: "reason_code \<Rightarrow> string" where
  "reason_code_value RC_CONNECTION_ACCEPTED = ''connection_accepted''"
| "reason_code_value RC_CONNECTION_REFUSED = ''connection_refused''"
| "reason_code_value RC_CONNECTION_RESET = ''connection_reset''"
| "reason_code_value RC_UDP_RESPONSE = ''udp_response''"
| "reason_code_value RC_TIMEOUT = ''timeout''"
| "reason_code_value RC_NO_RESPONSE = ''no_response''"
| "reason_code_value RC_ICMP_UNREACHABLE = ''icmp_unreachable''"
| "reason_code_value RC_ICMP_PORT_UNREACHABLE = ''icmp_port_unreachable''"
| "reason_code_value RC_ICMP_ADMIN_PROHIBITED = ''icmp_admin_prohibited''"
| "reason_code_value RC_ARP_RESPONSE = ''arp_response''"
| "reason_code_value RC_NEIGHBOR_ADVERTISEMENT = ''neighbor_advertisement''"
| "reason_code_value RC_DNS_RESOLVED = ''dns_resolved''"
| "reason_code_value RC_LITERAL_ADDRESS = ''literal_address''"
| "reason_code_value RC_RESOLUTION_FAILED = ''resolution_failed''"
| "reason_code_value RC_NETWORK_UNREACHABLE = ''network_unreachable''"
| "reason_code_value RC_HOST_UNREACHABLE = ''host_unreachable''"
| "reason_code_value RC_PERMISSION_DENIED = ''permission_denied''"
| "reason_code_value RC_CANCELLED = ''cancelled''"
| "reason_code_value RC_INTERNAL_ERROR = ''internal_error''"
| "reason_code_value RC_NOT_SCANNED = ''not_scanned''"
| "reason_code_value RC_UNKNOWN = ''unknown''"

datatype banner_status = BS_CAPTURED | BS_EMPTY | BS_ERROR

definition banner_statuses :: "banner_status list" where
  "banner_statuses = [BS_CAPTURED, BS_EMPTY, BS_ERROR]"

fun banner_status_value :: "banner_status \<Rightarrow> string" where
  "banner_status_value BS_CAPTURED = ''captured''"
| "banner_status_value BS_EMPTY = ''empty''"
| "banner_status_value BS_ERROR = ''error''"

text \<open>\<open>EnumType(value)\<close> and \<open>_coerce_enum\<close>, for the members and values of one class.\<close>

definition enum_of :: "'a list \<Rightarrow> ('a \<Rightarrow> string) \<Rightarrow> pyval \<Rightarrow> 'a option" where
  "enum_of members val v = find (\<lambda>x. v = PStr (val x)) members"

definition coerce_enum :: "'a list \<Rightarrow> ('a \<Rightarrow> string) \<Rightarrow> pyval \<Rightarrow> exc + 'a" where
  "coerce_enum members val v =
     (case enum_of members val v of None \<Rightarrow> Inl ValueError | Some x \<Rightarrow> Inr x)"

locale str_enum =
  fixes members :: "'a list" and val :: "'a \<Rightarrow> string"
  assumes complete: "x \<in> set members"
    and val_inj: "val x = val y \<Longrightarrow> x = y"
begin

lemma enum_of_Some: "enum_of members val v = Some x \<longleftrightarrow> v = PStr (val x)"
proof
  assume "enum_of members val v = Some x"
  then show "v = PStr (val x)" by (auto simp: enum_of_def find_Some_iff)
next
  assume v: "v = PStr (val x)"
  show "enum_of members val v = Some x"
  proof (cases "enum_of members val v")
    case None
    with v complete [of x] show ?thesis by (auto simp: enum_of_def find_None_iff)
  next
    case (Some y)
    with v show ?thesis by (auto simp: enum_of_def find_Some_iff dest: val_inj)
  qed
qed

lemma enum_of_val [simp]: "enum_of members val (PStr (val x)) = Some x"
  by (simp add: enum_of_Some)

lemma coerce_Inr [run]: "coerce_enum members val v = Inr x \<longleftrightarrow> v = PStr (val x)"
  by (auto simp: coerce_enum_def enum_of_Some [symmetric] split: option.splits)

lemma coerce_val [simp]: "coerce_enum members val (PStr (val x)) = Inr x"
  by (simp add: coerce_enum_def)

lemma coerce_Inl: "coerce_enum members val v = Inl e \<Longrightarrow> e = ValueError"
  by (auto simp: coerce_enum_def split: option.splits)

end

interpretation ps: str_enum port_states port_state_value
proof
  fix x y show "x \<in> set port_states" by (cases x) (simp_all add: port_states_def)
  show "port_state_value x = port_state_value y \<Longrightarrow> x = y" by (cases x; cases y) simp_all
qed

interpretation hs: str_enum host_states host_state_value
proof
  fix x y show "x \<in> set host_states" by (cases x) (simp_all add: host_states_def)
  show "host_state_value x = host_state_value y \<Longrightarrow> x = y" by (cases x; cases y) simp_all
qed

interpretation af: str_enum address_families address_family_value
proof
  fix x y show "x \<in> set address_families" by (cases x) (simp_all add: address_families_def)
  show "address_family_value x = address_family_value y \<Longrightarrow> x = y" by (cases x; cases y) simp_all
qed

interpretation st: str_enum scan_techniques scan_technique_value
proof
  fix x y show "x \<in> set scan_techniques" by (cases x) (simp_all add: scan_techniques_def)
  show "scan_technique_value x = scan_technique_value y \<Longrightarrow> x = y" by (cases x; cases y) simp_all
qed

interpretation rc: str_enum reason_codes reason_code_value
proof
  fix x y show "x \<in> set reason_codes" by (cases x) (simp_all add: reason_codes_def)
  show "reason_code_value x = reason_code_value y \<Longrightarrow> x = y" by (cases x; cases y) simp_all
qed

interpretation bs: str_enum banner_statuses banner_status_value
proof
  fix x y show "x \<in> set banner_statuses" by (cases x) (simp_all add: banner_statuses_def)
  show "banner_status_value x = banner_status_value y \<Longrightarrow> x = y" by (cases x; cases y) simp_all
qed

text \<open>The values stay folded, so that the laws of the enumerations apply to them.\<close>

lemmas enum_values =
  port_state_value.simps host_state_value.simps address_family_value.simps
  scan_technique_value.simps reason_code_value.simps banner_status_value.simps

declare enum_values [simp del]

subsection \<open>\<open>PortState\<close> and its legacy projection \<open>is_open\<close>\<close>

text \<open>\<open>None\<close>, \<open>True\<close> and \<open>False\<close> are \<open>PNone\<close> and \<open>PBool\<close>; other values are rejected.\<close>

definition validate_legacy_is_open_value :: "pyval \<Rightarrow> exc + unit" where
  "validate_legacy_is_open_value v =
     (if v \<noteq> PNone \<and> \<not> is_bool v then Inl ValueError else Inr ())"

definition from_legacy_is_open :: "pyval \<Rightarrow> exc + port_state" where
  "from_legacy_is_open v =
     bindE (validate_legacy_is_open_value v) (\<lambda>_.
       if v = PBool True then Inr PS_OPEN
       else if v = PBool False then Inr PS_CLOSED
       else Inr PS_OPEN_FILTERED)"

fun legacy_is_open :: "port_state \<Rightarrow> pyval" where
  "legacy_is_open PS_OPEN = PBool True"
| "legacy_is_open PS_CLOSED = PBool False"
| "legacy_is_open PS_FILTERED = PBool False"
| "legacy_is_open _ = PNone"

definition is_reportable :: "port_state \<Rightarrow> bool" where
  "is_reportable s \<longleftrightarrow> s = PS_OPEN"

definition validate_legacy_projection :: "port_state \<Rightarrow> pyval \<Rightarrow> exc + unit" where
  "validate_legacy_projection s v =
     bindE (validate_legacy_is_open_value v) (\<lambda>_.
       if v \<noteq> legacy_is_open s then Inl ValueError else Inr ())"

lemma legacy_is_open_valid [simp]: "validate_legacy_is_open_value (legacy_is_open s) = Inr ()"
  by (cases s) (simp_all add: validate_legacy_is_open_value_def)

lemma validate_legacy_projection_Inr [run]:
  "validate_legacy_projection s v = Inr u \<longleftrightarrow> v = legacy_is_open s"
  by (auto simp: validate_legacy_projection_def run)

lemma validate_legacy_projection_self [simp]:
  "validate_legacy_projection s (legacy_is_open s) = Inr ()"
  by (simp add: validate_legacy_projection_def)

section \<open>Validators shared by the records\<close>

text \<open>The values a Python \<open>for\<close> loop yields; \<open>None\<close> where the value is not iterable.\<close>

fun iter_values :: "pyval \<Rightarrow> pyval list option" where
  "iter_values (PList xs) = Some xs"
| "iter_values (PDict kvs) = Some (map fst kvs)"
| "iter_values (PStr s) = Some (map (\<lambda>c. PStr [c]) s)"
| "iter_values _ = None"

fun check_port :: "pyval \<Rightarrow> exc + int" where
  "check_port (PInt n) = (if 1 \<le> n \<and> n \<le> 65535 then Inr n else Inl ValueError)"
| "check_port _ = Inl ValueError"

definition normalize_contract_ports :: "pyval \<Rightarrow> exc + int list" where
  "normalize_contract_ports v =
     (if is_str v then Inl ValueError
      else case iter_values v of
        None \<Rightarrow> Inl ValueError
      | Some vs \<Rightarrow> bindE (map_err check_port vs) (\<lambda>ns.
          if ns = [] then Inl ValueError else Inr (sort (remdups ns))))"

text \<open>
  \<open>_require_exact_fields\<close>: a missing name is a \<open>ValueError\<close>; with an unexpected key
  that is not text the message itself fails (\<open>sorted\<close> or \<open>join\<close> of mixed values).
\<close>

definition require_exact_fields :: "string list \<Rightarrow> pyval \<Rightarrow> exc + (pyval \<times> pyval) list" where
  "require_exact_fields fields v =
     (case v of
        PDict kvs \<Rightarrow>
          if \<not> has_fields kvs fields then Inl ValueError
          else if \<not> only_fields kvs fields
               then (if list_all is_str (dict_keys kvs) then Inl ValueError else Inl TypeError)
          else Inr kvs
      | _ \<Rightarrow> Inl ValueError)"

definition has_nul :: "string \<Rightarrow> bool" where
  "has_nul s \<longleftrightarrow> CHR 0x00 \<in> set s"

text \<open>The three checks of every \<open>target\<close> field and its normalisation by \<open>strip\<close>.\<close>

definition check_target :: "pyval \<Rightarrow> exc + string" where
  "check_target v =
     (case v of
        PStr s \<Rightarrow> if strip s = [] then Inl ValueError
                  else if has_nul s then Inl ValueError
                  else Inr (strip s)
      | _ \<Rightarrow> Inl ValueError)"

definition check_positive :: "pyval \<Rightarrow> exc + int" where
  "check_positive v =
     (case v of PInt n \<Rightarrow> if n \<le> 0 then Inl ValueError else Inr n | _ \<Rightarrow> Inl ValueError)"

lemma check_port_Inr [run]: "check_port v = Inr n \<longleftrightarrow> v = PInt n \<and> 1 \<le> n \<and> n \<le> 65535"
  by (cases v) auto

lemma check_target_Inr [run]:
  "check_target v = Inr t \<longleftrightarrow> (\<exists>s. v = PStr s \<and> strip s \<noteq> [] \<and> \<not> has_nul s \<and> t = strip s)"
  by (cases v) (auto simp: check_target_def)

lemma check_positive_Inr [run]: "check_positive v = Inr n \<longleftrightarrow> v = PInt n \<and> 0 < n"
  by (cases v) (auto simp: check_positive_def)

definition port_list :: "int list \<Rightarrow> bool" where
  "port_list ps \<longleftrightarrow> sorted ps \<and> distinct ps \<and> (\<forall>p \<in> set ps. 1 \<le> p \<and> p \<le> 65535)"

lemma map_err_check_port:
  "map_err check_port vs = Inr ns \<Longrightarrow> vs = map PInt ns \<and> (\<forall>n \<in> set ns. 1 \<le> n \<and> n \<le> 65535)"
  by (induction vs arbitrary: ns) (auto simp: run)

lemma map_err_check_port_PInt:
  "\<forall>n \<in> set ns. 1 \<le> n \<and> n \<le> 65535 \<Longrightarrow> map_err check_port (map PInt ns) = Inr ns"
  by (intro map_err_id) auto

lemma sort_remdups_Nil [simp]: "sort (remdups xs) = [] \<longleftrightarrow> xs = []"
  by (metis set_empty set_remdups set_sort)

lemma normalize_contract_ports_Inr:
  "normalize_contract_ports v = Inr ps \<Longrightarrow> port_list ps \<and> ps \<noteq> []"
  by (auto simp: normalize_contract_ports_def port_list_def run split: if_splits option.splits
      dest!: map_err_check_port)

lemma normalize_contract_ports_fix:
  "port_list ps \<Longrightarrow> ps \<noteq> [] \<Longrightarrow> normalize_contract_ports (PList (map PInt ps)) = Inr ps"
  by (simp add: normalize_contract_ports_def map_err_check_port_PInt port_list_def distinct_remdups_id)

lemma strip_not_nul: "\<not> has_nul s \<Longrightarrow> \<not> has_nul (strip s)"
  using set_strip by (auto simp: has_nul_def)

lemma require_exact_fields_Inr [run]:
  "require_exact_fields fs v = Inr kvs \<longleftrightarrow>
     v = PDict kvs \<and> has_fields kvs fs \<and> only_fields kvs fs"
  by (cases v) (auto simp: require_exact_fields_def)

section \<open>Records on the wire\<close>

text \<open>
  The contract between the producers and the consumers of a versioned record: every
  dictionary the parser accepts becomes a well-formed record, and the dictionary of a
  well-formed record is accepted and gives the record back. A consumer (the bridges, the
  session store) relies on the consequences proved here: parsing normalises once and for
  all, and two well-formed records with the same dictionary are equal.
\<close>

locale wire_record =
  fixes wf :: "'r \<Rightarrow> bool"
    and to_dict :: "'r \<Rightarrow> pyval"
    and from_dict :: "pyval \<Rightarrow> exc + 'r"
  assumes accepted_wf: "from_dict p = Inr r \<Longrightarrow> wf r"
    and roundtrip: "wf r \<Longrightarrow> from_dict (to_dict r) = Inr r"
begin

lemma normalised_once: "from_dict p = Inr r \<Longrightarrow> from_dict (to_dict r) = Inr r"
  by (rule roundtrip [OF accepted_wf])

lemma to_dict_inj: "wf r \<Longrightarrow> wf r' \<Longrightarrow> to_dict r = to_dict r' \<Longrightarrow> r = r'"
  by (metis roundtrip sum.inject(2))

lemma accepted_to_dict_inj:
  "from_dict p = Inr r \<Longrightarrow> from_dict q = Inr r' \<Longrightarrow> to_dict r = to_dict r' \<longleftrightarrow> r = r'"
  using accepted_wf to_dict_inj by blast

lemma map_roundtrip:
  "\<forall>r \<in> set rs. wf r \<Longrightarrow> map_err from_dict (map to_dict rs) = Inr rs"
  by (rule map_err_id) (simp add: roundtrip)

lemma map_accepted_wf: "map_err from_dict ps = Inr rs \<Longrightarrow> \<forall>r \<in> set rs. wf r"
  by (metis map_err_Inr_mem accepted_wf)

end

lemmas dict_eval =
  require_exact_fields_def obj_def has_fields_def only_fields_def dict_keys_def

section \<open>\<open>NativeScanRequest\<close>\<close>

record native_scan_request =
  nsr_target :: string
  nsr_ports :: "int list"
  nsr_timeout_ms :: int
  nsr_workers :: int
  nsr_contract_version :: pyval

definition native_scan_request_init ::
    "pyval \<Rightarrow> pyval \<Rightarrow> pyval \<Rightarrow> pyval \<Rightarrow> pyval \<Rightarrow> exc + native_scan_request" where
  "native_scan_request_init target ports timeout_ms workers version =
     (if \<not> eq_int version 1 then Inl ValueError
      else bindE (check_target target) (\<lambda>t.
        bindE (normalize_contract_ports ports) (\<lambda>ps.
        bindE (check_positive timeout_ms) (\<lambda>ms.
        bindE (check_positive workers) (\<lambda>w.
          Inr \<lparr>nsr_target = t, nsr_ports = ps, nsr_timeout_ms = ms,
               nsr_workers = min (min w 512) (int (length ps)),
               nsr_contract_version = version\<rparr>)))))"

definition scan_request_fields :: "string list" where
  "scan_request_fields =
     [''contract_version'', ''record_type'', ''target'', ''ports'', ''timeout_ms'', ''workers'']"

definition native_scan_request_to_dict :: "native_scan_request \<Rightarrow> pyval" where
  "native_scan_request_to_dict r = obj
     [(''contract_version'', nsr_contract_version r),
      (''ports'', PList (map PInt (nsr_ports r))),
      (''record_type'', PStr ''scan_request''),
      (''target'', PStr (nsr_target r)),
      (''timeout_ms'', PInt (nsr_timeout_ms r)),
      (''workers'', PInt (nsr_workers r))]"

definition native_scan_request_from_dict :: "pyval \<Rightarrow> exc + native_scan_request" where
  "native_scan_request_from_dict payload =
     bindE (require_exact_fields scan_request_fields payload) (\<lambda>d.
     bindE (dict_at d ''record_type'') (\<lambda>rt.
       if rt \<noteq> PStr ''scan_request'' then Inl ValueError else
     bindE (dict_at d ''target'') (\<lambda>target.
     bindE (dict_at d ''ports'') (\<lambda>ports.
     bindE (dict_at d ''timeout_ms'') (\<lambda>timeout_ms.
     bindE (dict_at d ''workers'') (\<lambda>workers.
     bindE (dict_at d ''contract_version'') (\<lambda>version.
       native_scan_request_init target ports timeout_ms workers version)))))))"

definition wf_target :: "string \<Rightarrow> bool" where
  "wf_target t \<longleftrightarrow> t \<noteq> [] \<and> strip t = t \<and> \<not> has_nul t"

definition wf_scan_request :: "native_scan_request \<Rightarrow> bool" where
  "wf_scan_request r \<longleftrightarrow>
     eq_int (nsr_contract_version r) 1 \<and> wf_target (nsr_target r) \<and>
     port_list (nsr_ports r) \<and> nsr_ports r \<noteq> [] \<and> 0 < nsr_timeout_ms r \<and>
     0 < nsr_workers r \<and> nsr_workers r \<le> 512 \<and> nsr_workers r \<le> int (length (nsr_ports r))"

lemma wf_target_strip: "strip s \<noteq> [] \<Longrightarrow> \<not> has_nul s \<Longrightarrow> wf_target (strip s)"
  by (simp add: wf_target_def strip_not_nul)

lemma check_target_wf [simp]: "wf_target t \<Longrightarrow> check_target (PStr t) = Inr t"
  by (simp add: check_target_def wf_target_def)

lemma check_positive_PInt [simp]: "0 < n \<Longrightarrow> check_positive (PInt n) = Inr n"
  by (simp add: check_positive_def)

lemma native_scan_request_init_wf:
  "native_scan_request_init t ps ms w v = Inr r \<Longrightarrow> wf_scan_request r"
  by (auto simp: native_scan_request_init_def wf_scan_request_def run wf_target_strip Suc_le_eq
      dest!: normalize_contract_ports_Inr)

interpretation nsr: wire_record wf_scan_request native_scan_request_to_dict
    native_scan_request_from_dict
proof
  show "native_scan_request_from_dict p = Inr r \<Longrightarrow> wf_scan_request r" for p r
    by (auto simp: native_scan_request_from_dict_def run intro: native_scan_request_init_wf)
next
  fix r assume "wf_scan_request r"
  then show "native_scan_request_from_dict (native_scan_request_to_dict r) = Inr r"
    by (cases r) (simp add: native_scan_request_from_dict_def native_scan_request_to_dict_def
        dict_eval scan_request_fields_def native_scan_request_init_def wf_scan_request_def
        normalize_contract_ports_fix)
qed

section \<open>\<open>NativeBannerRequest\<close>\<close>

record native_banner_request =
  nbr_target :: string
  nbr_ports :: "int list"
  nbr_timeout_ms :: int
  nbr_contract_version :: pyval

definition native_banner_request_init ::
    "pyval \<Rightarrow> pyval \<Rightarrow> pyval \<Rightarrow> pyval \<Rightarrow> exc + native_banner_request" where
  "native_banner_request_init target ports timeout_ms version =
     (if \<not> eq_int version 1 then Inl ValueError
      else bindE (check_target target) (\<lambda>t.
        bindE (normalize_contract_ports ports) (\<lambda>ps.
        bindE (check_positive timeout_ms) (\<lambda>ms.
          Inr \<lparr>nbr_target = t, nbr_ports = ps, nbr_timeout_ms = ms,
               nbr_contract_version = version\<rparr>))))"

definition banner_request_fields :: "string list" where
  "banner_request_fields =
     [''contract_version'', ''record_type'', ''target'', ''ports'', ''timeout_ms'']"

definition native_banner_request_to_dict :: "native_banner_request \<Rightarrow> pyval" where
  "native_banner_request_to_dict r = obj
     [(''contract_version'', nbr_contract_version r),
      (''ports'', PList (map PInt (nbr_ports r))),
      (''record_type'', PStr ''banner_request''),
      (''target'', PStr (nbr_target r)),
      (''timeout_ms'', PInt (nbr_timeout_ms r))]"

definition native_banner_request_from_dict :: "pyval \<Rightarrow> exc + native_banner_request" where
  "native_banner_request_from_dict payload =
     bindE (require_exact_fields banner_request_fields payload) (\<lambda>d.
     bindE (dict_at d ''record_type'') (\<lambda>rt.
       if rt \<noteq> PStr ''banner_request'' then Inl ValueError else
     bindE (dict_at d ''target'') (\<lambda>target.
     bindE (dict_at d ''ports'') (\<lambda>ports.
     bindE (dict_at d ''timeout_ms'') (\<lambda>timeout_ms.
     bindE (dict_at d ''contract_version'') (\<lambda>version.
       native_banner_request_init target ports timeout_ms version))))))"

definition wf_banner_request :: "native_banner_request \<Rightarrow> bool" where
  "wf_banner_request r \<longleftrightarrow>
     eq_int (nbr_contract_version r) 1 \<and> wf_target (nbr_target r) \<and>
     port_list (nbr_ports r) \<and> nbr_ports r \<noteq> [] \<and> 0 < nbr_timeout_ms r"

lemma native_banner_request_init_wf:
  "native_banner_request_init t ps ms v = Inr r \<Longrightarrow> wf_banner_request r"
  by (auto simp: native_banner_request_init_def wf_banner_request_def run wf_target_strip
      dest!: normalize_contract_ports_Inr)

interpretation nbr: wire_record wf_banner_request native_banner_request_to_dict
    native_banner_request_from_dict
proof
  show "native_banner_request_from_dict p = Inr r \<Longrightarrow> wf_banner_request r" for p r
    by (auto simp: native_banner_request_from_dict_def run intro: native_banner_request_init_wf)
next
  fix r assume "wf_banner_request r"
  then show "native_banner_request_from_dict (native_banner_request_to_dict r) = Inr r"
    by (cases r) (simp add: native_banner_request_from_dict_def native_banner_request_to_dict_def
        dict_eval banner_request_fields_def native_banner_request_init_def wf_banner_request_def
        normalize_contract_ports_fix)
qed

section \<open>\<open>NativeBannerResult\<close>\<close>

record native_banner_result =
  nres_target :: string
  nres_port :: int
  nres_status :: banner_status
  nres_service :: string
  nres_banner :: "string option"
  nres_error :: "string option"
  nres_contract_version :: pyval

text \<open>\<open>isinstance(v, str) and v.strip()\<close>, the value itself kept.\<close>

definition check_nonblank :: "pyval \<Rightarrow> exc + string" where
  "check_nonblank v =
     (case v of PStr s \<Rightarrow> if strip s = [] then Inl ValueError else Inr s | _ \<Rightarrow> Inl ValueError)"

definition check_banner :: "pyval \<Rightarrow> exc + string option" where
  "check_banner v =
     (case v of
        PNone \<Rightarrow> Inr None
      | PStr s \<Rightarrow> if length s > 300 then Inl ValueError else Inr (Some s)
      | _ \<Rightarrow> Inl ValueError)"

definition check_error_detail :: "pyval \<Rightarrow> exc + string option" where
  "check_error_detail v =
     (case v of PNone \<Rightarrow> Inr None | _ \<Rightarrow> bindE (check_nonblank v) (\<lambda>s. Inr (Some s)))"

text \<open>The cross-field rules at the end of \<open>__post_init__\<close>: the banner to keep.\<close>

definition banner_for_status ::
    "banner_status \<Rightarrow> string option \<Rightarrow> string option \<Rightarrow> exc + string option" where
  "banner_for_status status banner error =
     (case status of
        BS_CAPTURED \<Rightarrow>
          if banner \<in> {None, Some []} then Inl ValueError
          else if error \<noteq> None then Inl ValueError else Inr banner
      | BS_EMPTY \<Rightarrow>
          if banner \<notin> {None, Some []} then Inl ValueError
          else if error \<noteq> None then Inl ValueError else Inr None
      | BS_ERROR \<Rightarrow>
          if banner \<notin> {None, Some []} then Inl ValueError
          else if error = None then Inl ValueError else Inr None)"

definition native_banner_result_init ::
    "pyval \<Rightarrow> pyval \<Rightarrow> pyval \<Rightarrow> pyval \<Rightarrow> pyval \<Rightarrow> pyval \<Rightarrow> pyval \<Rightarrow> pyval
     \<Rightarrow> exc + native_banner_result" where
  "native_banner_result_init target port status service banner error source version =
     (if \<not> eq_int version 1 then Inl ValueError
      else bindE (check_target target) (\<lambda>t.
        bindE (check_port port) (\<lambda>p.
        bindE (coerce_enum banner_statuses banner_status_value status) (\<lambda>st.
        bindE (check_nonblank service) (\<lambda>sv.
        bindE (check_banner banner) (\<lambda>b.
        bindE (check_error_detail error) (\<lambda>er.
          if source \<noteq> PStr ''go'' then Inl ValueError
          else bindE (banner_for_status st b er) (\<lambda>b'.
            Inr \<lparr>nres_target = t, nres_port = p, nres_status = st, nres_service = sv,
                 nres_banner = b', nres_error = er, nres_contract_version = version\<rparr>))))))))"

definition banner_result_fields :: "string list" where
  "banner_result_fields =
     [''contract_version'', ''record_type'', ''target'', ''port'', ''status'', ''service'',
      ''banner'', ''error'', ''source'']"

definition native_banner_result_to_dict :: "native_banner_result \<Rightarrow> pyval" where
  "native_banner_result_to_dict r = obj
     [(''banner'', str_or_none (nres_banner r)),
      (''contract_version'', nres_contract_version r),
      (''error'', str_or_none (nres_error r)),
      (''port'', PInt (nres_port r)),
      (''record_type'', PStr ''banner_result''),
      (''service'', PStr (nres_service r)),
      (''source'', PStr ''go''),
      (''status'', PStr (banner_status_value (nres_status r))),
      (''target'', PStr (nres_target r))]"

definition native_banner_result_from_dict :: "pyval \<Rightarrow> exc + native_banner_result" where
  "native_banner_result_from_dict payload =
     bindE (require_exact_fields banner_result_fields payload) (\<lambda>d.
     bindE (dict_at d ''record_type'') (\<lambda>rt.
       if rt \<noteq> PStr ''banner_result'' then Inl ValueError else
     bindE (dict_at d ''target'') (\<lambda>target.
     bindE (dict_at d ''port'') (\<lambda>port.
     bindE (dict_at d ''status'') (\<lambda>status.
     bindE (dict_at d ''service'') (\<lambda>service.
     bindE (dict_at d ''banner'') (\<lambda>banner.
     bindE (dict_at d ''error'') (\<lambda>error.
     bindE (dict_at d ''source'') (\<lambda>source.
     bindE (dict_at d ''contract_version'') (\<lambda>version.
       native_banner_result_init target port status service banner error source version))))))))))"

text \<open>Exactly one of the three outcomes: a banner, neither, or an error detail.\<close>

definition wf_banner_result :: "native_banner_result \<Rightarrow> bool" where
  "wf_banner_result r \<longleftrightarrow>
     eq_int (nres_contract_version r) 1 \<and> wf_target (nres_target r) \<and>
     1 \<le> nres_port r \<and> nres_port r \<le> 65535 \<and> strip (nres_service r) \<noteq> [] \<and>
     (case nres_status r of
        BS_CAPTURED \<Rightarrow> nres_error r = None \<and>
          (\<exists>b. nres_banner r = Some b \<and> b \<noteq> [] \<and> length b \<le> 300)
      | BS_EMPTY \<Rightarrow> nres_banner r = None \<and> nres_error r = None
      | BS_ERROR \<Rightarrow> nres_banner r = None \<and> (\<exists>e. nres_error r = Some e \<and> strip e \<noteq> []))"

lemma check_nonblank_Inr [run]:
  "check_nonblank v = Inr s \<longleftrightarrow> v = PStr s \<and> strip s \<noteq> []"
  by (cases v) (auto simp: check_nonblank_def)

lemma check_banner_Inr [run]:
  "check_banner v = Inr b \<longleftrightarrow>
     v = str_or_none b \<and> (case b of None \<Rightarrow> True | Some s \<Rightarrow> length s \<le> 300)"
  by (cases v; cases b) (auto simp: check_banner_def)

lemma check_error_detail_Inr [run]:
  "check_error_detail v = Inr b \<longleftrightarrow>
     v = str_or_none b \<and> (case b of None \<Rightarrow> True | Some s \<Rightarrow> strip s \<noteq> [])"
  by (cases v; cases b) (auto simp: check_error_detail_def run)

lemma check_simps [simp]:
  "strip s \<noteq> [] \<Longrightarrow> check_nonblank (PStr s) = Inr s"
  "check_banner PNone = Inr None" "length s \<le> 300 \<Longrightarrow> check_banner (PStr s) = Inr (Some s)"
  "check_error_detail PNone = Inr None"
  "strip s \<noteq> [] \<Longrightarrow> check_error_detail (PStr s) = Inr (Some s)"
  by (simp_all add: check_nonblank_def check_banner_def check_error_detail_def)

lemma native_banner_result_init_wf:
  "native_banner_result_init t p s sv b er src v = Inr r \<Longrightarrow> wf_banner_result r"
  by (auto simp: native_banner_result_init_def wf_banner_result_def run wf_target_strip
      banner_for_status_def split: if_splits banner_status.splits option.splits)

interpretation nres: wire_record wf_banner_result native_banner_result_to_dict
    native_banner_result_from_dict
proof
  show "native_banner_result_from_dict p = Inr r \<Longrightarrow> wf_banner_result r" for p r
    by (auto simp: native_banner_result_from_dict_def run intro: native_banner_result_init_wf)
next
  fix r assume "wf_banner_result r"
  then show "native_banner_result_from_dict (native_banner_result_to_dict r) = Inr r"
    by (cases r; cases "nres_status r")
      (auto simp: native_banner_result_from_dict_def native_banner_result_to_dict_def
        dict_eval banner_result_fields_def native_banner_result_init_def wf_banner_result_def
        banner_for_status_def)
qed

section \<open>\<open>ScanEvidence\<close>\<close>

text \<open>The detail is never checked, and \<open>errno\<close> may be a \<open>bool\<close>.\<close>

record scan_evidence =
  ev_reason :: reason_code
  ev_source :: string
  ev_detail :: pyval
  ev_errno :: pyval

definition default_evidence :: scan_evidence where
  "default_evidence =
     \<lparr>ev_reason = RC_UNKNOWN, ev_source = ''unknown'', ev_detail = PNone, ev_errno = PNone\<rparr>"

definition is_int_or_none :: "pyval \<Rightarrow> bool" where
  "is_int_or_none v \<longleftrightarrow> v = PNone \<or> is_strict_int v \<or> is_bool v"

definition scan_evidence_init :: "pyval \<Rightarrow> pyval \<Rightarrow> pyval \<Rightarrow> pyval \<Rightarrow> exc + scan_evidence" where
  "scan_evidence_init reason source detail errno =
     bindE (coerce_enum reason_codes reason_code_value reason) (\<lambda>rc.
     bindE (check_nonblank source) (\<lambda>src.
       if \<not> is_int_or_none errno then Inl ValueError
       else Inr \<lparr>ev_reason = rc, ev_source = src, ev_detail = detail, ev_errno = errno\<rparr>))"

definition scan_evidence_to_dict :: "scan_evidence \<Rightarrow> pyval" where
  "scan_evidence_to_dict e = obj
     ((if ev_detail e \<noteq> PNone then [(''detail'', ev_detail e)] else []) @
      (if ev_errno e \<noteq> PNone then [(''errno'', ev_errno e)] else []) @
      [(''reason'', PStr (reason_code_value (ev_reason e))), (''source'', PStr (ev_source e))])"

definition scan_evidence_from_dict :: "pyval \<Rightarrow> exc + scan_evidence" where
  "scan_evidence_from_dict payload =
     (case payload of
        PDict d \<Rightarrow> scan_evidence_init
          (dict_get_or d ''reason'' (PStr (reason_code_value RC_UNKNOWN)))
          (dict_get_or d ''source'' (PStr ''unknown''))
          (dict_get_or d ''detail'' PNone) (dict_get_or d ''errno'' PNone)
      | _ \<Rightarrow> Inl ValueError)"

definition wf_evidence :: "scan_evidence \<Rightarrow> bool" where
  "wf_evidence e \<longleftrightarrow> strip (ev_source e) \<noteq> [] \<and> is_int_or_none (ev_errno e)"

lemma scan_evidence_init_Inr [run]:
  "scan_evidence_init rc src dt en = Inr e \<longleftrightarrow>
     wf_evidence e \<and> rc = PStr (reason_code_value (ev_reason e)) \<and> src = PStr (ev_source e) \<and>
     dt = ev_detail e \<and> en = ev_errno e"
  by (cases e) (auto simp: scan_evidence_init_def wf_evidence_def run)

interpretation evid: wire_record wf_evidence scan_evidence_to_dict scan_evidence_from_dict
proof
  show "scan_evidence_from_dict p = Inr e \<Longrightarrow> wf_evidence e" for p e
    by (cases p) (auto simp: scan_evidence_from_dict_def run)
  show "wf_evidence e \<Longrightarrow> scan_evidence_from_dict (scan_evidence_to_dict e) = Inr e" for e
    by (simp add: scan_evidence_from_dict_def scan_evidence_to_dict_def dict_eval dict_get_or_def run)
qed

section \<open>\<open>TargetIdentity\<close>\<close>

text \<open>\<open>canonical_name\<close> and \<open>source\<close> are kept as given, and dropped when written if falsy.\<close>

record target_identity =
  ti_requested :: string
  ti_address :: string
  ti_family :: address_family
  ti_canonical_name :: pyval
  ti_source :: pyval

definition target_identity_init ::
    "pyval \<Rightarrow> pyval \<Rightarrow> pyval \<Rightarrow> pyval \<Rightarrow> pyval \<Rightarrow> exc + target_identity" where
  "target_identity_init requested address family canonical_name source =
     bindE (check_nonblank requested) (\<lambda>rq.
     bindE (ip_address_of_val address) (\<lambda>a.
     bindE (coerce_enum address_families address_family_value family) (\<lambda>fam.
       if fam \<noteq> family_of_ip a then Inl ValueError
       else Inr \<lparr>ti_requested = rq, ti_address = ip_str a, ti_family = fam,
                 ti_canonical_name = canonical_name, ti_source = source\<rparr>)))"

definition target_identity_to_dict :: "target_identity \<Rightarrow> pyval" where
  "target_identity_to_dict t = obj
     ([(''address'', PStr (ti_address t))] @
      (if truthy (ti_canonical_name t) then [(''canonical_name'', ti_canonical_name t)] else []) @
      [(''family'', PStr (address_family_value (ti_family t))),
       (''requested'', PStr (ti_requested t))] @
      (if truthy (ti_source t) then [(''source'', ti_source t)] else []))"

definition target_identity_from_dict :: "pyval \<Rightarrow> exc + target_identity" where
  "target_identity_from_dict payload =
     (case payload of
        PDict d \<Rightarrow> reraise (\<lambda>e. e = KeyError) ValueError (
          bindE (dict_at d ''requested'') (\<lambda>rq.
          bindE (dict_at d ''address'') (\<lambda>addr.
          bindE (dict_at d ''family'') (\<lambda>fam.
            target_identity_init rq addr fam
              (dict_get_or d ''canonical_name'' PNone) (dict_get_or d ''source'' PNone)))))
      | _ \<Rightarrow> Inl ValueError)"

definition wf_identity :: "target_identity \<Rightarrow> bool" where
  "wf_identity t \<longleftrightarrow>
     strip (ti_requested t) \<noteq> [] \<and>
     (case ip_address (ti_address t) of
        Inl _ \<Rightarrow> False
      | Inr a \<Rightarrow> ip_str a = ti_address t \<and> ti_family t = family_of_ip a)"

text \<open>The dictionary of an identity forgets the falsy names it holds.\<close>

definition drop_falsy :: "target_identity \<Rightarrow> target_identity" where
  "drop_falsy t = t
     \<lparr>ti_canonical_name := (if truthy (ti_canonical_name t) then ti_canonical_name t else PNone),
      ti_source := (if truthy (ti_source t) then ti_source t else PNone)\<rparr>"

lemma wf_identityD:
  "wf_identity t \<Longrightarrow> \<exists>a. ip_address (ti_address t) = Inr a \<and> ip_str a = ti_address t \<and>
     ti_family t = family_of_ip a \<and> strip (ti_requested t) \<noteq> []"
  by (auto simp: wf_identity_def split: sum.splits)

lemma target_identity_init_wf:
  "target_identity_init rq addr fam cn src = Inr t \<Longrightarrow> wf_identity t"
  by (auto simp: target_identity_init_def wf_identity_def run ip_roundtrip
      dest!: ip_address_of_val_valid)

lemma target_identity_roundtrip:
  assumes "wf_identity t"
  shows "target_identity_from_dict (target_identity_to_dict t) = Inr (drop_falsy t)"
  using wf_identityD [OF assms]
  by (cases t) (auto simp: target_identity_from_dict_def target_identity_to_dict_def dict_eval
      dict_get_or_def target_identity_init_def drop_falsy_def)

lemma target_identity_accepted_wf: "target_identity_from_dict p = Inr t \<Longrightarrow> wf_identity t"
  by (cases p) (auto simp: target_identity_from_dict_def run intro: target_identity_init_wf)

section \<open>\<open>HostResult\<close>\<close>

record host_result =
  hr_identity :: target_identity
  hr_state :: host_state
  hr_evidence :: scan_evidence
  hr_contract_version :: pyval

text \<open>The evidence argument is a \<open>ScanEvidence\<close> or its dictionary.\<close>

definition coerce_evidence :: "scan_evidence + pyval \<Rightarrow> exc + scan_evidence" where
  "coerce_evidence x = (case x of Inl e \<Rightarrow> Inr e | Inr v \<Rightarrow> scan_evidence_from_dict v)"

definition host_result_init ::
    "target_identity \<Rightarrow> pyval \<Rightarrow> scan_evidence + pyval \<Rightarrow> pyval \<Rightarrow> exc + host_result" where
  "host_result_init identity state evidence version =
     (if \<not> eq_int version 1 then Inl ValueError
      else bindE (coerce_enum host_states host_state_value state) (\<lambda>s.
           bindE (coerce_evidence evidence) (\<lambda>e.
             Inr \<lparr>hr_identity = identity, hr_state = s, hr_evidence = e,
                  hr_contract_version = version\<rparr>)))"

definition hr_reason :: "host_result \<Rightarrow> reason_code" where
  "hr_reason r = ev_reason (hr_evidence r)"

definition host_result_to_dict :: "host_result \<Rightarrow> pyval" where
  "host_result_to_dict r = obj
     [(''contract_version'', hr_contract_version r),
      (''evidence'', scan_evidence_to_dict (hr_evidence r)),
      (''reason'', PStr (reason_code_value (hr_reason r))),
      (''record_type'', PStr ''host_result''),
      (''state'', PStr (host_state_value (hr_state r))),
      (''target'', target_identity_to_dict (hr_identity r))]"

definition host_result_from_dict :: "pyval \<Rightarrow> exc + host_result" where
  "host_result_from_dict payload =
     (case payload of
        PDict d \<Rightarrow>
          let version = dict_get_or d ''contract_version'' PNone
          in if \<not> eq_int version 1 then Inl ValueError
             else if dict_get_or d ''record_type'' PNone \<noteq> PStr ''host_result''
             then Inl ValueError
             else bindE (target_identity_from_dict (dict_get_or d ''target'' (PDict []))) (\<lambda>t.
               bindE (scan_evidence_from_dict (dict_get_or d ''evidence'' (PDict []))) (\<lambda>e.
               bindE (host_result_init t
                   (dict_get_or d ''state'' (PStr (host_state_value HS_UNKNOWN)))
                   (Inl e) version) (\<lambda>r.
                 let reason = PStr (reason_code_value (hr_reason r))
                 in if dict_get_or d ''reason'' reason \<noteq> reason then Inl ValueError
                    else Inr r)))
      | _ \<Rightarrow> Inl AttributeError)"

definition wf_host_result :: "host_result \<Rightarrow> bool" where
  "wf_host_result r \<longleftrightarrow>
     wf_identity (hr_identity r) \<and> wf_evidence (hr_evidence r) \<and>
     eq_int (hr_contract_version r) 1"

lemma host_result_accepted_wf: "host_result_from_dict p = Inr r \<Longrightarrow> wf_host_result r"
  by (cases p) (auto simp: host_result_from_dict_def host_result_init_def coerce_evidence_def
      wf_host_result_def Let_def run dest: target_identity_accepted_wf evid.accepted_wf)

lemma host_result_roundtrip:
  "wf_host_result r \<Longrightarrow> host_result_from_dict (host_result_to_dict r) =
     Inr (r\<lparr>hr_identity := drop_falsy (hr_identity r)\<rparr>)"
  by (cases r) (simp add: host_result_from_dict_def host_result_to_dict_def obj_def
      dict_get_or_def wf_host_result_def host_result_init_def coerce_evidence_def hr_reason_def
      target_identity_roundtrip evid.roundtrip)

section \<open>Properties\<close>

text \<open>
  An accepted scan request is normalised: a stripped target, sorted distinct ports in range,
  a positive timeout and no more workers than 512 or than ports. Written and read again it is
  the same request.
\<close>

theorem native_scan_request_contract:
  assumes "native_scan_request_from_dict p = Inr r"
  shows "wf_scan_request r \<and> native_scan_request_from_dict (native_scan_request_to_dict r) = Inr r"
  using nsr.accepted_wf [OF assms] nsr.normalised_once [OF assms] by simp

theorem native_scan_request_contract_witness:
  "native_scan_request_from_dict (native_scan_request_to_dict
     \<lparr>nsr_target = ''h'', nsr_ports = [22, 80], nsr_timeout_ms = 500, nsr_workers = 2,
      nsr_contract_version = PInt 1\<rparr>) = Inr
     \<lparr>nsr_target = ''h'', nsr_ports = [22, 80], nsr_timeout_ms = 500, nsr_workers = 2,
      nsr_contract_version = PInt 1\<rparr>"
proof -
  have "native_scan_request_from_dict (obj
      [(''contract_version'', PInt 1), (''record_type'', PStr ''scan_request''),
       (''target'', PStr '' h ''), (''ports'', PList [PInt 80, PInt 22, PInt 80]),
       (''timeout_ms'', PInt 500), (''workers'', PInt 2)]) = Inr
     \<lparr>nsr_target = ''h'', nsr_ports = [22, 80], nsr_timeout_ms = 500, nsr_workers = 2,
      nsr_contract_version = PInt 1\<rparr>"
    by code_simp
  from native_scan_request_contract [OF this] show ?thesis by simp
qed

text \<open>
  An accepted banner result has the banner and error detail its status asks for, and is read
  back as it was written.
\<close>

theorem native_banner_result_contract:
  assumes "native_banner_result_from_dict p = Inr r"
  shows "wf_banner_result r \<and>
    native_banner_result_from_dict (native_banner_result_to_dict r) = Inr r"
  using nres.accepted_wf [OF assms] nres.normalised_once [OF assms] by simp

theorem native_banner_result_contract_witness:
  "wf_banner_result \<lparr>nres_target = ''h'', nres_port = 22, nres_status = BS_CAPTURED,
     nres_service = ''SSH'', nres_banner = Some ''SSH-2.0'', nres_error = None,
     nres_contract_version = PInt 1\<rparr>"
proof -
  have "native_banner_result_from_dict (native_banner_result_to_dict
     \<lparr>nres_target = ''h'', nres_port = 22, nres_status = BS_CAPTURED,
      nres_service = ''SSH'', nres_banner = Some ''SSH-2.0'', nres_error = None,
      nres_contract_version = PInt 1\<rparr>) = Inr
     \<lparr>nres_target = ''h'', nres_port = 22, nres_status = BS_CAPTURED,
      nres_service = ''SSH'', nres_banner = Some ''SSH-2.0'', nres_error = None,
      nres_contract_version = PInt 1\<rparr>"
    by code_simp
  from native_banner_result_contract [OF this] show ?thesis by simp
qed

text \<open>
  An accepted host result keeps a canonical address of its family, and reading what was
  written gives it back up to falsy names, which the dictionary of an identity drops.
\<close>

theorem host_result_contract:
  assumes "host_result_from_dict p = Inr r"
  shows "wf_host_result r \<and> host_result_from_dict (host_result_to_dict r) =
    Inr (r\<lparr>hr_identity := drop_falsy (hr_identity r)\<rparr>)"
  using host_result_accepted_wf [OF assms] host_result_roundtrip by simp

theorem host_result_contract_witness:
  "\<exists>r. wf_host_result r \<and> hr_state r = HS_UP \<and> ti_address (hr_identity r) = ''10.0.0.1''"
proof -
  let ?r = "\<lparr>hr_identity = \<lparr>ti_requested = ''h'', ti_address = ''10.0.0.1'', ti_family = AF_IPV4,
      ti_canonical_name = PStr [], ti_source = PNone\<rparr>, hr_state = HS_UP,
      hr_evidence = default_evidence, hr_contract_version = PInt 1\<rparr>"
  have "host_result_from_dict (obj
     [(''contract_version'', PInt 1), (''record_type'', PStr ''host_result''),
      (''state'', PStr ''up''), (''target'', obj [(''requested'', PStr ''h''),
        (''address'', PStr ''10.0.0.1''), (''family'', PStr ''ipv4''),
        (''canonical_name'', PStr [])])]) = Inr ?r"
    by code_simp
  from host_result_contract [OF this] show ?thesis by (intro exI [of _ ?r]) simp
qed

end
