(* ===== verification/Scan_Results.thy ===== *)
theory Scan_Results
  imports Contracts
begin

text \<open>
  \<open>src/scanner.py\<close>: the canonical result of one port (\<open>ScanResult\<close>), the
  classification of connection errors, and the state of \<open>PortScanner\<close> while results of an
  external engine arrive.
\<close>

section \<open>\<open>ScanResult\<close>\<close>

text \<open>
  The constructor is modelled for an integer port, as every caller passes one. \<open>service\<close>,
  \<open>banner\<close> and \<open>target\<close> are kept unchecked; \<open>address\<close> is either falsy or the
  canonical text of an address.
\<close>

record scan_result =
  sr_port :: int
  sr_is_open :: pyval
  sr_service :: pyval
  sr_banner :: pyval
  sr_response_time :: pyfloat
  sr_protocol :: string
  sr_state :: port_state
  sr_target :: pyval
  sr_address :: pyval
  sr_family :: "address_family option"
  sr_host_state :: host_state
  sr_technique :: scan_technique
  sr_evidence :: scan_evidence
  sr_contract_version :: pyval

definition check_protocol :: "pyval \<Rightarrow> exc + string" where
  "check_protocol v =
     (case v of
        PStr s \<Rightarrow> if lower s \<in> {''tcp'', ''udp''} then Inr (lower s) else Inl ValueError
      | _ \<Rightarrow> Inl ValueError)"

definition resolve_state :: "pyval \<Rightarrow> pyval \<Rightarrow> exc + port_state" where
  "resolve_state state is_open =
     (if state = PNone then from_legacy_is_open is_open
      else coerce_enum port_states port_state_value state)"

definition default_reason :: "port_state \<Rightarrow> string \<Rightarrow> reason_code" where
  "default_reason s protocol =
     (case s of
        PS_OPEN \<Rightarrow> if protocol = ''udp'' then RC_UDP_RESPONSE else RC_CONNECTION_ACCEPTED
      | PS_CLOSED \<Rightarrow> RC_CONNECTION_REFUSED
      | PS_FILTERED \<Rightarrow> RC_NO_RESPONSE
      | PS_OPEN_FILTERED \<Rightarrow> RC_NO_RESPONSE
      | _ \<Rightarrow> RC_UNKNOWN)"

definition unsupported :: "scan_evidence \<Rightarrow> bool" where
  "unsupported e \<longleftrightarrow> ev_reason e = RC_UNKNOWN \<and> ev_source e = ''unknown''"

definition complete_evidence :: "port_state \<Rightarrow> string \<Rightarrow> scan_evidence \<Rightarrow> scan_evidence" where
  "complete_evidence s protocol e =
     (if unsupported e
      then \<lparr>ev_reason = default_reason s protocol, ev_source = ''compatibility'',
            ev_detail = PNone, ev_errno = PNone\<rparr>
      else e)"

text \<open>The last part of the constructor: address, family and target of the result.\<close>

definition resolve_address ::
    "pyval \<Rightarrow> pyval \<Rightarrow> pyval \<Rightarrow> exc + pyval \<times> address_family option \<times> pyval" where
  "resolve_address address family target =
     (if truthy address then
        bindE (ip_address_of_val address) (\<lambda>a.
        bindE (if family = PNone then Inr (family_of_ip a)
               else coerce_enum address_families address_family_value family) (\<lambda>fam.
          if fam \<noteq> family_of_ip a then Inl ValueError
          else Inr (PStr (ip_str a), Some fam,
                    if truthy target then target else PStr (ip_str a))))
      else if family \<noteq> PNone then Inl ValueError
      else Inr (address, None, target))"

definition scan_result_init ::
    "int \<Rightarrow> pyval \<Rightarrow> pyval \<Rightarrow> pyval \<Rightarrow> pyfloat \<Rightarrow> pyval \<Rightarrow> pyval \<Rightarrow> pyval \<Rightarrow> pyval \<Rightarrow> pyval
     \<Rightarrow> pyval \<Rightarrow> pyval \<Rightarrow> scan_evidence + pyval \<Rightarrow> pyval \<Rightarrow> exc + scan_result" where
  "scan_result_init port is_open service banner response_time protocol state target address
       family host_state technique evidence version =
     (if \<not> (1 \<le> port \<and> port \<le> 65535) then Inl ValueError
      else if \<not> eq_int version 1 then Inl ValueError
      else bindE (check_protocol protocol) (\<lambda>proto.
        bindE (resolve_state state is_open) (\<lambda>s.
        bindE (validate_legacy_projection s is_open) (\<lambda>_.
        bindE (coerce_enum host_states host_state_value host_state) (\<lambda>h.
        bindE (coerce_enum scan_techniques scan_technique_value technique) (\<lambda>tq.
        bindE (coerce_evidence evidence) (\<lambda>e.
        bindE (resolve_address address family target) (\<lambda>(addr, fam, tgt).
          Inr \<lparr>sr_port = port, sr_is_open = legacy_is_open s, sr_service = service,
               sr_banner = banner, sr_response_time = response_time, sr_protocol = proto,
               sr_state = s, sr_target = tgt, sr_address = addr, sr_family = fam,
               sr_host_state = h,
               sr_technique = (if proto = ''udp'' \<and> tq = ST_TCP_CONNECT then ST_UDP else tq),
               sr_evidence = complete_evidence s proto e,
               sr_contract_version = version\<rparr>))))))))"

definition sr_reason :: "scan_result \<Rightarrow> reason_code" where
  "sr_reason r = ev_reason (sr_evidence r)"

text \<open>\<open>attach_target_identity\<close> overwrites target, address and family.\<close>

definition attach_target_identity :: "pyval \<Rightarrow> pyval \<Rightarrow> scan_result \<Rightarrow> exc + scan_result" where
  "attach_target_identity target address r =
     bindE (ip_address_of_val address) (\<lambda>a.
       Inr (r\<lparr>sr_target := target, sr_address := PStr (ip_str a),
              sr_family := Some (family_of_ip a)\<rparr>))"

definition scan_result_to_dict :: "scan_result \<Rightarrow> pyval" where
  "scan_result_to_dict r = obj
     [(''address'', sr_address r),
      (''address_family'', str_or_none (map_option address_family_value (sr_family r))),
      (''banner'', sr_banner r),
      (''contract_version'', sr_contract_version r),
      (''evidence'', scan_evidence_to_dict (sr_evidence r)),
      (''host_state'', PStr (host_state_value (sr_host_state r))),
      (''is_open'', sr_is_open r),
      (''port'', PInt (sr_port r)),
      (''protocol'', PStr (sr_protocol r)),
      (''reason'', PStr (reason_code_value (sr_reason r))),
      (''record_type'', PStr ''port_result''),
      (''response_time'', PFloat (sr_response_time r)),
      (''service'', sr_service r),
      (''state'', PStr (port_state_value (sr_state r))),
      (''target'', sr_target r),
      (''technique'', PStr (scan_technique_value (sr_technique r)))]"

text \<open>A result without evidence takes its reason from the record itself.\<close>

definition evidence_payload :: "(pyval \<times> pyval) list \<Rightarrow> pyval" where
  "evidence_payload d =
     (let ev = dict_get_or d ''evidence'' (PDict []); reason = dict_get_or d ''reason'' PNone
      in if \<not> truthy ev \<and> truthy reason
         then obj [(''reason'', reason), (''source'', PStr ''contract'')] else ev)"

definition scan_result_from_dict :: "float_reader \<Rightarrow> pyval \<Rightarrow> exc + scan_result" where
  "scan_result_from_dict fs payload =
     (case payload of
        PDict d \<Rightarrow>
          let version = dict_get_or d ''contract_version'' PNone
          in if \<not> eq_int version 1 then Inl ValueError
             else if dict_get_or d ''record_type'' PNone \<noteq> PStr ''port_result''
             then Inl ValueError
             else bindE (reraise (\<lambda>e. e = KeyError \<or> is_type_or_value_error e) ValueError (
                 bindE (dict_at d ''port'') (\<lambda>pv.
                 bindE (py_int pv) (\<lambda>port.
                 bindE (dict_at d ''state'') (\<lambda>sv.
                 bindE (coerce_enum port_states port_state_value sv) (\<lambda>state.
                   Inr (port, state))))))) (\<lambda>(port, state).
               bindE (py_float fs (dict_get_or d ''response_time'' (PFloat (FFin 0)))) (\<lambda>rt.
               bindE (scan_evidence_from_dict (evidence_payload d)) (\<lambda>ev.
               bindE (scan_result_init port (dict_get_or d ''is_open'' (legacy_is_open state))
                   (dict_get_or d ''service'' (PStr [])) (dict_get_or d ''banner'' PNone) rt
                   (dict_get_or d ''protocol'' (PStr ''tcp''))
                   (PStr (port_state_value state))
                   (dict_get_or d ''target'' (PStr [])) (dict_get_or d ''address'' (PStr []))
                   (dict_get_or d ''address_family'' PNone)
                   (dict_get_or d ''host_state'' (PStr (host_state_value HS_UNKNOWN)))
                   (dict_get_or d ''technique'' (PStr (scan_technique_value ST_TCP_CONNECT)))
                   (Inl ev) version) (\<lambda>r.
                 let reason = PStr (reason_code_value (sr_reason r))
                 in if dict_get_or d ''reason'' reason \<noteq> reason then Inl ValueError
                    else Inr r))))
      | _ \<Rightarrow> Inl ValueError)"

section \<open>Well-formed results\<close>

definition wf_address :: "scan_result \<Rightarrow> bool" where
  "wf_address r \<longleftrightarrow>
     (case sr_family r of
        None \<Rightarrow> \<not> truthy (sr_address r)
      | Some fam \<Rightarrow> (\<exists>a. valid_ip a \<and> sr_address r = PStr (ip_str a) \<and> ip_str a \<noteq> [] \<and>
          fam = family_of_ip a) \<and> truthy (sr_target r))"

definition wf_scan_result :: "scan_result \<Rightarrow> bool" where
  "wf_scan_result r \<longleftrightarrow>
     1 \<le> sr_port r \<and> sr_port r \<le> 65535 \<and> eq_int (sr_contract_version r) 1 \<and>
     sr_protocol r \<in> {''tcp'', ''udp''} \<and> sr_is_open r = legacy_is_open (sr_state r) \<and>
     \<not> (sr_protocol r = ''udp'' \<and> sr_technique r = ST_TCP_CONNECT) \<and>
     wf_evidence (sr_evidence r) \<and> \<not> unsupported (sr_evidence r) \<and> wf_address r"

lemma check_protocol_Inr [run]:
  "check_protocol v = Inr p \<longleftrightarrow> (\<exists>s. v = PStr s \<and> p = lower s \<and> p \<in> {''tcp'', ''udp''})"
  by (cases v) (auto simp: check_protocol_def)

lemma ip_address_Nil: "ip_address [] = Inl ValueError"
  by code_simp

lemma ip_str_nonempty: "valid_ip a \<Longrightarrow> ip_str a \<noteq> []"
  using ip_roundtrip [of a] by (auto simp: ip_address_Nil)

lemma resolve_address_wf:
  assumes "resolve_address address family target = Inr (addr, fam, tgt)"
  shows "case fam of None \<Rightarrow> \<not> truthy addr
    | Some f \<Rightarrow> (\<exists>a. valid_ip a \<and> addr = PStr (ip_str a) \<and> ip_str a \<noteq> [] \<and>
        f = family_of_ip a) \<and> truthy tgt"
proof (cases "truthy address")
  case True
  with assms obtain a where "ip_address_of_val address = Inr a" "addr = PStr (ip_str a)"
    "fam = Some (family_of_ip a)" "tgt = (if truthy target then target else PStr (ip_str a))"
    by (auto simp: resolve_address_def run split: if_splits)
  moreover from this have "valid_ip a" by (intro ip_address_of_val_valid)
  ultimately show ?thesis using ip_str_nonempty [of a] by auto
next
  case False
  with assms show ?thesis by (auto simp: resolve_address_def split: if_splits)
qed

lemma resolve_address_id:
  assumes "valid_ip a" "truthy tgt"
  shows "resolve_address (PStr (ip_str a)) (PStr (address_family_value (family_of_ip a))) tgt =
    Inr (PStr (ip_str a), Some (family_of_ip a), tgt)"
  using assms by (simp add: resolve_address_def ip_str_nonempty ip_roundtrip)

lemma unsupported_complete [simp]: "\<not> unsupported (complete_evidence s p e)"
  by (simp add: complete_evidence_def unsupported_def)

lemma complete_evidence_id [simp]: "\<not> unsupported e \<Longrightarrow> complete_evidence s p e = e"
  by (simp add: complete_evidence_def)

lemma wf_complete_evidence: "wf_evidence e \<Longrightarrow> wf_evidence (complete_evidence s p e)"
proof -
  have "strip ''compatibility'' \<noteq> []" by code_simp
  then show "wf_evidence e \<Longrightarrow> wf_evidence (complete_evidence s p e)"
    by (simp add: complete_evidence_def wf_evidence_def is_int_or_none_def)
qed

lemma coerce_evidence_wf:
  assumes "coerce_evidence x = Inr e" "\<And>e. x = Inl e \<Longrightarrow> wf_evidence e"
  shows "wf_evidence e"
  using assms by (cases x) (auto simp: coerce_evidence_def intro: evid.accepted_wf)


lemma scan_result_init_Inr:
  "scan_result_init port is_open service banner rt protocol state target address
       family host_state technique evidence version = Inr r \<Longrightarrow>
   \<exists>addr fam tgt e. resolve_address address family target = Inr (addr, fam, tgt) \<and>
      coerce_evidence evidence = Inr e \<and>
    sr_address r = addr \<and> sr_family r = fam \<and> sr_target r = tgt \<and>
      sr_evidence r = complete_evidence (sr_state r) (sr_protocol r) e \<and>
      1 \<le> sr_port r \<and> sr_port r \<le> 65535 \<and> eq_int (sr_contract_version r) 1 \<and>
      sr_protocol r \<in> {''tcp'', ''udp''} \<and> sr_is_open r = legacy_is_open (sr_state r) \<and>
      \<not> (sr_protocol r = ''udp'' \<and> sr_technique r = ST_TCP_CONNECT) \<and>
      sr_port r = port \<and> sr_service r = service \<and> sr_banner r = banner \<and>
      sr_response_time r = rt \<and> sr_contract_version r = version \<and>
      (\<forall>s. protocol = PStr s \<longrightarrow> sr_protocol r = lower s) \<and>
      (\<forall>tq. technique = PStr (scan_technique_value tq) \<longrightarrow> sr_protocol r = ''tcp'' \<longrightarrow>
         sr_technique r = tq)"
  unfolding scan_result_init_def
  apply (simp only: run_if run_if_else bindE_Inr check_protocol_Inr Inr_inject Inl_Inr_False simp_thms split_beta)
  apply (elim exE conjE)
  apply (simp split del: if_split)
  apply hypsubst
  apply (simp add: prod_eq_iff)
  apply auto
  done

lemma scan_result_init_wf:
  assumes "scan_result_init port is_open service banner rt protocol state target address
       family host_state technique evidence version = Inr r"
    "\<And>e. evidence = Inl e \<Longrightarrow> wf_evidence e"
  shows "wf_scan_result r"
proof -
  obtain addr fam tgt e where
    *: "resolve_address address family target = Inr (addr, fam, tgt)"
      "coerce_evidence evidence = Inr e"
    and r: "sr_address r = addr" "sr_family r = fam" "sr_target r = tgt"
      "sr_evidence r = complete_evidence (sr_state r) (sr_protocol r) e"
      "1 \<le> sr_port r" "sr_port r \<le> 65535" "eq_int (sr_contract_version r) 1"
      "sr_protocol r \<in> {''tcp'', ''udp''}" "sr_is_open r = legacy_is_open (sr_state r)"
      "\<not> (sr_protocol r = ''udp'' \<and> sr_technique r = ST_TCP_CONNECT)"
    using scan_result_init_Inr [OF assms(1)] by blast
  from coerce_evidence_wf [OF *(2) assms(2)] have "wf_evidence e" by simp
  with r resolve_address_wf [OF *(1)] show ?thesis
    by (cases fam) (simp_all add: wf_scan_result_def wf_address_def wf_complete_evidence)
qed

lemma scan_result_init_id:
  assumes "wf_scan_result r"
  shows "scan_result_init (sr_port r) (legacy_is_open (sr_state r)) (sr_service r) (sr_banner r)
      (sr_response_time r) (PStr (sr_protocol r)) (PStr (port_state_value (sr_state r)))
      (sr_target r) (sr_address r) (str_or_none (map_option address_family_value (sr_family r)))
      (PStr (host_state_value (sr_host_state r)))
      (PStr (scan_technique_value (sr_technique r))) (Inl (sr_evidence r))
      (sr_contract_version r) = Inr r"
proof -
  have *: "resolve_address (sr_address r)
      (str_or_none (map_option address_family_value (sr_family r))) (sr_target r) =
      Inr (sr_address r, sr_family r, sr_target r)"
  proof (cases "sr_family r")
    case None with assms show ?thesis 
      by (simp add: wf_scan_result_def wf_address_def resolve_address_def)
  next
    case (Some f) with assms show ?thesis 
      by (auto simp: wf_scan_result_def wf_address_def resolve_address_id)
  qed
  have p: "check_protocol (PStr (sr_protocol r)) = Inr (sr_protocol r)"
  proof -
    have "check_protocol (PStr ''tcp'') = Inr ''tcp''" "check_protocol (PStr ''udp'') = Inr ''udp''"
      by code_simp+
    with assms show ?thesis by (auto simp: wf_scan_result_def)
  qed
  have s: "resolve_state (PStr (port_state_value (sr_state r))) x = Inr (sr_state r)" for x
    by (simp add: resolve_state_def)
  show ?thesis using assms
    by (simp add: scan_result_init_def * p s wf_scan_result_def coerce_evidence_def)
qed
lemma scan_result_from_dict_wf: 
  assumes "scan_result_from_dict fs p = Inr r" shows "wf_scan_result r"
proof (cases p)
  case (PDict d)
  show ?thesis using assms unfolding PDict scan_result_from_dict_def Let_def
    apply (simp only: pyval.case run_if bindE_Inr reraise_Inr split_beta)
    apply (elim exE conjE)
    apply (simp only: sum.inject)
    apply (erule scan_result_init_wf)
    apply (simp add: evid.accepted_wf)
    done
qed (use assms in \<open>auto simp: scan_result_from_dict_def\<close>)

interpretation sr: wire_record wf_scan_result scan_result_to_dict "scan_result_from_dict fs" for fs
proof
  show "scan_result_from_dict fs p = Inr r \<Longrightarrow> wf_scan_result r" for p r
    by (rule scan_result_from_dict_wf)
next
  fix r assume wf: "wf_scan_result r"
  have [simp]: "truthy (scan_evidence_to_dict (sr_evidence r))"
    by (simp add: scan_evidence_to_dict_def obj_def)
  from wf have [simp]: "wf_evidence (sr_evidence r)" "sr_is_open r = legacy_is_open (sr_state r)"
    "eq_int (sr_contract_version r) 1"
    by (simp_all add: wf_scan_result_def)
  show "scan_result_from_dict fs (scan_result_to_dict r) = Inr r"
    using scan_result_init_id [OF wf]
    by (simp add: scan_result_from_dict_def scan_result_to_dict_def obj_def dict_get_or_def
        dict_at_def evidence_payload_def Let_def evid.roundtrip)
qed
section \<open>Probes\<close>

text \<open>
  \<open>_classify_connect_error\<close>, with the numbers \<open>errno\<close> has on Linux: 111
  \<open>ECONNREFUSED\<close>, 104 \<open>ECONNRESET\<close>, 110 \<open>ETIMEDOUT\<close>, 113 \<open>EHOSTUNREACH\<close>, 101
  \<open>ENETUNREACH\<close>, 13 \<open>EACCES\<close>, 1 \<open>EPERM\<close>.
\<close>

definition classify_connect_error :: "int \<Rightarrow> port_state \<times> host_state \<times> reason_code" where
  "classify_connect_error n =
     (if n = 111 then (PS_CLOSED, HS_UP, RC_CONNECTION_REFUSED)
      else if n = 104 then (PS_CLOSED, HS_UP, RC_CONNECTION_RESET)
      else if n = 110 then (PS_FILTERED, HS_UNKNOWN, RC_TIMEOUT)
      else if n = 113 then (PS_FILTERED, HS_UNKNOWN, RC_HOST_UNREACHABLE)
      else if n = 101 then (PS_FILTERED, HS_UNKNOWN, RC_NETWORK_UNREACHABLE)
      else if n \<in> {13, 1} then (PS_FILTERED, HS_UNKNOWN, RC_PERMISSION_DENIED)
      else (PS_FILTERED, HS_UNKNOWN, RC_INTERNAL_ERROR))"

definition target_metadata :: "string \<Rightarrow> pyval \<times> pyval \<times> pyval" where
  "target_metadata host =
     (case ip_address host of
        Inl _ \<Rightarrow> (PStr host, PStr [], PNone)
      | Inr a \<Rightarrow> (PStr host, PStr (ip_str a), PStr (address_family_value (family_of_ip a))))"

text \<open>
  What the sockets of one probe can do. A TCP \<open>connect_ex\<close> returns a number; a UDP probe
  that receives data returns 0. Otherwise a timeout, an \<open>OSError\<close> with its number, if it has
  one, and text, or another exception, by the name of its class.
\<close>

datatype probe_outcome =
    Returned int
  | Timed_out
  | Os_error "int option" string
  | Other_error string

definition int_or_none :: "int option \<Rightarrow> pyval" where
  "int_or_none x = (case x of None \<Rightarrow> PNone | Some n \<Rightarrow> PInt n)"

text \<open>\<open>error.errno or 0\<close>.\<close>

definition errno_or_zero :: "int option \<Rightarrow> int" where
  "errno_or_zero x = (case x of None \<Rightarrow> 0 | Some n \<Rightarrow> n)"

definition probe_evidence :: "reason_code \<Rightarrow> pyval \<Rightarrow> pyval \<Rightarrow> scan_evidence" where
  "probe_evidence reason detail number =
     \<lparr>ev_reason = reason, ev_source = ''python'', ev_detail = detail, ev_errno = number\<rparr>"

text \<open>The constructor call that every branch of a probe ends with.\<close>

definition probe_result ::
    "string \<Rightarrow> scan_technique \<Rightarrow> string \<Rightarrow> int \<Rightarrow> pyfloat \<Rightarrow> string \<Rightarrow> port_state \<Rightarrow> host_state
     \<Rightarrow> scan_evidence \<Rightarrow> exc + scan_result" where
  "probe_result protocol technique host port rt service state host_state evidence =
     (case target_metadata host of (target, address, family) \<Rightarrow>
        scan_result_init port (legacy_is_open state) (PStr service) PNone rt (PStr protocol)
          (PStr (port_state_value state)) target address family
          (PStr (host_state_value host_state)) (PStr (scan_technique_value technique))
          (Inl evidence) (PInt 1))"

text \<open>
  \<open>config.COMMON_PORTS\<close>; a later entry of the same key overrides an earlier one, and all
  repeated entries agree.
\<close>

definition common_ports :: "(int \<times> string) list" where
  "common_ports =
     [(21, ''FTP''), (22, ''SSH''), (23, ''Telnet''), (25, ''SMTP''), (53, ''DNS''),
      (80, ''HTTP''), (110, ''POP3''), (143, ''IMAP''), (443, ''HTTPS''), (993, ''IMAPS''),
      (995, ''POP3S''), (3306, ''MySQL''), (3389, ''RDP''), (5432, ''PostgreSQL''),
      (5900, ''VNC''), (27017, ''MongoDB''), (8080, ''HTTP-Alt''), (8443, ''HTTPS-Alt''),
      (67, ''DHCP''), (68, ''DHCP''), (69, ''TFTP''), (123, ''NTP''), (161, ''SNMP''),
      (162, ''SNMP''), (389, ''LDAP''), (636, ''LDAPS''), (1723, ''PPTP''), (1812, ''RADIUS''),
      (1813, ''RADIUS''), (6379, ''Redis'')]"

definition service_of_port :: "(int \<Rightarrow> string) \<Rightarrow> int \<Rightarrow> string" where
  "service_of_port service_name port =
     (case map_of common_ports port of None \<Rightarrow> service_name port | Some s \<Rightarrow> s)"

text \<open>
  \<open>service_name\<close> stands for \<open>socket.getservbyport\<close> with its fallback and \<open>strerror\<close>
  for \<open>os.strerror\<close>. The result of an accepted connection is built inside the \<open>try\<close>, so an
  exception of its constructor would be answered by the last handler.
\<close>

definition scan_port_other :: "string \<Rightarrow> int \<Rightarrow> pyfloat \<Rightarrow> string \<Rightarrow> exc + scan_result" where
  "scan_port_other host port rt name =
     probe_result ''tcp'' ST_TCP_CONNECT host port rt [] PS_FILTERED HS_UNKNOWN
       (probe_evidence RC_INTERNAL_ERROR (PStr name) PNone)"

definition scan_port ::
    "(int \<Rightarrow> string) \<Rightarrow> (int \<Rightarrow> string) \<Rightarrow> string \<Rightarrow> int \<Rightarrow> pyfloat \<Rightarrow> probe_outcome
     \<Rightarrow> exc + scan_result" where
  "scan_port service_name strerror host port rt out =
     (case out of
        Returned n \<Rightarrow>
          (case (if n = 0
                 then probe_result ''tcp'' ST_TCP_CONNECT host port rt
                        (service_of_port service_name port) PS_OPEN HS_UP
                        (probe_evidence RC_CONNECTION_ACCEPTED PNone (PInt n))
                 else case classify_connect_error n of (state, host_state, reason) \<Rightarrow>
                   probe_result ''tcp'' ST_TCP_CONNECT host port rt [] state host_state
                     (probe_evidence reason
                        (if n > 0 then PStr (strerror n) else PNone) (PInt n))) of
             Inl e \<Rightarrow> scan_port_other host port rt ''ValueError''
           | Inr r \<Rightarrow> Inr r)
      | Timed_out \<Rightarrow>
          probe_result ''tcp'' ST_TCP_CONNECT host port rt [] PS_FILTERED HS_UNKNOWN
            (probe_evidence RC_TIMEOUT PNone PNone)
      | Os_error n text \<Rightarrow>
          (case classify_connect_error (errno_or_zero n) of (state, host_state, reason) \<Rightarrow>
             probe_result ''tcp'' ST_TCP_CONNECT host port rt [] state host_state
               (probe_evidence reason (PStr text) (int_or_none n)))
      | Other_error name \<Rightarrow> scan_port_other host port rt name)"

definition scan_udp_other :: "string \<Rightarrow> int \<Rightarrow> pyfloat \<Rightarrow> string \<Rightarrow> exc + scan_result" where
  "scan_udp_other host port rt name =
     probe_result ''udp'' ST_UDP host port rt [] PS_FILTERED HS_UNKNOWN
       (probe_evidence RC_INTERNAL_ERROR (PStr name) PNone)"

definition udp_verdict :: "int \<Rightarrow> port_state \<times> host_state \<times> reason_code" where
  "udp_verdict n =
     (if n \<in> {111, 104} then (PS_CLOSED, HS_UP, RC_ICMP_PORT_UNREACHABLE)
      else classify_connect_error n)"

definition scan_udp_port ::
    "string \<Rightarrow> int \<Rightarrow> pyfloat \<Rightarrow> probe_outcome \<Rightarrow> exc + scan_result" where
  "scan_udp_port host port rt out =
     (case out of
        Returned n \<Rightarrow>
          (case probe_result ''udp'' ST_UDP host port rt ''UDP'' PS_OPEN HS_UP
                  (probe_evidence RC_UDP_RESPONSE PNone PNone) of
             Inl e \<Rightarrow> scan_udp_other host port rt ''ValueError''
           | Inr r \<Rightarrow> Inr r)
      | Timed_out \<Rightarrow>
          (case probe_result ''udp'' ST_UDP host port rt ''UDP'' PS_OPEN_FILTERED HS_UNKNOWN
                  (probe_evidence RC_NO_RESPONSE PNone PNone) of
             Inl e \<Rightarrow> scan_udp_other host port rt ''ValueError''
           | Inr r \<Rightarrow> Inr r)
      | Os_error n text \<Rightarrow>
          (case udp_verdict (errno_or_zero n) of (state, host_state, reason) \<Rightarrow>
             probe_result ''udp'' ST_UDP host port rt [] state host_state
               (probe_evidence reason (PStr text) (int_or_none n)))
      | Other_error name \<Rightarrow> scan_udp_other host port rt name)"

lemma scan_result_init_exact:
  assumes "1 \<le> port" "port \<le> 65535" "protocol \<in> {''tcp'', ''udp''}"
    "\<not> (protocol = ''udp'' \<and> technique = ST_TCP_CONNECT)" "wf_evidence e" "\<not> unsupported e"
    "resolve_address address family target = Inr (address, fam, target)"
    "family = str_or_none (map_option address_family_value fam)"
  shows "scan_result_init port (legacy_is_open state) service banner rt (PStr protocol)
      (PStr (port_state_value state)) target address family
      (PStr (host_state_value host_state)) (PStr (scan_technique_value technique))
      (Inl e) (PInt 1) = Inr
       \<lparr>sr_port = port, sr_is_open = legacy_is_open state, sr_service = service,
        sr_banner = banner, sr_response_time = rt, sr_protocol = protocol, sr_state = state,
        sr_target = target, sr_address = address, sr_family = fam, sr_host_state = host_state,
        sr_technique = technique, sr_evidence = e, sr_contract_version = PInt 1\<rparr>"
proof -
  let ?r = "\<lparr>sr_port = port, sr_is_open = legacy_is_open state, sr_service = service,
        sr_banner = banner, sr_response_time = rt, sr_protocol = protocol, sr_state = state,
        sr_target = target, sr_address = address, sr_family = fam, sr_host_state = host_state,
        sr_technique = technique, sr_evidence = e, sr_contract_version = PInt 1\<rparr>"
  from resolve_address_wf [OF assms(7)] have "wf_address ?r"
    by (cases fam) (simp_all add: wf_address_def)
  with assms have "wf_scan_result ?r" by (simp add: wf_scan_result_def)
  from scan_result_init_id [OF this] show ?thesis by (simp add: assms(8))
qed

lemma ip_address_Inr_nonempty: "ip_address s = Inr a \<Longrightarrow> s \<noteq> []"
  using ip_address_Nil by force

lemma target_metadata_resolve:
  assumes "target_metadata host = (target, address, family)"
  obtains fam where "resolve_address address family target = Inr (address, fam, target)"
    "family = str_or_none (map_option address_family_value fam)"
    "fam = (case ip_address host of Inl _ \<Rightarrow> None | Inr a \<Rightarrow> Some (family_of_ip a))"
proof (cases "ip_address host")
  case (Inl e)
  with assms have "address = PStr []" "family = PNone" by (simp_all add: target_metadata_def)
  then show ?thesis using Inl that [of None] by (simp add: resolve_address_def)
next
  case (Inr a)
  then have a: "valid_ip a" "truthy (PStr host)"
    by (auto intro: ip_address_valid dest: ip_address_Inr_nonempty)
  from Inr assms have "target = PStr host" "address = PStr (ip_str a)"
    "family = PStr (address_family_value (family_of_ip a))"
    by (simp_all add: target_metadata_def)
  with resolve_address_id [OF a] show ?thesis
    by (intro that [of "Some (family_of_ip a)"]) (simp_all add: Inr)
qed

text \<open>What every branch of a probe delivers.\<close>

definition probe_ok ::
    "string \<Rightarrow> string \<Rightarrow> int \<Rightarrow> pyfloat \<Rightarrow> string \<Rightarrow> port_state \<Rightarrow> host_state \<Rightarrow> scan_evidence
     \<Rightarrow> scan_result \<Rightarrow> bool" where
  "probe_ok protocol host port rt service state host_state e r \<longleftrightarrow>
     wf_scan_result r \<and> sr_port r = port \<and> sr_protocol r = protocol \<and>
     sr_target r = PStr host \<and> sr_state r = state \<and> sr_host_state r = host_state \<and>
     sr_evidence r = e \<and> sr_response_time r = rt \<and> sr_service r = PStr service"

lemma probe_result_ok:
  assumes "1 \<le> port" "port \<le> 65535"
    "protocol = ''tcp'' \<and> technique = ST_TCP_CONNECT \<or> protocol = ''udp'' \<and> technique = ST_UDP"
  shows "\<exists>r. probe_result protocol technique host port rt service state host_state
      (probe_evidence reason detail (int_or_none number)) = Inr r \<and>
      probe_ok protocol host port rt service state host_state
        (probe_evidence reason detail (int_or_none number)) r"
proof -
  obtain target address family where t: "target_metadata host = (target, address, family)"
    by (cases "target_metadata host") auto
  then have h: "target = PStr host" by (auto simp: target_metadata_def split: sum.splits)
  let ?e = "probe_evidence reason detail (int_or_none number)"
  have "strip ''python'' \<noteq> []" by code_simp
  then have e: "wf_evidence ?e" "\<not> unsupported ?e"
    by (auto simp: probe_evidence_def wf_evidence_def unsupported_def is_int_or_none_def
        int_or_none_def split: option.splits)
  from t obtain fam where f: "resolve_address address family target = Inr (address, fam, target)"
    "family = str_or_none (map_option address_family_value fam)"
    by (rule target_metadata_resolve) auto
  have p: "protocol \<in> {''tcp'', ''udp''}"
    "\<not> (protocol = ''udp'' \<and> technique = ST_TCP_CONNECT)" using assms(3) by auto
  note x = scan_result_init_exact [OF assms(1,2) p e f, of state "PStr service" PNone rt host_state]
  show ?thesis unfolding probe_ok_def probe_result_def t prod.case x
    using scan_result_init_wf [OF x] e
    by (auto simp: h)
qed

lemmas probe_number = probe_result_ok [where number = "Some n" for n, unfolded int_or_none_def option.case]
lemmas probe_no_number = probe_result_ok [where number = None, unfolded int_or_none_def option.case]

lemma scan_port_other_ok:
  assumes "1 \<le> port" "port \<le> 65535"
  shows "\<exists>r. scan_port_other host port rt name = Inr r \<and>
    probe_ok ''tcp'' host port rt [] PS_FILTERED HS_UNKNOWN
      (probe_evidence RC_INTERNAL_ERROR (PStr name) PNone) r"
  unfolding scan_port_other_def by (rule probe_no_number) (use assms in auto)

lemma scan_udp_other_ok:
  assumes "1 \<le> port" "port \<le> 65535"
  shows "\<exists>r. scan_udp_other host port rt name = Inr r \<and>
    probe_ok ''udp'' host port rt [] PS_FILTERED HS_UNKNOWN
      (probe_evidence RC_INTERNAL_ERROR (PStr name) PNone) r"
  unfolding scan_udp_other_def by (rule probe_no_number) (use assms in auto)

lemma classify_closed:
  "classify_connect_error n = (s, h, rc) \<Longrightarrow>
     (s = PS_CLOSED \<longleftrightarrow> n \<in> {111, 104}) \<and> (s = PS_CLOSED \<or> s = PS_FILTERED) \<and>
     (s = PS_CLOSED \<longleftrightarrow> h = HS_UP)"
  by (auto simp: classify_connect_error_def split: if_splits)

section \<open>Properties\<close>

text \<open>
  C29. A result of one port read from its dictionary is well formed: port in range, state and
  legacy flag agree, UDP is not reported as a TCP connect, its evidence is not the unsupported
  default, address and family agree. It is read back exactly as it is written.
\<close>

theorem scan_result_contract:
  assumes "scan_result_from_dict fs p = Inr r"
  shows "wf_scan_result r \<and> scan_result_from_dict fs (scan_result_to_dict r) = Inr r"
  using sr.accepted_wf [OF assms] sr.normalised_once [OF assms] by simp

theorem scan_result_contract_witness:
  "\<exists>r. wf_scan_result r \<and> sr_technique r = ST_UDP \<and> sr_reason r = RC_UDP_RESPONSE"
proof -
  let ?r = "\<lparr>sr_port = 53, sr_is_open = PBool True, sr_service = PStr [], sr_banner = PNone,
    sr_response_time = FFin 0, sr_protocol = ''udp'', sr_state = PS_OPEN,
    sr_target = PStr ''10.0.0.1'', sr_address = PStr ''10.0.0.1'', sr_family = Some AF_IPV4,
    sr_host_state = HS_UNKNOWN, sr_technique = ST_UDP,
    sr_evidence = \<lparr>ev_reason = RC_UDP_RESPONSE, ev_source = ''compatibility'',
      ev_detail = PNone, ev_errno = PNone\<rparr>, sr_contract_version = PInt 1\<rparr>"
  have "scan_result_from_dict (\<lambda>_. None) (obj
      [(''contract_version'', PInt 1), (''record_type'', PStr ''port_result''),
       (''port'', PStr ''53''), (''state'', PStr ''open''), (''protocol'', PStr ''UDP''),
       (''address'', PStr ''10.0.0.1'')]) = Inr ?r"
    by code_simp
  from scan_result_contract [OF this] show ?thesis
    by (intro exI [of _ ?r]) (simp add: sr_reason_def)
qed

text \<open>
  C30. A TCP probe of a port in range always delivers a well-formed result for that port and
  host. The port is open exactly when the connection was accepted and closed exactly on
  \<open>ECONNREFUSED\<close> or \<open>ECONNRESET\<close>; every other outcome is filtered, and the host counts as up
  only when it answered.
\<close>

theorem scan_port_verdict:
  assumes "1 \<le> port" "port \<le> 65535"
  shows "\<exists>r. scan_port service_name strerror host port rt out = Inr r \<and>
    wf_scan_result r \<and> sr_port r = port \<and> sr_protocol r = ''tcp'' \<and> sr_target r = PStr host \<and>
    (sr_state r = PS_OPEN \<longleftrightarrow> out = Returned 0) \<and>
    (sr_state r = PS_CLOSED \<longleftrightarrow>
       (\<exists>n \<in> {111, 104}. out = Returned n \<or> (\<exists>text. out = Os_error (Some n) text))) \<and>
    sr_state r \<in> {PS_OPEN, PS_CLOSED, PS_FILTERED} \<and>
    (sr_host_state r = HS_UP \<longleftrightarrow> sr_state r \<noteq> PS_FILTERED)"
proof (cases out)
  case (Returned n)
  show ?thesis
  proof (cases "n = 0")
    case True
    let ?e = "probe_evidence RC_CONNECTION_ACCEPTED PNone (PInt n)"
    and ?service = "service_of_port service_name port"
    obtain r where
      "probe_result ''tcp'' ST_TCP_CONNECT host port rt ?service PS_OPEN HS_UP ?e = Inr r"
      "probe_ok ''tcp'' host port rt ?service PS_OPEN HS_UP ?e r"
      using probe_number [OF assms, of "''tcp''" ST_TCP_CONNECT] by blast
    with True show ?thesis by (simp add: Returned scan_port_def probe_ok_def)
  next
    case False
    obtain s h rc where c: "classify_connect_error n = (s, h, rc)"
      by (cases "classify_connect_error n") auto
    let ?e = "probe_evidence rc (if n > 0 then PStr (strerror n) else PNone) (PInt n)"
    obtain r where "probe_result ''tcp'' ST_TCP_CONNECT host port rt [] s h ?e = Inr r"
      "probe_ok ''tcp'' host port rt [] s h ?e r"
      using probe_number [OF assms, of "''tcp''" ST_TCP_CONNECT] by blast
    with False classify_closed [OF c] show ?thesis
      by (auto simp add: Returned scan_port_def probe_ok_def c)
  qed
next
  case Timed_out
  obtain r where "scan_port service_name strerror host port rt out = Inr r"
    "probe_ok ''tcp'' host port rt [] PS_FILTERED HS_UNKNOWN (probe_evidence RC_TIMEOUT PNone PNone) r"
    using probe_no_number [OF assms, of "''tcp''" ST_TCP_CONNECT]
    by (fastforce simp: scan_port_def Timed_out)
  then show ?thesis by (auto simp: probe_ok_def Timed_out)
next
  case (Os_error n msg)
  obtain s h rc where c: "classify_connect_error (errno_or_zero n) = (s, h, rc)"
    by (cases "classify_connect_error (errno_or_zero n)") auto
  obtain r where "scan_port service_name strerror host port rt out = Inr r"
    "probe_ok ''tcp'' host port rt [] s h (probe_evidence rc (PStr msg) (int_or_none n)) r"
    using probe_result_ok [OF assms, of "''tcp''" ST_TCP_CONNECT]
    by (fastforce simp: scan_port_def Os_error c)
  with classify_closed [OF c] show ?thesis
    by (cases n) (auto simp: probe_ok_def Os_error errno_or_zero_def)
next
  case (Other_error name)
  with scan_port_other_ok [OF assms] show ?thesis by (fastforce simp: scan_port_def probe_ok_def)
qed

theorem scan_port_verdict_witness:
  "\<exists>r. scan_port (\<lambda>_. ''unknown'') (\<lambda>_. ''refused'') ''10.0.0.1'' 22 (FFin 0) (Returned 111) = Inr r \<and>
     sr_state r = PS_CLOSED"
proof -
  have "1 \<le> (22::int)" "(22::int) \<le> 65535" by simp_all
  from scan_port_verdict [OF this, of "\<lambda>_. ''unknown''" "\<lambda>_. ''refused''" "''10.0.0.1''" "FFin 0"
      "Returned 111"] show ?thesis by auto
qed

text \<open>
  A UDP probe of a port in range always delivers a well-formed result. It is open exactly
  when data came back, open or filtered exactly on a timeout, and closed exactly when an error
  reported the port unreachable.
\<close>

theorem scan_udp_port_verdict:
  assumes "1 \<le> port" "port \<le> 65535"
  shows "\<exists>r. scan_udp_port host port rt out = Inr r \<and>
    wf_scan_result r \<and> sr_port r = port \<and> sr_protocol r = ''udp'' \<and> sr_target r = PStr host \<and>
    (sr_state r = PS_OPEN \<longleftrightarrow> (\<exists>n. out = Returned n)) \<and>
    (sr_state r = PS_OPEN_FILTERED \<longleftrightarrow> out = Timed_out) \<and>
    (sr_state r = PS_CLOSED \<longleftrightarrow> (\<exists>n \<in> {111, 104}. \<exists>msg. out = Os_error (Some n) msg)) \<and>
    sr_state r \<in> {PS_OPEN, PS_CLOSED, PS_FILTERED, PS_OPEN_FILTERED}"
proof (cases out)
  case (Returned n)
  obtain r where "probe_result ''udp'' ST_UDP host port rt ''UDP'' PS_OPEN HS_UP
      (probe_evidence RC_UDP_RESPONSE PNone PNone) = Inr r"
    "probe_ok ''udp'' host port rt ''UDP'' PS_OPEN HS_UP
      (probe_evidence RC_UDP_RESPONSE PNone PNone) r"
    using probe_no_number [OF assms, of "''udp''" ST_UDP] by blast
  then show ?thesis by (simp add: scan_udp_port_def probe_ok_def Returned)
next
  case Timed_out
  obtain r where "probe_result ''udp'' ST_UDP host port rt ''UDP'' PS_OPEN_FILTERED HS_UNKNOWN
      (probe_evidence RC_NO_RESPONSE PNone PNone) = Inr r"
    "probe_ok ''udp'' host port rt ''UDP'' PS_OPEN_FILTERED HS_UNKNOWN
      (probe_evidence RC_NO_RESPONSE PNone PNone) r"
    using probe_no_number [OF assms, of "''udp''" ST_UDP] by blast
  then show ?thesis by (simp add: scan_udp_port_def probe_ok_def Timed_out)
next
  case (Os_error n msg)
  obtain s h rc where c: "udp_verdict (errno_or_zero n) = (s, h, rc)"
    by (cases "udp_verdict (errno_or_zero n)") auto
  then have d: "(s = PS_CLOSED \<longleftrightarrow> errno_or_zero n \<in> {111, 104}) \<and> (s = PS_CLOSED \<or> s = PS_FILTERED)"
    by (auto simp: udp_verdict_def dest: classify_closed split: if_splits)
  obtain r where "scan_udp_port host port rt out = Inr r"
    "probe_ok ''udp'' host port rt [] s h (probe_evidence rc (PStr msg) (int_or_none n)) r"
    using probe_result_ok [OF assms, of "''udp''" ST_UDP]
    by (fastforce simp: scan_udp_port_def Os_error c)
  with d show ?thesis
    by (cases n) (auto simp: probe_ok_def Os_error errno_or_zero_def)
next
  case (Other_error name)
  with scan_udp_other_ok [OF assms] show ?thesis by (fastforce simp: scan_udp_port_def probe_ok_def)
qed
theorem scan_udp_port_verdict_witness:
  "\<exists>r. scan_udp_port ''10.0.0.1'' 53 (FFin 1) Timed_out = Inr r \<and> sr_state r = PS_OPEN_FILTERED"
proof -
  have "1 \<le> (53::int)" "(53::int) \<le> 65535" by simp_all
  from scan_udp_port_verdict [OF this, of "''10.0.0.1''" "FFin 1" Timed_out] show ?thesis by auto
qed

end
