(* ===== verification/Scanner.thy ===== *)
theory Scanner
  imports Scan_Results "HOL-Library.Multiset" "HOL-Library.Product_Lexorder"
    "HOL-Library.Sublist"
begin

text \<open>
  \<open>PortScanner\<close> of \<open>src/scanner.py\<close>: the state shared by the Python engine and by an
  external engine that reports its results one by one, the loop over finished probes, and the
  views and counts of the results. The thread pool is the list of events that the loop over
  \<open>as_completed\<close> sees.
\<close>

section \<open>State\<close>

text \<open>\<open>sc_calls\<close> records the calls of the progress callback, with exact percentages.\<close>

record scanner =
  sc_results :: "scan_result list"
  sc_is_scanning :: bool
  sc_callback :: bool
  sc_start_time :: "rat option"
  sc_end_time :: "rat option"
  sc_cancelled :: bool
  sc_calls :: "(rat \<times> scan_result) list"

definition new_scanner :: "bool \<Rightarrow> scanner" where
  "new_scanner callback =
     \<lparr>sc_results = [], sc_is_scanning = False, sc_callback = callback, sc_start_time = None,
      sc_end_time = None, sc_cancelled = False, sc_calls = []\<rparr>"

definition begin_scan :: "rat \<Rightarrow> scanner \<Rightarrow> scanner" where
  "begin_scan now s =
     s\<lparr>sc_results := [], sc_is_scanning := True, sc_start_time := Some now,
       sc_end_time := None, sc_cancelled := False\<rparr>"

definition result_key :: "scan_result \<Rightarrow> string \<times> int" where
  "result_key r = (sr_protocol r, sr_port r)"

definition finish_scan :: "rat \<Rightarrow> scanner \<Rightarrow> scanner" where
  "finish_scan now s =
     s\<lparr>sc_results := sort_key result_key (sc_results s), sc_is_scanning := False,
       sc_end_time := Some now\<rparr>"

definition cancel :: "scanner \<Rightarrow> scanner" where
  "cancel s = s\<lparr>sc_cancelled := True\<rparr>"

definition reset :: "scanner \<Rightarrow> scanner" where
  "reset s =
     s\<lparr>sc_results := [], sc_is_scanning := False, sc_start_time := None, sc_end_time := None,
       sc_cancelled := False\<rparr>"

definition progress :: "nat \<Rightarrow> int \<Rightarrow> rat" where
  "progress completed expected = of_nat completed / of_int expected * 100"

definition notify :: "nat \<Rightarrow> int \<Rightarrow> scan_result \<Rightarrow> scanner \<Rightarrow> scanner" where
  "notify completed expected r s =
     (if sc_callback s then s\<lparr>sc_calls := sc_calls s @ [(progress completed expected, r)]\<rparr> else s)"

section \<open>Views\<close>

definition get_reportable_results :: "scanner \<Rightarrow> scan_result list" where
  "get_reportable_results s = [r \<leftarrow> sc_results s. sr_state r = PS_OPEN]"

definition get_open_ports :: "scanner \<Rightarrow> scan_result list" where
  "get_open_ports s = get_reportable_results s"

definition get_closed_ports :: "scanner \<Rightarrow> scan_result list" where
  "get_closed_ports s = [r \<leftarrow> sc_results s. sr_state r = PS_CLOSED]"

definition get_filtered_ports :: "scanner \<Rightarrow> scan_result list" where
  "get_filtered_ports s =
     [r \<leftarrow> sc_results s. sr_state r \<in> {PS_FILTERED, PS_OPEN_FILTERED, PS_CLOSED_FILTERED}]"

text \<open>The counts of \<open>get_statistics\<close>; its floating-point averages and rates are left out.\<close>

record statistics =
  st_total_ports :: nat
  st_open_ports :: nat
  st_closed_ports :: nat
  st_filtered_ports :: nat
  st_unfiltered_ports :: nat
  st_state_counts :: "(string \<times> nat) list"

definition state_count :: "scan_result list \<Rightarrow> port_state \<Rightarrow> nat" where
  "state_count rs s = length [r \<leftarrow> rs. sr_state r = s]"

definition get_statistics :: "scanner \<Rightarrow> statistics" where
  "get_statistics s =
     (let count = state_count (sc_results s)
      in \<lparr>st_total_ports = length (sc_results s),
          st_open_ports = count PS_OPEN,
          st_closed_ports = count PS_CLOSED,
          st_filtered_ports = count PS_FILTERED + count PS_OPEN_FILTERED + count PS_CLOSED_FILTERED,
          st_unfiltered_ports = count PS_UNFILTERED,
          st_state_counts = map (\<lambda>p. (port_state_value p, count p)) port_states\<rparr>)"

section \<open>External engines\<close>

definition record_external_result :: "scan_result \<Rightarrow> int \<Rightarrow> scanner \<Rightarrow> exc + scanner" where
  "record_external_result r expected s =
     (if \<not> sc_is_scanning s then Inl RuntimeError
      else if expected \<le> 0 then Inl ValueError
      else if int (length (sc_results s)) \<ge> expected then Inl ValueError
      else if list_ex (\<lambda>x. sr_port x = sr_port r \<and> sr_protocol x = sr_protocol r) (sc_results s)
      then Inl ValueError
      else let s' = s\<lparr>sc_results := sc_results s @ [r]\<rparr>
           in Inr (notify (length (sc_results s')) expected r s'))"

fun replay :: "nat \<Rightarrow> int \<Rightarrow> scan_result list \<Rightarrow> scanner \<Rightarrow> scanner" where
  "replay i expected [] s = s"
| "replay i expected (r # rs) s = replay (Suc i) expected rs (notify i expected r s)"

definition finish_external_scan ::
    "rat \<Rightarrow> scan_result list \<Rightarrow> bool \<Rightarrow> scanner \<Rightarrow> scan_result list \<times> scanner" where
  "finish_external_scan now results replay_progress s =
     (let s' = finish_scan now (s\<lparr>sc_results := results\<rparr>);
          s'' = (if replay_progress
                 then replay 1 (int (length (sc_results s'))) (sc_results s') s' else s')
      in (get_reportable_results s'', s''))"

section \<open>The Python engine\<close>

text \<open>
  One event of the loop over \<open>as_completed\<close>: a future has finished, with the result of its
  probe or with an exception; another thread asked for cancellation; a \<open>KeyboardInterrupt\<close>
  reached the loop.
\<close>

datatype scan_event =
    Completed int "scan_result option"
  | Cancel_requested
  | Interrupted

definition worker_failure :: "string \<Rightarrow> string \<Rightarrow> int \<Rightarrow> exc + scan_result" where
  "worker_failure protocol host port =
     probe_result protocol (if protocol = ''tcp'' then ST_TCP_CONNECT else ST_UDP) host port
       (FFin 0) [] PS_FILTERED HS_UNKNOWN (probe_evidence RC_INTERNAL_ERROR PNone PNone)"

definition future_result :: "string \<Rightarrow> string \<Rightarrow> int \<Rightarrow> scan_result option \<Rightarrow> exc + scan_result" where
  "future_result protocol host port out =
     (case out of None \<Rightarrow> worker_failure protocol host port | Some r \<Rightarrow> Inr r)"

text \<open>The loop returns the exception that left it, if any, and the state.\<close>

fun scan_loop ::
    "string \<Rightarrow> string \<Rightarrow> int \<Rightarrow> nat \<Rightarrow> scan_event list \<Rightarrow> scanner \<Rightarrow> exc option \<times> scanner" where
  "scan_loop protocol host expected completed [] s = (None, s)"
| "scan_loop protocol host expected completed (Cancel_requested # evs) s =
     scan_loop protocol host expected completed evs (cancel s)"
| "scan_loop protocol host expected completed (Interrupted # evs) s =
     (Some KeyboardInterrupt, cancel s)"
| "scan_loop protocol host expected completed (Completed port out # evs) s =
     (if sc_cancelled s then (None, s)
      else case future_result protocol host port out of
        Inl e \<Rightarrow> (Some e, s)
      | Inr r \<Rightarrow>
          scan_loop protocol host expected (Suc completed) evs
            (notify (Suc completed) expected r (s\<lparr>sc_results := sc_results s @ [r]\<rparr>)))"

definition scan_ports ::
    "rat \<Rightarrow> rat \<Rightarrow> string \<Rightarrow> int list \<Rightarrow> string \<Rightarrow> scan_event list \<Rightarrow> scanner
     \<Rightarrow> (exc + scan_result list) \<times> scanner" where
  "scan_ports t0 t1 host ports protocol evs s =
     (if ports = [] then (Inr [], finish_scan t1 (begin_scan t0 s))
      else case scan_loop protocol host (int (length ports)) 0 evs (begin_scan t0 s) of
        (Some e, s') \<Rightarrow> (Inl e, s')
      | (None, s') \<Rightarrow>
          let s'' = finish_scan t1 s' in (Inr (get_reportable_results s''), s''))"

definition scan_range where
  "scan_range t0 t1 host start_port end_port protocol evs s =
     scan_ports t0 t1 host [start_port..end_port] protocol evs s"

definition scan_specific_ports where
  "scan_specific_ports t0 t1 host ports protocol evs s =
     scan_ports t0 t1 host ports protocol evs s"

definition scan_common_ports where
  "scan_common_ports t0 t1 host protocol evs s =
     scan_specific_ports t0 t1 host (sort (map fst common_ports)) protocol evs s"

section \<open>Lemmas\<close>

lemma record_external_result_Inr:
  "record_external_result r n s = Inr s' \<longleftrightarrow>
     sc_is_scanning s \<and> 0 < n \<and> int (length (sc_results s)) < n \<and>
     result_key r \<notin> result_key ` set (sc_results s) \<and>
     s' = notify (Suc (length (sc_results s))) n r (s\<lparr>sc_results := sc_results s @ [r]\<rparr>)"
  by (force simp: record_external_result_def result_key_def list_ex_iff Let_def image_iff)

lemma notify_simps [simp]:
  "sc_results (notify i n r s) = sc_results s"
  "sc_is_scanning (notify i n r s) = sc_is_scanning s"
  "sc_cancelled (notify i n r s) = sc_cancelled s"
  "sc_callback (notify i n r s) = sc_callback s"
  "sc_start_time (notify i n r s) = sc_start_time s"
  "sc_end_time (notify i n r s) = sc_end_time s"
  by (simp_all add: notify_def)

lemma replay_simps [simp]:
  "sc_results (replay i n rs s) = sc_results s"
  "sc_is_scanning (replay i n rs s) = sc_is_scanning s"
  "sc_end_time (replay i n rs s) = sc_end_time s"
  by (induction rs arbitrary: i s) simp_all

lemma replay_calls:
  "sc_callback s \<Longrightarrow> sc_calls (replay i n rs s) =
     sc_calls s @ map (\<lambda>(k, r). (progress k n, r)) (zip [i..<i + length rs] rs)"
proof (induction rs arbitrary: i s)
  case (Cons r rs)
  have "[i..<i + length (r # rs)] = i # [Suc i..<Suc i + length rs]"
    by (simp add: upt_rec)
  with Cons show ?case by (simp add: notify_def)
qed simp

text \<open>An external scan of \<open>n\<close> results: it is started, then results are recorded and it may be cancelled.\<close>

inductive external_run :: "int \<Rightarrow> scanner \<Rightarrow> scanner \<Rightarrow> bool" for n where
  started: "external_run n s (begin_scan t s)"
| recorded: "external_run n s s1 \<Longrightarrow> record_external_result r n s1 = Inr s2 \<Longrightarrow> external_run n s s2"
| cancelled: "external_run n s s1 \<Longrightarrow> external_run n s (cancel s1)"

definition external_inv :: "int \<Rightarrow> scanner \<Rightarrow> bool" where
  "external_inv n s \<longleftrightarrow> sc_is_scanning s \<and> distinct (map result_key (sc_results s)) \<and>
     (0 < n \<longrightarrow> int (length (sc_results s)) \<le> n) \<and> (n \<le> 0 \<longrightarrow> sc_results s = [])"

lemma external_run_inv: "external_run n s s' \<Longrightarrow> external_inv n s'"
  by (induction rule: external_run.induct)
    (auto simp: external_inv_def begin_scan_def cancel_def record_external_result_Inr)

lemma statistics_total:
  "length rs = (\<Sum>p \<leftarrow> port_states. state_count rs p)"
proof (induction rs)
  case (Cons r rs)
  then show ?case by (cases "sr_state r") (simp_all add: state_count_def port_states_def)
qed (simp add: state_count_def port_states_def)

lemma scan_loop_uncancelled:
  "list_all (\<lambda>e. \<exists>p out. e = Completed p out) evs \<Longrightarrow> \<not> sc_cancelled s \<Longrightarrow>
   \<not> sc_cancelled (snd (scan_loop protocol host n k evs s))"
  by (induction evs arbitrary: k s) (auto split: sum.splits)

text \<open>Whatever happens, the results kept are those of a prefix of the events.\<close>

fun completed_ports :: "scan_event list \<Rightarrow> int list" where
  "completed_ports [] = []"
| "completed_ports (Completed p out # evs) = p # completed_ports evs"
| "completed_ports (e # evs) = completed_ports evs"

text \<open>The probes return results of the port they were submitted for.\<close>

definition honest :: "string \<Rightarrow> scan_event \<Rightarrow> bool" where
  "honest protocol e =
     (case e of
        Completed p (Some r) \<Rightarrow> sr_port r = p \<and> sr_protocol r = protocol \<and> wf_scan_result r
      | Completed p None \<Rightarrow> 1 \<le> p \<and> p \<le> 65535
      | _ \<Rightarrow> True)"

lemma future_result_honest:
  assumes "honest protocol (Completed p out)" "protocol \<in> {''tcp'', ''udp''}"
  shows "\<exists>r. future_result protocol host p out = Inr r \<and> sr_port r = p \<and> sr_protocol r = protocol \<and> wf_scan_result r"
proof (cases out)
  case None
  with assms probe_no_number [of p protocol "if protocol = ''tcp'' then ST_TCP_CONNECT else ST_UDP"] show ?thesis
    by (fastforce simp: future_result_def worker_failure_def honest_def probe_ok_def)
qed (use assms in \<open>auto simp: honest_def future_result_def\<close>)

lemma scan_loop_prefix:
  assumes "protocol \<in> {''tcp'', ''udp''}"
  shows "list_all (honest protocol) evs \<Longrightarrow> scan_loop protocol host n k evs s = (err, s') \<Longrightarrow>
   \<exists>rs. sc_results s' = sc_results s @ rs \<and> prefix (map sr_port rs) (completed_ports evs) \<and> (err = None \<or> err = Some KeyboardInterrupt \<and> sc_cancelled s') \<and>
     list_all (\<lambda>r. sr_protocol r = protocol \<and> wf_scan_result r) rs \<and>
     (\<not> sc_cancelled s' \<longrightarrow> map sr_port rs = completed_ports evs)"
proof (induction evs arbitrary: k s)
  case (Cons e evs)
  show ?case
  proof (cases e)
    case (Completed p out)
    show ?thesis
    proof (cases "sc_cancelled s")
      case False
      obtain r where r: "future_result protocol host p out = Inr r" "sr_port r = p" "sr_protocol r = protocol" "wf_scan_result r"
        using future_result_honest [of protocol p out] assms Cons.prems(1) Completed by auto
      with Cons.prems False Completed Cons.IH [of "Suc k" "notify (Suc k) n r (s\<lparr>sc_results := sc_results s @ [r]\<rparr>)"]
      obtain rs where "sc_results s' = (sc_results s @ [r]) @ rs \<and> prefix (map sr_port rs) (completed_ports evs) \<and> (err = None \<or> err = Some KeyboardInterrupt \<and> sc_cancelled s') \<and>
     list_all (\<lambda>r. sr_protocol r = protocol \<and> wf_scan_result r) rs \<and>
     (\<not> sc_cancelled s' \<longrightarrow> map sr_port rs = completed_ports evs)" by auto
      with r Completed show ?thesis by (intro exI [of _ "r # rs"]) auto
    qed (use Cons.prems Completed in auto)
  next
    case Cancel_requested
    with Cons.prems Cons.IH [of k "cancel s"] show ?thesis by (simp add: cancel_def)
  qed (use Cons in \<open>auto simp: cancel_def\<close>)
qed simp

lemma finish_begin_simps [simp]:
  "sc_results (finish_scan t s) = sort_key result_key (sc_results s)"
  "sc_is_scanning (finish_scan t s) = False"
  "sc_results (begin_scan t s) = []"
  "sc_cancelled (begin_scan t s) = False"
  by (simp_all add: finish_scan_def begin_scan_def)

lemma mset_map_sort_key [simp]: "mset (map f (sort_key g xs)) = mset (map f xs)"
  by simp

section \<open>Properties\<close>

text \<open>
  C17. A scan that is neither cancelled nor interrupted, whatever the order in which the probes
  finish and even if some of them raise, keeps exactly one result per requested port, sorted by
  protocol and port, returns the open ones and leaves the scanner idle.
\<close>

theorem scan_ports_all:
  assumes "protocol \<in> {''tcp'', ''udp''}" "list_all (honest protocol) evs"
    "list_all (\<lambda>e. \<exists>p out. e = Completed p out) evs"
    "mset (completed_ports evs) = mset ports"
  shows "\<exists>s'. scan_ports t0 t1 host ports protocol evs s = (Inr (get_reportable_results s'), s') \<and>
    mset (map sr_port (sc_results s')) = mset ports \<and>
    sorted (map result_key (sc_results s')) \<and> \<not> sc_is_scanning s'"
proof (cases "ports = []")
  case True
  then show ?thesis by (simp add: scan_ports_def get_reportable_results_def)
next
  case False
  obtain err s1 where l: "scan_loop protocol host (int (length ports)) 0 evs (begin_scan t0 s) = (err, s1)"
    by force
  with scan_loop_uncancelled [OF assms(3), of "begin_scan t0 s" protocol host "int (length ports)" 0]
  have "\<not> sc_cancelled s1" by simp
  with scan_loop_prefix [OF assms(1,2) l] have "err = None" "map sr_port (sc_results s1) = completed_ports evs"
    by auto
  with l False show ?thesis
    using assms(4) by (simp add: scan_ports_def Let_def del: mset_map)
qed

definition two_probes :: "scan_event list" where
  "two_probes =
     [Completed 80 None,
      Completed 22 (Some \<lparr>sr_port = 22, sr_is_open = PBool True, sr_service = PStr ''SSH'',
        sr_banner = PNone, sr_response_time = FFin 0, sr_protocol = ''tcp'', sr_state = PS_OPEN,
        sr_target = PStr ''h'', sr_address = PStr [], sr_family = None, sr_host_state = HS_UP,
        sr_technique = ST_TCP_CONNECT, sr_evidence = probe_evidence RC_CONNECTION_ACCEPTED PNone PNone,
        sr_contract_version = PInt 1\<rparr>)]"

lemma two_probes_honest: "list_all (honest ''tcp'') two_probes"
proof -
  have "strip ''python'' \<noteq> []" by code_simp
  then show ?thesis
    by (simp add: two_probes_def honest_def wf_scan_result_def wf_address_def wf_evidence_def
        unsupported_def probe_evidence_def is_int_or_none_def)
qed

theorem scan_ports_all_witness:
  "\<exists>s'. scan_ports 0 1 ''h'' [22, 80] ''tcp'' two_probes (new_scanner False) =
       (Inr (get_reportable_results s'), s') \<and>
     mset (map sr_port (sc_results s')) = {#22, 80#}"
proof -
  have "''tcp'' \<in> {''tcp'', ''udp''}" "list_all (\<lambda>e. \<exists>p out. e = Completed p out) two_probes"
    "mset (completed_ports two_probes) = mset [22, 80]"
    by (simp_all add: two_probes_def)
  from scan_ports_all [OF this(1) two_probes_honest this(2,3), of 0 1 "''h''" "new_scanner False"]
  show ?thesis by auto
qed

text \<open>
  Under cancellation or interruption at any moment, the results kept belong to requested
  ports, each at most as often as it was requested, and all are well formed. The scan fails only
  with \<open>KeyboardInterrupt\<close>, after asking for cancellation.
\<close>

theorem scan_ports_some:
  assumes "protocol \<in> {''tcp'', ''udp''}" "list_all (honest protocol) evs"
    "mset (completed_ports evs) \<subseteq># mset ports"
    "scan_ports t0 t1 host ports protocol evs s = (res, s')"
  shows "mset (map sr_port (sc_results s')) \<subseteq># mset ports \<and>
    list_all wf_scan_result (sc_results s') \<and>
    (\<forall>rs. res = Inr rs \<longrightarrow> rs = get_reportable_results s' \<and> \<not> sc_is_scanning s') \<and>
    (\<forall>e. res = Inl e \<longrightarrow> e = KeyboardInterrupt \<and> sc_cancelled s')"
proof (cases "ports = []")
  case True
  with assms(4) show ?thesis by (auto simp add: scan_ports_def get_reportable_results_def)
next
  case False
  obtain err s1 where l: "scan_loop protocol host (int (length ports)) 0 evs (begin_scan t0 s) = (err, s1)"
    by force
  from scan_loop_prefix [OF assms(1,2) l] obtain rs where rs: "sc_results s1 = rs" "prefix (map sr_port rs) (completed_ports evs)"
      "err = None \<or> err = Some KeyboardInterrupt \<and> sc_cancelled s1" "list_all wf_scan_result rs"
    by (auto simp: list_all_iff)
  from rs(2) have "mset (map sr_port rs) \<subseteq># mset ports"
    by (intro subset_mset.order_trans [OF _ assms(3)]) (auto simp: prefix_def simp del: mset_map)
  with rs l False assms(4) show ?thesis
    by (cases err) (auto simp: scan_ports_def Let_def list_all_iff simp del: mset_map)
qed


theorem scan_ports_some_witness:
  "scan_ports 0 1 ''h'' [22, 80] ''tcp'' (Interrupted # two_probes) (new_scanner False) =
     (Inl KeyboardInterrupt, cancel (begin_scan 0 (new_scanner False))) \<and>
   mset (map sr_port (sc_results (cancel (begin_scan 0 (new_scanner False))))) \<subseteq># mset [22, 80]"
proof -
  have "''tcp'' \<in> {''tcp'', ''udp''}" "list_all (honest ''tcp'') (Interrupted # two_probes)"
    "mset (completed_ports (Interrupted # two_probes)) \<subseteq># mset [22, 80]"
    "scan_ports 0 1 ''h'' [22, 80] ''tcp'' (Interrupted # two_probes) (new_scanner False) =
     (Inl KeyboardInterrupt, cancel (begin_scan 0 (new_scanner False)))"
    using two_probes_honest by (simp_all add: two_probes_def honest_def scan_ports_def add_mset_commute)
  from scan_ports_some [OF this] this(4) show ?thesis by simp
qed

text \<open>
  C31. While an external engine reports, results never repeat a port of a protocol and never
  exceed the announced number, and the scanner stays active, cancelled or not.
\<close>

theorem external_scan_invariant:
  assumes "external_run n s s'" "0 < n"
  shows "sc_is_scanning s' \<and> distinct (map result_key (sc_results s')) \<and>
    int (length (sc_results s')) \<le> n"
  using external_run_inv [OF assms(1)] assms(2) by (simp add: external_inv_def)

theorem external_scan_invariant_witness:
  "sc_is_scanning (cancel (begin_scan 0 (new_scanner True)))"
  using external_scan_invariant [OF external_run.cancelled [OF external_run.started], of 3 0
      "new_scanner True"] by simp

text \<open>
  Ending an external scan sorts its results, returns the open ones, and replays the
  progress of every result in that order, ending at 100.
\<close>

theorem finish_external_scan_replays:
  assumes "finish_external_scan t rs True s = (reported, s')" "sc_callback s" "rs \<noteq> []"
  shows "mset (sc_results s') = mset rs \<and> sorted (map result_key (sc_results s')) \<and>
    \<not> sc_is_scanning s' \<and> reported = [r \<leftarrow> sc_results s'. sr_state r = PS_OPEN] \<and>
    map snd (sc_calls s') = map snd (sc_calls s) @ sc_results s' \<and>
    fst (last (sc_calls s')) = 100"
proof -
  let ?rs = "sort_key result_key rs"
  let ?s = "finish_scan t (s\<lparr>sc_results := rs\<rparr>)"
  have n: "?rs \<noteq> []" using assms(3) by (metis length_0_conv length_sort)
  from assms(1) have s': "s' = replay 1 (int (length rs)) ?rs ?s"
    by (simp add: finish_external_scan_def Let_def)
  define ks where "ks = [1..<Suc (length rs)]"
  have k: "length ks = length rs" "last ks = length rs" "zip ks ?rs \<noteq> []"
    using assms(3) n by (auto simp: ks_def Suc_le_eq)
  have c: "sc_calls s' =
      sc_calls s @ map (\<lambda>(k, r). (progress k (int (length rs)), r)) (zip ks ?rs)"
    using replay_calls [of ?s 1 "int (length rs)" ?rs] assms(2) s'
    by (simp add: finish_scan_def ks_def)
  have "last (zip ks ?rs) = (length rs, last ?rs)"
    using assms(3) n k by (subst last_zip) auto
  with k(3) have "fst (last (sc_calls s')) = progress (length rs) (int (length rs))"
    by (simp add: c last_map del: zip_eq_Nil_iff)
  moreover have "map snd (sc_calls s') = map snd (sc_calls s) @ ?rs"
    by (simp add: c comp_def case_prod_unfold k(1))
  ultimately show ?thesis
    using assms(1,3) by (auto simp: s' finish_external_scan_def get_reportable_results_def
        progress_def Let_def)
qed

theorem finish_external_scan_replays_witness:
  "\<forall>r. map snd (sc_calls (snd (finish_external_scan 1 [r, r] True (new_scanner True)))) = [r, r]"
proof
  fix r
  have "finish_external_scan 1 [r, r] True (new_scanner True) =
      (fst (finish_external_scan 1 [r, r] True (new_scanner True)),
       snd (finish_external_scan 1 [r, r] True (new_scanner True)))"
    "sc_callback (new_scanner True)" "[r, r] \<noteq> []"
    by (simp_all add: new_scanner_def)
  from finish_external_scan_replays [OF this]
  show "map snd (sc_calls (snd (finish_external_scan 1 [r, r] True (new_scanner True)))) = [r, r]"
    by (simp add: finish_external_scan_def Let_def new_scanner_def)
qed

text \<open>
  The counts of a scan are consistent: the per-state counts add up to the number of results,
  and so do open, closed, filtered and unfiltered; each is the length of its view.
\<close>

theorem statistics_consistent:
  "sum_list (map snd (st_state_counts (get_statistics s))) = st_total_ports (get_statistics s) \<and>
   st_open_ports (get_statistics s) + st_closed_ports (get_statistics s) +
     st_filtered_ports (get_statistics s) + st_unfiltered_ports (get_statistics s) =
     st_total_ports (get_statistics s) \<and>
   st_open_ports (get_statistics s) = length (get_open_ports s) \<and>
   st_closed_ports (get_statistics s) = length (get_closed_ports s) \<and>
   st_filtered_ports (get_statistics s) = length (get_filtered_ports s)"
proof -
  have "length [r \<leftarrow> rs. sr_state r \<in> {PS_FILTERED, PS_OPEN_FILTERED, PS_CLOSED_FILTERED}] =
      state_count rs PS_FILTERED + state_count rs PS_OPEN_FILTERED +
      state_count rs PS_CLOSED_FILTERED" for rs
    by (induction rs) (auto simp: state_count_def)
  then show ?thesis
    using statistics_total [of "sc_results s"]
    by (simp add: get_statistics_def Let_def comp_def get_open_ports_def get_closed_ports_def
        get_reportable_results_def get_filtered_ports_def state_count_def port_states_def)
qed

end
