(* ===== verification/Targets.thy ===== *)
theory Targets
  imports Contracts "HOL-Library.Product_Lexorder"
begin

text \<open>
  \<open>src/targets.py\<close> and \<open>src/network.py\<close>: target specifications (addresses, CIDR blocks,
  ranges, hostnames) are expanded under a limit, deduplicated and filtered by exclusions, then
  resolved to identities in a fixed order. Files and \<open>getaddrinfo\<close> are parameters.
\<close>

section \<open>\<open>ipaddress.ip_network(s, strict=False)\<close>\<close>

datatype network = Net4 int nat | Net6 int nat

text \<open>The address of the network and its prefix length.\<close>

definition prefix_of_digits :: "nat \<Rightarrow> string \<Rightarrow> nat option" where
  "prefix_of_digits width s =
     (if s \<noteq> [] \<and> list_all is_digit s \<and> from_digits 10 s \<le> int width
      then Some (nat (from_digits 10 s)) else None)"

text \<open>A bits of 32 bits is a run of ones and a run of zeros.\<close>

definition prefix_of_mask :: "int \<Rightarrow> nat option" where
  "prefix_of_mask n = List.find (\<lambda>p. n = 2 ^ 32 - 2 ^ (32 - p)) [0..<33]"

definition netmask_prefix4 :: "string \<Rightarrow> nat option" where
  "netmask_prefix4 s =
     (case prefix_of_digits 32 s of
        Some p \<Rightarrow> Some p
      | None \<Rightarrow>
        (case ipv4_of_str s of
           None \<Rightarrow> None
         | Some n \<Rightarrow>
           (case prefix_of_mask n of
              Some p \<Rightarrow> Some p
            | None \<Rightarrow> prefix_of_mask (2 ^ 32 - 1 - n))))"

definition clear_host_bits :: "nat \<Rightarrow> nat \<Rightarrow> int \<Rightarrow> int" where
  "clear_host_bits width p n = n - n mod 2 ^ (width - p)"

definition ip_network4 :: "string list \<Rightarrow> network option" where
  "ip_network4 parts =
     (case parts of
        [host, bits] \<Rightarrow>
          (case (ipv4_of_str host, netmask_prefix4 bits) of
             (Some n, Some p) \<Rightarrow> Some (Net4 (clear_host_bits 32 p n) p)
           | _ \<Rightarrow> None)
      | _ \<Rightarrow> None)"

definition ip_network6 :: "string list \<Rightarrow> network option" where
  "ip_network6 parts =
     (case parts of
        [host, bits] \<Rightarrow>
          (case split_scope host of
             None \<Rightarrow> None
           | Some (text, scope) \<Rightarrow>
             (case (ipv6_of_str text, prefix_of_digits 128 bits) of
                (Some n, Some p) \<Rightarrow> Some (Net6 (clear_host_bits 128 p n) p)
              | _ \<Rightarrow> None))
      | _ \<Rightarrow> None)"

text \<open>Only text that contains a slash is given to it.\<close>

definition ip_network :: "string \<Rightarrow> exc + network" where
  "ip_network s =
     (let parts = split_on CHR ''/'' s
      in case ip_network4 parts of
           Some n \<Rightarrow> Inr n
         | None \<Rightarrow> (case ip_network6 parts of Some n \<Rightarrow> Inr n | None \<Rightarrow> Inl ValueError))"

fun num_addresses :: "network \<Rightarrow> int" where
  "num_addresses (Net4 n p) = 2 ^ (32 - p)"
| "num_addresses (Net6 n p) = 2 ^ (128 - p)"

fun network_addresses :: "network \<Rightarrow> ip list" where
  "network_addresses (Net4 n p) = map V4 [n..n + 2 ^ (32 - p) - 1]"
| "network_addresses (Net6 n p) = map (\<lambda>i. V6 i None) [n..n + 2 ^ (128 - p) - 1]"

section \<open>The parser\<close>

datatype target_kind = TK_IPV4 | TK_IPV6 | TK_HOSTNAME

record parsed_target =
  pt_value :: string
  pt_kind :: target_kind
  pt_source :: string
  pt_specification :: string

definition default_target_expansion_limit :: int where
  "default_target_expansion_limit = 4096"

text \<open>\<open>TargetParser.__init__\<close>: a \<open>bool\<close> passes for an integer.\<close>

definition target_parser_init :: "pyval \<Rightarrow> exc + int" where
  "target_parser_init v =
     (case v of
        PInt n \<Rightarrow> if n < 1 then Inl ValueError else Inr n
      | PBool b \<Rightarrow> if b then Inr 1 else Inl ValueError
      | _ \<Rightarrow> Inl ValueError)"

definition tokens_of :: "string \<Rightarrow> string list" where
  "tokens_of raw = concat (map split_ws (split_on CHR '','' raw))"

text \<open>\<open>None\<close>, a text, or a list of texts.\<close>

definition normalize_input :: "pyval \<Rightarrow> exc + string list" where
  "normalize_input v =
     (case v of
        PNone \<Rightarrow> Inr []
      | PStr s \<Rightarrow> Inr (tokens_of s)
      | PList xs \<Rightarrow>
          bindE (map_err (\<lambda>x. case x of PStr s \<Rightarrow> Inr (tokens_of s) | _ \<Rightarrow> Inl TargetParseError) xs)
            (\<lambda>ts. Inr (concat ts))
      | _ \<Rightarrow> Inl TypeError)"

definition normalize_literal :: "string \<Rightarrow> string" where
  "normalize_literal s =
     (if starts_with ''['' s \<and> ends_with '']'' s then butlast (tl s) else s)"

text \<open>One label of the hostname pattern: 1 to 63 letters, digits and inner hyphens.\<close>

definition hostname_label :: "string \<Rightarrow> bool" where
  "hostname_label l \<longleftrightarrow>
     l \<noteq> [] \<and> length l \<le> 63 \<and> is_alnum_ascii (hd l) \<and> is_alnum_ascii (last l) \<and>
     list_all (\<lambda>c. is_alnum_ascii c \<or> c = CHR ''-'') l"

definition hostname_pattern :: "string \<Rightarrow> bool" where
  "hostname_pattern s \<longleftrightarrow> list_all hostname_label (split_on CHR ''.'' s)"

definition validate_hostname :: "string \<Rightarrow> exc + string" where
  "validate_hostname value =
     (let normalized = (if ends_with ''.'' value then butlast value else value)
      in if normalized = [] \<or> length normalized > 253 \<or> \<not> hostname_pattern normalized
         then Inl TargetParseError else Inr (lower normalized))"

definition ensure_capacity :: "int \<Rightarrow> int \<Rightarrow> int \<Rightarrow> exc + unit" where
  "ensure_capacity max_targets current additional =
     (if additional > max_targets - current then Inl TargetExpansionLimitError else Inr ())"

definition kind_of_version :: "int \<Rightarrow> target_kind" where
  "kind_of_version v = (if v = 4 then TK_IPV4 else TK_IPV6)"

definition expand_cidr :: "int \<Rightarrow> string \<Rightarrow> exc + (string \<times> target_kind) list" where
  "expand_cidr max_targets value =
     bindE (reraise is_value_error TargetParseError (ip_network value)) (\<lambda>net.
     bindE (ensure_capacity max_targets 0 (num_addresses net)) (\<lambda>_.
       let kind = (case net of Net4 _ _ \<Rightarrow> TK_IPV4 | Net6 _ _ \<Rightarrow> TK_IPV6)
       in Inr (map (\<lambda>a. (ip_str a, kind)) (network_addresses net))))"

text \<open>Each number of a range goes through \<open>ip_address\<close> again, without its version.\<close>

definition expand_range :: "int \<Rightarrow> ip \<Rightarrow> ip \<Rightarrow> exc + (string \<times> target_kind) list" where
  "expand_range max_targets start end_ip =
     (if ip_version start \<noteq> ip_version end_ip then Inl TargetParseError
      else if ip_int start > ip_int end_ip then Inl TargetParseError
      else bindE (ensure_capacity max_targets 0 (ip_int end_ip - ip_int start + 1)) (\<lambda>_.
        let kind = kind_of_version (ip_version start)
        in map_err (\<lambda>n. bindE (ip_address_of_int n) (\<lambda>a. Inr (ip_str a, kind)))
             [ip_int start..ip_int end_ip]))"

definition expand_single :: "string \<Rightarrow> exc + (string \<times> target_kind) list" where
  "expand_single value =
     (case ip_address value of
        Inr a \<Rightarrow> Inr [(ip_str a, kind_of_version (ip_version a))]
      | Inl e \<Rightarrow>
          if is_value_error e
          then bindE (validate_hostname value) (\<lambda>h. Inr [(h, TK_HOSTNAME)]) else Inl e)"

text \<open>A hyphen makes a range only when both sides are addresses.\<close>

definition range_ends :: "string \<Rightarrow> (ip \<times> ip) option" where
  "range_ends value =
     (case partition_on CHR ''-'' value of (start_text, sep, end_text) \<Rightarrow>
        if \<not> sep then None
        else (case (ip_address start_text, ip_address end_text) of
                (Inr a, Inr b) \<Rightarrow> Some (a, b)
              | _ \<Rightarrow> None))"

definition expand_specification :: "int \<Rightarrow> string \<Rightarrow> exc + (string \<times> target_kind) list" where
  "expand_specification max_targets specification =
     (let value = normalize_literal (strip specification)
      in if value = [] then Inl TargetParseError
         else if CHR ''/'' \<in> set value then expand_cidr max_targets value
         else case range_ends value of
           Some (a, b) \<Rightarrow> expand_range max_targets a b
         | None \<Rightarrow> expand_single value)"

text \<open>
  \<open>_read_target_file\<close> is a generator: an item is a token with the place it was read from, or
  the exception raised when the iteration reaches it. \<open>files\<close> gives the path as shown and the
  lines of a file that exists.
\<close>

type_synonym source_item = "exc + string \<times> string"
type_synonym file_reader = "string \<Rightarrow> string \<times> string list option"

definition line_items :: "string \<Rightarrow> nat \<Rightarrow> string \<Rightarrow> source_item list" where
  "line_items path k line =
     (let content = strip (fst (partition_on CHR ''#'' line))
      in if content = [] then []
         else map (\<lambda>t. Inr (t, path @ '':'' @ int_str (int k))) (tokens_of content))"

definition read_target_file :: "file_reader \<Rightarrow> string \<Rightarrow> source_item list" where
  "read_target_file files path_value =
     (case files path_value of
        (path, None) \<Rightarrow> [Inl TargetParseError]
      | (path, Some ls) \<Rightarrow>
          concat (map (\<lambda>(k, line). line_items path k line) (zip [1..<Suc (length ls)] ls)))"

definition target_key :: "string \<Rightarrow> target_kind \<Rightarrow> string" where
  "target_key value kind = (if kind = TK_HOSTNAME then lower value else value)"

definition key_of :: "parsed_target \<Rightarrow> string" where
  "key_of t = target_key (pt_value t) (pt_kind t)"

text \<open>The inner loop over the items of one specification.\<close>

fun add_items ::
    "int \<Rightarrow> string \<Rightarrow> string \<Rightarrow> (string \<times> target_kind) list \<Rightarrow> parsed_target list
     \<Rightarrow> exc + parsed_target list" where
  "add_items max_targets specification source [] expanded = Inr expanded"
| "add_items max_targets specification source ((value, kind) # items) expanded =
     (if target_key value kind \<in> set (map key_of expanded)
      then add_items max_targets specification source items expanded
      else bindE (ensure_capacity max_targets (int (length expanded)) 1) (\<lambda>_.
        add_items max_targets specification source items
          (expanded @ [\<lparr>pt_value = value, pt_kind = kind, pt_source = source,
                        pt_specification = specification\<rparr>])))"

fun expand_values :: "int \<Rightarrow> source_item list \<Rightarrow> parsed_target list \<Rightarrow> exc + parsed_target list" where
  "expand_values max_targets [] expanded = Inr expanded"
| "expand_values max_targets (Inl e # rest) expanded = Inl e"
| "expand_values max_targets (Inr (specification, source) # rest) expanded =
     bindE (expand_specification max_targets specification) (\<lambda>items.
     bindE (add_items max_targets specification source items expanded) (\<lambda>expanded'.
       expand_values max_targets rest expanded'))"

definition parse_targets ::
    "file_reader \<Rightarrow> int \<Rightarrow> pyval \<Rightarrow> string list \<Rightarrow> pyval \<Rightarrow> exc + parsed_target list" where
  "parse_targets files max_targets specifications target_files exclusions =
     bindE (normalize_input specifications) (\<lambda>args.
     bindE (normalize_input exclusions) (\<lambda>excl.
     bindE (expand_values max_targets (map (\<lambda>t. Inr (t, ''exclusion'')) excl) []) (\<lambda>excluded.
     bindE (expand_values max_targets
              (map (\<lambda>t. Inr (t, ''argument'')) args
               @ concat (map (read_target_file files) target_files)) []) (\<lambda>included.
       if included = [] then Inl TargetParseError
       else Inr [t \<leftarrow> included. key_of t \<notin> set (map key_of excluded)]))))"

section \<open>The resolver\<close>

text \<open>
  A record of \<open>getaddrinfo\<close>: its family (\<open>AF_INET\<close>, \<open>AF_INET6\<close> or another), canonical name
  and address text. The resolver itself is a parameter; it fails with \<open>gaierror\<close> as \<open>None\<close>.
\<close>

datatype socket_family = AF_INET | AF_INET6 | AF_OTHER

record addr_info =
  ai_family :: socket_family
  ai_canonical_name :: string
  ai_address :: string

type_synonym name_service = "string \<Rightarrow> addr_info list option"

definition literal_identity :: "string \<Rightarrow> string \<Rightarrow> pyval \<Rightarrow> exc + target_identity option" where
  "literal_identity requested value source =
     (case ip_address (normalize_literal value) of
        Inl e \<Rightarrow> if is_value_error e then Inr None else Inl e
      | Inr a \<Rightarrow>
          bindE (target_identity_init (PStr requested) (PStr (ip_str a))
                   (PStr (address_family_value (family_of_ip a))) PNone source)
            (\<lambda>t. Inr (Some t)))"

definition identity_key :: "target_identity \<Rightarrow> address_family \<times> string" where
  "identity_key t = (ti_family t, ti_address t)"

text \<open>\<open>setdefault\<close>: the first identity of a family and address stays.\<close>

fun collect_identities ::
    "string \<Rightarrow> pyval \<Rightarrow> addr_info list \<Rightarrow> target_identity list \<Rightarrow> exc + target_identity list" where
  "collect_identities requested source [] acc = Inr acc"
| "collect_identities requested source (r # rs) acc =
     (if ai_family r = AF_OTHER then collect_identities requested source rs acc
      else bindE (ip_address (ai_address r)) (\<lambda>a.
        let fam = (if ai_family r = AF_INET then AF_IPV4 else AF_IPV6);
            name = (if ai_canonical_name r = [] then PNone else PStr (ai_canonical_name r))
        in bindE (target_identity_init (PStr requested) (PStr (ip_str a))
                    (PStr (address_family_value fam)) name source) (\<lambda>t.
             collect_identities requested source rs
               (if (fam, ip_str a) \<in> set (map identity_key acc) then acc else acc @ [t]))))"

definition identity_number :: "target_identity \<Rightarrow> int" where
  "identity_number t = (case ip_address (ti_address t) of Inl _ \<Rightarrow> 0 | Inr a \<Rightarrow> ip_int a)"

definition identity_order :: "target_identity \<Rightarrow> int \<times> int" where
  "identity_order t = (if ti_family t = AF_IPV4 then 0 else 1, identity_number t)"

text \<open>A target is a parsed target or a text.\<close>

definition resolve_target ::
    "name_service \<Rightarrow> parsed_target + string \<Rightarrow> exc + target_identity list" where
  "resolve_target names target =
     (let (value, requested, source) =
        (case target of
           Inl t \<Rightarrow> (pt_value t, pt_specification t, PStr (pt_source t))
         | Inr s \<Rightarrow> (s, s, PNone))
      in bindE (literal_identity requested value source) (\<lambda>lit.
         case lit of
           Some t \<Rightarrow> Inr [t]
         | None \<Rightarrow>
           (case names value of
              None \<Rightarrow> Inl TargetResolutionError
            | Some records \<Rightarrow>
                bindE (collect_identities requested source records []) (\<lambda>ids.
                  if ids = [] then Inl TargetResolutionError
                  else Inr (sort_key identity_order ids)))))"

definition add_identity :: "target_identity list \<Rightarrow> target_identity \<Rightarrow> target_identity list" where
  "add_identity acc t =
     (if identity_key t \<in> set (map identity_key acc) then acc else acc @ [t])"

fun resolve_loop ::
    "name_service \<Rightarrow> (parsed_target + string) list \<Rightarrow> target_identity list
     \<Rightarrow> exc + target_identity list" where
  "resolve_loop names [] acc = Inr acc"
| "resolve_loop names (t # ts) acc =
     bindE (resolve_target names t) (\<lambda>ids. resolve_loop names ts (foldl add_identity acc ids))"

definition resolve_many ::
    "name_service \<Rightarrow> (parsed_target + string) list \<Rightarrow> exc + target_identity list" where
  "resolve_many names targets = resolve_loop names targets []"

section \<open>\<open>NetworkUtils\<close>\<close>

definition resolve_hosts :: "name_service \<Rightarrow> string \<Rightarrow> exc + target_identity list" where
  "resolve_hosts names host = resolve_target names (Inr host)"

text \<open>\<open>TargetResolutionError\<close> becomes \<open>None\<close>, other exceptions go through.\<close>

definition resolve_host :: "name_service \<Rightarrow> string \<Rightarrow> exc + string option" where
  "resolve_host names host =
     (case resolve_hosts names host of
        Inl e \<Rightarrow> if e = TargetResolutionError then Inr None else Inl e
      | Inr [] \<Rightarrow> Inr None
      | Inr (t # ts) \<Rightarrow> Inr (Some (ti_address t)))"

definition validate_port_range :: "string \<Rightarrow> (int \<times> int) option" where
  "validate_port_range s =
     (let ends = (if CHR ''-'' \<in> set s
                  then bindE (map_err int_of_str (split_on CHR ''-'' s)) (\<lambda>ns.
                         case ns of [a, b] \<Rightarrow> Inr (a, b) | _ \<Rightarrow> Inl ValueError)
                  else bindE (int_of_str s) (\<lambda>n. Inr (n, n)))
      in case ends of
           Inl _ \<Rightarrow> None
         | Inr (a, b) \<Rightarrow> if 1 \<le> a \<and> a \<le> b \<and> b \<le> 65535 then Some (a, b) else None)"

text \<open>
  The pattern is used with \<open>match\<close>, so its \<open>$\<close> also matches before a final line break.
\<close>

definition is_valid_host :: "pyval \<Rightarrow> bool" where
  "is_valid_host v =
     (case v of
        PStr host \<Rightarrow>
          if host = [] then False
          else (case ip_address (normalize_literal host) of
             Inr _ \<Rightarrow> True
           | Inl _ \<Rightarrow>
               if length host > 255 then False
               else let h = (if last host = CHR ''.'' then butlast host else host)
                    in hostname_pattern h \<or>
                       (ends_with ''\<newline>'' h \<and> hostname_pattern (butlast h)))
      | _ \<Rightarrow> False)"

section \<open>Lemmas\<close>

definition addr_char :: "char \<Rightarrow> bool" where
  "addr_char c \<longleftrightarrow> is_lower_hex c \<or> c = CHR ''.'' \<or> c = CHR '':''"

lemma ipv4_str_chars: "0 \<le> n \<Longrightarrow> list_all addr_char (ipv4_str n)"
proof -
  assume "0 \<le> n"
  then have "list_all is_lower_hex (to_digits 10 k)" if "k \<in> {n div 16777216, n div 65536 mod 256, n div 256 mod 256, n mod 256}" for k
    using that by (intro digits_lower_hex to_digits_10_digits) auto
  then show ?thesis
    using set_join_with [of "''.''"] by (fastforce simp: ipv4_str_def list_all_iff addr_char_def)
qed

lemma ipv6_str_chars: "0 \<le> n \<Longrightarrow> list_all addr_char (ipv6_str n)"
proof -
  assume "0 \<le> n"
  then have "list_all is_lower_hex (to_digits 16 k)" if "k \<in> set (hextets n)" for k
    using that hextets_range [of n] by (intro to_digits_16_hex) auto
  then have "list_all is_lower_hex p" if "p \<in> set (compress_parts (hextets n))" for p
    using that by (auto simp: compress_parts_def Let_def split: prod.splits if_splits dest!: in_set_takeD in_set_dropD)
  then show ?thesis
    using set_join_with [of "'':''" "compress_parts (hextets n)"]
    by (fastforce simp: ipv6_str_def list_all_iff addr_char_def)
qed

lemma addr_char_other [simp]:
  "\<not> addr_char CHR ''-''" "\<not> addr_char CHR ''/''" "\<not> addr_char CHR ''[''" "\<not> addr_char CHR '' ''"
  by (simp_all add: addr_char_def is_lower_hex_def is_digit_def ord_def)

lemma addr_char_not_space: "addr_char c \<Longrightarrow> \<not> is_space c"
  by (auto simp: addr_char_def is_lower_hex_def is_digit_def is_space_def ord_def)

lemma addr_chars_not_in: "list_all addr_char s \<Longrightarrow> \<not> addr_char c \<Longrightarrow> c \<notin> set s"
  by (auto simp: list_all_iff)

lemma plain_value:
  assumes "s \<noteq> []" "\<forall>c \<in> set s. \<not> is_space c" "CHR ''['' \<notin> set s"
  shows "normalize_literal (strip s) = s"
proof -
  from assms have "strip s = s" by (intro strip_fix) auto
  moreover from assms have "\<not> starts_with ''['' s" by (cases s) (auto simp: starts_with_def)
  ultimately show ?thesis by (simp add: normalize_literal_def)
qed

lemma is_digit_addr: "is_digit c \<Longrightarrow> addr_char c"
  by (simp add: addr_char_def is_lower_hex_def)

lemma ip_str_chars: "valid_ip (V4 n) \<Longrightarrow> list_all addr_char (ip_str (V4 n))"
  "valid_ip (V6 n None) \<Longrightarrow> list_all addr_char (ip_str (V6 n None))"
  by (simp_all add: valid_ip_def ipv4_str_chars ipv6_str_chars)

lemma ip_address_empty: "ip_address [] = Inl ValueError"
  by code_simp

lemma ip_str_not_empty: "valid_ip a \<Longrightarrow> ip_str a \<noteq> []"
  using ip_roundtrip [of a] by (auto simp: ip_address_empty)

lemma expand_specification_range:
  assumes "valid_ip a" "valid_ip b" "list_all addr_char (ip_str a)" "list_all addr_char (ip_str b)"
  shows "expand_specification m (ip_str a @ ''-'' @ ip_str b) = expand_range m a b"
proof -
  let ?s = "ip_str a @ ''-'' @ ip_str b"
  have no: "CHR ''-'' \<notin> set (ip_str a)" "CHR ''/'' \<notin> set ?s"
    "CHR ''['' \<notin> set ?s" "\<forall>c \<in> set ?s. \<not> is_space c"
    using assms(3,4) addr_char_not_space by (auto simp: list_all_iff is_space_def ord_def)
  have "?s \<noteq> []" by simp
  with plain_value [OF _ no(4,3)] have v: "normalize_literal (strip ?s) = ?s" by simp
  have "range_ends ?s = Some (a, b)"
    using no(1) assms by (simp add: range_ends_def partition_on_simps ip_roundtrip)
  with v no(2) \<open>?s \<noteq> []\<close> show ?thesis unfolding expand_specification_def Let_def by auto
qed

lemma expand_range4:
  assumes "0 \<le> a" "a \<le> b" "b < 2 ^ 32" "b - a + 1 \<le> m"
  shows "expand_range m (V4 a) (V4 b) = Inr (map (\<lambda>n. (ipv4_str n, TK_IPV4)) [a..b])"
proof -
  have "map_err (\<lambda>n. bindE (ip_address_of_int n) (\<lambda>x. Inr (ip_str x, TK_IPV4))) (map id [a..b]) =
    Inr (map (\<lambda>n. (ipv4_str n, TK_IPV4)) [a..b])"
    using assms by (intro map_err_map) (auto simp: ip_address_of_int_def)
  with assms show ?thesis by (simp add: expand_range_def ensure_capacity_def kind_of_version_def)
qed

lemma expand_range6:
  assumes "2 ^ 32 \<le> a" "a \<le> b" "b < 2 ^ 128" "b - a + 1 \<le> m"
  shows "expand_range m (V6 a None) (V6 b None) = Inr (map (\<lambda>n. (ipv6_str n, TK_IPV6)) [a..b])"
proof -
  have "map_err (\<lambda>n. bindE (ip_address_of_int n) (\<lambda>x. Inr (ip_str x, TK_IPV6))) (map id [a..b]) =
    Inr (map (\<lambda>n. (ipv6_str n, TK_IPV6)) [a..b])"
    using assms by (intro map_err_map) (auto simp: ip_address_of_int_def)
  with assms show ?thesis by (simp add: expand_range_def ensure_capacity_def kind_of_version_def)
qed

lemma parse_prefix: "p \<le> w \<Longrightarrow> prefix_of_digits w (to_digits 10 (int p)) = Some p"
  using to_digits_10_digits [of "int p"] by (simp add: prefix_of_digits_def)

lemma expand_specification_cidr4:
  assumes "0 \<le> a" "a < 2 ^ 32" "p \<le> 32" "2 ^ (32 - p) \<le> m"
  shows "expand_specification m (ipv4_str a @ ''/'' @ int_str (int p)) =
    Inr (map (\<lambda>n. (ipv4_str n, TK_IPV4))
      [a - a mod 2 ^ (32 - p)..a - a mod 2 ^ (32 - p) + 2 ^ (32 - p) - 1])"
proof -
  let ?d = "to_digits 10 (int p)"
  let ?s = "ipv4_str a @ ''/'' @ ?d"
  have c: "list_all addr_char (ipv4_str a)" "list_all addr_char ?d"
    using ipv4_str_chars [OF assms(1)] to_digits_10_digits [of "int p"] is_digit_addr by (auto simp: list_all_iff)
  have no: "CHR ''['' \<notin> set ?s" "CHR ''/'' \<notin> set (ipv4_str a)" "CHR ''/'' \<notin> set ?d"
    "\<forall>c \<in> set ?s. \<not> is_space c"
    using c addr_char_not_space by (auto simp: list_all_iff is_space_def ord_def)
  have "?s \<noteq> []" by simp
  with plain_value [OF _ no(4,1)] have v: "normalize_literal (strip ?s) = ?s" by simp
  have sp: "split_on CHR ''/'' ?s = [ipv4_str a, ?d]"
  proof -
    have "split_on CHR ''/'' (join_with ''/'' [ipv4_str a, ?d]) = [ipv4_str a, ?d]"
      by (rule split_join) (use no in auto)
    then show ?thesis by simp
  qed
  have "ip_network ?s = Inr (Net4 (clear_host_bits 32 p a) p)"
    unfolding ip_network_def sp Let_def using assms
    by (simp add: ip_network4_def ipv4_roundtrip netmask_prefix4_def parse_prefix)
  with v \<open>?s \<noteq> []\<close> assms show ?thesis
    unfolding expand_specification_def Let_def int_str_def
    by (simp add: expand_cidr_def ensure_capacity_def clear_host_bits_def comp_def)
qed

text \<open>What an item of an expansion is.\<close>

definition item_ok :: "string \<Rightarrow> target_kind \<Rightarrow> bool" where
  "item_ok value kind \<longleftrightarrow>
     (if kind = TK_HOSTNAME
      then value \<noteq> [] \<and> length value \<le> 253 \<and> (\<exists>h. hostname_pattern h \<and> value = lower h)
      else canonical_ip value)"

lemma canonical_ip_item: "valid_ip a \<Longrightarrow> kind \<noteq> TK_HOSTNAME \<Longrightarrow> item_ok (ip_str a) kind"
  by (simp add: item_ok_def canonical_ip_str)

lemma clear_host_bits_bounds:
  assumes "0 \<le> n" "n < 2 ^ w" "p \<le> w" "clear_host_bits w p n \<le> i" "i \<le> clear_host_bits w p n + 2 ^ (w - p) - 1"
  shows "0 \<le> i \<and> i < 2 ^ w"
proof -
  let ?k = "2 ^ (w - p) :: int"
  have w: "(2::int) ^ w = 2 ^ p * ?k" using assms(3) by (simp flip: power_add)
  have c: "clear_host_bits w p n = n div ?k * ?k" by (simp add: clear_host_bits_def minus_mod_eq_div_mult)
  have "n div ?k < 2 ^ p"
  proof (rule ccontr)
    assume "\<not> n div ?k < 2 ^ p"
    then have "2 ^ p * ?k \<le> n div ?k * ?k" by (intro mult_right_mono) auto
    also have "n div ?k * ?k \<le> n" by (simp add: minus_mod_eq_div_mult [symmetric])
    finally show False using assms(2) w by simp
  qed
  then have "(n div ?k + 1) * ?k \<le> 2 ^ p * ?k" by (intro mult_right_mono) auto
  then have "n div ?k * ?k + ?k \<le> 2 ^ w" by (simp add: w algebra_simps)
  moreover have "0 \<le> n div ?k * ?k" using assms(1) by (simp add: pos_imp_zdiv_nonneg_iff)
  ultimately show ?thesis using assms(4,5) by (auto simp: c)
qed

lemma ip_network_valid:
  assumes "ip_network s = Inr net" "a \<in> set (network_addresses net)"
  shows "valid_ip a"
proof -
  have mask: "p \<le> 32" if "netmask_prefix4 t = Some p" for t p
    using that by (auto simp: netmask_prefix4_def prefix_of_digits_def prefix_of_mask_def find_Some_iff
        split: option.splits if_splits)
  from assms(1) consider n p where "net = Net4 (clear_host_bits 32 p n) p" "0 \<le> n" "n < 2 ^ 32" "p \<le> 32"
    | n p where "net = Net6 (clear_host_bits 128 p n) p" "0 \<le> n" "n < 2 ^ 128" "p \<le> 128"
    by (auto simp: ip_network_def Let_def ip_network4_def ip_network6_def prefix_of_digits_def
        split: option.splits list.splits if_splits prod.splits dest!: mask ipv4_of_str_range ipv6_of_str_range)
  then show ?thesis
  proof cases
    case 1 with assms(2) clear_host_bits_bounds [OF 1(2-4)] show ?thesis by (auto simp: valid_ip_def)
  next
    case 2 with assms(2) clear_host_bits_bounds [OF 2(2-4)] show ?thesis by (auto simp: valid_ip_def)
  qed
qed
lemma canonical_ip_items: "valid_ip a \<Longrightarrow> item_ok (ip_str a) TK_IPV4" "valid_ip a \<Longrightarrow> item_ok (ip_str a) TK_IPV6"
  by (simp_all add: canonical_ip_item)

lemma expand_specification_ok:
  assumes "expand_specification m s = Inr items" "1 \<le> m"
  shows "list_all (\<lambda>(v, k). item_ok v k) items \<and> int (length items) \<le> m"
proof -
  let ?v = "normalize_literal (strip s)"
  from assms(1) consider "expand_cidr m ?v = Inr items"
    | a b where "range_ends ?v = Some (a, b)" "expand_range m a b = Inr items"
    | "expand_single ?v = Inr items"
    by (auto simp: expand_specification_def Let_def split: if_splits option.splits)
  then show ?thesis
  proof cases
    case 1
    let ?kind = "\<lambda>net. case net of Net4 _ _ \<Rightarrow> TK_IPV4 | Net6 _ _ \<Rightarrow> TK_IPV6"
    from 1 obtain net where "ip_network ?v = Inr net" "num_addresses net \<le> m"
      "items = map (\<lambda>a. (ip_str a, ?kind net)) (network_addresses net)"
      by (auto simp: expand_cidr_def run ensure_capacity_def Let_def)
    moreover have "?kind net \<noteq> TK_HOSTNAME" by (cases net) simp_all
    moreover have "int (length (network_addresses net)) = num_addresses net" by (cases net) auto
    ultimately show ?thesis
      by (auto simp: list_all_iff intro: canonical_ip_item ip_network_valid)
  next
    case 2
    then have e: "int (length [ip_int a..ip_int b]) \<le> m" "ip_int a \<le> ip_int b"
      "map_err (\<lambda>n. bindE (ip_address_of_int n) (\<lambda>x. Inr (ip_str x, kind_of_version (ip_version a))))
         [ip_int a..ip_int b] = Inr items"
      by (auto simp: expand_range_def run ensure_capacity_def split: if_splits)
    have "list_all (\<lambda>(v, k). item_ok v k) items"
      by (rule map_err_list_all [OF e(3)])
        (auto simp: run kind_of_version_def intro: canonical_ip_items dest!: ip_address_of_int_valid)
    with e map_err_Inr_length [OF e(3)] show ?thesis by simp
  next
    case 3
    with assms(2) show ?thesis
      by (auto simp: expand_single_def run validate_hostname_def Let_def item_ok_def
          kind_of_version_def lower_def canonical_ip_str dest!: ip_address_valid split: sum.splits if_splits)
  qed
qed

definition targets_ok :: "int \<Rightarrow> parsed_target list \<Rightarrow> bool" where
  "targets_ok m ts \<longleftrightarrow> distinct (map key_of ts) \<and> int (length ts) \<le> m \<and>
     list_all (\<lambda>t. item_ok (pt_value t) (pt_kind t)) ts"

lemma add_items_ok:
  "add_items m spec src items ts = Inr ts' \<Longrightarrow> list_all (\<lambda>(v, k). item_ok v k) items \<Longrightarrow> targets_ok m ts \<Longrightarrow>
   targets_ok m ts' \<and> set (map key_of ts') = set (map key_of ts) \<union> set (map (\<lambda>(v, k). target_key v k) items)"
proof (induction m spec src items ts rule: add_items.induct)
  case (2 m spc src val kind items ts)
  show ?case
  proof (cases "target_key val kind \<in> set (map key_of ts)")
    case True
    with 2 show ?thesis by auto
  next
    case False
    let ?t = "\<lparr>pt_value = val, pt_kind = kind, pt_source = src, pt_specification = spc\<rparr>"
    from False 2 have "targets_ok m (ts @ [?t])"
      by (auto simp: targets_ok_def run ensure_capacity_def key_of_def)
    moreover from False 2 have "add_items m spc src items (ts @ [?t]) = Inr ts'" by (simp add: run)
    ultimately show ?thesis using 2(2) [OF False] 2(4) False 2 by (auto simp: run key_of_def)
  qed
qed simp

lemma expand_values_ok:
  "expand_values m items ts = Inr ts' \<Longrightarrow> 1 \<le> m \<Longrightarrow> targets_ok m ts \<Longrightarrow> targets_ok m ts'"
proof (induction m items ts rule: expand_values.induct)
  case (3 m spc src rest ts)
  then show ?case using add_items_ok expand_specification_ok by (fastforce simp: run)
qed auto

lemma parse_targets_ok:
  assumes "parse_targets files m specs fs excl = Inr ts" "1 \<le> m"
  shows "targets_ok m ts"
proof -
  obtain ts0 P where "targets_ok m ts0" "ts = filter P ts0"
    using assms expand_values_ok [of m _ "[]"]
    by (fastforce simp: parse_targets_def run targets_ok_def [of m "[]"])
  moreover have "int (length (filter P xs)) \<le> m" if "int (length xs) \<le> m" for xs :: "parsed_target list"
    using that length_filter_le [of P xs] by linarith
  ultimately show ?thesis by (auto simp: targets_ok_def distinct_map_filter list_all_iff)
qed

lemma collect_identities_ok:
  "collect_identities rq src rs acc = Inr ids \<Longrightarrow> distinct (map identity_key acc) \<Longrightarrow> list_all wf_identity acc \<Longrightarrow>
   distinct (map identity_key ids) \<and> list_all wf_identity ids"
proof (induction rq src rs acc rule: collect_identities.induct)
  case (2 rq src r rs acc)
  show ?case
  proof (cases "ai_family r = AF_OTHER")
    case False
    let ?fam = "if ai_family r = AF_INET then AF_IPV4 else AF_IPV6"
    from False "2.prems"(1) obtain a t where at: "ip_address (ai_address r) = Inr a"
      "target_identity_init (PStr rq) (PStr (ip_str a)) (PStr (address_family_value ?fam))
         (if ai_canonical_name r = [] then PNone else PStr (ai_canonical_name r)) src = Inr t"
      "collect_identities rq src rs (if (?fam, ip_str a) \<in> set (map identity_key acc) then acc else acc @ [t]) = Inr ids"
      by (auto simp: run Let_def)
    from at(1,2) have "identity_key t = (?fam, ip_str a)" "wf_identity t"
      by (auto simp: target_identity_init_wf) (auto simp: identity_key_def target_identity_init_def run ip_address_valid ip_roundtrip)
    with "2.IH"(2) [OF False at(1) refl refl at(2,3)] "2.prems"(2,3) show ?thesis by (auto split: if_splits)
  qed (use 2 in auto)
qed simp

lemma resolve_target_ok:
  assumes "resolve_target names target = Inr ids"
  shows "ids \<noteq> [] \<and> distinct (map identity_key ids) \<and> list_all wf_identity ids \<and>
    sorted (map identity_order ids)"
proof -
  obtain val rq src where t: "(case target of Inl t \<Rightarrow> (pt_value t, pt_specification t, PStr (pt_source t))
      | Inr s \<Rightarrow> (s, s, PNone)) = (val, rq, src)" by (cases target) auto
  with assms obtain lit where l: "literal_identity rq val src = Inr lit"
    "(case lit of Some t \<Rightarrow> Inr [t] | None \<Rightarrow>
       (case names val of None \<Rightarrow> Inl TargetResolutionError
        | Some records \<Rightarrow> bindE (collect_identities rq src records []) (\<lambda>ids.
            if ids = [] then Inl TargetResolutionError else Inr (sort_key identity_order ids)))) = Inr ids"
    unfolding resolve_target_def t Let_def by (auto simp: run)
  show ?thesis
  proof (cases lit)
    case (Some u)
    with l(1) have "wf_identity u"
      by (auto simp: literal_identity_def run target_identity_init_wf split: sum.splits if_splits)
    with Some l(2) show ?thesis by auto
  next
    case None
    with l(2) obtain rs ids0 where i: "collect_identities rq src rs [] = Inr ids0" "ids0 \<noteq> []"
      "ids = sort_key identity_order ids0"
      by (auto simp: run split: option.splits if_splits)
    from collect_identities_ok [OF i(1)] have "distinct (map identity_key ids0)" "list_all wf_identity ids0" by auto
    moreover have "set ids = set ids0" using i(3) by simp
    then have "ids \<noteq> []" using i(2) by auto
    ultimately show ?thesis using i(3) by (auto simp: list_all_iff distinct_map_sort_key)
  qed
qed

lemma add_identities_ok:
  "distinct (map identity_key acc) \<Longrightarrow> list_all wf_identity acc \<Longrightarrow> list_all wf_identity ids \<Longrightarrow>
   distinct (map identity_key (foldl add_identity acc ids)) \<and> list_all wf_identity (foldl add_identity acc ids) \<and>
   set (map identity_key (foldl add_identity acc ids)) = set (map identity_key acc) \<union> set (map identity_key ids)"
  by (induction ids arbitrary: acc) (auto simp: add_identity_def)

lemma resolve_loop_ok:
  "resolve_loop names ts acc = Inr ids \<Longrightarrow> distinct (map identity_key acc) \<Longrightarrow> list_all wf_identity acc \<Longrightarrow>
   distinct (map identity_key ids) \<and> list_all wf_identity ids"
proof (induction ts arbitrary: acc)
  case (Cons t ts)
  then obtain us where u: "resolve_target names t = Inr us" "resolve_loop names ts (foldl add_identity acc us) = Inr ids"
    by (auto simp: run)
  with Cons show ?case using add_identities_ok [of acc us] resolve_target_ok [OF u(1)] by auto
qed simp

lemma validate_port_range_bounds:
  "validate_port_range s = Some (a, b) \<Longrightarrow> 1 \<le> a \<and> a \<le> b \<and> b \<le> 65535"
  by (auto simp: validate_port_range_def Let_def split: sum.splits if_splits)

lemma tokens_of_ok:
  assumes "t \<in> set (tokens_of s)"
  shows "t \<noteq> [] \<and> CHR '','' \<notin> set t \<and> (\<forall>c \<in> set t. \<not> is_space c)"
  using assms split_on_parts [of _ "CHR '',''" s] split_ws_tokens
  by (fastforce simp: tokens_of_def)

lemma validate_port_range_text:
  assumes "1 \<le> a" "a \<le> b" "b \<le> 65535"
  shows "validate_port_range (int_str a @ ''-'' @ int_str b) = Some (a, b)"
    "validate_port_range (int_str a) = Some (a, a)"
proof -
  have d: "CHR ''-'' \<notin> set (int_str k)" if "0 \<le> k" for k
    using to_digits_10_digits [OF that] that by (auto simp: int_str_def list_all_iff is_digit_def ord_def)
  have "split_on CHR ''-'' (join_with ''-'' [int_str a, int_str b]) = [int_str a, int_str b]"
    by (rule split_join) (use d assms in auto)
  with assms show "validate_port_range (int_str a @ ''-'' @ int_str b) = Some (a, b)"
    by (simp add: validate_port_range_def)
  show "validate_port_range (int_str a) = Some (a, a)" using d assms
    by (simp add: validate_port_range_def)
qed
lemma add_items_keys:
  "add_items m spec src items ts = Inr ts' \<Longrightarrow>
   set (map key_of ts') = set (map key_of ts) \<union> set (map (\<lambda>(v, k). target_key v k) items)"
  by (induction m spec src items ts rule: add_items.induct) (auto simp: run key_of_def split: if_splits)

lemma expand_values_keeps:
  "expand_values m items ts = Inr ts' \<Longrightarrow> set (map key_of ts) \<subseteq> set (map key_of ts')"
proof (induction m items ts rule: expand_values.induct)
  case (3 m spec src rest ts)
  then obtain items ts1 where i: "expand_specification m spec = Inr items"
    "add_items m spec src items ts = Inr ts1" "expand_values m rest ts1 = Inr ts'"
    by (auto simp: run)
  with "3.IH" [OF i(1,2,3)] add_items_keys [OF i(2)] show ?case by auto
qed auto

lemma expand_values_keys:
  "expand_values m items ts = Inr ts' \<Longrightarrow> Inr (t, src) \<in> set items \<Longrightarrow>
   expand_specification m t = Inr its \<Longrightarrow> (v, k) \<in> set its \<Longrightarrow>
   target_key v k \<in> set (map key_of ts')"
proof (induction m items ts rule: expand_values.induct)
  case (3 m spec src' rest ts)
  then obtain items ts1 where i: "expand_specification m spec = Inr items"
    "add_items m spec src' items ts = Inr ts1" "expand_values m rest ts1 = Inr ts'"
    by (auto simp: run)
  show ?case
  proof (cases "t = spec \<and> src = src'")
    case True
    with i(1) "3.prems"(3,4) have "target_key v k \<in> set (map key_of ts1)"
      using add_items_keys [OF i(2)] by force
    with expand_values_keeps [OF i(3)] show ?thesis by blast
  next
    case False
    with "3.IH" [OF i(1,2,3)] "3.prems" show ?thesis by auto
  qed
qed auto

section \<open>Properties\<close>

text \<open>The texts given as exclusions: none, one, or those of a list or tuple.\<close>

definition given_texts :: "pyval \<Rightarrow> string set" where
  "given_texts v =
     (case v of PStr s \<Rightarrow> {s} | PList xs \<Rightarrow> {s. PStr s \<in> set xs} | _ \<Rightarrow> {})"

lemma normalize_texts:
  "map_err (\<lambda>x. case x of PStr s \<Rightarrow> Inr (tokens_of s) | _ \<Rightarrow> Inl TargetParseError) xs = Inr tss \<Longrightarrow>
   set (concat tss) = (\<Union>s \<in> {s. PStr s \<in> set xs}. set (tokens_of s))"
proof (induction xs arbitrary: tss)
  case (Cons x xs)
  then obtain raw ts where raw: "x = PStr raw" "tss = tokens_of raw # ts"
    "map_err (\<lambda>x. case x of PStr s \<Rightarrow> Inr (tokens_of s) | _ \<Rightarrow> Inl TargetParseError) xs = Inr ts"
    by (cases x) (auto simp: run)
  have "{s. PStr s \<in> set (x # xs)} = insert raw {s. PStr s \<in> set xs}" by (auto simp: raw(1))
  with Cons.IH [OF raw(3)] show ?case by (simp add: raw(2))
qed simp

lemma normalize_input_tokens:
  "normalize_input v = Inr ts \<Longrightarrow> set ts = (\<Union>s \<in> given_texts v. set (tokens_of s))"
  by (cases v) (auto simp: normalize_input_def given_texts_def run dest: normalize_texts)

text \<open>
  C16. Parsed targets are deduplicated and bounded: keys are distinct, there are at most
  \<open>max_targets\<close> of them, every address is in canonical form and every hostname valid and in
  lower case. However the exclusions are given, as one text, a list or tuple of texts or not at
  all, nothing that a part of them expands to is left.
\<close>

theorem parse_targets_sound:
  assumes "parse_targets files m specs fs exclusions = Inr ts" "1 \<le> m"
  shows "targets_ok m ts \<and>
    (\<forall>excl t its v k. excl \<in> given_texts exclusions \<longrightarrow> t \<in> set (tokens_of excl) \<longrightarrow>
       expand_specification m t = Inr its \<longrightarrow> (v, k) \<in> set its \<longrightarrow>
       target_key v k \<notin> set (map key_of ts))"
proof -
  obtain tokens ex where tokens: "normalize_input exclusions = Inr tokens"
    and ex: "expand_values m (map (\<lambda>t. Inr (t, ''exclusion'')) tokens) [] = Inr ex"
    and ts: "set (map key_of ts) \<inter> set (map key_of ex) = {}"
    using assms(1) by (fastforce simp: parse_targets_def run)
  have "target_key v k \<in> set (map key_of ex)"
    if "excl \<in> given_texts exclusions" "t \<in> set (tokens_of excl)"
      "expand_specification m t = Inr its" "(v, k) \<in> set its" for excl t its v k
  proof -
    have "t \<in> set tokens" using that(1,2) normalize_input_tokens [OF tokens] by blast
    then have "Inr (t, ''exclusion'') \<in> set (map (\<lambda>t. Inr (t, ''exclusion'')) tokens)" by auto
    from expand_values_keys [OF ex this that(3,4)] show ?thesis .
  qed
  with ts parse_targets_ok [OF assms] show ?thesis by blast
qed

theorem parse_targets_sound_witness:
  "\<exists>ts. parse_targets (\<lambda>p. (p, None)) 8 (PStr ''10.0.0.0/30, Example.COM'') []
      (PList [PStr ''10.0.0.2-10.0.0.5, 10.0.0.9'', PStr ''10.0.0.6'']) = Inr ts \<and> map pt_value ts = [''10.0.0.0'', ''10.0.0.1'', ''example.com''] \<and>
    targets_ok 8 ts"
proof -
  let ?t = "\<lambda>v k s. \<lparr>pt_value = v, pt_kind = k, pt_source = ''argument'', pt_specification = s\<rparr>"
  let ?ts = "[?t ''10.0.0.0'' TK_IPV4 ''10.0.0.0/30'', ?t ''10.0.0.1'' TK_IPV4 ''10.0.0.0/30'',
    ?t ''example.com'' TK_HOSTNAME ''Example.COM'']"
  have p: "parse_targets (\<lambda>p. (p, None)) 8 (PStr ''10.0.0.0/30, Example.COM'') []
      (PList [PStr ''10.0.0.2-10.0.0.5, 10.0.0.9'', PStr ''10.0.0.6'']) = Inr ?ts"
    by code_simp
  from parse_targets_sound [OF p] show ?thesis by (intro exI [of _ ?ts]) (simp add: p)
qed

text \<open>
  C33. An IPv4 block expands to exactly its addresses, in order: the host bits of the address
  given are cleared and there are $2^{32-p}$ addresses, none of them left out.
\<close>

theorem cidr_expansion:
  assumes "0 \<le> a" "a < 2 ^ 32" "p \<le> 32" "2 ^ (32 - p) \<le> m"
  shows "expand_specification m (ipv4_str a @ ''/'' @ int_str (int p)) =
    Inr (map (\<lambda>n. (ipv4_str n, TK_IPV4))
      [a - a mod 2 ^ (32 - p)..a - a mod 2 ^ (32 - p) + 2 ^ (32 - p) - 1])"
  by (rule expand_specification_cidr4 [OF assms])

theorem cidr_expansion_witness:
  "expand_specification 4 (ipv4_str 167772162 @ ''/30'') =
    Inr (map (\<lambda>n. (ipv4_str n, TK_IPV4)) [167772160..167772163])"
proof -
  have "0 \<le> (167772162::int)" "(167772162::int) < 2 ^ 32" "30 \<le> (32::nat)"
    "2 ^ (32 - 30) \<le> (4::int)" by simp_all
  moreover have "int_str (int 30) = ''30''" by code_simp
  ultimately show ?thesis using cidr_expansion [of 167772162 30 4] by simp
qed

text \<open>
  C34. A range between two addresses of one version expands to exactly the addresses between
  them, in order, for IPv4 and for IPv6 from $2^{32}$ on.
\<close>

theorem range_expansion:
  assumes "a \<le> b" "b - a + 1 \<le> m"
  shows "(0 \<le> a \<longrightarrow> b < 2 ^ 32 \<longrightarrow>
      expand_specification m (ipv4_str a @ ''-'' @ ipv4_str b) =
        Inr (map (\<lambda>n. (ipv4_str n, TK_IPV4)) [a..b])) \<and>
    (2 ^ 32 \<le> a \<longrightarrow> b < 2 ^ 128 \<longrightarrow>
      expand_specification m (ipv6_str a @ ''-'' @ ipv6_str b) =
        Inr (map (\<lambda>n. (ipv6_str n, TK_IPV6)) [a..b]))"
proof (intro conjI impI)
  assume r: "0 \<le> a" "b < 2 ^ 32"
  with assms have v: "valid_ip (V4 a)" "valid_ip (V4 b)" by (auto simp: valid_ip_def)
  from expand_specification_range [OF v ip_str_chars(1) [OF v(1)] ip_str_chars(1) [OF v(2)], of m]
  show "expand_specification m (ipv4_str a @ ''-'' @ ipv4_str b) =
      Inr (map (\<lambda>n. (ipv4_str n, TK_IPV4)) [a..b])"
    using expand_range4 [OF r(1) assms(1) r(2) assms(2)] by simp
next
  assume r: "2 ^ 32 \<le> a" "b < 2 ^ 128"
  with assms have v: "valid_ip (V6 a None)" "valid_ip (V6 b None)" by (auto simp: valid_ip_def)
  from expand_specification_range [OF v ip_str_chars(2) [OF v(1)] ip_str_chars(2) [OF v(2)], of m]
  show "expand_specification m (ipv6_str a @ ''-'' @ ipv6_str b) =
      Inr (map (\<lambda>n. (ipv6_str n, TK_IPV6)) [a..b])"
    using expand_range6 [OF r(1) assms(1) r(2) assms(2)] by simp
qed

theorem range_expansion_witness:
  "expand_specification 4096 (ipv4_str 167772165 @ ''-'' @ ipv4_str 167772167) =
    Inr (map (\<lambda>n. (ipv4_str n, TK_IPV4)) [167772165..167772167])"
proof -
  have "(167772165::int) \<le> 167772167" "(167772167::int) - 167772165 + 1 \<le> 4096" by simp_all
  from range_expansion [OF this] show ?thesis by simp
qed

text \<open>
  Below $2^{32}$ the range of IPv6 addresses loses its version: \<open>::1-::3\<close> expands to IPv4
  texts that are labelled IPv6, while the single address \<open>::1\<close> stays IPv6.
\<close>

theorem ipv6_range_becomes_ipv4:
  "expand_specification 4096 ''::1-::3'' =
     Inr [(''0.0.0.1'', TK_IPV6), (''0.0.0.2'', TK_IPV6), (''0.0.0.3'', TK_IPV6)] \<and>
   expand_specification 4096 ''::1'' = Inr [(''::1'', TK_IPV6)]"
  by (rule conjI; code_simp)

text \<open>
  C35. Resolving a target gives a non-empty list of well-formed identities without repetitions
  of a family and address, IPv4 before IPv6 and each family by ascending address; resolving many
  keeps the list free of repetitions.
\<close>

theorem resolution_sound:
  assumes "resolve_target names target = Inr ids" "resolve_many names targets = Inr all_ids"
  shows "ids \<noteq> [] \<and> distinct (map identity_key ids) \<and> list_all wf_identity ids \<and>
    sorted (map identity_order ids) \<and>
    distinct (map identity_key all_ids) \<and> list_all wf_identity all_ids"
  using resolve_target_ok [OF assms(1)] resolve_loop_ok [of names targets "[]" all_ids] assms(2)
  by (simp add: resolve_many_def)

definition sample_names :: name_service where
  "sample_names host =
     (if host = ''h''
      then Some [\<lparr>ai_family = AF_INET6, ai_canonical_name = ''h'', ai_address = ''::1''\<rparr>,
                 \<lparr>ai_family = AF_INET, ai_canonical_name = [], ai_address = ''10.0.0.2''\<rparr>,
                 \<lparr>ai_family = AF_INET, ai_canonical_name = [], ai_address = ''10.0.0.2''\<rparr>]
      else None)"

theorem resolution_sound_witness:
  "\<exists>ids. resolve_target sample_names (Inr ''h'') = Inr ids \<and>
     map ti_address ids = [''10.0.0.2'', ''::1''] \<and> sorted (map identity_order ids)"
proof -
  let ?ids = "[\<lparr>ti_requested = ''h'', ti_address = ''10.0.0.2'', ti_family = AF_IPV4,
      ti_canonical_name = PNone, ti_source = PNone\<rparr>,
    \<lparr>ti_requested = ''h'', ti_address = ''::1'', ti_family = AF_IPV6,
      ti_canonical_name = PStr ''h'', ti_source = PNone\<rparr>]"
  have r: "resolve_target sample_names (Inr ''h'') = Inr ?ids"
    "resolve_many sample_names [] = Inr []"
    by code_simp+
  from resolution_sound [OF r] show ?thesis by (intro exI [of _ ?ids]) (simp add: r)
qed

text \<open>
  A port range written in decimal is read back, and whatever is accepted lies in order
  between 1 and 65535.
\<close>

theorem port_range_text:
  "(1 \<le> a \<longrightarrow> a \<le> b \<longrightarrow> b \<le> 65535 \<longrightarrow>
      validate_port_range (int_str a @ ''-'' @ int_str b) = Some (a, b)) \<and>
   (validate_port_range s = Some (c, d) \<longrightarrow> 1 \<le> c \<and> c \<le> d \<and> d \<le> 65535)"
  using validate_port_range_text validate_port_range_bounds by blast

theorem port_range_text_witness:
  "validate_port_range (int_str 1 @ ''-'' @ int_str 1024) = Some (1, 1024)"
  using port_range_text [of 1 1024] by simp

text \<open>
  \<open>is_valid_host\<close> accepts a hostname followed by one line break.
\<close>

theorem valid_host_newline:
  "is_valid_host (PStr ''example.com\<newline>'') \<and> \<not> is_valid_host (PStr ''example.com\<newline>\<newline>'') \<and>
   \<not> is_valid_host (PStr ''-example.com'')"
  by (intro conjI; code_simp)

end
