(* ===== verification/Json_Text.thy ===== *)
theory Json_Text
  imports Py_Values
begin

text \<open>
  The part of the \<open>json\<close> module that the session documents use: \<open>json.dumps\<close> with the options
  of \<open>deterministic_json\<close> (sorted keys, no white space, no ASCII escapes, no non-finite numbers)
  and \<open>json.loads\<close> with hooks that reject repeated keys and non-finite constants. How a float is
  written and how decimal text becomes a float are parameters. Escapes above \<open>U+00FF\<close> are
  outside the characters of the model and are refused.
\<close>

section \<open>Writing\<close>

definition quote_char :: char where "quote_char = CHR 0x22"
definition backslash :: char where "backslash = CHR 0x5C"

definition escape_char :: "char \<Rightarrow> string" where
  "escape_char c =
     (if c = quote_char \<or> c = backslash then [backslash, c]
      else if c = CHR 0x0A then [backslash, CHR ''n'']
      else if c = CHR 0x0D then [backslash, CHR ''r'']
      else if c = CHR 0x09 then [backslash, CHR ''t'']
      else if c = CHR 0x0C then [backslash, CHR ''f'']
      else if c = CHR 0x08 then [backslash, CHR ''b'']
      else if ord c < 32
      then backslash # ''u00'' @ [digit_char (ord c div 16), digit_char (ord c mod 16)]
      else [c])"

definition json_string :: "string \<Rightarrow> string" where
  "json_string s = quote_char # concat (map escape_char s) @ [quote_char]"

definition json_member :: "string \<times> string \<Rightarrow> string" where
  "json_member m = json_string (fst m) @ '':'' @ snd m"

fun key_name :: "pyval \<Rightarrow> string" where
  "key_name (PStr k) = k"
| "key_name _ = []"

fun json_text :: "(rat \<Rightarrow> string) \<Rightarrow> pyval \<Rightarrow> string" where
  "json_text repr PNone = ''null''"
| "json_text repr (PBool b) = (if b then ''true'' else ''false'')"
| "json_text repr (PInt n) = int_str n"
| "json_text repr (PFloat f) = (case f of FFin r \<Rightarrow> repr r | _ \<Rightarrow> ''NaN'')"
| "json_text repr (PStr s) = json_string s"
| "json_text repr (PList vs) = ''['' @ join_with '','' (map (json_text repr) vs) @ '']''"
| "json_text repr (PDict kvs) =
     ''{'' @ join_with '','' (map json_member
        (sort_key fst (map (\<lambda>(k, v). (key_name k, json_text repr v)) kvs))) @ ''}''"

text \<open>
  What \<open>dumps\<close> can write and \<open>loads\<close> gives back: finite numbers and objects whose keys are
  strings, in order and without repetition.
\<close>

fun json_value :: "pyval \<Rightarrow> bool" where
  "json_value (PFloat f) = isfinite f"
| "json_value (PList vs) = list_all json_value vs"
| "json_value (PDict kvs) =
     (list_all (\<lambda>(k, v). is_str k \<and> json_value v) kvs \<and>
      sorted (map (\<lambda>(k, v). key_name k) kvs) \<and> distinct (map (\<lambda>(k, v). key_name k) kvs))"
| "json_value _ = True"

text \<open>\<open>allow_nan=False\<close> refuses non-finite numbers anywhere in the value.\<close>

fun json_finite :: "pyval \<Rightarrow> bool" where
  "json_finite (PFloat f) = isfinite f"
| "json_finite (PList vs) = list_all json_finite vs"
| "json_finite (PDict kvs) = list_all (\<lambda>(k, v). json_finite v) kvs"
| "json_finite _ = True"

lemma json_value_finite: "json_value v \<Longrightarrow> json_finite v"
  by (induction v) (auto simp: list_all_iff)

section \<open>Reading\<close>

definition is_json_ws :: "char \<Rightarrow> bool" where
  "is_json_ws c \<longleftrightarrow> ord c \<in> set [9, 10, 13, 32]"

definition skip_ws :: "string \<Rightarrow> string" where
  "skip_ws s = dropWhile is_json_ws s"

definition unescape :: "char \<Rightarrow> char option" where
  "unescape c =
     (if c \<in> set [quote_char, backslash, CHR 0x2F] then Some c
      else if c = CHR ''n'' then Some (CHR 0x0A)
      else if c = CHR ''r'' then Some (CHR 0x0D)
      else if c = CHR ''t'' then Some (CHR 0x09)
      else if c = CHR ''f'' then Some (CHR 0x0C)
      else if c = CHR ''b'' then Some (CHR 0x08)
      else None)"

definition add_char :: "char \<Rightarrow> (string \<times> string) option \<Rightarrow> (string \<times> string) option" where
  "add_char c r = map_option (\<lambda>(s, rest). (c # s, rest)) r"

text \<open>The rest of a string literal after its opening quote: its characters and what follows.\<close>

fun read_string :: "string \<Rightarrow> (string \<times> string) option" where
  "read_string [] = None"
| "read_string (c # cs) =
     (if c = quote_char then Some ([], cs)
      else if c = backslash then
        (case cs of
           [] \<Rightarrow> None
         | e # es \<Rightarrow>
             if e = CHR ''u'' then
               (case es of
                  h1 # h2 # h3 # h4 # rest \<Rightarrow>
                    if list_all is_hex [h1, h2, h3, h4] \<and> from_digits 16 [h1, h2, h3, h4] < 256
                    then add_char (char_of (from_digits 16 [h1, h2, h3, h4])) (read_string rest)
                    else None
                | _ \<Rightarrow> None)
             else (case unescape e of None \<Rightarrow> None | Some x \<Rightarrow> add_char x (read_string es)))
      else if ord c < 32 then None
      else add_char c (read_string cs))"

text \<open>Numbers: the longest match of the grammar of the scanner, which then decides between
\<open>int\<close> and \<open>float\<close>.\<close>

definition read_sign :: "string \<Rightarrow> string \<times> string" where
  "read_sign s = (if starts_with ''-'' s then (''-'', tl s) else ([], s))"

definition read_whole :: "string \<Rightarrow> (string \<times> string) option" where
  "read_whole s =
     (case s of
        [] \<Rightarrow> None
      | c # cs \<Rightarrow>
          if c = CHR ''0'' then Some ([c], cs)
          else if is_digit c then Some (takeWhile is_digit s, dropWhile is_digit s)
          else None)"

definition read_frac :: "string \<Rightarrow> string \<times> string" where
  "read_frac s =
     (let ds = takeWhile is_digit (tl s)
      in if starts_with ''.'' s \<and> ds \<noteq> [] then (''.'' @ ds, dropWhile is_digit (tl s))
         else ([], s))"

definition read_exp :: "string \<Rightarrow> string \<times> string" where
  "read_exp s =
     (let e = (s \<noteq> [] \<and> hd s \<in> {CHR ''e'', CHR ''E''});
          sg = (if tl s \<noteq> [] \<and> hd (tl s) \<in> {CHR ''+'', CHR ''-''} then [hd (tl s)] else []);
          body = drop (length sg) (tl s);
          ds = takeWhile is_digit body
      in if e \<and> ds \<noteq> [] then (hd s # sg @ ds, dropWhile is_digit body) else ([], s))"

definition read_number :: "float_reader \<Rightarrow> string \<Rightarrow> (pyval \<times> string) option" where
  "read_number fs s =
     (case read_sign s of (sg, s1) \<Rightarrow>
        (case read_whole s1 of
           None \<Rightarrow> None
         | Some (w, s2) \<Rightarrow>
             (case read_frac s2 of (f, s3) \<Rightarrow>
                (case read_exp s3 of (e, s4) \<Rightarrow>
                   if f = [] \<and> e = [] then
                     Some (PInt (if sg = [] then from_digits 10 w else - from_digits 10 w), s4)
                   else (case fs (sg @ w @ f @ e) of
                           None \<Rightarrow> None
                         | Some x \<Rightarrow> Some (PFloat x, s4))))))"

definition read_word :: "string \<Rightarrow> pyval \<Rightarrow> string \<Rightarrow> (pyval \<times> string) option" where
  "read_word w v s = (if starts_with w s then Some (v, drop (length w) s) else None)"

text \<open>
  A value, the elements of a list after one element was read, and the members of an object
  from a key on. The fuel bounds the nesting of calls; two nested calls consume a character, so
  twice the length of the text and one more is enough.
\<close>

definition add_elem ::
    "pyval \<Rightarrow> (pyval list \<times> string) option \<Rightarrow> (pyval list \<times> string) option" where
  "add_elem v r = map_option (\<lambda>(vs, rest). (v # vs, rest)) r"

definition add_member ::
    "string \<Rightarrow> pyval \<Rightarrow> ((string \<times> pyval) list \<times> string) option
     \<Rightarrow> ((string \<times> pyval) list \<times> string) option" where
  "add_member k v r = map_option (\<lambda>(kvs, rest). ((k, v) # kvs, rest)) r"

fun read_value :: "float_reader \<Rightarrow> nat \<Rightarrow> string \<Rightarrow> (pyval \<times> string) option"
and read_elems :: "float_reader \<Rightarrow> nat \<Rightarrow> string \<Rightarrow> (pyval list \<times> string) option"
and read_members :: "float_reader \<Rightarrow> nat \<Rightarrow> string \<Rightarrow> ((string \<times> pyval) list \<times> string) option" where
  "read_value fs 0 s = None"
| "read_value fs (Suc n) s =
     (case s of
        [] \<Rightarrow> None
      | c # cs \<Rightarrow>
          if c = quote_char then map_option (\<lambda>(t, rest). (PStr t, rest)) (read_string cs)
          else if c = CHR ''['' then
            (let s1 = skip_ws cs
             in if starts_with '']'' s1 then Some (PList [], tl s1)
                else map_option (\<lambda>(vs, rest). (PList vs, rest)) (read_elems fs n s1))
          else if c = CHR ''{'' then
            (let s1 = skip_ws cs
             in if starts_with ''}'' s1 then Some (PDict [], tl s1)
                else (case read_members fs n s1 of
                        None \<Rightarrow> None
                      | Some (kvs, rest) \<Rightarrow>
                          if distinct (map fst kvs) then Some (obj kvs, rest) else None))
          else if c = CHR ''n'' then read_word ''null'' PNone s
          else if c = CHR ''t'' then read_word ''true'' (PBool True) s
          else if c = CHR ''f'' then read_word ''false'' (PBool False) s
          else read_number fs s)"
| "read_elems fs 0 s = None"
| "read_elems fs (Suc n) s =
     (case read_value fs n s of
        None \<Rightarrow> None
      | Some (v, rest) \<Rightarrow>
          let s1 = skip_ws rest
          in if starts_with '']'' s1 then Some ([v], tl s1)
             else if starts_with '','' s1 then add_elem v (read_elems fs n (skip_ws (tl s1)))
             else None)"
| "read_members fs 0 s = None"
| "read_members fs (Suc n) s =
     (if s = [] \<or> hd s \<noteq> quote_char then None
      else case read_string (tl s) of
        None \<Rightarrow> None
      | Some (k, rest) \<Rightarrow>
          let s1 = skip_ws rest
          in if \<not> starts_with '':'' s1 then None
             else (case read_value fs n (skip_ws (tl s1)) of
                     None \<Rightarrow> None
                   | Some (v, rest) \<Rightarrow>
                       let s2 = skip_ws rest
                       in if starts_with ''}'' s2 then Some ([(k, v)], tl s2)
                          else if starts_with '','' s2
                          then add_member k v (read_members fs n (skip_ws (tl s2)))
                          else None))"

definition json_loads :: "float_reader \<Rightarrow> string \<Rightarrow> pyval option" where
  "json_loads fs s =
     (case read_value fs (Suc (2 * length s)) (skip_ws s) of
        None \<Rightarrow> None
      | Some (v, rest) \<Rightarrow> if skip_ws rest = [] then Some v else None)"

section \<open>What is written is read back\<close>

lemma char_ord_cases: "ord c = ord d \<longleftrightarrow> c = d"
  by (simp add: ord_def)

lemma char_of_ord [simp]: "char_of (ord c) = c"
  by (simp add: ord_def)

lemma ord_range: "0 \<le> ord c" "ord c < 256"
proof -
  have "ord c = ord c mod 256" by (simp add: ord_def)
  then show "0 \<le> ord c" "ord c < 256" by (metis pos_mod_sign pos_mod_bound zero_less_numeral)+
qed

lemma is_hex_digit_char: "0 \<le> d \<Longrightarrow> d < 16 \<Longrightarrow> is_hex (digit_char d)"
  by (drule (1) int_below_16) (auto simp: digit_char_def is_hex_def is_lower_hex_def is_digit_def ord_def)

lemma read_escaped:
  "read_string (escape_char c @ rest) = add_char c (read_string rest)"
proof -
  consider "c = quote_char \<or> c = backslash" | "c \<in> {CHR 0x0A, CHR 0x0D, CHR 0x09, CHR 0x0C, CHR 0x08}"
    | "c \<notin> {quote_char, backslash, CHR 0x0A, CHR 0x0D, CHR 0x09, CHR 0x0C, CHR 0x08}" "ord c < 32"
    | "c \<notin> {quote_char, backslash, CHR 0x0A, CHR 0x0D, CHR 0x09, CHR 0x0C, CHR 0x08}" "\<not> ord c < 32"
    by blast
  then show ?thesis
  proof cases
    case 1
    then show ?thesis
      by (auto simp: escape_char_def unescape_def quote_char_def backslash_def)
  next
    case 2
    then show ?thesis
      by (auto simp: escape_char_def unescape_def quote_char_def backslash_def)
  next
    case 3
    let ?h = "ord c div 16" and ?l = "ord c mod 16"
    have b: "0 \<le> ?h" "?h < 16" "0 \<le> ?l" "?l < 16" using 3 ord_range [of c] by simp_all
    have "from_digits 16 [CHR ''0'', CHR ''0'', digit_char ?h, digit_char ?l] = ord c"
      using b by (simp add: from_digits_def digit_value_digit_char)
        (simp add: digit_value_def is_digit_def ord_def)
    moreover have "is_hex CHR ''0''" by code_simp
    ultimately show ?thesis
      using 3 b ord_range [of c]
      by (simp add: escape_char_def is_hex_digit_char) (simp add: quote_char_def backslash_def)
  next
    case 4
    then show ?thesis by (simp add: escape_char_def)
  qed
qed

lemma read_json_string: "read_string (concat (map escape_char s) @ quote_char # rest) = Some (s, rest)"
  by (induction s) (simp_all add: read_escaped add_char_def)

text \<open>The numbers that \<open>dumps\<close> writes are followed by a delimiter or nothing.\<close>

definition token_end :: "string \<Rightarrow> bool" where
  "token_end s \<longleftrightarrow> s = [] \<or> hd s \<in> {CHR '','', CHR '']'', CHR ''}'', CHR 0x0A}"

lemma token_end_simps [simp]:
  "token_end []" "token_end (CHR '','' # s)" "token_end (CHR '']'' # s)" "token_end (CHR ''}'' # s)"
  by (simp_all add: token_end_def)

definition no_digit :: "string \<Rightarrow> bool" where
  "no_digit s \<longleftrightarrow> s = [] \<or> \<not> is_digit (hd s)"

lemma no_digit_while: "no_digit s \<Longrightarrow> takeWhile is_digit s = [] \<and> dropWhile is_digit s = s"
  by (cases s) (auto simp: no_digit_def)

lemma token_end_no_digit: "token_end s \<Longrightarrow> no_digit s"
  by (auto simp: token_end_def no_digit_def is_digit_def ord_def)

lemma token_end_frac: "token_end s \<Longrightarrow> read_frac s = ([], s)"
  by (cases s) (auto simp: token_end_def read_frac_def Let_def starts_with_def)

lemma token_end_exp: "token_end s \<Longrightarrow> read_exp s = ([], s)"
  by (auto simp: token_end_def read_exp_def Let_def)

lemma digits_then:
  "list_all is_digit ds \<Longrightarrow> no_digit rest \<Longrightarrow>
   takeWhile is_digit (ds @ rest) = ds \<and> dropWhile is_digit (ds @ rest) = rest"
  using no_digit_while by (auto simp: list_all_iff takeWhile_append2 dropWhile_append2)

lemma read_whole_digits:
  assumes "0 \<le> n" "no_digit rest"
  shows "read_whole (to_digits 10 n @ rest) = Some (to_digits 10 n, rest)"
proof (cases "n = 0")
  case True
  then show ?thesis by (simp add: read_whole_def)
next
  case False
  obtain c cs where c: "to_digits 10 n = c # cs" by (cases "to_digits 10 n") auto
  have "c \<noteq> CHR ''0''" using hd_to_digits [of 10 n] False assms(1) by (auto simp: c)
  moreover have d: "list_all is_digit (c # cs)" using to_digits_10_digits [OF assms(1)] by (simp add: c)
  ultimately show ?thesis
    using digits_then [OF d assms(2)] by (simp add: read_whole_def c)
qed

lemma to_digits_not_minus: "0 \<le> n \<Longrightarrow> \<not> starts_with ''-'' (to_digits 10 n @ rest)"
  using to_digits_10_digits [of n]
  by (cases "to_digits 10 n") (auto simp: starts_with_def is_digit_def ord_def)

lemma read_int:
  assumes "token_end rest"
  shows "read_number fs (int_str n @ rest) = Some (PInt n, rest)"
proof (cases "n < 0")
  case True
  then have "0 \<le> - n" by simp
  from read_whole_digits [OF this token_end_no_digit [OF assms]] True show ?thesis
    by (simp add: read_number_def int_str_def read_sign_def starts_with_def
        token_end_frac [OF assms] token_end_exp [OF assms])
next
  case False
  then have "0 \<le> n" by simp
  from read_whole_digits [OF this token_end_no_digit [OF assms]] to_digits_not_minus [OF this] False show ?thesis
    by (simp add: read_number_def int_str_def read_sign_def
        token_end_frac [OF assms] token_end_exp [OF assms])
qed

text \<open>
  What is relied on of floats: the text of a finite float is a JSON number from which \<open>float\<close>
  gives the same number back.
\<close>

definition repr_ok :: "float_reader \<Rightarrow> (rat \<Rightarrow> string) \<Rightarrow> bool" where
  "repr_ok fs repr \<longleftrightarrow>
     (\<forall>r rest. token_end rest \<longrightarrow>
        read_number fs (repr r @ rest) = Some (PFloat (FFin r), rest))"

lemma read_number_hd:
  assumes "read_number fs s = Some x"
  shows "s \<noteq> [] \<and> (hd s = CHR ''-'' \<or> is_digit (hd s))"
proof -
  from assms obtain w where "read_whole (snd (read_sign s)) = Some w"
    by (auto simp: read_number_def split: prod.splits option.splits)
  then show ?thesis
    by (cases s) (auto simp: read_sign_def read_whole_def starts_with_def is_digit_def ord_def
        split: if_splits list.splits)
qed

lemma read_value_number:
  assumes "read_number fs s = Some x"
  shows "read_value fs (Suc n) s = Some x"
proof -
  obtain c cs where s: "s = c # cs" "c = CHR ''-'' \<or> is_digit c"
    using read_number_hd [OF assms] by (cases s) auto
  then have "c \<notin> {quote_char, CHR ''['', CHR ''{'', CHR ''n'', CHR ''t'', CHR ''f''}"
    by (auto simp: quote_char_def is_digit_def ord_def)
  with assms s(1) show ?thesis by simp
qed

text \<open>A text that starts with a character which is neither white space nor a delimiter.\<close>

definition solid :: "string \<Rightarrow> bool" where
  "solid s \<longleftrightarrow> s \<noteq> [] \<and> \<not> is_json_ws (hd s) \<and> hd s \<notin> {CHR '']'', CHR ''}'', CHR '',''}"

lemma solid_append: "solid s \<Longrightarrow> solid (s @ t)"
  by (simp add: solid_def)

lemma skip_solid: "solid s \<Longrightarrow> skip_ws s = s"
  by (simp add: solid_def skip_ws_def dropWhile_fix)

lemma solid_not_close: "solid s \<Longrightarrow> \<not> starts_with '']'' s \<and> \<not> starts_with ''}'' s"
  by (cases s) (auto simp: solid_def starts_with_def)

lemma solid_number: "read_number fs (s @ []) = Some x \<Longrightarrow> solid s"
  using read_number_hd [of fs s x]
  by (cases s) (auto simp: solid_def is_digit_def is_json_ws_def ord_def)

lemma solid_json_text: "repr_ok fs repr \<Longrightarrow> json_value v \<Longrightarrow> solid (json_text repr v)"
proof (cases v)
  case (PInt n)
  have "read_number fs (int_str n @ []) = Some (PInt n, [])" by (rule read_int) simp
  from solid_number [OF this] PInt show ?thesis by simp
next
  case (PFloat f)
  assume r: "repr_ok fs repr" and "json_value v"
  with PFloat obtain q where f: "f = FFin q" by (cases f) auto
  have "read_number fs (repr q @ []) = Some (PFloat (FFin q), [])"
    using r [unfolded repr_ok_def, rule_format, of "[]" q] by simp
  from solid_number [OF this] PFloat f show ?thesis by simp
qed (auto simp: solid_def json_string_def quote_char_def is_json_ws_def ord_def)

lemma skip_ws_delim [simp]:
  "skip_ws (CHR '','' # s) = CHR '','' # s" "skip_ws (CHR '']'' # s) = CHR '']'' # s"
  "skip_ws (CHR ''}'' # s) = CHR ''}'' # s" "skip_ws (CHR '':'' # s) = CHR '':'' # s"
  by (simp_all add: skip_ws_def is_json_ws_def ord_def)

text \<open>\<open>reads fs t v\<close>: the text \<open>t\<close> is read as \<open>v\<close>, whatever delimiter follows.\<close>

definition reads :: "float_reader \<Rightarrow> string \<Rightarrow> pyval \<Rightarrow> bool" where
  "reads fs t v \<longleftrightarrow> solid t \<and>
     (\<forall>n rest. token_end rest \<longrightarrow> 2 * length (t @ rest) < n \<longrightarrow>
        read_value fs n (t @ rest) = Some (v, rest))"

lemma readsD:
  "reads fs t v \<Longrightarrow> token_end rest \<Longrightarrow> 2 * length (t @ rest) < n \<Longrightarrow>
   read_value fs n (t @ rest) = Some (v, rest)"
  by (simp add: reads_def)

lemma join_Cons: "join_with d (p # ps) = p @ (if ps = [] then [] else d @ join_with d ps)"
  by (cases ps) auto

lemma read_elems_join:
  assumes "list_all2 (reads fs) ts vs" "ts \<noteq> []"
    "2 * length (join_with '','' ts @ '']'' @ rest) + 1 < n"
  shows "read_elems fs n (join_with '','' ts @ '']'' @ rest) = Some (vs, rest)"
  using assms
proof (induction ts vs arbitrary: n rule: list_all2_induct)
  case (Cons t ts v vs)
  obtain m where n: "n = Suc m" using Cons.prems by (cases n) auto
  let ?r = "(if ts = [] then [] else '','' @ join_with '','' ts) @ '']'' @ rest"
  have t: "read_value fs m (t @ ?r) = Some (v, ?r)"
    by (rule readsD [OF Cons.hyps(1)]) (use Cons.prems n in \<open>auto simp: join_Cons token_end_def\<close>)
  show ?case
  proof (cases "ts = []")
    case True
    with t Cons.hyps(2) show ?thesis by (simp add: n starts_with_def)
  next
    case False
    then obtain t2 ts2 where ts: "ts = t2 # ts2" by (cases ts) auto
    with Cons.hyps(2) obtain v2 where "reads fs t2 v2" by (cases vs) auto
    then have "solid (join_with '','' ts @ '']'' @ rest)"
      by (intro solid_append) (simp add: ts join_Cons reads_def solid_append)
    from skip_solid [OF this] Cons.IH [of m] t False Cons.prems show ?thesis
      by (simp add: n starts_with_def join_Cons add_elem_def)
  qed
qed simp

lemma read_members_join:
  assumes "list_all2 (\<lambda>(k, t) (k', v). k = k' \<and> reads fs t v) ms kvs" "ms \<noteq> []"
    "2 * length (join_with '','' (map json_member ms) @ ''}'' @ rest) + 1 < n"
  shows "read_members fs n (join_with '','' (map json_member ms) @ ''}'' @ rest) = Some (kvs, rest)"
  using assms
proof (induction ms kvs arbitrary: n rule: list_all2_induct)
  case (Cons m ms kv kvs)
  obtain k t v where m: "m = (k, t)" "kv = (k, v)" and r: "reads fs t v"
    using Cons.hyps(1) by (cases m; cases kv) auto
  obtain i where n: "n = Suc i" using Cons.prems by (cases n) auto
  let ?r = "(if ms = [] then [] else '','' @ join_with '','' (map json_member ms)) @ ''}'' @ rest"
  have tx: "join_with '','' (map json_member (m # ms)) @ ''}'' @ rest =
      quote_char # concat (map escape_char k) @ quote_char # '':'' @ t @ ?r"
    by (simp add: m json_member_def json_string_def join_Cons)
  have t: "read_value fs i (t @ ?r) = Some (v, ?r)"
    by (rule readsD [OF r]) (use Cons.prems(2) [unfolded tx] n in \<open>auto simp: token_end_def\<close>)
  have sk: "skip_ws (t @ ?r) = t @ ?r"
    using r by (intro skip_solid solid_append) (simp add: reads_def)
  show ?case
  proof (cases "ms = []")
    case True
    with t sk Cons.hyps(2) show ?thesis
      unfolding tx by (simp add: n read_json_string starts_with_def m)
  next
    case False
    have "solid (join_with '','' (map json_member ms) @ ''}'' @ rest)"
      using False by (cases ms) (auto simp: join_Cons json_member_def json_string_def solid_def
          quote_char_def is_json_ws_def ord_def)
    from skip_solid [OF this] Cons.IH [of i] t sk False Cons.prems show ?thesis
      unfolding tx by (simp add: n read_json_string starts_with_def m add_member_def)
  qed
qed simp

lemma reads_word:
  assumes "\<And>n rest. read_value fs (Suc n) (t @ rest) = Some (v, rest)" "solid t"
  shows "reads fs t v"
  unfolding reads_def
proof (intro conjI allI impI)
  show "read_value fs n (t @ rest) = Some (v, rest)" if "2 * length (t @ rest) < n" for n rest
    using that assms(1) by (cases n) auto
qed (rule assms(2))

lemma is_str_key: "is_str k \<Longrightarrow> PStr (key_name k) = k"
  by (cases k) auto

lemma reads_json_text:
  assumes "repr_ok fs repr"
  shows "json_value v \<Longrightarrow> reads fs (json_text repr v) v"
proof (induction v)
  case PNone
  show ?case
    by (rule reads_word) (simp_all add: solid_json_text [OF assms, of PNone, simplified]
        quote_char_def read_word_def starts_with_def)
next
  case (PBool b)
  show ?case
    by (rule reads_word) (use solid_json_text [OF assms, of "PBool b", simplified] in
        \<open>auto simp: quote_char_def read_word_def starts_with_def\<close>)
next
  case (PInt n)
  show ?case
    unfolding reads_def using read_int read_value_number solid_json_text [OF assms PInt]
    by (metis gr0_conv_Suc json_text.simps(3) less_nat_zero_code linorder_neqE_nat)
next
  case (PFloat f)
  then obtain q where f: "f = FFin q" by (cases f) auto
  have "read_value fs n (repr q @ rest) = Some (PFloat (FFin q), rest)"
    if "token_end rest" "2 * length (repr q @ rest) < n" for n rest
    using read_value_number [of fs "repr q @ rest"] assms that
    by (cases n) (auto simp: repr_ok_def)
  with solid_json_text [OF assms PFloat] show ?case by (simp add: reads_def f)
next
  case (PStr s)
  show ?case
    by (rule reads_word) (simp_all add: json_string_def read_json_string solid_def
        is_json_ws_def quote_char_def [THEN arg_cong [where f = ord]], simp_all add: quote_char_def ord_def)
next
  case (PList vs)
  have l: "list_all2 (reads fs) (map (json_text repr) vs) vs"
    using PList by (auto simp: list_all2_conv_all_nth list_all_iff)
  have "read_value fs n (json_text repr (PList vs) @ rest) = Some (PList vs, rest)"
    if n: "2 * length (json_text repr (PList vs) @ rest) < n" for n rest
  proof -
    obtain m where m: "n = Suc m" using n by (cases n) auto
    show ?thesis
    proof (cases "vs = []")
      case True
      then show ?thesis by (simp add: m quote_char_def starts_with_def)
    next
      case False
      then have "solid (json_text repr (hd vs))"
        using PList.prems by (intro solid_json_text [OF assms]) (simp add: list_all_iff)
      with False have s: "solid (join_with '','' (map (json_text repr) vs) @ '']'' @ rest)"
        by (cases vs) (auto simp: join_Cons intro: solid_append)
      from read_elems_join [OF l, of rest m] skip_solid [OF s] solid_not_close [OF s] n False
      show ?thesis by (simp add: m quote_char_def)
    qed
  qed
  with solid_json_text [OF assms PList.prems] show ?case by (simp add: reads_def)
next
  case (PDict kvs)
  let ?ms = "map (\<lambda>(k, v). (key_name k, json_text repr v)) kvs"
    and ?kvs = "map (\<lambda>(k, v). (key_name k, v)) kvs"
  have k: "map fst ?ms = map (\<lambda>(k, v). key_name k) kvs" "map fst ?kvs = map (\<lambda>(k, v). key_name k) kvs"
    by auto
  have "sorted (map fst ?ms)" unfolding k using PDict.prems by simp
  then have d: "sort_key fst ?ms = ?ms" by (rule sort_key_sorted)
  have d2: "distinct (map fst ?kvs)" unfolding k using PDict.prems by simp
  have o: "obj ?kvs = PDict kvs"
    using PDict.prems by (auto simp: obj_def list_all_iff is_str_key intro!: map_idI)
  have "reads fs (json_text repr w) w" if "(k, w) \<in> set kvs" for k w
    using PDict.IH [OF that] PDict.prems that by (auto simp: list_all_iff)
  then have m: "list_all2 (\<lambda>(k, t) (k', v). k = k' \<and> reads fs t v) ?ms ?kvs"
    by (auto simp: list_all2_map1 list_all2_map2 case_prod_unfold list_all2_same)
  have "read_value fs n (json_text repr (PDict kvs) @ rest) = Some (PDict kvs, rest)"
    if n: "2 * length (json_text repr (PDict kvs) @ rest) < n" for n rest
  proof -
    obtain i where i: "n = Suc i" using n by (cases n) auto
    show ?thesis
    proof (cases "kvs = []")
      case True
      then show ?thesis by (simp add: i quote_char_def starts_with_def)
    next
      case False
      then have s: "solid (join_with '','' (map json_member ?ms) @ ''}'' @ rest)"
        by (cases kvs) (auto simp: join_Cons json_member_def json_string_def solid_def
            quote_char_def is_json_ws_def ord_def)
      from read_members_join [OF m, of rest i] skip_solid [OF s] solid_not_close [OF s] n False d d2 o
      show ?thesis by (simp add: i quote_char_def)
    qed
  qed
  with solid_json_text [OF assms PDict.prems] show ?case by (simp add: reads_def)
qed

text \<open>\<open>loads\<close> gives back what \<open>dumps\<close> wrote, also with the line break of the stored files.\<close>

lemma json_loads_text:
  assumes "repr_ok fs repr" "json_value v" "set nl \<subseteq> {CHR 0x0A}"
  shows "json_loads fs (json_text repr v @ nl) = Some v"
proof -
  from reads_json_text [OF assms(1,2)] have r: "reads fs (json_text repr v) v" .
  then have s: "skip_ws (json_text repr v @ nl) = json_text repr v @ nl"
    by (intro skip_solid solid_append) (simp add: reads_def)
  have nl: "token_end nl" "skip_ws nl = []"
    using assms(3) by (auto simp: token_end_def skip_ws_def is_json_ws_def ord_def hd_in_set subset_iff
        dropWhile_eq_Nil_conv)
  from readsD [OF r nl(1), of "Suc (2 * length (json_text repr v @ nl))"]
  show ?thesis unfolding json_loads_def s using nl(2) by (simp del: read_value.simps)
qed

section \<open>An instance of the float parameters\<close>

text \<open>
  Fractions written as numerator, point and denominator: a reader and a writer that satisfy
  \<open>repr_ok\<close> and compute, for the witnesses.
\<close>

definition fraction_text :: "rat \<Rightarrow> string" where
  "fraction_text r = int_str (fst (quotient_of r)) @ ''.'' @ to_digits 10 (snd (quotient_of r))"

definition fraction_read :: float_reader where
  "fraction_read s =
     (case map int_of_str (split_on CHR ''.'' s) of
        [Inr a, Inr b] \<Rightarrow> Some (FFin (of_int a / of_int b))
      | _ \<Rightarrow> None)"

lemma int_str_pos: "0 < b \<Longrightarrow> int_str b = to_digits 10 b"
  by (simp add: int_str_def)

lemma fraction_read_text: "fraction_read (fraction_text r) = Some (FFin r)"
proof -
  obtain a b where q: "quotient_of r = (a, b)" by (cases "quotient_of r")
  then have b: "0 < b" and r: "r = of_int a / of_int b"
    using quotient_of_denom_pos [OF q] quotient_of_div [OF q] by simp_all
  have "CHR ''.'' \<notin> set (int_str a)" "CHR ''.'' \<notin> set (to_digits 10 b)"
    using int_str_chars [of a] to_digits_10_digits [of b] b
    by (auto simp: list_all_iff is_digit_def ord_def)
  then have "split_on CHR ''.'' (int_str a @ ''.'' @ to_digits 10 b) = [int_str a, int_str b]"
    using b by (simp add: split_on_append split_on_no_sep int_str_def)
  then show ?thesis
    unfolding fraction_text_def fraction_read_def q fst_conv snd_conv
    using b by (simp add: r flip: int_str_pos)
qed

lemma fraction_repr_ok: "repr_ok fraction_read fraction_text"
  unfolding repr_ok_def
proof (intro allI impI)
  fix r rest assume e: "token_end rest"
  obtain a b where q: "quotient_of r = (a, b)" by (cases "quotient_of r")
  have b: "0 \<le> b" using quotient_of_denom_pos [OF q] by simp
  let ?ds = "to_digits 10 b"
  have ds: "takeWhile is_digit (?ds @ rest) = ?ds" "dropWhile is_digit (?ds @ rest) = rest"
    using digits_then [OF to_digits_10_digits [OF b] token_end_no_digit [OF e]] by simp_all
  have f: "read_frac (CHR ''.'' # ?ds @ rest) = (CHR ''.'' # ?ds, rest)"
    by (simp add: read_frac_def ds starts_with_def)
  have nd: "no_digit (CHR ''.'' # ?ds @ rest)" by (simp add: no_digit_def is_digit_def ord_def)
  have t: "fraction_read (int_str a @ CHR ''.'' # ?ds) = Some (FFin r)"
    using fraction_read_text [of r] by (simp add: fraction_text_def q)
  have "read_number fraction_read (int_str a @ CHR ''.'' # ?ds @ rest) = Some (PFloat (FFin r), rest)"
  proof (cases "a < 0")
    case True
    then have n: "0 \<le> - a" by simp
    from read_whole_digits [OF n nd] t True show ?thesis
      by (simp add: read_number_def int_str_def read_sign_def starts_with_def f token_end_exp [OF e])
  next
    case False
    then have n: "0 \<le> a" by simp
    from read_whole_digits [OF n nd] t False to_digits_not_minus [OF n] show ?thesis
      by (simp add: read_number_def int_str_def read_sign_def f token_end_exp [OF e])
  qed
  then show "read_number fraction_read (fraction_text r @ rest) = Some (PFloat (FFin r), rest)"
    by (simp add: fraction_text_def q)
qed

end
