(* ===== verification/Session_Validators.thy ===== *)
theory Session_Validators
  imports Scan_Results Json_Text
begin

text \<open>
  \<open>src/session.py\<close>, lines 55 to 436: the validators of the session documents. Every rejection
  is a \<open>SessionContractError\<close>, apart from the exceptions that the code lets through, which are
  kept as they are.
\<close>

section \<open>The environment\<close>

text \<open>
  What the session code takes from its surroundings: the SHA-256 of a sequence of bytes in
  hexadecimal, UTF-8, \<open>datetime.fromisoformat\<close>, whose accepted formats depend on the version of
  Python, as the offset from UTC (none for a naive time) and the instant, \<open>isoformat\<close> of an
  instant in UTC, \<open>float\<close> on text and \<open>repr\<close> of a finite float.
\<close>

record session_env =
  env_sha256 :: "string \<Rightarrow> string"
  env_iso_read :: "string \<Rightarrow> (int option \<times> int) option"
  env_iso_write :: "int \<Rightarrow> string"
  env_float :: float_reader
  env_repr :: "rat \<Rightarrow> string"
  env_encode :: "string \<Rightarrow> string"
  env_decode :: "string \<Rightarrow> string option"

definition max_session_targets :: nat where "max_session_targets = 4096"
definition max_timeout_ms :: int where "max_timeout_ms = 3600000"
definition max_threads :: int where "max_threads = 500"
definition max_target_workers :: int where "max_target_workers = 32"
definition max_error_length :: nat where "max_error_length = 2048"

section \<open>Validators\<close>

definition require_mapping :: "pyval \<Rightarrow> exc + (pyval \<times> pyval) list" where
  "require_mapping v = (case v of PDict d \<Rightarrow> Inr d | _ \<Rightarrow> Inl SessionContractError)"

definition require_fields :: "string list \<Rightarrow> string list \<Rightarrow> (pyval \<times> pyval) list \<Rightarrow> exc + unit" where
  "require_fields required optional d =
     (if \<not> list_all is_str (dict_keys d) then Inl SessionContractError
      else if \<not> has_fields d required then Inl SessionContractError
      else if \<not> only_fields d (required @ optional) then Inl SessionContractError
      else Inr ())"

definition require_string :: "bool \<Rightarrow> nat \<Rightarrow> pyval \<Rightarrow> exc + string" where
  "require_string allow_empty maximum v =
     (case v of
        PStr s \<Rightarrow>
          if has_nul s then Inl SessionContractError
          else if \<not> allow_empty \<and> strip s = [] then Inl SessionContractError
          else if length (strip s) > maximum then Inl SessionContractError
          else Inr (strip s)
      | _ \<Rightarrow> Inl SessionContractError)"

definition require_optional_string :: "pyval \<Rightarrow> exc + string option" where
  "require_optional_string v =
     (if v = PNone then Inr None
      else bindE (require_string False max_error_length v) (\<lambda>s. Inr (Some s)))"

definition require_int :: "int \<Rightarrow> int option \<Rightarrow> pyval \<Rightarrow> exc + int" where
  "require_int minimum maximum v =
     (case v of
        PInt n \<Rightarrow>
          if n < minimum \<or> (case maximum of None \<Rightarrow> False | Some m \<Rightarrow> n > m)
          then Inl SessionContractError else Inr n
      | _ \<Rightarrow> Inl SessionContractError)"

definition require_iterable :: "pyval \<Rightarrow> exc + pyval list" where
  "require_iterable v =
     (if is_str v then Inl SessionContractError
      else case iter_values v of None \<Rightarrow> Inl SessionContractError | Some vs \<Rightarrow> Inr vs)"

fun ports_loop :: "pyval list \<Rightarrow> int list \<Rightarrow> exc + int list" where
  "ports_loop [] seen = Inr seen"
| "ports_loop (v # vs) seen =
     bindE (require_int 1 (Some 65535) v) (\<lambda>p.
       if p \<in> set seen then Inl SessionContractError else ports_loop vs (seen @ [p]))"

definition normalize_ports :: "bool \<Rightarrow> pyval \<Rightarrow> exc + int list" where
  "normalize_ports allow_empty v =
     bindE (require_iterable v) (\<lambda>vs.
     bindE (ports_loop vs []) (\<lambda>ps.
       if ps = [] \<and> \<not> allow_empty then Inl SessionContractError else Inr (sort ps)))"

fun strings_loop :: "nat \<Rightarrow> pyval list \<Rightarrow> string list \<Rightarrow> exc + string list" where
  "strings_loop maximum [] seen = Inr seen"
| "strings_loop maximum (v # vs) seen =
     bindE (require_string False 255 v) (\<lambda>s.
       if s \<in> set seen then Inl SessionContractError
       else if length (seen @ [s]) > maximum then Inl SessionContractError
       else strings_loop maximum vs (seen @ [s]))"

definition normalize_unique_strings :: "nat \<Rightarrow> pyval \<Rightarrow> exc + string list" where
  "normalize_unique_strings maximum v =
     bindE (require_iterable v) (\<lambda>vs.
     bindE (strings_loop maximum vs []) (\<lambda>ss.
       if ss = [] then Inl SessionContractError else Inr ss))"

definition strict_json_loads :: "session_env \<Rightarrow> string \<Rightarrow> exc + pyval" where
  "strict_json_loads env document =
     (case json_loads (env_float env) document of
        Some (PDict d) \<Rightarrow> Inr (PDict d)
      | _ \<Rightarrow> Inl SessionContractError)"

definition deterministic_json :: "session_env \<Rightarrow> pyval \<Rightarrow> exc + string" where
  "deterministic_json env v =
     (if json_finite v then Inr (json_text (env_repr env) v) else Inl SessionContractError)"

text \<open>\<open>s.replace(old, new)\<close> for a non-empty \<open>old\<close>.\<close>

function replace_all :: "string \<Rightarrow> string \<Rightarrow> string \<Rightarrow> string" where
  "replace_all old new [] = []"
| "replace_all old new (c # cs) =
     (if old \<noteq> [] \<and> starts_with old (c # cs)
      then new @ replace_all old new (drop (length old) (c # cs))
      else c # replace_all old new cs)"
  by pat_completeness auto
termination
  by (relation "measure (\<lambda>(old, new, s). length s)") auto

definition normalize_timestamp :: "session_env \<Rightarrow> pyval \<Rightarrow> exc + string" where
  "normalize_timestamp env v =
     bindE (require_string False 64 v) (\<lambda>text.
       let candidate = (if ends_with ''Z'' text then butlast text @ ''+00:00'' else text)
       in case env_iso_read env candidate of
            None \<Rightarrow> Inl SessionContractError
          | Some (offset, instant) \<Rightarrow>
              if offset \<noteq> Some 0 then Inl SessionContractError
              else Inr (replace_all ''+00:00'' ''Z'' (env_iso_write env instant)))"

definition parse_timestamp :: "session_env \<Rightarrow> string \<Rightarrow> exc + int" where
  "parse_timestamp env s =
     (case env_iso_read env (replace_all ''Z'' ''+00:00'' s) of
        None \<Rightarrow> Inl ValueError
      | Some (offset, instant) \<Rightarrow> Inr instant)"

text \<open>
  \<open>UUID(text)\<close> followed by the comparison of \<open>text.lower()\<close> with its canonical form accepts
  exactly the 8-4-4-4-12 form.
\<close>

definition canonical_uuid :: "string \<Rightarrow> bool" where
  "canonical_uuid s \<longleftrightarrow>
     map length (split_on CHR ''-'' s) = [8, 4, 4, 4, 12] \<and>
     list_all (list_all is_lower_hex) (split_on CHR ''-'' s)"

definition normalize_session_id :: "pyval \<Rightarrow> exc + string" where
  "normalize_session_id v =
     bindE (require_string False 36 v) (\<lambda>text.
       if canonical_uuid (lower text) then Inr (lower text) else Inl SessionContractError)"

text \<open>A \<open>TargetIdentity\<close> or a dictionary.\<close>

definition identity_payload :: "target_identity + pyval \<Rightarrow> pyval" where
  "identity_payload x = (case x of Inl t \<Rightarrow> target_identity_to_dict t | Inr v \<Rightarrow> v)"

definition normalize_target_identity :: "target_identity + pyval \<Rightarrow> exc + target_identity" where
  "normalize_target_identity x =
     bindE (require_mapping (identity_payload x)) (\<lambda>d.
     bindE (require_fields [''requested'', ''address'', ''family''] [''canonical_name'', ''source''] d) (\<lambda>_.
     bindE (dict_at d ''requested'') (\<lambda>rq.
     bindE (require_string False 255 rq) (\<lambda>requested.
     bindE (require_optional_string (dict_get_or d ''canonical_name'' PNone)) (\<lambda>cn.
     bindE (require_optional_string (dict_get_or d ''source'' PNone)) (\<lambda>src.
     bindE (dict_at d ''address'') (\<lambda>address.
     bindE (dict_at d ''family'') (\<lambda>family.
       reraise is_type_or_value_error SessionContractError
         (target_identity_init (PStr requested) address family (str_or_none cn)
            (str_or_none src))))))))))"

datatype session_status = SS_CREATED | SS_RUNNING | SS_CANCELLED | SS_FAILED | SS_COMPLETED

definition session_statuses :: "session_status list" where
  "session_statuses = [SS_CREATED, SS_RUNNING, SS_CANCELLED, SS_FAILED, SS_COMPLETED]"

fun session_status_value :: "session_status \<Rightarrow> string" where
  "session_status_value SS_CREATED = ''created''"
| "session_status_value SS_RUNNING = ''running''"
| "session_status_value SS_CANCELLED = ''cancelled''"
| "session_status_value SS_FAILED = ''failed''"
| "session_status_value SS_COMPLETED = ''completed''"

definition is_terminal :: "session_status \<Rightarrow> bool" where
  "is_terminal s \<longleftrightarrow> s \<in> {SS_CANCELLED, SS_FAILED, SS_COMPLETED}"

definition coerce_status :: "pyval \<Rightarrow> exc + session_status" where
  "coerce_status v =
     reraise is_type_or_value_error SessionContractError
       (coerce_enum session_statuses session_status_value v)"

interpretation ss: str_enum session_statuses session_status_value
proof
  show "x \<in> set session_statuses" for x by (cases x) (simp_all add: session_statuses_def)
  show "session_status_value x = session_status_value y \<Longrightarrow> x = y" for x y
    by (cases x; cases y) simp_all
qed

declare session_status_value.simps [simp del]

section \<open>Results inside a session\<close>

definition port_result_fields :: "string list" where
  "port_result_fields =
     [''contract_version'', ''record_type'', ''target'', ''address'', ''address_family'',
      ''host_state'', ''port'', ''protocol'', ''state'', ''reason'', ''technique'', ''service'',
      ''banner'', ''response_time'', ''is_open'', ''evidence'']"

definition check_that :: "bool \<Rightarrow> exc + unit" where
  "check_that b = (if b then Inr () else Inl SessionContractError)"

definition session_enum :: "'a list \<Rightarrow> ('a \<Rightarrow> string) \<Rightarrow> pyval \<Rightarrow> exc + 'a" where
  "session_enum members val v =
     reraise is_type_or_value_error SessionContractError (coerce_enum members val v)"

text \<open>
  \<open>float\<close> of a number only: an integer too large for a float raises \<open>OverflowError\<close>, which
  is not caught.
\<close>

definition check_response_time :: "pyval \<Rightarrow> exc + unit" where
  "check_response_time v =
     (case v of
        PFloat f \<Rightarrow> check_that (isfinite f \<and> \<not> fl_neg f)
      | PInt n \<Rightarrow> bindE (float_of_int n) (\<lambda>f. check_that (isfinite f \<and> \<not> fl_neg f))
      | _ \<Rightarrow> Inl SessionContractError)"

definition check_evidence :: "(pyval \<times> pyval) list \<Rightarrow> exc + scan_evidence" where
  "check_evidence ed =
     bindE (require_fields [''reason'', ''source''] [''detail'', ''errno''] ed) (\<lambda>_.
       reraise is_type_or_value_error SessionContractError (scan_evidence_from_dict (PDict ed)))"

definition check_evidence_types :: "(pyval \<times> pyval) list \<Rightarrow> exc + unit" where
  "check_evidence_types ed =
     bindE (check_that (case dict_get ed ''detail'' of None \<Rightarrow> True | Some v \<Rightarrow> is_str v)) (\<lambda>_.
       case dict_get ed ''errno'' of
         None \<Rightarrow> Inr ()
       | Some v \<Rightarrow> bindE (require_int 0 None v) (\<lambda>_. Inr ()))"

text \<open>The checks before the evidence, and the whole canonicalisation.\<close>

definition check_result_identity ::
    "(pyval \<times> pyval) list \<Rightarrow> target_identity \<Rightarrow> exc + unit" where
  "check_result_identity d identity =
     bindE (dict_at d ''contract_version'') (\<lambda>version.
     bindE (require_int 1 (Some 1) version) (\<lambda>_.
     bindE (check_that (dict_get d ''record_type'' = Some (PStr ''port_result''))) (\<lambda>_.
     bindE (dict_at d ''target'') (\<lambda>target.
     bindE (require_string False 255 target) (\<lambda>_.
     bindE (dict_at d ''address'') (\<lambda>address.
     bindE (require_string False 64 address) (\<lambda>_.
     bindE (check_that (target = PStr (ti_requested identity) \<and>
                        address = PStr (ti_address identity))) (\<lambda>_.
     bindE (check_that (dict_get d ''address_family'' =
                        Some (PStr (address_family_value (ti_family identity))))) (\<lambda>_.
     bindE (dict_at d ''port'') (\<lambda>port.
     bindE (require_int 1 (Some 65535) port) (\<lambda>_.
       check_that (dict_get d ''protocol'' = Some (PStr ''tcp'')))))))))))))"

definition check_result_values :: "(pyval \<times> pyval) list \<Rightarrow> exc + reason_code" where
  "check_result_values d =
     bindE (dict_at d ''state'') (\<lambda>sv.
     bindE (session_enum port_states port_state_value sv) (\<lambda>state.
     bindE (dict_at d ''host_state'') (\<lambda>hv.
     bindE (session_enum host_states host_state_value hv) (\<lambda>_.
     bindE (dict_at d ''technique'') (\<lambda>tv.
     bindE (session_enum scan_techniques scan_technique_value tv) (\<lambda>technique.
     bindE (dict_at d ''reason'') (\<lambda>rv.
     bindE (session_enum reason_codes reason_code_value rv) (\<lambda>reason.
     bindE (check_that (technique = ST_TCP_CONNECT)) (\<lambda>_.
     bindE (check_that (dict_get d ''is_open'' = Some (legacy_is_open state))) (\<lambda>_.
     bindE (dict_at d ''service'') (\<lambda>service.
     bindE (require_string True 255 service) (\<lambda>_.
     bindE (dict_at d ''banner'') (\<lambda>banner.
     bindE (if banner = PNone then Inr () else
            bindE (require_string True 300 banner) (\<lambda>_. Inr ())) (\<lambda>_.
     bindE (dict_at d ''response_time'') (\<lambda>rt.
     bindE (check_response_time rt) (\<lambda>_. Inr reason))))))))))))))))"

definition canonicalize_port_result ::
    "session_env \<Rightarrow> pyval \<Rightarrow> target_identity \<Rightarrow> exc + scan_result" where
  "canonicalize_port_result env v identity =
     bindE (require_mapping v) (\<lambda>d.
     bindE (require_fields port_result_fields [] d) (\<lambda>_.
     bindE (check_result_identity d identity) (\<lambda>_.
     bindE (check_result_values d) (\<lambda>reason.
     bindE (dict_at d ''evidence'') (\<lambda>ev.
     bindE (require_mapping ev) (\<lambda>ed.
     bindE (check_evidence ed) (\<lambda>evidence.
     bindE (check_that (reason = ev_reason evidence)) (\<lambda>_.
     bindE (check_evidence_types ed) (\<lambda>_.
       reraise is_type_or_value_error SessionContractError
         (scan_result_from_dict (env_float env) (PDict d)))))))))))"

section \<open>What the validators accept\<close>

definition sess_string :: "nat \<Rightarrow> string \<Rightarrow> bool" where
  "sess_string n s \<longleftrightarrow> s \<noteq> [] \<and> strip s = s \<and> \<not> has_nul s \<and> length s \<le> n"

lemma require_string_False [run]:
  "require_string False n v = Inr t \<longleftrightarrow>
     (\<exists>s. v = PStr s \<and> \<not> has_nul s \<and> strip s \<noteq> [] \<and> length (strip s) \<le> n \<and> t = strip s)"
  by (cases v) (auto simp: require_string_def)

lemma require_string_True [run]:
  "require_string True n v = Inr t \<longleftrightarrow>
     (\<exists>s. v = PStr s \<and> \<not> has_nul s \<and> length (strip s) \<le> n \<and> t = strip s)"
  by (cases v) (auto simp: require_string_def)

lemma require_string_ok: "require_string False n v = Inr t \<Longrightarrow> sess_string n t"
  by (auto simp: run sess_string_def strip_not_nul)

lemma require_string_id [simp]: "sess_string n s \<Longrightarrow> require_string False n (PStr s) = Inr s"
  by (simp add: require_string_def sess_string_def)

definition opt_string :: "string option \<Rightarrow> bool" where
  "opt_string x \<longleftrightarrow> (\<forall>s. x = Some s \<longrightarrow> sess_string max_error_length s)"

lemma require_optional_string_ok: "require_optional_string v = Inr x \<Longrightarrow> opt_string x"
  by (auto simp: require_optional_string_def opt_string_def run sess_string_def strip_not_nul split: if_splits)

lemma require_optional_string_id [simp]:
  "opt_string x \<Longrightarrow> require_optional_string (str_or_none x) = Inr x"
  by (cases x) (simp_all add: require_optional_string_def opt_string_def)

lemma require_int_Inr [run]:
  "require_int a m v = Inr n \<longleftrightarrow> v = PInt n \<and> a \<le> n \<and> (\<forall>k. m = Some k \<longrightarrow> n \<le> k)"
  by (cases v) (auto simp: require_int_def split: option.splits)

lemma require_int_PInt [simp]:
  "a \<le> n \<Longrightarrow> require_int a None (PInt n) = Inr n"
  "a \<le> n \<Longrightarrow> n \<le> k \<Longrightarrow> require_int a (Some k) (PInt n) = Inr n"
  by (simp_all add: run)

lemma check_that_Inr [run]: "check_that b = Inr u \<longleftrightarrow> b"
  by (simp add: check_that_def)

lemma check_that_True [simp]: "b \<Longrightarrow> check_that b = Inr ()"
  by (simp add: check_that_def)

lemma require_mapping_Inr [run]: "require_mapping v = Inr d \<longleftrightarrow> v = PDict d"
  by (cases v) (auto simp: require_mapping_def)

lemma require_mapping_PDict [simp]: "require_mapping (PDict d) = Inr d"
  by (simp add: require_mapping_def)

lemma require_iterable_PList [simp]: "require_iterable (PList xs) = Inr xs"
  by (simp add: require_iterable_def)

lemma sort_Nil_iff [simp]: "sort xs = [] \<longleftrightarrow> xs = []"
  by (metis set_empty set_sort)

lemma ports_loop_Inr:
  "ports_loop vs seen = Inr ps \<Longrightarrow> distinct seen \<Longrightarrow> \<forall>p \<in> set seen. 1 \<le> p \<and> p \<le> 65535 \<Longrightarrow>
   distinct ps \<and> (\<forall>p \<in> set ps. 1 \<le> p \<and> p \<le> 65535)"
  by (induction vs seen rule: ports_loop.induct) (auto simp: run)

lemma ports_loop_id:
  "distinct (seen @ ps) \<Longrightarrow> \<forall>p \<in> set ps. 1 \<le> p \<and> p \<le> 65535 \<Longrightarrow>
   ports_loop (map PInt ps) seen = Inr (seen @ ps)"
  by (induction ps arbitrary: seen) auto

lemma normalize_ports_ok:
  "normalize_ports b v = Inr ps \<Longrightarrow> port_list ps \<and> (b \<or> ps \<noteq> [])"
  by (auto simp: normalize_ports_def run port_list_def dest!: ports_loop_Inr)

lemma normalize_ports_id [simp]:
  "port_list ps \<Longrightarrow> b \<or> ps \<noteq> [] \<Longrightarrow> normalize_ports b (PList (map PInt ps)) = Inr ps"
  by (auto simp: normalize_ports_def port_list_def ports_loop_id)

definition unique_strings :: "string list \<Rightarrow> bool" where
  "unique_strings ss \<longleftrightarrow> distinct ss \<and> list_all (sess_string 255) ss"

lemma strings_loop_Inr:
  "strings_loop m vs seen = Inr ss \<Longrightarrow> unique_strings seen \<Longrightarrow> length seen \<le> m \<Longrightarrow>
   unique_strings ss \<and> length ss \<le> m"
proof (induction m vs seen rule: strings_loop.induct)
  case (2 m v vs seen)
  then obtain s where s: "require_string False 255 v = Inr s" "s \<notin> set seen" "length (seen @ [s]) \<le> m"
    "strings_loop m vs (seen @ [s]) = Inr ss"
    by (auto simp: bindE_Inr split: if_splits)
  with "2.IH" [OF s(1)] "2.prems" require_string_ok [OF s(1)] show ?case
    by (auto simp: unique_strings_def)
qed auto

lemma strings_loop_id:
  "unique_strings (seen @ ss) \<Longrightarrow> length (seen @ ss) \<le> m \<Longrightarrow>
   strings_loop m (map PStr ss) seen = Inr (seen @ ss)"
  by (induction ss arbitrary: seen) (auto simp: unique_strings_def)

lemma normalize_unique_strings_ok:
  "normalize_unique_strings m v = Inr ss \<Longrightarrow> unique_strings ss \<and> length ss \<le> m \<and> ss \<noteq> []"
  using strings_loop_Inr [of m _ "[]" ss]
  by (auto simp: normalize_unique_strings_def run unique_strings_def)

lemma normalize_unique_strings_id [simp]:
  "unique_strings ss \<Longrightarrow> length ss \<le> m \<Longrightarrow> ss \<noteq> [] \<Longrightarrow>
   normalize_unique_strings m (PList (map PStr ss)) = Inr ss"
  using strings_loop_id [of "[]" ss m] by (simp add: normalize_unique_strings_def)

lemma is_lower_hex_lower: "is_lower_hex c \<Longrightarrow> char_lower c = c"
  by (auto simp: is_lower_hex_def is_digit_def char_lower_def)

lemma in_split_on: "c \<in> set s \<Longrightarrow> c = d \<or> (\<exists>p \<in> set (split_on d s). c \<in> set p)"
proof (induction s)
  case (Cons a s)
  obtain q qs where "split_on d s = q # qs" by (cases "split_on d s") auto
  with Cons show ?case by auto
qed simp

lemma length_split_on: "sum_list (map length (split_on d s)) + length (split_on d s) = Suc (length s)"
  by (induction s) (auto split: list.splits)

lemma canonical_uuid_chars:
  assumes "canonical_uuid s"
  shows "list_all (\<lambda>c. is_lower_hex c \<or> c = CHR ''-'') s" "length s = 36"
proof -
  show "list_all (\<lambda>c. is_lower_hex c \<or> c = CHR ''-'') s"
    using assms in_split_on [of _ s "CHR ''-''"] by (auto simp: canonical_uuid_def list_all_iff)
  have "map length (split_on CHR ''-'' s) = [8, 4, 4, 4, 12]" using assms by (simp add: canonical_uuid_def)
  then have l: "sum_list (map length (split_on CHR ''-'' s)) = 32"
    "length (map length (split_on CHR ''-'' s)) = 5" by simp_all
  from l(2) have "length (split_on CHR ''-'' s) = 5" by simp
  with l(1) length_split_on [of "CHR ''-''" s] show "length s = 36" by simp
qed

lemma lower_canonical_uuid: "canonical_uuid s \<Longrightarrow> lower s = s"
  using canonical_uuid_chars(1) [of s] is_lower_hex_lower
  by (auto simp: lower_def list_all_iff char_lower_def ord_def intro!: map_idI)

lemma sess_string_uuid: "canonical_uuid s \<Longrightarrow> sess_string 36 s"
proof -
  assume u: "canonical_uuid s"
  have "\<forall>c \<in> set s. \<not> is_space c" "CHR 0x00 \<notin> set s"
    using canonical_uuid_chars(1) [OF u]
    by (auto simp: list_all_iff is_lower_hex_def is_digit_def is_space_def ord_def)
  with canonical_uuid_chars(2) [OF u] show ?thesis
    by (auto simp: sess_string_def has_nul_def intro: strip_no_space)
qed

lemma normalize_session_id_ok: "normalize_session_id v = Inr s \<Longrightarrow> canonical_uuid s"
  by (auto simp: normalize_session_id_def run split: if_splits)

lemma normalize_session_id_id [simp]: "canonical_uuid s \<Longrightarrow> normalize_session_id (PStr s) = Inr s"
  by (simp add: normalize_session_id_def sess_string_uuid lower_canonical_uuid)

lemma coerce_status_Inr [run]: "coerce_status v = Inr s \<longleftrightarrow> v = PStr (session_status_value s)"
  by (simp add: coerce_status_def run)
lemma coerce_status_id [simp]: "coerce_status (PStr (session_status_value s)) = Inr s"
  by (simp add: run)

text \<open>The identities a session keeps.\<close>

definition opt_name :: "pyval \<Rightarrow> bool" where
  "opt_name v \<longleftrightarrow> (\<exists>x. v = str_or_none x \<and> opt_string x)"

definition wf_session_identity :: "target_identity \<Rightarrow> bool" where
  "wf_session_identity t \<longleftrightarrow>
     wf_identity t \<and> sess_string 255 (ti_requested t) \<and>
     opt_name (ti_canonical_name t) \<and> opt_name (ti_source t)"

lemma target_identity_init_Inr:
  "target_identity_init (PStr rq) address family cn src = Inr t \<Longrightarrow>
     ti_requested t = rq \<and> ti_canonical_name t = cn \<and> ti_source t = src"
  by (auto simp: target_identity_init_def run check_nonblank_def split: if_splits)

lemma normalize_target_identity_ok:
  assumes "normalize_target_identity x = Inr t"
  shows "wf_session_identity t"
proof -
  from assms obtain v rq cv cn sv src address family where
    s: "require_string False 255 v = Inr rq" "require_optional_string cv = Inr cn"
      "require_optional_string sv = Inr src"
    and i: "target_identity_init (PStr rq) address family (str_or_none cn) (str_or_none src) = Inr t"
    unfolding normalize_target_identity_def by (auto simp only: bindE_Inr reraise_Inr)
  show ?thesis
    using target_identity_init_Inr [OF i] target_identity_init_wf [OF i] require_string_ok [OF s(1)]
      require_optional_string_ok [OF s(2)] require_optional_string_ok [OF s(3)]
    by (auto simp: wf_session_identity_def opt_name_def)
qed

lemma opt_name_truthy: "opt_name v \<Longrightarrow> (if truthy v then v else PNone) = v"
  by (auto simp: opt_name_def opt_string_def sess_string_def str_or_none_def split: option.splits)

lemma opt_name_falsy: "opt_name v \<Longrightarrow> \<not> truthy v \<Longrightarrow> v = PNone"
  using opt_name_truthy by fastforce

lemma opt_name_id: "opt_name v \<Longrightarrow> \<exists>x. require_optional_string v = Inr x \<and> str_or_none x = v"
  by (auto simp: opt_name_def)

lemma identity_dict_fields:
  assumes "opt_name (ti_canonical_name t)" "opt_name (ti_source t)"
  shows "\<exists>d. target_identity_to_dict t = PDict d \<and>
    require_fields [''requested'', ''address'', ''family''] [''canonical_name'', ''source''] d = Inr () \<and>
    dict_get d ''requested'' = Some (PStr (ti_requested t)) \<and>
    dict_get d ''address'' = Some (PStr (ti_address t)) \<and>
    dict_get d ''family'' = Some (PStr (address_family_value (ti_family t))) \<and>
    dict_get_or d ''canonical_name'' PNone = ti_canonical_name t \<and>
    dict_get_or d ''source'' PNone = ti_source t"
  using opt_name_falsy [OF assms(1)] opt_name_falsy [OF assms(2)]
  by (cases "truthy (ti_canonical_name t)"; cases "truthy (ti_source t)")
    (simp_all add: target_identity_to_dict_def obj_def dict_get_or_def require_fields_def
      has_fields_def only_fields_def dict_keys_def)

lemma normalize_target_identity_dict:
  assumes "wf_session_identity t"
  shows "normalize_target_identity (Inr (target_identity_to_dict t)) = Inr t"
proof -
  from assms have w: "wf_identity t" "sess_string 255 (ti_requested t)"
    "opt_name (ti_canonical_name t)" "opt_name (ti_source t)"
    by (simp_all add: wf_session_identity_def)
  obtain d where d: "target_identity_to_dict t = PDict d"
    "require_fields [''requested'', ''address'', ''family''] [''canonical_name'', ''source''] d = Inr ()"
    "dict_get d ''requested'' = Some (PStr (ti_requested t))"
    "dict_get d ''address'' = Some (PStr (ti_address t))"
    "dict_get d ''family'' = Some (PStr (address_family_value (ti_family t)))"
    "dict_get_or d ''canonical_name'' PNone = ti_canonical_name t"
    "dict_get_or d ''source'' PNone = ti_source t"
    using identity_dict_fields [OF w(3,4)] by blast
  obtain cn src where o: "require_optional_string (ti_canonical_name t) = Inr cn"
    "str_or_none cn = ti_canonical_name t"
    "require_optional_string (ti_source t) = Inr src" "str_or_none src = ti_source t"
    using opt_name_id [OF w(3)] opt_name_id [OF w(4)] by blast
  have "target_identity_init (PStr (ti_requested t)) (PStr (ti_address t))
      (PStr (address_family_value (ti_family t))) (ti_canonical_name t) (ti_source t) = Inr t"
    using wf_identityD [OF w(1)] by (auto simp: target_identity_init_def check_nonblank_def)
  with d o w(2) show ?thesis
    by (simp add: normalize_target_identity_def identity_payload_def)
qed

lemma normalize_target_identity_id [simp]:
  "wf_session_identity t \<Longrightarrow> normalize_target_identity (Inl t) = Inr t"
  using normalize_target_identity_dict [of t]
  by (simp add: normalize_target_identity_def identity_payload_def)

section \<open>Timestamps\<close>

text \<open>What the session code relies on of \<open>datetime\<close>: an instant in UTC that was read is
written in a form that is read again as the same instant, ends in \<open>+00:00\<close>, contains neither
\<open>Z\<close> nor another \<open>+\<close> nor white space, and is short.\<close>

definition iso_ok :: "session_env \<Rightarrow> bool" where
  "iso_ok env \<longleftrightarrow>
     (\<forall>s t. env_iso_read env s = Some (Some 0, t) \<longrightarrow>
        (\<exists>body. env_iso_write env t = body @ ''+00:00'' \<and> body \<noteq> [] \<and>
           (\<forall>c \<in> set body. c \<noteq> CHR ''Z'' \<and> c \<noteq> CHR ''+'' \<and> \<not> is_space c \<and> c \<noteq> CHR 0x00) \<and>
           length body < 60 \<and> env_iso_read env (env_iso_write env t) = Some (Some 0, t)))"

definition wf_timestamp :: "session_env \<Rightarrow> string \<Rightarrow> bool" where
  "wf_timestamp env s \<longleftrightarrow>
     sess_string 64 s \<and>
     (\<exists>t. normalize_timestamp env (PStr s) = Inr s \<and> parse_timestamp env s = Inr t)"

lemma replace_all_skip:
  "c0 \<notin> set s \<Longrightarrow> replace_all (c0 # old) new (s @ r) = s @ replace_all (c0 # old) new r"
  by (induction s) (auto simp: starts_with_def)

lemma normalize_timestamp_ok:
  assumes "iso_ok env" "normalize_timestamp env v = Inr s"
  shows "wf_timestamp env s"
proof -
  from assms(2) obtain u t where u: "env_iso_read env u = Some (Some 0, t)"
    "s = replace_all ''+00:00'' ''Z'' (env_iso_write env t)"
    by (auto simp: normalize_timestamp_def run Let_def split: option.splits if_splits)
  from assms(1) [unfolded iso_ok_def, rule_format, OF u(1)] obtain body where b: "env_iso_write env t = body @ ''+00:00''" "body \<noteq> []"
    "\<forall>c \<in> set body. c \<noteq> CHR ''Z'' \<and> c \<noteq> CHR ''+'' \<and> \<not> is_space c \<and> c \<noteq> CHR 0x00"
    "length body < 60" "env_iso_read env (env_iso_write env t) = Some (Some 0, t)"
    by (elim exE conjE)
  from b(3) have no: "CHR ''+'' \<notin> set body" "CHR ''Z'' \<notin> set body" by auto
  have r1: "replace_all ''+00:00'' ''Z'' (body @ ''+00:00'') = body @ ''Z''"
    using replace_all_skip [OF no(1)] by (simp add: starts_with_def)
  have r2: "replace_all ''Z'' ''+00:00'' (body @ ''Z'') = body @ ''+00:00''"
    using replace_all_skip [OF no(2)] by (simp add: starts_with_def)
  have "\<not> is_space CHR ''Z''" by (simp add: is_space_def ord_def)
  with b(3) have "strip (body @ ''Z'') = body @ ''Z''" by (intro strip_no_space) auto
  with b(3,4) have "sess_string 64 (body @ ''Z'')" by (auto simp: sess_string_def has_nul_def)
  moreover have "ends_with ''Z'' (body @ ''Z'')" by (simp add: ends_with_def starts_with_def)
  ultimately show ?thesis
    using b(5) by (simp add: u(2) b(1) r1 r2 wf_timestamp_def normalize_timestamp_def
        parse_timestamp_def Let_def)
qed

section \<open>Canonical results\<close>

definition text_field :: "nat \<Rightarrow> pyval \<Rightarrow> bool" where
  "text_field n v \<longleftrightarrow> (\<exists>s. v = PStr s \<and> \<not> has_nul s \<and> length (strip s) \<le> n)"

definition session_evidence :: "scan_evidence \<Rightarrow> bool" where
  "session_evidence e \<longleftrightarrow>
     (ev_detail e = PNone \<or> is_str (ev_detail e)) \<and>
     (ev_errno e = PNone \<or> (\<exists>n. ev_errno e = PInt n \<and> 0 \<le> n))"

definition wf_port_result :: "target_identity \<Rightarrow> scan_result \<Rightarrow> bool" where
  "wf_port_result t r \<longleftrightarrow>
     wf_scan_result r \<and> sr_contract_version r = PInt 1 \<and> sr_protocol r = ''tcp'' \<and>
     sr_technique r = ST_TCP_CONNECT \<and> sr_target r = PStr (ti_requested t) \<and>
     sr_address r = PStr (ti_address t) \<and> sr_family r = Some (ti_family t) \<and>
     text_field 64 (PStr (ti_address t)) \<and> strip (ti_address t) \<noteq> [] \<and>
     text_field 255 (sr_service r) \<and> (sr_banner r = PNone \<or> text_field 300 (sr_banner r)) \<and>
     isfinite (sr_response_time r) \<and> \<not> fl_neg (sr_response_time r) \<and>
     session_evidence (sr_evidence r)"

lemma session_enum_simps [simp]: "session_enum port_states port_state_value (PStr (port_state_value x)) = Inr x"
  "session_enum host_states host_state_value (PStr (host_state_value h)) = Inr h"
  "session_enum scan_techniques scan_technique_value (PStr (scan_technique_value q)) = Inr q"
  "session_enum reason_codes reason_code_value (PStr (reason_code_value rc)) = Inr rc"
  by (simp_all add: session_enum_def)

lemma evidence_dict_ok:
  assumes "wf_evidence e" "session_evidence e"
  shows "\<exists>ed. scan_evidence_to_dict e = PDict ed \<and> check_evidence ed = Inr e \<and> check_evidence_types ed = Inr ()"
proof -
  obtain ed where ed: "scan_evidence_to_dict e = PDict ed" by (simp add: scan_evidence_to_dict_def obj_def)
  have "require_fields [''reason'', ''source''] [''detail'', ''errno''] ed = Inr ()"
    "check_evidence_types ed = Inr ()"
    using ed assms(2) by (auto simp: scan_evidence_to_dict_def obj_def session_evidence_def require_fields_def
        has_fields_def only_fields_def dict_keys_def check_evidence_types_def split: if_splits)
  with ed evid.roundtrip [OF assms(1)] show ?thesis by (simp add: check_evidence_def)
qed

lemma dict_get_of_obj: "obj fs = PDict d \<Longrightarrow> dict_get d k = map_of fs k"
  by (auto simp: obj_def)

lemma dict_keys_of_obj: "obj fs = PDict d \<Longrightarrow> map fst d = map PStr (map fst fs)"
  by (auto simp: obj_def)

lemma require_fields_same:
  assumes "map fst d = map PStr ks" "set ks = set req"
  shows "require_fields req [] d = Inr ()"
proof -
  have "k \<in> set req \<Longrightarrow> PStr k \<in> fst ` set d" for k
    using assms by (metis image_eqI image_set)
  moreover have "k \<in> fst ` set d \<Longrightarrow> k \<in> PStr ` set req \<and> is_str k" for k
    using assms by (metis (no_types, lifting) imageE image_eqI image_set is_str.simps(1))
  ultimately show ?thesis
    by (auto simp: require_fields_def has_fields_def only_fields_def dict_keys_def list_all_iff)
qed

lemma port_result_dict_fields:
  assumes "scan_result_to_dict r = PDict d"
  shows "require_fields port_result_fields [] d = Inr ()"
proof (rule require_fields_same)
  show "map fst d = map PStr [''address'', ''address_family'', ''banner'', ''contract_version'',
      ''evidence'', ''host_state'', ''is_open'', ''port'', ''protocol'', ''reason'', ''record_type'',
      ''response_time'', ''service'', ''state'', ''target'', ''technique'']"
    using dict_keys_of_obj [OF assms [unfolded scan_result_to_dict_def]] by simp
  show "set [''address'', ''address_family'', ''banner'', ''contract_version'',
      ''evidence'', ''host_state'', ''is_open'', ''port'', ''protocol'', ''reason'', ''record_type'',
      ''response_time'', ''service'', ''state'', ''target'', ''technique''] = set port_result_fields"
    unfolding port_result_fields_def list.set by (simp only: insert_commute)
qed

lemma canonicalize_id:
  assumes "wf_session_identity t" "wf_port_result t r"
  shows "canonicalize_port_result env (scan_result_to_dict r) t = Inr r"
proof -
  from assms(2) have w: "wf_scan_result r" "wf_evidence (sr_evidence r)" "session_evidence (sr_evidence r)"
    "1 \<le> sr_port r" "sr_port r \<le> 65535"
    by (simp_all add: wf_port_result_def wf_scan_result_def)
  obtain ed where ed: "scan_evidence_to_dict (sr_evidence r) = PDict ed"
    "check_evidence ed = Inr (sr_evidence r)" "check_evidence_types ed = Inr ()"
    using evidence_dict_ok [OF w(2,3)] by blast
  obtain d where d: "scan_result_to_dict r = PDict d" by (simp add: scan_result_to_dict_def obj_def)
  have get: "dict_get d k = map_of
     [(''address'', sr_address r),
      (''address_family'', str_or_none (map_option address_family_value (sr_family r))),
      (''banner'', sr_banner r),
      (''contract_version'', sr_contract_version r),
      (''evidence'', scan_evidence_to_dict (sr_evidence r)),
      (''host_state'', PStr (host_state_value (sr_host_state r))),
      (''is_open'', sr_is_open r),
      (''port'', PInt (sr_port r)),
      (''protocol'', PStr (sr_protocol r)),
      (''reason'', PStr (reason_code_value (sr_reason r))),
      (''record_type'', PStr ''port_result''),
      (''response_time'', PFloat (sr_response_time r)),
      (''service'', sr_service r),
      (''state'', PStr (port_state_value (sr_state r))),
      (''target'', sr_target r),
      (''technique'', PStr (scan_technique_value (sr_technique r)))] k" for k
    using dict_get_of_obj [OF d [unfolded scan_result_to_dict_def]] .
  have f: "require_fields port_result_fields [] d = Inr ()"
    using port_result_dict_fields [OF d] .
  have s: "require_string True 255 (sr_service r) = Inr (strip (case sr_service r of PStr s \<Rightarrow> s))"
    "sr_banner r \<noteq> PNone \<Longrightarrow> require_string True 300 (sr_banner r) = Inr (strip (case sr_banner r of PStr s \<Rightarrow> s))"
    using assms(2) by (auto simp: wf_port_result_def text_field_def run)
  have a: "require_string False 64 (PStr (ti_address t)) = Inr (strip (ti_address t))"
    using assms(2) by (auto simp: wf_port_result_def text_field_def run)
  have i: "check_result_identity d t = Inr ()"
    using assms w a unfolding check_result_identity_def
    by (simp add: get dict_at_def wf_port_result_def wf_session_identity_def)
  have v: "check_result_values d = Inr (sr_reason r)"
    using assms(2) w(1) s unfolding check_result_values_def
    by (simp add: get dict_at_def wf_port_result_def wf_scan_result_def check_response_time_def)
  have "scan_result_from_dict (env_float env) (PDict d) = Inr r"
    using sr.roundtrip [OF w(1)] by (simp add: d)
  with d f i v ed show ?thesis
    by (simp add: canonicalize_port_result_def get dict_at_def sr_reason_def)
qed

lemma check_result_identityD:
  assumes "check_result_identity d t = Inr u"
  shows "dict_get d ''contract_version'' = Some (PInt 1)"
    "dict_get d ''target'' = Some (PStr (ti_requested t))"
    "dict_get d ''address'' = Some (PStr (ti_address t))"
    "text_field 64 (PStr (ti_address t))" "strip (ti_address t) \<noteq> []"
    "strip (ti_requested t) \<noteq> []"
    "dict_get d ''address_family'' = Some (PStr (address_family_value (ti_family t)))"
    "dict_get d ''protocol'' = Some (PStr ''tcp'')"
  using assms by (auto simp: check_result_identity_def run text_field_def)

lemma check_result_valuesD:
  assumes "check_result_values d = Inr reason"
  shows "dict_get d ''technique'' = Some (PStr (scan_technique_value ST_TCP_CONNECT))"
    "\<exists>s. dict_get d ''service'' = Some s \<and> text_field 255 s"
    "\<exists>b. dict_get d ''banner'' = Some b \<and> (b = PNone \<or> text_field 300 b)"
    "\<exists>v f. dict_get d ''response_time'' = Some v \<and> py_float fs v = Inr f \<and> isfinite f \<and> \<not> fl_neg f"
proof -
  have rt: "\<exists>f. py_float fs w = Inr f \<and> isfinite f \<and> \<not> fl_neg f"
    if "check_response_time w = Inr u" for w u
    using that by (cases w) (auto simp: check_response_time_def run)
  show "dict_get d ''technique'' = Some (PStr (scan_technique_value ST_TCP_CONNECT))"
    "\<exists>s. dict_get d ''service'' = Some s \<and> text_field 255 s"
    "\<exists>b. dict_get d ''banner'' = Some b \<and> (b = PNone \<or> text_field 300 b)"
    "\<exists>v f. dict_get d ''response_time'' = Some v \<and> py_float fs v = Inr f \<and> isfinite f \<and> \<not> fl_neg f"
    using assms rt unfolding check_result_values_def
    by (auto simp: run text_field_def session_enum_def split: if_splits)
qed

lemma scan_result_from_dictD:
  assumes "scan_result_from_dict fs (PDict d) = Inr r"
  shows "\<exists>port state rt ev. py_float fs (dict_get_or d ''response_time'' (PFloat (FFin 0))) = Inr rt \<and>
    scan_evidence_from_dict (evidence_payload d) = Inr ev \<and>
    scan_result_init port (dict_get_or d ''is_open'' (legacy_is_open state))
                   (dict_get_or d ''service'' (PStr [])) (dict_get_or d ''banner'' PNone) rt
                   (dict_get_or d ''protocol'' (PStr ''tcp''))
                   (PStr (port_state_value state))
                   (dict_get_or d ''target'' (PStr [])) (dict_get_or d ''address'' (PStr []))
                   (dict_get_or d ''address_family'' PNone)
                   (dict_get_or d ''host_state'' (PStr (host_state_value HS_UNKNOWN)))
                   (dict_get_or d ''technique'' (PStr (scan_technique_value ST_TCP_CONNECT)))
                   (Inl ev) (dict_get_or d ''contract_version'' PNone) = Inr r"
  using assms unfolding scan_result_from_dict_def Let_def
  apply (simp only: pyval.case run_if bindE_Inr reraise_Inr split_beta)
  apply (elim exE conjE)
  apply (simp only: sum.inject)
  apply blast
  done

lemma session_evidence_complete: "session_evidence e \<Longrightarrow> session_evidence (complete_evidence s p e)"
  by (simp add: complete_evidence_def session_evidence_def)

lemma check_evidence_session:
  assumes "check_evidence ed = Inr e" "check_evidence_types ed = Inr u"
  shows "session_evidence e" "scan_evidence_from_dict (PDict ed) = Inr e" "ed \<noteq> []"
proof -
  show f: "scan_evidence_from_dict (PDict ed) = Inr e"
    using assms(1) unfolding check_evidence_def by (simp only: bindE_Inr reraise_Inr) blast
  have "has_fields ed [''reason'', ''source'']"
    using assms(1) by (auto simp: check_evidence_def bindE_Inr require_fields_def split: if_splits)
  then show "ed \<noteq> []" by (auto simp: has_fields_def dict_keys_def)
  show "session_evidence e"
    using f assms(2) by (auto simp: scan_evidence_from_dict_def check_evidence_types_def run
      dict_get_or_def session_evidence_def split: option.splits)
qed

lemma canonicalize_ok:
  assumes "canonicalize_port_result env v t = Inr r" "wf_session_identity t"
  shows "wf_port_result t r"
proof -
  from assms(1) obtain d u1 reason ed e u2 where
    i: "check_result_identity d t = Inr u1" and vals: "check_result_values d = Inr reason"
    and ev: "dict_get d ''evidence'' = Some (PDict ed)" "check_evidence ed = Inr e"
      "check_evidence_types ed = Inr u2"
    and r: "scan_result_from_dict (env_float env) (PDict d) = Inr r"
    unfolding canonicalize_port_result_def
    by (simp only: bindE_Inr reraise_Inr require_mapping_Inr dict_at_Inr) blast
  note ev' = check_evidence_session [OF ev(2,3)]
  have pay: "evidence_payload d = PDict ed" using ev(1) ev'(3)
    by (simp add: evidence_payload_def dict_get_or_def)
  note i' = check_result_identityD [OF i]
  note v' = check_result_valuesD [OF vals]
  obtain s b where sb: "dict_get d ''service'' = Some s" "text_field 255 s"
    "dict_get d ''banner'' = Some b" "b = PNone \<or> text_field 300 b" using v'(2,3) by blast
  obtain w f where f: "dict_get d ''response_time'' = Some w" "py_float (env_float env) w = Inr f"
    "isfinite f" "\<not> fl_neg f" using v'(4) by blast
  from scan_result_from_dictD [OF r] obtain port state is_open host_state where
    init: "scan_result_init port is_open s b f (PStr ''tcp'') (PStr (port_state_value state))
      (PStr (ti_requested t)) (PStr (ti_address t)) (PStr (address_family_value (ti_family t)))
      host_state (PStr (scan_technique_value ST_TCP_CONNECT)) (Inl e) (PInt 1) = Inr r"
    using ev'(2) by (auto simp: dict_get_or_def pay i' sb f v'(1))
  have tcp: "lower ''tcp'' = ''tcp''" by code_simp
  have "truthy (PStr (ti_requested t))" "truthy (PStr (ti_address t))" using i'(5,6) by auto
  with scan_result_init_Inr [OF init] have
    "sr_port r = port" "sr_service r = s" "sr_banner r = b" "sr_response_time r = f"
    "sr_contract_version r = PInt 1" "sr_protocol r = ''tcp''" "sr_technique r = ST_TCP_CONNECT"
    "sr_target r = PStr (ti_requested t)"
    "sr_evidence r = complete_evidence (sr_state r) (sr_protocol r) e"
    "sr_family r = Some (ti_family t)" "\<exists>a. ip_address (ti_address t) = Inr a \<and> sr_address r = PStr (ip_str a)"
    by (auto simp: tcp coerce_evidence_def resolve_address_def run split: if_splits)
  moreover have "wf_scan_result r" by (rule sr.accepted_wf [OF r])
  moreover have "ip_address (ti_address t) = Inr a \<Longrightarrow> ip_str a = ti_address t" for a
    using assms(2) wf_identityD [of t] by (auto simp: wf_session_identity_def)
  ultimately show ?thesis
    using i'(4,5) sb f ev'(1) by (auto simp: wf_port_result_def session_evidence_complete)
qed

end
