(* ===== verification/Session_Contracts.thy ===== *)
theory Session_Contracts
  imports Session_Validators "HOL-Library.Product_Lexorder"
begin

text \<open>
  \<open>src/session.py\<close>, from line 438: the documents of a session. \<open>ScanPlan\<close> is what will be
  scanned, \<open>EndpointProgress\<close> how far one endpoint is, \<open>SessionCheckpoint\<close> a whole session
  and \<open>SessionManifest\<close> its summary.
\<close>

section \<open>\<open>ScanPlan\<close>\<close>

record scan_plan =
  sp_requested_targets :: "string list"
  sp_resolved_targets :: "target_identity list"
  sp_ports :: "int list"
  sp_timeout_ms :: int
  sp_threads :: int
  sp_target_workers :: int
  sp_banner_grab :: bool
  sp_banner_engine :: "string option"
  sp_report_format :: string
  sp_report_dir :: string
  sp_output :: "string option"

definition endpoint_key :: "target_identity \<Rightarrow> string \<times> string \<times> string" where
  "endpoint_key t = (ti_requested t, ti_address t, address_family_value (ti_family t))"

definition supported_report_formats :: "string list" where
  "supported_report_formats = [''txt'', ''json'', ''csv'', ''html'']"

text \<open>The resolved targets are given as identities or as a decoded collection.\<close>

definition resolve_plan_targets ::
    "target_identity list + pyval \<Rightarrow> exc + target_identity list" where
  "resolve_plan_targets x =
     (case x of
        Inl ts \<Rightarrow> map_err (\<lambda>t. normalize_target_identity (Inl t)) ts
      | Inr v \<Rightarrow> bindE (require_iterable v) (map_err (\<lambda>w. normalize_target_identity (Inr w))))"

definition check_plan_targets :: "string list \<Rightarrow> target_identity list \<Rightarrow> exc + unit" where
  "check_plan_targets requested resolved =
     (if resolved = [] then Inl SessionContractError
      else if length resolved > max_session_targets then Inl SessionContractError
      else if \<not> distinct (map endpoint_key resolved) then Inl SessionContractError
      else if \<not> set (map ti_requested resolved) \<subseteq> set requested then Inl SessionContractError
      else if set (map ti_requested resolved) \<noteq> set requested then Inl SessionContractError
      else Inr ())"

definition check_banner_engine :: "pyval \<Rightarrow> string option \<Rightarrow> exc + bool" where
  "check_banner_engine banner_grab engine =
     (case banner_grab of
        PBool True \<Rightarrow> if engine \<noteq> Some ''go'' then Inl SessionContractError else Inr True
      | PBool False \<Rightarrow> if engine \<noteq> None then Inl SessionContractError else Inr False
      | _ \<Rightarrow> Inl SessionContractError)"

definition check_report_format :: "pyval \<Rightarrow> exc + string" where
  "check_report_format v =
     bindE (require_string False 16 v) (\<lambda>s.
       if lower s \<in> set supported_report_formats then Inr (lower s)
       else Inl SessionContractError)"

text \<open>
  The type of \<open>banner_grab\<close> is checked before \<open>tcp_engine\<close> is, its agreement with
  \<open>banner_engine\<close> after; all rejections are the same exception.
\<close>

definition scan_plan_init ::
    "pyval \<Rightarrow> target_identity list + pyval \<Rightarrow> pyval \<Rightarrow> pyval \<Rightarrow> pyval \<Rightarrow> pyval \<Rightarrow> pyval \<Rightarrow> pyval
     \<Rightarrow> pyval \<Rightarrow> pyval \<Rightarrow> pyval \<Rightarrow> pyval \<Rightarrow> pyval \<Rightarrow> exc + scan_plan" where
  "scan_plan_init requested_targets resolved_targets ports timeout_ms threads target_workers
       banner_grab tcp_engine banner_engine report_format report_dir output version =
     bindE (require_int 1 (Some 1) version) (\<lambda>_.
     bindE (normalize_unique_strings max_session_targets requested_targets) (\<lambda>requested.
     bindE (resolve_plan_targets resolved_targets) (\<lambda>resolved.
     bindE (check_plan_targets requested resolved) (\<lambda>_.
     bindE (normalize_ports False ports) (\<lambda>ps.
     bindE (require_int 1 (Some max_timeout_ms) timeout_ms) (\<lambda>ms.
     bindE (require_int 1 (Some max_threads) threads) (\<lambda>thr.
     bindE (require_int 1 (Some max_target_workers) target_workers) (\<lambda>workers.
     bindE (check_that (workers \<le> int (length resolved))) (\<lambda>_.
     bindE (require_string False 16 tcp_engine) (\<lambda>tcp.
     bindE (check_that (tcp = ''rust'')) (\<lambda>_.
     bindE (require_optional_string banner_engine) (\<lambda>engine.
     bindE (check_banner_engine banner_grab engine) (\<lambda>grab.
     bindE (check_report_format report_format) (\<lambda>fmt.
     bindE (require_string False 4096 report_dir) (\<lambda>dir.
     bindE (require_optional_string output) (\<lambda>out.
     bindE (check_that (out = None \<or> length resolved = 1)) (\<lambda>_.
       Inr \<lparr>sp_requested_targets = requested, sp_resolved_targets = resolved, sp_ports = ps,
            sp_timeout_ms = ms, sp_threads = thr, sp_target_workers = workers,
            sp_banner_grab = grab, sp_banner_engine = engine, sp_report_format = fmt,
            sp_report_dir = dir, sp_output = out\<rparr>)))))))))))))))))"

definition scan_plan_fields :: "string list" where
  "scan_plan_fields =
     [''contract_version'', ''record_type'', ''requested_targets'', ''resolved_targets'',
      ''ports'', ''timeout_ms'', ''threads'', ''target_workers'', ''banner_grab'',
      ''tcp_engine'', ''banner_engine'', ''report_format'', ''report_dir'', ''output'']"

definition scan_plan_to_dict :: "scan_plan \<Rightarrow> pyval" where
  "scan_plan_to_dict p = obj
     [(''banner_engine'', str_or_none (sp_banner_engine p)),
      (''banner_grab'', PBool (sp_banner_grab p)),
      (''contract_version'', PInt 1),
      (''output'', str_or_none (sp_output p)),
      (''ports'', PList (map PInt (sp_ports p))),
      (''record_type'', PStr ''scan_plan''),
      (''report_dir'', PStr (sp_report_dir p)),
      (''report_format'', PStr (sp_report_format p)),
      (''requested_targets'', PList (map PStr (sp_requested_targets p))),
      (''resolved_targets'', PList (map target_identity_to_dict (sp_resolved_targets p))),
      (''target_workers'', PInt (sp_target_workers p)),
      (''tcp_engine'', PStr ''rust''),
      (''threads'', PInt (sp_threads p)),
      (''timeout_ms'', PInt (sp_timeout_ms p))]"

text \<open>\<open>d[k]\<close> for a key that was checked to be there.\<close>

definition field :: "(pyval \<times> pyval) list \<Rightarrow> string \<Rightarrow> pyval" where
  "field d k = dict_get_or d k PNone"

definition scan_plan_from_dict :: "pyval \<Rightarrow> exc + scan_plan" where
  "scan_plan_from_dict v =
     bindE (require_mapping v) (\<lambda>d.
     bindE (require_fields scan_plan_fields [] d) (\<lambda>_.
     bindE (check_that (field d ''record_type'' = PStr ''scan_plan'')) (\<lambda>_.
       scan_plan_init (field d ''requested_targets'') (Inr (field d ''resolved_targets''))
         (field d ''ports'') (field d ''timeout_ms'') (field d ''threads'')
         (field d ''target_workers'') (field d ''banner_grab'') (field d ''tcp_engine'')
         (field d ''banner_engine'') (field d ''report_format'') (field d ''report_dir'')
         (field d ''output'') (field d ''contract_version''))))"

definition scan_plan_to_json :: "session_env \<Rightarrow> scan_plan \<Rightarrow> exc + string" where
  "scan_plan_to_json env p = deterministic_json env (scan_plan_to_dict p)"

definition scan_plan_from_json :: "session_env \<Rightarrow> string \<Rightarrow> exc + scan_plan" where
  "scan_plan_from_json env document =
     bindE (strict_json_loads env document) scan_plan_from_dict"

text \<open>\<open>self.to_json().encode("utf-8")\<close>: a plan holds no float, so its text always exists.\<close>

definition fingerprint :: "session_env \<Rightarrow> scan_plan \<Rightarrow> string" where
  "fingerprint env p =
     (case scan_plan_to_json env p of
        Inl e \<Rightarrow> []
      | Inr document \<Rightarrow> env_sha256 env (env_encode env document))"

section \<open>\<open>EndpointProgress\<close>\<close>

text \<open>
  The completed results are kept as the records whose dictionaries the code keeps; every one
  of them went through \<open>_canonicalize_port_result\<close>.
\<close>

record endpoint_progress =
  ep_identity :: target_identity
  ep_completed_results :: "scan_result list"
  ep_pending_ports :: "int list"
  ep_completed_banner_ports :: "int list"
  ep_error :: "string option"

definition ep_completed_ports :: "endpoint_progress \<Rightarrow> int list" where
  "ep_completed_ports e = map sr_port (ep_completed_results e)"

definition open_results :: "scan_result list \<Rightarrow> scan_result list" where
  "open_results rs = [r \<leftarrow> rs. sr_state r = PS_OPEN]"

definition ep_open_ports :: "endpoint_progress \<Rightarrow> int list" where
  "ep_open_ports e = map sr_port (open_results (ep_completed_results e))"

definition session_result_key :: "scan_result \<Rightarrow> string \<times> int" where
  "session_result_key r = (sr_protocol r, sr_port r)"

definition endpoint_progress_init ::
    "session_env \<Rightarrow> target_identity + pyval \<Rightarrow> pyval \<Rightarrow> pyval \<Rightarrow> pyval \<Rightarrow> pyval \<Rightarrow> pyval
     \<Rightarrow> exc + endpoint_progress" where
  "endpoint_progress_init env identity completed_results pending_ports completed_banner_ports
       error version =
     bindE (require_int 1 (Some 1) version) (\<lambda>_.
     bindE (normalize_target_identity identity) (\<lambda>t.
     bindE (require_iterable completed_results) (\<lambda>vs.
     bindE (map_err (\<lambda>v. canonicalize_port_result env v t) vs) (\<lambda>rs.
     bindE (check_that (distinct (map session_result_key rs))) (\<lambda>_.
     let completed = sort_key session_result_key rs in
     bindE (normalize_ports True pending_ports) (\<lambda>pending.
     bindE (check_that (set (map sr_port completed) \<inter> set pending = {})) (\<lambda>_.
     bindE (normalize_ports True completed_banner_ports) (\<lambda>banners.
     bindE (check_that (set banners \<subseteq> set (map sr_port (open_results completed)))) (\<lambda>_.
     bindE (require_optional_string error) (\<lambda>err.
       Inr \<lparr>ep_identity = t, ep_completed_results = completed, ep_pending_ports = pending,
            ep_completed_banner_ports = banners, ep_error = err\<rparr>))))))))))"

definition endpoint_progress_fields :: "string list" where
  "endpoint_progress_fields =
     [''contract_version'', ''record_type'', ''identity'', ''completed_results'',
      ''pending_ports'', ''completed_banner_ports'', ''error'']"

definition endpoint_progress_to_dict :: "endpoint_progress \<Rightarrow> pyval" where
  "endpoint_progress_to_dict e = obj
     [(''completed_banner_ports'', PList (map PInt (ep_completed_banner_ports e))),
      (''completed_results'', PList (map scan_result_to_dict (ep_completed_results e))),
      (''contract_version'', PInt 1),
      (''error'', str_or_none (ep_error e)),
      (''identity'', target_identity_to_dict (ep_identity e)),
      (''pending_ports'', PList (map PInt (ep_pending_ports e))),
      (''record_type'', PStr ''endpoint_progress'')]"

definition endpoint_progress_from_dict :: "session_env \<Rightarrow> pyval \<Rightarrow> exc + endpoint_progress" where
  "endpoint_progress_from_dict env v =
     bindE (require_mapping v) (\<lambda>d.
     bindE (require_fields endpoint_progress_fields [] d) (\<lambda>_.
     bindE (check_that (field d ''record_type'' = PStr ''endpoint_progress'')) (\<lambda>_.
       endpoint_progress_init env (Inr (field d ''identity'')) (field d ''completed_results'')
         (field d ''pending_ports'') (field d ''completed_banner_ports'') (field d ''error'')
         (field d ''contract_version''))))"

section \<open>Well-formed plans\<close>

definition wf_plan :: "scan_plan \<Rightarrow> bool" where
  "wf_plan p \<longleftrightarrow>
     unique_strings (sp_requested_targets p) \<and> sp_requested_targets p \<noteq> [] \<and>
     length (sp_requested_targets p) \<le> max_session_targets \<and>
     list_all wf_session_identity (sp_resolved_targets p) \<and>
     check_plan_targets (sp_requested_targets p) (sp_resolved_targets p) = Inr () \<and>
     port_list (sp_ports p) \<and> sp_ports p \<noteq> [] \<and>
     1 \<le> sp_timeout_ms p \<and> sp_timeout_ms p \<le> max_timeout_ms \<and>
     1 \<le> sp_threads p \<and> sp_threads p \<le> max_threads \<and>
     1 \<le> sp_target_workers p \<and> sp_target_workers p \<le> max_target_workers \<and>
     sp_target_workers p \<le> int (length (sp_resolved_targets p)) \<and>
     sp_banner_engine p = (if sp_banner_grab p then Some ''go'' else None) \<and>
     sp_report_format p \<in> set supported_report_formats \<and>
     sess_string 4096 (sp_report_dir p) \<and> opt_string (sp_output p) \<and>
     (sp_output p = None \<or> length (sp_resolved_targets p) = 1)"

lemma resolve_plan_targets_ok:
  "resolve_plan_targets x = Inr ts \<Longrightarrow> list_all wf_session_identity ts"
  by (cases x) (auto simp: resolve_plan_targets_def run
      intro: map_err_list_all normalize_target_identity_ok)

lemma check_banner_engine_Inr:
  "check_banner_engine v engine = Inr b \<longleftrightarrow>
     v = PBool b \<and> engine = (if b then Some ''go'' else None)"
  by (cases v) (auto simp: check_banner_engine_def split: bool.splits)

lemma check_report_format_ok:
  "check_report_format v = Inr s \<Longrightarrow> s \<in> set supported_report_formats"
  by (auto simp: check_report_format_def run split: if_splits)

lemma check_report_format_id:
  assumes "s \<in> set supported_report_formats"
  shows "check_report_format (PStr s) = Inr s"
proof -
  have "list_all (\<lambda>s. check_report_format (PStr s) = Inr s) supported_report_formats" by code_simp
  with assms show ?thesis by (simp add: list_all_iff)
qed

lemma scan_plan_init_ok:
  assumes "scan_plan_init rt rs ps ms thr w bg tcp be fmt dir out ver = Inr p"
  shows "wf_plan p"
  using assms unfolding scan_plan_init_def
  by (auto simp: bindE_Inr require_int_Inr check_that_Inr wf_plan_def check_banner_engine_Inr
      dest!: normalize_unique_strings_ok resolve_plan_targets_ok normalize_ports_ok
        check_report_format_ok require_optional_string_ok
      dest: require_string_ok)

lemma opt_go: "opt_string (if b then Some ''go'' else None)"
proof -
  have "sess_string max_error_length ''go''" by code_simp
  then show ?thesis by (simp add: opt_string_def)
qed

lemma rust_string: "sess_string 16 ''rust''"
  by code_simp

lemma scan_plan_init_id:
  assumes "wf_plan p" "resolve_plan_targets rs = Inr (sp_resolved_targets p)"
  shows "scan_plan_init (PList (map PStr (sp_requested_targets p))) rs
      (PList (map PInt (sp_ports p))) (PInt (sp_timeout_ms p)) (PInt (sp_threads p))
      (PInt (sp_target_workers p)) (PBool (sp_banner_grab p)) (PStr ''rust'')
      (str_or_none (sp_banner_engine p)) (PStr (sp_report_format p)) (PStr (sp_report_dir p))
      (str_or_none (sp_output p)) (PInt 1) = Inr p"
proof -
  from assms(1) have b: "opt_string (sp_banner_engine p)"
    "check_banner_engine (PBool (sp_banner_grab p)) (sp_banner_engine p) = Inr (sp_banner_grab p)"
    by (auto simp: wf_plan_def opt_go check_banner_engine_Inr)
  show ?thesis
    using assms b rust_string
    by (simp add: scan_plan_init_def wf_plan_def check_report_format_id)
qed

lemma resolve_plan_targets_dict:
  "list_all wf_session_identity ts \<Longrightarrow>
   resolve_plan_targets (Inr (PList (map target_identity_to_dict ts))) = Inr ts"
  by (auto simp: resolve_plan_targets_def list_all_iff intro!: map_err_id normalize_target_identity_dict)

lemma scan_plan_dict_fields:
  assumes "scan_plan_to_dict p = PDict d"
  shows "require_fields scan_plan_fields [] d = Inr ()"
proof (rule require_fields_same)
  show "map fst d = map PStr [''banner_engine'', ''banner_grab'', ''contract_version'', ''output'',
      ''ports'', ''record_type'', ''report_dir'', ''report_format'', ''requested_targets'',
      ''resolved_targets'', ''target_workers'', ''tcp_engine'', ''threads'', ''timeout_ms'']"
    using dict_keys_of_obj [OF assms [unfolded scan_plan_to_dict_def]] by simp
  show "set [''banner_engine'', ''banner_grab'', ''contract_version'', ''output'',
      ''ports'', ''record_type'', ''report_dir'', ''report_format'', ''requested_targets'',
      ''resolved_targets'', ''target_workers'', ''tcp_engine'', ''threads'', ''timeout_ms''] =
      set scan_plan_fields"
    unfolding scan_plan_fields_def list.set by (simp only: insert_commute)
qed

interpretation plan: wire_record wf_plan scan_plan_to_dict scan_plan_from_dict
proof
  show "scan_plan_from_dict v = Inr p \<Longrightarrow> wf_plan p" for v p
    unfolding scan_plan_from_dict_def by (simp only: bindE_Inr) (blast intro: scan_plan_init_ok)
next
  fix p assume w: "wf_plan p"
  obtain d where d: "scan_plan_to_dict p = PDict d" by (simp add: scan_plan_to_dict_def obj_def)
  note get = dict_get_of_obj [OF d [unfolded scan_plan_to_dict_def]]
  have "resolve_plan_targets (Inr (PList (map target_identity_to_dict (sp_resolved_targets p)))) =
      Inr (sp_resolved_targets p)"
    using w by (intro resolve_plan_targets_dict) (simp add: wf_plan_def)
  from scan_plan_init_id [OF w this] show "scan_plan_from_dict (scan_plan_to_dict p) = Inr p"
    by (simp add: d scan_plan_from_dict_def scan_plan_dict_fields [OF d] field_def dict_get_or_def get)
qed

section \<open>Well-formed progress\<close>

definition wf_progress :: "endpoint_progress \<Rightarrow> bool" where
  "wf_progress e \<longleftrightarrow>
     wf_session_identity (ep_identity e) \<and>
     list_all (wf_port_result (ep_identity e)) (ep_completed_results e) \<and>
     sorted (map session_result_key (ep_completed_results e)) \<and>
     distinct (map session_result_key (ep_completed_results e)) \<and>
     port_list (ep_pending_ports e) \<and> port_list (ep_completed_banner_ports e) \<and>
     set (ep_completed_ports e) \<inter> set (ep_pending_ports e) = {} \<and>
     set (ep_completed_banner_ports e) \<subseteq> set (ep_open_ports e) \<and>
     opt_string (ep_error e)"

lemma endpoint_progress_init_ok:
  assumes "endpoint_progress_init env x rs pend ban err ver = Inr e"
  shows "wf_progress e"
proof -
  from assms obtain t vs res pending banners er where
    t: "normalize_target_identity x = Inr t"
    and res: "map_err (\<lambda>v. canonicalize_port_result env v t) vs = Inr res"
      "distinct (map session_result_key res)"
    and p: "normalize_ports True pend = Inr pending"
      "set (map sr_port (sort_key session_result_key res)) \<inter> set pending = {}"
    and b: "normalize_ports True ban = Inr banners"
      "set banners \<subseteq> set (map sr_port (open_results (sort_key session_result_key res)))"
    and er: "require_optional_string err = Inr er"
    and e: "e = \<lparr>ep_identity = t, ep_completed_results = sort_key session_result_key res,
        ep_pending_ports = pending, ep_completed_banner_ports = banners, ep_error = er\<rparr>"
    unfolding endpoint_progress_init_def Let_def
    by (simp only: bindE_Inr check_that_Inr) blast
  have w: "wf_session_identity t" by (rule normalize_target_identity_ok [OF t])
  have "list_all (wf_port_result t) res"
    by (rule map_err_list_all [OF res(1)]) (rule canonicalize_ok [OF _ w])
  with w res p b normalize_ports_ok [OF p(1)] normalize_ports_ok [OF b(1)]
    require_optional_string_ok [OF er]
  show ?thesis
    by (simp add: e wf_progress_def ep_completed_ports_def ep_open_ports_def list_all_iff)
qed

lemma endpoint_progress_init_id:
  assumes "wf_progress e" "normalize_target_identity x = Inr (ep_identity e)"
  shows "endpoint_progress_init env x (PList (map scan_result_to_dict (ep_completed_results e)))
      (PList (map PInt (ep_pending_ports e))) (PList (map PInt (ep_completed_banner_ports e)))
      (str_or_none (ep_error e)) (PInt 1) = Inr e"
proof -
  have "map_err (\<lambda>v. canonicalize_port_result env v (ep_identity e))
      (map scan_result_to_dict (ep_completed_results e)) = Inr (ep_completed_results e)"
    using assms(1) by (intro map_err_id canonicalize_id) (auto simp: wf_progress_def list_all_iff)
  with assms show ?thesis
    by (simp add: endpoint_progress_init_def wf_progress_def ep_completed_ports_def ep_open_ports_def
        Let_def)
qed

lemma endpoint_progress_dict_fields:
  assumes "endpoint_progress_to_dict e = PDict d"
  shows "require_fields endpoint_progress_fields [] d = Inr ()"
proof (rule require_fields_same)
  show "map fst d = map PStr [''completed_banner_ports'', ''completed_results'',
      ''contract_version'', ''error'', ''identity'', ''pending_ports'', ''record_type'']"
    using dict_keys_of_obj [OF assms [unfolded endpoint_progress_to_dict_def]] by simp
  show "set [''completed_banner_ports'', ''completed_results'', ''contract_version'', ''error'',
      ''identity'', ''pending_ports'', ''record_type''] = set endpoint_progress_fields"
    unfolding endpoint_progress_fields_def list.set by (simp only: insert_commute)
qed

interpretation progress: wire_record wf_progress endpoint_progress_to_dict
    "endpoint_progress_from_dict env" for env
proof
  show "endpoint_progress_from_dict env v = Inr e \<Longrightarrow> wf_progress e" for v e
    unfolding endpoint_progress_from_dict_def
    by (simp only: bindE_Inr) (blast intro: endpoint_progress_init_ok)
next
  fix e assume w: "wf_progress e"
  obtain d where d: "endpoint_progress_to_dict e = PDict d"
    by (simp add: endpoint_progress_to_dict_def obj_def)
  note get = dict_get_of_obj [OF d [unfolded endpoint_progress_to_dict_def]]
  have "normalize_target_identity (Inr (target_identity_to_dict (ep_identity e))) =
      Inr (ep_identity e)"
    using w by (intro normalize_target_identity_dict) (simp add: wf_progress_def)
  from endpoint_progress_init_id [OF w this]
  show "endpoint_progress_from_dict env (endpoint_progress_to_dict e) = Inr e"
    by (simp add: d endpoint_progress_from_dict_def endpoint_progress_dict_fields [OF d] field_def
        dict_get_or_def get)
qed

section \<open>The dictionaries are JSON documents\<close>

lemma json_obj:
  "json_value (obj fs) \<longleftrightarrow>
     list_all (\<lambda>(k, v). json_value v) fs \<and> sorted (map fst fs) \<and> distinct (map fst fs)"
proof -
  have "map (\<lambda>(k, v). key_name k) (map (\<lambda>(k, v). (PStr k, v)) fs) = map fst fs" by auto
  then show ?thesis by (simp add: obj_def list_all_iff case_prod_unfold comp_def)
qed

lemma json_objI:
  assumes "map fst fs = ks" "sorted ks \<and> distinct ks" "list_all (\<lambda>(k, v). json_value v) fs"
  shows "json_value (obj fs)"
  using assms by (simp add: json_obj)

lemma json_str_or_none [simp]: "json_value (str_or_none x)"
  by (cases x) simp_all

lemma json_opt_name: "opt_name v \<Longrightarrow> json_value v"
  by (auto simp: opt_name_def)

lemma json_identity:
  assumes "wf_session_identity t"
  shows "json_value (target_identity_to_dict t)"
proof -
  have "sorted [''address'', ''canonical_name'', ''family'', ''requested'', ''source''] \<and>
      distinct [''address'', ''canonical_name'', ''family'', ''requested'', ''source'']"
    by code_simp
  then show ?thesis
    using assms by (simp add: target_identity_to_dict_def json_obj wf_session_identity_def json_opt_name)
qed

lemma json_evidence:
  assumes "session_evidence e"
  shows "json_value (scan_evidence_to_dict e)"
proof -
  have "sorted [''detail'', ''errno'', ''reason'', ''source''] \<and>
      distinct [''detail'', ''errno'', ''reason'', ''source'']"
    by code_simp
  then show ?thesis
    using assms by (auto simp: scan_evidence_to_dict_def json_obj session_evidence_def elim: is_str.elims)
qed

lemma json_legacy [simp]: "json_value (legacy_is_open st)"
  by (cases st) simp_all

lemma json_port_result:
  assumes "wf_port_result t r"
  shows "json_value (scan_result_to_dict r)"
  unfolding scan_result_to_dict_def
proof (rule json_objI)
  show "sorted [''address'', ''address_family'', ''banner'', ''contract_version'', ''evidence'',
      ''host_state'', ''is_open'', ''port'', ''protocol'', ''reason'', ''record_type'',
      ''response_time'', ''service'', ''state'', ''target'', ''technique''] \<and>
    distinct [''address'', ''address_family'', ''banner'', ''contract_version'', ''evidence'',
      ''host_state'', ''is_open'', ''port'', ''protocol'', ''reason'', ''record_type'',
      ''response_time'', ''service'', ''state'', ''target'', ''technique'']"
    by code_simp
qed (use assms json_evidence in
    \<open>auto simp: wf_port_result_def wf_scan_result_def text_field_def\<close>)

lemma json_scan_plan:
  assumes "wf_plan p"
  shows "json_value (scan_plan_to_dict p)"
  unfolding scan_plan_to_dict_def
proof (rule json_objI)
  show "sorted [''banner_engine'', ''banner_grab'', ''contract_version'', ''output'',
      ''ports'', ''record_type'', ''report_dir'', ''report_format'', ''requested_targets'',
      ''resolved_targets'', ''target_workers'', ''tcp_engine'', ''threads'', ''timeout_ms''] \<and>
    distinct [''banner_engine'', ''banner_grab'', ''contract_version'', ''output'',
      ''ports'', ''record_type'', ''report_dir'', ''report_format'', ''requested_targets'',
      ''resolved_targets'', ''target_workers'', ''tcp_engine'', ''threads'', ''timeout_ms'']"
    by code_simp
qed (use assms json_identity in \<open>auto simp: list_all_iff wf_plan_def\<close>)

lemma json_progress:
  assumes "wf_progress e"
  shows "json_value (endpoint_progress_to_dict e)"
  unfolding endpoint_progress_to_dict_def
proof (rule json_objI)
  show "sorted [''completed_banner_ports'', ''completed_results'', ''contract_version'', ''error'',
      ''identity'', ''pending_ports'', ''record_type''] \<and>
    distinct [''completed_banner_ports'', ''completed_results'', ''contract_version'', ''error'',
      ''identity'', ''pending_ports'', ''record_type'']"
    by code_simp
qed (use assms json_identity json_port_result in \<open>auto simp: list_all_iff wf_progress_def\<close>)

lemma fingerprint_wf:
  "wf_plan p \<Longrightarrow>
   fingerprint env p = env_sha256 env (env_encode env (json_text (env_repr env) (scan_plan_to_dict p)))"
  using json_value_finite [OF json_scan_plan]
  by (simp add: fingerprint_def scan_plan_to_json_def deterministic_json_def)

end
