(* ===== verification/Session_Checkpoint.thy ===== *)
theory Session_Checkpoint
  imports Session_Contracts
begin

text \<open>
  \<open>src/session.py\<close>: the checkpoint of a session, with the rules each status imposes, and the
  manifest derived from it.
\<close>

section \<open>\<open>SessionCheckpoint\<close>\<close>

record session_checkpoint =
  sk_session_id :: string
  sk_plan :: scan_plan
  sk_status :: session_status
  sk_endpoints :: "endpoint_progress list"
  sk_created_at :: string
  sk_updated_at :: string
  sk_sequence :: int
  sk_last_error :: "string option"

definition coerce_plan :: "scan_plan + pyval \<Rightarrow> exc + scan_plan" where
  "coerce_plan x = (case x of Inl p \<Rightarrow> Inr p | Inr v \<Rightarrow> scan_plan_from_dict v)"

definition coerce_endpoints ::
    "session_env \<Rightarrow> endpoint_progress list + pyval \<Rightarrow> exc + endpoint_progress list" where
  "coerce_endpoints env x =
     (case x of
        Inl es \<Rightarrow> Inr es
      | Inr v \<Rightarrow> bindE (require_iterable v) (map_err (endpoint_progress_from_dict env)))"

text \<open>The endpoints are those of the plan, and each accounts for exactly its ports.\<close>

definition endpoints_match :: "scan_plan \<Rightarrow> endpoint_progress list \<Rightarrow> bool" where
  "endpoints_match p es \<longleftrightarrow>
     set (map (\<lambda>e. endpoint_key (ep_identity e)) es) =
       set (map endpoint_key (sp_resolved_targets p)) \<and>
     length es = length (sp_resolved_targets p)"

definition ports_accounted :: "scan_plan \<Rightarrow> endpoint_progress \<Rightarrow> bool" where
  "ports_accounted p e \<longleftrightarrow>
     set (ep_completed_ports e) \<union> set (ep_pending_ports e) = set (sp_ports p) \<and>
     (\<not> sp_banner_grab p \<longrightarrow> ep_completed_banner_ports e = [])"

definition created_rule :: "scan_plan \<Rightarrow> endpoint_progress \<Rightarrow> bool" where
  "created_rule p e \<longleftrightarrow>
     ep_completed_results e = [] \<and> set (ep_pending_ports e) = set (sp_ports p)"

definition completed_rule :: "scan_plan \<Rightarrow> endpoint_progress \<Rightarrow> bool" where
  "completed_rule p e \<longleftrightarrow>
     ep_pending_ports e = [] \<and>
     (sp_banner_grab p \<longrightarrow> set (ep_completed_banner_ports e) = set (ep_open_ports e)) \<and>
     ep_error e = None"

definition status_rules ::
    "session_status \<Rightarrow> string option \<Rightarrow> scan_plan \<Rightarrow> endpoint_progress list \<Rightarrow> bool" where
  "status_rules status last_error p es \<longleftrightarrow>
     (status = SS_FAILED \<longrightarrow> last_error \<noteq> None) \<and>
     (status \<in> {SS_CREATED, SS_COMPLETED} \<longrightarrow> last_error = None) \<and>
     (status = SS_CREATED \<longrightarrow> list_all (created_rule p) es) \<and>
     (status = SS_COMPLETED \<longrightarrow> list_all (completed_rule p) es)"

definition session_checkpoint_init ::
    "session_env \<Rightarrow> pyval \<Rightarrow> scan_plan + pyval \<Rightarrow> pyval \<Rightarrow> endpoint_progress list + pyval \<Rightarrow> pyval
     \<Rightarrow> pyval \<Rightarrow> pyval \<Rightarrow> pyval \<Rightarrow> pyval \<Rightarrow> exc + session_checkpoint" where
  "session_checkpoint_init env session_id plan status endpoints created_at updated_at sequence
       last_error version =
     bindE (require_int 1 (Some 1) version) (\<lambda>_.
     bindE (normalize_session_id session_id) (\<lambda>sid.
     bindE (coerce_plan plan) (\<lambda>p.
     bindE (coerce_status status) (\<lambda>st.
     bindE (coerce_endpoints env endpoints) (\<lambda>es.
     bindE (check_that (es \<noteq> [])) (\<lambda>_.
     bindE (check_that (endpoints_match p es)) (\<lambda>_.
     bindE (check_that (list_all (ports_accounted p) es)) (\<lambda>_.
     bindE (normalize_timestamp env created_at) (\<lambda>created.
     bindE (normalize_timestamp env updated_at) (\<lambda>updated.
     bindE (parse_timestamp env updated) (\<lambda>u.
     bindE (parse_timestamp env created) (\<lambda>c.
     bindE (check_that (\<not> u < c)) (\<lambda>_.
     bindE (require_int 0 None sequence) (\<lambda>seq.
     bindE (require_optional_string last_error) (\<lambda>err.
     bindE (check_that (status_rules st err p es)) (\<lambda>_.
       Inr \<lparr>sk_session_id = sid, sk_plan = p, sk_status = st, sk_endpoints = es,
            sk_created_at = created, sk_updated_at = updated, sk_sequence = seq,
            sk_last_error = err\<rparr>))))))))))))))))"

definition session_checkpoint_fields :: "string list" where
  "session_checkpoint_fields =
     [''contract_version'', ''record_type'', ''session_id'', ''plan'', ''status'', ''endpoints'',
      ''created_at'', ''updated_at'', ''sequence'', ''last_error'']"

definition session_checkpoint_to_dict :: "session_checkpoint \<Rightarrow> pyval" where
  "session_checkpoint_to_dict s = obj
     [(''contract_version'', PInt 1),
      (''created_at'', PStr (sk_created_at s)),
      (''endpoints'', PList (map endpoint_progress_to_dict (sk_endpoints s))),
      (''last_error'', str_or_none (sk_last_error s)),
      (''plan'', scan_plan_to_dict (sk_plan s)),
      (''record_type'', PStr ''session_checkpoint''),
      (''sequence'', PInt (sk_sequence s)),
      (''session_id'', PStr (sk_session_id s)),
      (''status'', PStr (session_status_value (sk_status s))),
      (''updated_at'', PStr (sk_updated_at s))]"

definition session_checkpoint_from_dict :: "session_env \<Rightarrow> pyval \<Rightarrow> exc + session_checkpoint" where
  "session_checkpoint_from_dict env v =
     bindE (require_mapping v) (\<lambda>d.
     bindE (require_fields session_checkpoint_fields [] d) (\<lambda>_.
     bindE (check_that (field d ''record_type'' = PStr ''session_checkpoint'')) (\<lambda>_.
       session_checkpoint_init env (field d ''session_id'') (Inr (field d ''plan''))
         (field d ''status'') (Inr (field d ''endpoints'')) (field d ''created_at'')
         (field d ''updated_at'') (field d ''sequence'') (field d ''last_error'')
         (field d ''contract_version''))))"

definition checkpoint_to_json :: "session_env \<Rightarrow> session_checkpoint \<Rightarrow> exc + string" where
  "checkpoint_to_json env s = deterministic_json env (session_checkpoint_to_dict s)"

definition checkpoint_from_json :: "session_env \<Rightarrow> string \<Rightarrow> exc + session_checkpoint" where
  "checkpoint_from_json env document =
     bindE (strict_json_loads env document) (session_checkpoint_from_dict env)"

section \<open>\<open>SessionManifest\<close>\<close>

record session_manifest =
  sm_session_id :: string
  sm_plan_fingerprint :: string
  sm_status :: session_status
  sm_started_at :: string
  sm_finished_at :: "string option"
  sm_target_count :: int
  sm_successful_targets :: int
  sm_failed_targets :: int
  sm_total_ports :: int
  sm_completed_ports :: int
  sm_open_ports :: int
  sm_checkpoint_sequence :: int
  sm_banner_engine :: "string option"

definition is_sha256_hex :: "string \<Rightarrow> bool" where
  "is_sha256_hex s \<longleftrightarrow> length s = 64 \<and> list_all is_lower_hex s"

definition normalize_finished_at :: "session_env \<Rightarrow> pyval \<Rightarrow> exc + string option" where
  "normalize_finished_at env v =
     (if v = PNone then Inr None
      else bindE (normalize_timestamp env v) (\<lambda>s. Inr (Some s)))"

definition check_finished_order :: "session_env \<Rightarrow> string option \<Rightarrow> string \<Rightarrow> exc + unit" where
  "check_finished_order env finished started =
     (case finished of
        None \<Rightarrow> Inr ()
      | Some f \<Rightarrow>
          if f = [] then Inr ()
          else bindE (parse_timestamp env f) (\<lambda>fi.
               bindE (parse_timestamp env started) (\<lambda>st. check_that (\<not> fi < st))))"

definition completed_counts :: "session_status \<Rightarrow> int \<Rightarrow> int \<Rightarrow> int \<Rightarrow> int \<Rightarrow> int \<Rightarrow> bool" where
  "completed_counts status targets successful failed expected completed \<longleftrightarrow>
     (status = SS_COMPLETED \<longrightarrow> completed = expected \<and> successful = targets \<and> failed = 0)"

definition session_manifest_init ::
    "session_env \<Rightarrow> pyval \<Rightarrow> pyval \<Rightarrow> pyval \<Rightarrow> pyval \<Rightarrow> pyval \<Rightarrow> pyval \<Rightarrow> pyval \<Rightarrow> pyval \<Rightarrow> pyval
     \<Rightarrow> pyval \<Rightarrow> pyval \<Rightarrow> pyval \<Rightarrow> pyval \<Rightarrow> pyval \<Rightarrow> pyval \<Rightarrow> exc + session_manifest" where
  "session_manifest_init env session_id plan_fingerprint status started_at finished_at
       target_count successful_targets failed_targets total_ports completed_ports open_ports
       checkpoint_sequence tcp_engine banner_engine version =
     bindE (require_int 1 (Some 1) version) (\<lambda>_.
     bindE (normalize_session_id session_id) (\<lambda>sid.
     bindE (require_string False 64 plan_fingerprint) (\<lambda>fp.
     bindE (check_that (is_sha256_hex fp)) (\<lambda>_.
     bindE (coerce_status status) (\<lambda>st.
     bindE (normalize_timestamp env started_at) (\<lambda>started.
     bindE (normalize_finished_at env finished_at) (\<lambda>finished.
     bindE (check_that (is_terminal st = (finished \<noteq> None))) (\<lambda>_.
     bindE (check_finished_order env finished started) (\<lambda>_.
     bindE (require_int 1 None target_count) (\<lambda>tc.
     bindE (require_int 0 None successful_targets) (\<lambda>ok.
     bindE (require_int 0 None failed_targets) (\<lambda>bad.
     bindE (check_that (ok + bad \<le> tc)) (\<lambda>_.
     bindE (require_int 1 None total_ports) (\<lambda>tot.
     bindE (require_int 0 None completed_ports) (\<lambda>comp.
     bindE (require_int 0 None open_ports) (\<lambda>opn.
     bindE (check_that (comp \<le> tot)) (\<lambda>_.
     bindE (check_that (opn \<le> comp)) (\<lambda>_.
     bindE (require_int 0 None checkpoint_sequence) (\<lambda>seq.
     bindE (require_string False 16 tcp_engine) (\<lambda>tcp.
     bindE (check_that (tcp = ''rust'')) (\<lambda>_.
     bindE (require_optional_string banner_engine) (\<lambda>engine.
     bindE (check_that (engine \<in> {None, Some ''go''})) (\<lambda>_.
     bindE (check_that (completed_counts st tc ok bad tot comp)) (\<lambda>_.
       Inr \<lparr>sm_session_id = sid, sm_plan_fingerprint = fp, sm_status = st,
            sm_started_at = started, sm_finished_at = finished, sm_target_count = tc,
            sm_successful_targets = ok, sm_failed_targets = bad, sm_total_ports = tot,
            sm_completed_ports = comp, sm_open_ports = opn, sm_checkpoint_sequence = seq,
            sm_banner_engine = engine\<rparr>))))))))))))))))))))))))"

definition session_manifest_fields :: "string list" where
  "session_manifest_fields =
     [''contract_version'', ''record_type'', ''session_id'', ''plan_fingerprint'', ''status'',
      ''started_at'', ''finished_at'', ''target_count'', ''successful_targets'',
      ''failed_targets'', ''total_ports'', ''completed_ports'', ''open_ports'',
      ''checkpoint_sequence'', ''tcp_engine'', ''banner_engine'']"

text \<open>\<open>from_checkpoint\<close>: the counts of the endpoints.\<close>

definition count_completed :: "session_checkpoint \<Rightarrow> int" where
  "count_completed s = int (sum_list (map (\<lambda>e. length (ep_completed_results e)) (sk_endpoints s)))"

definition count_open :: "session_checkpoint \<Rightarrow> int" where
  "count_open s = int (sum_list (map (\<lambda>e. length (ep_open_ports e)) (sk_endpoints s)))"

definition count_successful :: "session_checkpoint \<Rightarrow> int" where
  "count_successful s =
     int (length [e \<leftarrow> sk_endpoints s. ep_pending_ports e = [] \<and> ep_error e = None])"

definition count_failed :: "session_checkpoint \<Rightarrow> int" where
  "count_failed s = int (length [e \<leftarrow> sk_endpoints s. ep_error e \<noteq> None])"

definition manifest_from_checkpoint :: "session_env \<Rightarrow> session_checkpoint \<Rightarrow> exc + session_manifest" where
  "manifest_from_checkpoint env s =
     session_manifest_init env (PStr (sk_session_id s)) (PStr (fingerprint env (sk_plan s)))
       (PStr (session_status_value (sk_status s))) (PStr (sk_created_at s))
       (if is_terminal (sk_status s) then PStr (sk_updated_at s) else PNone)
       (PInt (int (length (sk_endpoints s)))) (PInt (count_successful s)) (PInt (count_failed s))
       (PInt (int (length (sp_ports (sk_plan s))) * int (length (sk_endpoints s))))
       (PInt (count_completed s)) (PInt (count_open s)) (PInt (sk_sequence s)) (PStr ''rust'')
       (str_or_none (sp_banner_engine (sk_plan s))) (PInt 1)"

definition session_manifest_to_dict :: "session_manifest \<Rightarrow> pyval" where
  "session_manifest_to_dict m = obj
     [(''banner_engine'', str_or_none (sm_banner_engine m)),
      (''checkpoint_sequence'', PInt (sm_checkpoint_sequence m)),
      (''completed_ports'', PInt (sm_completed_ports m)),
      (''contract_version'', PInt 1),
      (''failed_targets'', PInt (sm_failed_targets m)),
      (''finished_at'', str_or_none (sm_finished_at m)),
      (''open_ports'', PInt (sm_open_ports m)),
      (''plan_fingerprint'', PStr (sm_plan_fingerprint m)),
      (''record_type'', PStr ''session_manifest''),
      (''session_id'', PStr (sm_session_id m)),
      (''started_at'', PStr (sm_started_at m)),
      (''status'', PStr (session_status_value (sm_status m))),
      (''successful_targets'', PInt (sm_successful_targets m)),
      (''target_count'', PInt (sm_target_count m)),
      (''tcp_engine'', PStr ''rust''),
      (''total_ports'', PInt (sm_total_ports m))]"

definition session_manifest_from_dict :: "session_env \<Rightarrow> pyval \<Rightarrow> exc + session_manifest" where
  "session_manifest_from_dict env v =
     bindE (require_mapping v) (\<lambda>d.
     bindE (require_fields session_manifest_fields [] d) (\<lambda>_.
     bindE (check_that (field d ''record_type'' = PStr ''session_manifest'')) (\<lambda>_.
       session_manifest_init env (field d ''session_id'') (field d ''plan_fingerprint'')
         (field d ''status'') (field d ''started_at'') (field d ''finished_at'')
         (field d ''target_count'') (field d ''successful_targets'') (field d ''failed_targets'')
         (field d ''total_ports'') (field d ''completed_ports'') (field d ''open_ports'')
         (field d ''checkpoint_sequence'') (field d ''tcp_engine'') (field d ''banner_engine'')
         (field d ''contract_version''))))"

definition manifest_to_json :: "session_env \<Rightarrow> session_manifest \<Rightarrow> exc + string" where
  "manifest_to_json env m = deterministic_json env (session_manifest_to_dict m)"

definition manifest_from_json :: "session_env \<Rightarrow> string \<Rightarrow> exc + session_manifest" where
  "manifest_from_json env document =
     bindE (strict_json_loads env document) (session_manifest_from_dict env)"

section \<open>Well-formed checkpoints\<close>

definition times_ordered :: "session_env \<Rightarrow> string \<Rightarrow> string \<Rightarrow> bool" where
  "times_ordered env a b \<longleftrightarrow>
     (\<exists>t u. parse_timestamp env a = Inr t \<and> parse_timestamp env b = Inr u \<and> t \<le> u)"

definition wf_checkpoint :: "session_env \<Rightarrow> session_checkpoint \<Rightarrow> bool" where
  "wf_checkpoint env s \<longleftrightarrow>
     canonical_uuid (sk_session_id s) \<and> wf_plan (sk_plan s) \<and>
     sk_endpoints s \<noteq> [] \<and> list_all wf_progress (sk_endpoints s) \<and>
     endpoints_match (sk_plan s) (sk_endpoints s) \<and>
     list_all (ports_accounted (sk_plan s)) (sk_endpoints s) \<and>
     wf_timestamp env (sk_created_at s) \<and> wf_timestamp env (sk_updated_at s) \<and>
     times_ordered env (sk_created_at s) (sk_updated_at s) \<and>
     0 \<le> sk_sequence s \<and> opt_string (sk_last_error s) \<and>
     status_rules (sk_status s) (sk_last_error s) (sk_plan s) (sk_endpoints s)"

text \<open>Plans and progress records that a caller passes as objects are well formed already.\<close>

lemma coerce_plan_ok:
  "coerce_plan x = Inr p \<Longrightarrow> (\<And>q. x = Inl q \<Longrightarrow> wf_plan q) \<Longrightarrow> wf_plan p"
  by (cases x) (auto simp: coerce_plan_def intro: plan.accepted_wf)

lemma coerce_endpoints_ok:
  "coerce_endpoints env x = Inr es \<Longrightarrow> (\<And>fs. x = Inl fs \<Longrightarrow> list_all wf_progress fs) \<Longrightarrow>
   list_all wf_progress es"
  by (cases x) (auto simp: coerce_endpoints_def run intro: map_err_list_all progress.accepted_wf)

lemma session_checkpoint_init_ok:
  assumes "iso_ok env"
    "session_checkpoint_init env sid pl st es ca ua sq err ver = Inr s"
    "\<And>q. pl = Inl q \<Longrightarrow> wf_plan q" "\<And>fs. es = Inl fs \<Longrightarrow> list_all wf_progress fs"
  shows "wf_checkpoint env s"
proof -
  from assms(2) obtain i p sta ens cr up u c q er where
    i: "normalize_session_id sid = Inr i" and p: "coerce_plan pl = Inr p"
    and e: "coerce_endpoints env es = Inr ens" "ens \<noteq> []" "endpoints_match p ens"
      "list_all (ports_accounted p) ens"
    and t: "normalize_timestamp env ca = Inr cr" "normalize_timestamp env ua = Inr up"
      "parse_timestamp env up = Inr u" "parse_timestamp env cr = Inr c" "\<not> u < c"
    and q: "require_int 0 None sq = Inr q" "require_optional_string err = Inr er"
      "status_rules sta er p ens"
    and s: "s = \<lparr>sk_session_id = i, sk_plan = p, sk_status = sta, sk_endpoints = ens,
        sk_created_at = cr, sk_updated_at = up, sk_sequence = q, sk_last_error = er\<rparr>"
    unfolding session_checkpoint_init_def by (simp only: bindE_Inr check_that_Inr) blast
  have "wf_plan p" using coerce_plan_ok [OF p] assms(3) by blast
  moreover have "list_all wf_progress ens" using coerce_endpoints_ok [OF e(1)] assms(4) by blast
  moreover have "times_ordered env cr up" using t by (auto simp: times_ordered_def)
  ultimately show ?thesis
    using e q(3) normalize_session_id_ok [OF i] normalize_timestamp_ok [OF assms(1) t(1)]
      normalize_timestamp_ok [OF assms(1) t(2)] require_optional_string_ok [OF q(2)] q(1)
    by (simp add: s wf_checkpoint_def require_int_Inr)
qed

lemma session_checkpoint_init_id:
  assumes "wf_checkpoint env s" "coerce_plan pl = Inr (sk_plan s)"
    "coerce_endpoints env es = Inr (sk_endpoints s)"
  shows "session_checkpoint_init env (PStr (sk_session_id s)) pl
      (PStr (session_status_value (sk_status s))) es (PStr (sk_created_at s))
      (PStr (sk_updated_at s)) (PInt (sk_sequence s)) (str_or_none (sk_last_error s)) (PInt 1) =
    Inr s"
  using assms
  by (auto simp: session_checkpoint_init_def wf_checkpoint_def wf_timestamp_def times_ordered_def)

lemma checkpoint_dict_fields:
  assumes "session_checkpoint_to_dict s = PDict d"
  shows "require_fields session_checkpoint_fields [] d = Inr ()"
proof (rule require_fields_same)
  show "map fst d = map PStr [''contract_version'', ''created_at'', ''endpoints'', ''last_error'',
      ''plan'', ''record_type'', ''sequence'', ''session_id'', ''status'', ''updated_at'']"
    using dict_keys_of_obj [OF assms [unfolded session_checkpoint_to_dict_def]] by simp
  show "set [''contract_version'', ''created_at'', ''endpoints'', ''last_error'',
      ''plan'', ''record_type'', ''sequence'', ''session_id'', ''status'', ''updated_at''] =
      set session_checkpoint_fields"
    unfolding session_checkpoint_fields_def list.set by (simp only: insert_commute)
qed

lemma coerce_endpoints_dict:
  "list_all wf_progress es \<Longrightarrow>
   coerce_endpoints env (Inr (PList (map endpoint_progress_to_dict es))) = Inr es"
  by (simp add: coerce_endpoints_def list_all_iff progress.map_roundtrip)

lemma checkpoint_accepted_wf:
  assumes "iso_ok env" "session_checkpoint_from_dict env v = Inr s"
  shows "wf_checkpoint env s"
proof -
  from assms(2) obtain sid pl st es ca ua sq err ver where
    "session_checkpoint_init env sid (Inr pl) st (Inr es) ca ua sq err ver = Inr s"
    unfolding session_checkpoint_from_dict_def by (simp only: bindE_Inr) blast
  from session_checkpoint_init_ok [OF assms(1) this] show ?thesis by simp
qed

lemma checkpoint_roundtrip:
  assumes "wf_checkpoint env s"
  shows "session_checkpoint_from_dict env (session_checkpoint_to_dict s) = Inr s"
proof -
  obtain d where d: "session_checkpoint_to_dict s = PDict d"
    by (simp add: session_checkpoint_to_dict_def obj_def)
  note get = dict_get_of_obj [OF d [unfolded session_checkpoint_to_dict_def]]
  have "coerce_plan (Inr (scan_plan_to_dict (sk_plan s))) = Inr (sk_plan s)"
    using assms by (simp add: coerce_plan_def wf_checkpoint_def plan.roundtrip)
  moreover have "coerce_endpoints env
      (Inr (PList (map endpoint_progress_to_dict (sk_endpoints s)))) = Inr (sk_endpoints s)"
    using assms by (intro coerce_endpoints_dict) (simp add: wf_checkpoint_def)
  ultimately show ?thesis
    using session_checkpoint_init_id [OF assms]
    by (simp add: d session_checkpoint_from_dict_def checkpoint_dict_fields [OF d] field_def
        dict_get_or_def get)
qed

text \<open>The endpoints of a well-formed checkpoint are those of its plan, each exactly once.\<close>

lemma checkpoint_endpoints_distinct:
  assumes "wf_checkpoint env s"
  shows "distinct (map (\<lambda>e. endpoint_key (ep_identity e)) (sk_endpoints s))"
proof -
  from assms have d: "distinct (map endpoint_key (sp_resolved_targets (sk_plan s)))"
    by (auto simp: wf_checkpoint_def wf_plan_def check_plan_targets_def split: if_splits)
  from assms have m: "set (map (\<lambda>e. endpoint_key (ep_identity e)) (sk_endpoints s)) =
      set (map endpoint_key (sp_resolved_targets (sk_plan s)))"
    "length (sk_endpoints s) = length (sp_resolved_targets (sk_plan s))"
    by (simp_all add: wf_checkpoint_def endpoints_match_def)
  have "card (set (map (\<lambda>e. endpoint_key (ep_identity e)) (sk_endpoints s))) =
      length (map (\<lambda>e. endpoint_key (ep_identity e)) (sk_endpoints s))"
    using distinct_card [OF d] m by simp
  then show ?thesis by (simp only: distinct_card_iff)
qed

section \<open>Manifests\<close>

definition wf_manifest :: "session_env \<Rightarrow> session_manifest \<Rightarrow> bool" where
  "wf_manifest env m \<longleftrightarrow>
     canonical_uuid (sm_session_id m) \<and> is_sha256_hex (sm_plan_fingerprint m) \<and>
     wf_timestamp env (sm_started_at m) \<and>
     (\<forall>f. sm_finished_at m = Some f \<longrightarrow>
        wf_timestamp env f \<and> times_ordered env (sm_started_at m) f) \<and>
     is_terminal (sm_status m) = (sm_finished_at m \<noteq> None) \<and>
     1 \<le> sm_target_count m \<and> 0 \<le> sm_successful_targets m \<and> 0 \<le> sm_failed_targets m \<and>
     sm_successful_targets m + sm_failed_targets m \<le> sm_target_count m \<and>
     1 \<le> sm_total_ports m \<and> 0 \<le> sm_open_ports m \<and> sm_open_ports m \<le> sm_completed_ports m \<and>
     sm_completed_ports m \<le> sm_total_ports m \<and> 0 \<le> sm_checkpoint_sequence m \<and>
     sm_banner_engine m \<in> {None, Some ''go''} \<and>
     completed_counts (sm_status m) (sm_target_count m) (sm_successful_targets m)
       (sm_failed_targets m) (sm_total_ports m) (sm_completed_ports m)"

lemma lower_hex_sess_string:
  assumes "is_sha256_hex s"
  shows "sess_string 64 s"
proof -
  have "\<forall>c \<in> set s. \<not> is_space c" "CHR 0x00 \<notin> set s" "s \<noteq> []"
    using assms
    by (auto simp: is_sha256_hex_def list_all_iff is_lower_hex_def is_digit_def is_space_def ord_def)
  with assms show ?thesis
    by (auto simp: sess_string_def has_nul_def is_sha256_hex_def intro: strip_no_space)
qed

lemma manifest_init_id:
  assumes "wf_manifest env m"
  shows "session_manifest_init env (PStr (sm_session_id m)) (PStr (sm_plan_fingerprint m))
      (PStr (session_status_value (sm_status m))) (PStr (sm_started_at m))
      (str_or_none (sm_finished_at m)) (PInt (sm_target_count m))
      (PInt (sm_successful_targets m)) (PInt (sm_failed_targets m)) (PInt (sm_total_ports m))
      (PInt (sm_completed_ports m)) (PInt (sm_open_ports m)) (PInt (sm_checkpoint_sequence m))
      (PStr ''rust'') (str_or_none (sm_banner_engine m)) (PInt 1) = Inr m"
proof -
  have f: "normalize_finished_at env (str_or_none (sm_finished_at m)) = Inr (sm_finished_at m)"
    using assms by (cases "sm_finished_at m")
      (auto simp: normalize_finished_at_def wf_manifest_def wf_timestamp_def)
  have o: "check_finished_order env (sm_finished_at m) (sm_started_at m) = Inr ()"
    using assms by (cases "sm_finished_at m")
      (auto simp: check_finished_order_def wf_manifest_def times_ordered_def)
  have b: "require_optional_string (str_or_none (sm_banner_engine m)) = Inr (sm_banner_engine m)"
    using assms opt_go [of True] opt_go [of False]
    by (intro require_optional_string_id) (auto simp: wf_manifest_def)
  show ?thesis
    using assms f o b rust_string lower_hex_sess_string
    by (simp add: session_manifest_init_def wf_manifest_def wf_timestamp_def)
qed

lemma manifest_dict_fields:
  assumes "session_manifest_to_dict m = PDict d"
  shows "require_fields session_manifest_fields [] d = Inr ()"
proof (rule require_fields_same)
  show "map fst d = map PStr [''banner_engine'', ''checkpoint_sequence'', ''completed_ports'',
      ''contract_version'', ''failed_targets'', ''finished_at'', ''open_ports'',
      ''plan_fingerprint'', ''record_type'', ''session_id'', ''started_at'', ''status'',
      ''successful_targets'', ''target_count'', ''tcp_engine'', ''total_ports'']"
    using dict_keys_of_obj [OF assms [unfolded session_manifest_to_dict_def]] by simp
  show "set [''banner_engine'', ''checkpoint_sequence'', ''completed_ports'',
      ''contract_version'', ''failed_targets'', ''finished_at'', ''open_ports'',
      ''plan_fingerprint'', ''record_type'', ''session_id'', ''started_at'', ''status'',
      ''successful_targets'', ''target_count'', ''tcp_engine'', ''total_ports''] =
      set session_manifest_fields"
    unfolding session_manifest_fields_def list.set by (simp only: insert_commute)
qed

lemma manifest_roundtrip:
  assumes "wf_manifest env m"
  shows "session_manifest_from_dict env (session_manifest_to_dict m) = Inr m"
proof -
  obtain d where d: "session_manifest_to_dict m = PDict d"
    by (simp add: session_manifest_to_dict_def obj_def)
  note get = dict_get_of_obj [OF d [unfolded session_manifest_to_dict_def]]
  show ?thesis
    using manifest_init_id [OF assms]
    by (simp add: d session_manifest_from_dict_def manifest_dict_fields [OF d] field_def
        dict_get_or_def get)
qed

text \<open>The counts of one endpoint.\<close>

lemma completed_ports_distinct:
  assumes "wf_progress e"
  shows "distinct (ep_completed_ports e)"
proof -
  have "map session_result_key (ep_completed_results e) =
      map (Pair ''tcp'') (ep_completed_ports e)"
    using assms by (auto simp: wf_progress_def list_all_iff wf_port_result_def session_result_key_def
        ep_completed_ports_def)
  with assms show ?thesis by (simp add: wf_progress_def distinct_map)
qed

lemma completed_le_ports:
  assumes "wf_progress e" "ports_accounted p e" "wf_plan p"
  shows "length (ep_completed_results e) \<le> length (sp_ports p)"
    "ep_pending_ports e = [] \<Longrightarrow> length (ep_completed_results e) = length (sp_ports p)"
proof -
  have d: "distinct (sp_ports p)" "distinct (ep_completed_ports e)"
    using assms completed_ports_distinct by (auto simp: wf_plan_def port_list_def)
  have l: "length (ep_completed_results e) = card (set (ep_completed_ports e))"
    "length (sp_ports p) = card (set (sp_ports p))"
    using distinct_card [OF d(1)] distinct_card [OF d(2)] by (simp_all add: ep_completed_ports_def)
  have "set (ep_completed_ports e) \<subseteq> set (sp_ports p)"
    using assms(2) by (auto simp: ports_accounted_def)
  then show "length (ep_completed_results e) \<le> length (sp_ports p)"
    unfolding l by (intro card_mono) simp_all
  show "ep_pending_ports e = [] \<Longrightarrow> length (ep_completed_results e) = length (sp_ports p)"
    unfolding l using assms(2) by (simp add: ports_accounted_def)
qed

lemma sum_list_bound: "(\<And>x. x \<in> set xs \<Longrightarrow> f x \<le> (k::nat)) \<Longrightarrow> sum_list (map f xs) \<le> k * length xs"
  by (induction xs) (auto simp: add_mono)

lemma sum_list_const: "(\<And>x. x \<in> set xs \<Longrightarrow> f x = (k::nat)) \<Longrightarrow> sum_list (map f xs) = k * length xs"
  by (induction xs) auto

lemma filter_disjoint_length:
  "(\<And>x. \<not> (P x \<and> Q x)) \<Longrightarrow> length (filter P xs) + length (filter Q xs) \<le> length xs"
  by (induction xs) auto

definition sha_ok :: "session_env \<Rightarrow> bool" where
  "sha_ok env \<longleftrightarrow> (\<forall>s. is_sha256_hex (env_sha256 env s))"

definition manifest_of :: "session_env \<Rightarrow> session_checkpoint \<Rightarrow> session_manifest" where
  "manifest_of env s =
     \<lparr>sm_session_id = sk_session_id s, sm_plan_fingerprint = fingerprint env (sk_plan s),
      sm_status = sk_status s, sm_started_at = sk_created_at s,
      sm_finished_at = (if is_terminal (sk_status s) then Some (sk_updated_at s) else None),
      sm_target_count = int (length (sk_endpoints s)), sm_successful_targets = count_successful s,
      sm_failed_targets = count_failed s,
      sm_total_ports = int (length (sp_ports (sk_plan s))) * int (length (sk_endpoints s)),
      sm_completed_ports = count_completed s, sm_open_ports = count_open s,
      sm_checkpoint_sequence = sk_sequence s, sm_banner_engine = sp_banner_engine (sk_plan s)\<rparr>"

lemma wf_plan_engine: "wf_plan p \<Longrightarrow> sp_banner_engine p = None \<or> sp_banner_engine p = Some ''go''"
  by (auto simp: wf_plan_def)

lemma wf_checkpoint_bounds:
  assumes "wf_checkpoint env s"
  shows "canonical_uuid (sk_session_id s)" "wf_timestamp env (sk_created_at s)"
    "wf_timestamp env (sk_updated_at s)" "times_ordered env (sk_created_at s) (sk_updated_at s)"
    "0 \<le> sk_sequence s"
  using assms by (simp_all add: wf_checkpoint_def)

lemma manifest_of_wf:
  assumes "wf_checkpoint env s" "sha_ok env"
  shows "wf_manifest env (manifest_of env s)"
proof -
  let ?n = "length (sk_endpoints s)" and ?k = "length (sp_ports (sk_plan s))"
  have e: "wf_progress e" "ports_accounted (sk_plan s) e" if "e \<in> set (sk_endpoints s)" for e
    using assms(1) that by (auto simp: wf_checkpoint_def list_all_iff)
  have p: "wf_plan (sk_plan s)" "sk_endpoints s \<noteq> []" using assms(1) by (simp_all add: wf_checkpoint_def)
  then have pos: "0 < ?k" "0 < ?n" by (simp_all add: wf_plan_def)
  have "sum_list (map (\<lambda>e. length (ep_completed_results e)) (sk_endpoints s)) \<le> ?k * ?n"
    by (rule sum_list_bound) (use e p completed_le_ports(1) in blast)
  then have "count_completed s \<le> int ?k * int ?n"
    by (simp add: count_completed_def flip: of_nat_mult)
  moreover have "count_open s \<le> count_completed s"
    by (auto simp: count_open_def count_completed_def ep_open_ports_def open_results_def
        intro!: sum_list_mono)
  moreover
  have "length [e \<leftarrow> sk_endpoints s. ep_pending_ports e = [] \<and> ep_error e = None] +
      length [e \<leftarrow> sk_endpoints s. ep_error e \<noteq> None] \<le> ?n"
    by (rule filter_disjoint_length) auto
  then have "count_successful s + count_failed s \<le> int ?n"
    unfolding count_successful_def count_failed_def by linarith
  moreover have "completed_counts (sk_status s) (int ?n) (count_successful s) (count_failed s)
      (int ?k * int ?n) (count_completed s)"
  proof -
    have "count_completed s = int ?k * int ?n \<and> count_successful s = int ?n \<and> count_failed s = 0"
      if "sk_status s = SS_COMPLETED"
    proof -
      have c: "completed_rule (sk_plan s) x" if "x \<in> set (sk_endpoints s)" for x
        using assms(1) that \<open>sk_status s = SS_COMPLETED\<close>
        by (auto simp: wf_checkpoint_def status_rules_def list_all_iff)
      have "sum_list (map (\<lambda>e. length (ep_completed_results e)) (sk_endpoints s)) = ?k * ?n"
        by (rule sum_list_const) (use e p c completed_le_ports(2) in \<open>auto simp: completed_rule_def\<close>)
      moreover have "[x \<leftarrow> sk_endpoints s. ep_pending_ports x = [] \<and> ep_error x = None] = sk_endpoints s"
        "[x \<leftarrow> sk_endpoints s. ep_error x \<noteq> None] = []"
        using c by (auto simp: filter_id_conv filter_empty_conv completed_rule_def)
      ultimately show ?thesis
        by (simp add: count_completed_def count_successful_def count_failed_def)
    qed
    then show ?thesis by (simp add: completed_counts_def)
  qed
  moreover have "0 \<le> count_open s" "0 \<le> count_successful s" "0 \<le> count_failed s"
    by (simp_all add: count_open_def count_successful_def count_failed_def)
  moreover have "1 \<le> int ?k * int ?n" using pos by (simp add: int_one_le_iff_zero_less)
  moreover have "Suc 0 \<le> ?n" using p(2) by (simp add: Suc_le_eq)
  ultimately show ?thesis
    using assms p(1)
    by (simp add: wf_manifest_def manifest_of_def sha_ok_def fingerprint_wf wf_checkpoint_bounds
        wf_plan_engine)
qed

lemma manifest_from_checkpoint_ok:
  assumes "wf_checkpoint env s" "sha_ok env"
  shows "manifest_from_checkpoint env s = Inr (manifest_of env s)"
  using manifest_init_id [OF manifest_of_wf [OF assms]]
  by (cases "is_terminal (sk_status s)") (simp_all add: manifest_from_checkpoint_def manifest_of_def)

section \<open>The documents as text\<close>

text \<open>What is relied on of UTF-8: decoding gives back what was encoded.\<close>

definition utf8_ok :: "session_env \<Rightarrow> bool" where
  "utf8_ok env \<longleftrightarrow> (\<forall>s. env_decode env (env_encode env s) = Some s)"

lemma json_checkpoint:
  assumes "wf_checkpoint env s"
  shows "json_value (session_checkpoint_to_dict s)"
  unfolding session_checkpoint_to_dict_def
proof (rule json_objI)
  show "sorted [''contract_version'', ''created_at'', ''endpoints'', ''last_error'',
      ''plan'', ''record_type'', ''sequence'', ''session_id'', ''status'', ''updated_at''] \<and>
    distinct [''contract_version'', ''created_at'', ''endpoints'', ''last_error'',
      ''plan'', ''record_type'', ''sequence'', ''session_id'', ''status'', ''updated_at'']"
    by code_simp
qed (use assms json_scan_plan json_progress in \<open>auto simp: wf_checkpoint_def list_all_iff\<close>)

lemma json_manifest: "json_value (session_manifest_to_dict m)"
  unfolding session_manifest_to_dict_def
proof (rule json_objI)
  show "sorted [''banner_engine'', ''checkpoint_sequence'', ''completed_ports'',
      ''contract_version'', ''failed_targets'', ''finished_at'', ''open_ports'',
      ''plan_fingerprint'', ''record_type'', ''session_id'', ''started_at'', ''status'',
      ''successful_targets'', ''target_count'', ''tcp_engine'', ''total_ports''] \<and>
    distinct [''banner_engine'', ''checkpoint_sequence'', ''completed_ports'',
      ''contract_version'', ''failed_targets'', ''finished_at'', ''open_ports'',
      ''plan_fingerprint'', ''record_type'', ''session_id'', ''started_at'', ''status'',
      ''successful_targets'', ''target_count'', ''tcp_engine'', ''total_ports'']"
    by code_simp
qed simp_all

text \<open>The text of a document, with the line break of the stored file, gives the document back.\<close>

lemma checkpoint_text:
  assumes "wf_checkpoint env s" "repr_ok (env_float env) (env_repr env)" "set nl \<subseteq> {CHR 0x0A}"
  obtains t where "checkpoint_to_json env s = Inr t" "checkpoint_from_json env (t @ nl) = Inr s"
proof
  note j = json_checkpoint [OF assms(1)]
  show "checkpoint_to_json env s = Inr (json_text (env_repr env) (session_checkpoint_to_dict s))"
    using json_value_finite [OF j] by (simp add: checkpoint_to_json_def deterministic_json_def)
  obtain d where "session_checkpoint_to_dict s = PDict d"
    by (simp add: session_checkpoint_to_dict_def obj_def)
  then show "checkpoint_from_json env
      (json_text (env_repr env) (session_checkpoint_to_dict s) @ nl) = Inr s"
    using json_loads_text [OF assms(2) j assms(3)] checkpoint_roundtrip [OF assms(1)]
    by (simp add: checkpoint_from_json_def strict_json_loads_def)
qed

lemma manifest_text:
  assumes "wf_manifest env m" "repr_ok (env_float env) (env_repr env)" "set nl \<subseteq> {CHR 0x0A}"
  obtains t where "manifest_to_json env m = Inr t" "manifest_from_json env (t @ nl) = Inr m"
proof
  note j = json_manifest [of m]
  show "manifest_to_json env m = Inr (json_text (env_repr env) (session_manifest_to_dict m))"
    using json_value_finite [OF j] by (simp add: manifest_to_json_def deterministic_json_def)
  obtain d where "session_manifest_to_dict m = PDict d"
    by (simp add: session_manifest_to_dict_def obj_def)
  then show "manifest_from_json env
      (json_text (env_repr env) (session_manifest_to_dict m) @ nl) = Inr m"
    using json_loads_text [OF assms(2) j assms(3)] manifest_roundtrip [OF assms(1)]
    by (simp add: manifest_from_json_def strict_json_loads_def)
qed

lemma plan_text:
  assumes "wf_plan p" "repr_ok (env_float env) (env_repr env)" "set nl \<subseteq> {CHR 0x0A}"
  obtains t where "scan_plan_to_json env p = Inr t" "scan_plan_from_json env (t @ nl) = Inr p"
proof
  note j = json_scan_plan [OF assms(1)]
  show "scan_plan_to_json env p = Inr (json_text (env_repr env) (scan_plan_to_dict p))"
    using json_value_finite [OF j] by (simp add: scan_plan_to_json_def deterministic_json_def)
  obtain d where "scan_plan_to_dict p = PDict d" by (simp add: scan_plan_to_dict_def obj_def)
  then show "scan_plan_from_json env (json_text (env_repr env) (scan_plan_to_dict p) @ nl) = Inr p"
    using json_loads_text [OF assms(2) j assms(3)] plan.roundtrip [OF assms(1)]
    by (simp add: scan_plan_from_json_def strict_json_loads_def)
qed

section \<open>A sample session\<close>

text \<open>
  One target, two ports, one of them done: the input of the witnesses. The clock knows two
  instants.
\<close>

definition sample_env :: session_env where
  "sample_env =
     \<lparr>env_sha256 = (\<lambda>_. replicate 64 CHR ''0''),
      env_iso_read = (\<lambda>s. if s = ''2026-01-01T00:00:00+00:00'' then Some (Some 0, 0)
        else if s = ''2026-01-01T00:00:01+00:00'' then Some (Some 0, 1) else None),
      env_iso_write = (\<lambda>t. if t = 0 then ''2026-01-01T00:00:00+00:00''
        else ''2026-01-01T00:00:01+00:00''),
      env_float = fraction_read, env_repr = fraction_text,
      env_encode = (\<lambda>s. s), env_decode = Some\<rparr>"

definition sample_identity :: target_identity where
  "sample_identity =
     \<lparr>ti_requested = ''gw'', ti_address = ''10.0.0.5'', ti_family = AF_IPV4,
      ti_canonical_name = PNone, ti_source = PNone\<rparr>"

definition sample_plan :: scan_plan where
  "sample_plan =
     \<lparr>sp_requested_targets = [''gw''], sp_resolved_targets = [sample_identity],
      sp_ports = [22, 80], sp_timeout_ms = 500, sp_threads = 4, sp_target_workers = 1,
      sp_banner_grab = True, sp_banner_engine = Some ''go'', sp_report_format = ''json'',
      sp_report_dir = ''reports'', sp_output = None\<rparr>"

definition sample_result :: scan_result where
  "sample_result =
     \<lparr>sr_port = 22, sr_is_open = PBool True, sr_service = PStr ''ssh'', sr_banner = PNone,
      sr_response_time = FFin (1 / 2), sr_protocol = ''tcp'', sr_state = PS_OPEN,
      sr_target = PStr ''gw'', sr_address = PStr ''10.0.0.5'', sr_family = Some AF_IPV4,
      sr_host_state = HS_UP, sr_technique = ST_TCP_CONNECT,
      sr_evidence = \<lparr>ev_reason = RC_CONNECTION_ACCEPTED, ev_source = ''tcp_connect'',
        ev_detail = PNone, ev_errno = PNone\<rparr>, sr_contract_version = PInt 1\<rparr>"

definition sample_progress :: endpoint_progress where
  "sample_progress =
     \<lparr>ep_identity = sample_identity, ep_completed_results = [sample_result],
      ep_pending_ports = [80], ep_completed_banner_ports = [22], ep_error = None\<rparr>"

definition sample_checkpoint :: session_checkpoint where
  "sample_checkpoint =
     \<lparr>sk_session_id = ''01234567-89ab-cdef-0123-456789abcdef'', sk_plan = sample_plan,
      sk_status = SS_RUNNING, sk_endpoints = [sample_progress],
      sk_created_at = ''2026-01-01T00:00:00Z'', sk_updated_at = ''2026-01-01T00:00:01Z'',
      sk_sequence = 3, sk_last_error = None\<rparr>"

lemma sample_iso_ok: "iso_ok sample_env"
  by (auto simp: iso_ok_def sample_env_def is_space_def ord_def split: if_splits
      intro: exI [of _ "''2026-01-01T00:00:00''"] exI [of _ "''2026-01-01T00:00:01''"])

lemma sample_plan_accepted: "scan_plan_from_dict (scan_plan_to_dict sample_plan) = Inr sample_plan"
  by code_simp

lemma sample_progress_accepted:
  "endpoint_progress_from_dict sample_env (endpoint_progress_to_dict sample_progress) =
   Inr sample_progress"
  by code_simp

lemma sample_checkpoint_accepted:
  "session_checkpoint_from_dict sample_env (session_checkpoint_to_dict sample_checkpoint) =
   Inr sample_checkpoint"
  by code_simp

lemma accounted_length:
  assumes "wf_progress e" "ports_accounted p e" "wf_plan p"
  shows "length (ep_completed_ports e) + length (ep_pending_ports e) = length (sp_ports p)"
proof -
  have "distinct (ep_completed_ports e @ ep_pending_ports e)" "distinct (sp_ports p)"
    using assms completed_ports_distinct by (auto simp: wf_progress_def wf_plan_def port_list_def)
  moreover have "set (ep_completed_ports e @ ep_pending_ports e) = set (sp_ports p)"
    using assms(2) by (simp add: ports_accounted_def)
  ultimately show ?thesis by (metis distinct_card length_append)
qed

section \<open>Properties\<close>

text \<open>
  C36. A plan read from its dictionary is well formed: the targets resolved are exactly those
  requested, without repetition, the ports are sorted, distinct and between 1 and 65535, every
  limit holds, the banner engine is named exactly when banners are wanted. It is read back
  exactly as it is written and its fingerprint does not change.
\<close>

theorem scan_plan_contract:
  assumes "scan_plan_from_dict v = Inr p"
  shows "wf_plan p \<and>
    (\<exists>q. scan_plan_from_dict (scan_plan_to_dict p) = Inr q \<and> q = p \<and>
       fingerprint env q = fingerprint env p)"
  using plan.accepted_wf [OF assms] plan.normalised_once [OF assms] by simp

theorem scan_plan_contract_witness:
  "wf_plan sample_plan \<and> set (map ti_requested (sp_resolved_targets sample_plan)) = {''gw''}"
  using scan_plan_contract [OF sample_plan_accepted]
  by (simp add: sample_plan_def sample_identity_def)

text \<open>
  The progress of an endpoint read from its dictionary is well formed: completed results
  are sorted, distinct and canonical for the endpoint, no port is both completed and pending,
  banners are completed only for open ports. It is read back exactly as it is written.
\<close>

theorem endpoint_progress_contract:
  assumes "endpoint_progress_from_dict env v = Inr e"
  shows "wf_progress e \<and> distinct (ep_completed_ports e) \<and>
    endpoint_progress_from_dict env (endpoint_progress_to_dict e) = Inr e"
  using progress.accepted_wf [OF assms] progress.normalised_once [OF assms]
    completed_ports_distinct by blast

theorem endpoint_progress_contract_witness:
  "wf_progress sample_progress \<and> ep_pending_ports sample_progress = [80]"
  using endpoint_progress_contract [OF sample_progress_accepted] by (simp add: sample_progress_def)

text \<open>
  C10. A checkpoint read from its dictionary is well formed; its endpoints are those of its
  plan, each once, and each accounts for every port of the plan exactly once, as completed or
  as pending. It is read back exactly as it is written.
\<close>

theorem checkpoint_contract:
  assumes "iso_ok env" "session_checkpoint_from_dict env v = Inr s"
  shows "wf_checkpoint env s \<and>
    session_checkpoint_from_dict env (session_checkpoint_to_dict s) = Inr s \<and>
    distinct (map (\<lambda>e. endpoint_key (ep_identity e)) (sk_endpoints s)) \<and>
    (\<forall>e \<in> set (sk_endpoints s).
       length (ep_completed_ports e) + length (ep_pending_ports e) = length (sp_ports (sk_plan s)))"
proof -
  from checkpoint_accepted_wf [OF assms] have w: "wf_checkpoint env s" .
  then have "length (ep_completed_ports e) + length (ep_pending_ports e) = length (sp_ports (sk_plan s))"
    if "e \<in> set (sk_endpoints s)" for e
    using that by (intro accounted_length) (auto simp: wf_checkpoint_def list_all_iff)
  with w checkpoint_roundtrip [OF w] checkpoint_endpoints_distinct [OF w] show ?thesis by blast
qed

theorem checkpoint_contract_witness:
  "wf_checkpoint sample_env sample_checkpoint \<and>
   sk_endpoints sample_checkpoint = [sample_progress]"
  using checkpoint_contract [OF sample_iso_ok sample_checkpoint_accepted]
  by (simp add: sample_checkpoint_def)

text \<open>
  C11. Every accepted checkpoint has a manifest: its counts satisfy all the rules a manifest is
  checked against, so building it never raises, and it is read back as it is written. A
  completed session counts every port of every target as completed.
\<close>

theorem manifest_contract:
  assumes "iso_ok env" "sha_ok env" "session_checkpoint_from_dict env v = Inr s"
  shows "\<exists>m. manifest_from_checkpoint env s = Inr m \<and> wf_manifest env m \<and>
    sm_open_ports m \<le> sm_completed_ports m \<and> sm_completed_ports m \<le> sm_total_ports m \<and>
    (sk_status s = SS_COMPLETED \<longrightarrow>
       sm_completed_ports m = sm_total_ports m \<and> sm_successful_targets m = sm_target_count m) \<and>
    session_manifest_from_dict env (session_manifest_to_dict m) = Inr m"
proof -
  from checkpoint_accepted_wf [OF assms(1,3)] have w: "wf_checkpoint env s" .
  from manifest_of_wf [OF this assms(2)] have "wf_manifest env (manifest_of env s)" .
  moreover from this have "sk_status s = SS_COMPLETED \<longrightarrow>
      sm_completed_ports (manifest_of env s) = sm_total_ports (manifest_of env s) \<and>
      sm_successful_targets (manifest_of env s) = sm_target_count (manifest_of env s)"
    by (simp add: wf_manifest_def completed_counts_def manifest_of_def)
  moreover have "sm_open_ports (manifest_of env s) \<le> sm_completed_ports (manifest_of env s)"
    "sm_completed_ports (manifest_of env s) \<le> sm_total_ports (manifest_of env s)"
    using calculation(1) by (simp_all add: wf_manifest_def)
  ultimately show ?thesis
    using manifest_from_checkpoint_ok [OF w assms(2)] manifest_roundtrip by blast
qed

theorem manifest_contract_witness:
  "\<exists>m. manifest_from_checkpoint sample_env sample_checkpoint = Inr m \<and>
     sm_completed_ports m \<le> sm_total_ports m"
proof -
  have "sha_ok sample_env" by (simp add: sha_ok_def sample_env_def) code_simp
  from manifest_contract [OF sample_iso_ok this sample_checkpoint_accepted] show ?thesis by blast
qed

text \<open>
  An integer response time of \<open>2 ^ 1024\<close> or more makes the check of a stored result raise
  \<open>OverflowError\<close>, which no handler of the contract catches, instead of
  \<open>SessionContractError\<close>; the integers below \<open>2 ^ 53\<close> pass exactly when they are not negative.
\<close>

theorem response_time_overflow:
  "(2 ^ 1024 \<le> n \<longrightarrow> check_response_time (PInt n) = Inl OverflowError) \<and>
   (\<bar>n\<bar> < 2 ^ 53 \<longrightarrow>
      check_response_time (PInt n) = (if 0 \<le> n then Inr () else Inl SessionContractError))"
  using float_of_int_overflow [of n] float_of_int_small [of n]
  by (auto simp: check_response_time_def check_that_def)

theorem response_time_overflow_witness:
  "check_response_time (PInt (2 ^ 1024)) = Inl OverflowError \<and>
   check_response_time (PInt (- 1)) = Inl SessionContractError"
  using response_time_overflow [of "2 ^ 1024"] response_time_overflow [of "- 1"] by simp

end
