(* ===== verification/Checkpoint_Store.thy ===== *)
theory Checkpoint_Store
  imports Session_Checkpoint
begin

text \<open>
  \<open>src/session_runtime.py\<close>, lines 39 to 675: the store of one session in a directory. A
  checkpoint is kept as an immutable generation of two files; \<open>CURRENT.json\<close> names the
  confirmed generation and is replaced last. The directory is a map from names to entries. A
  script of outcomes decides for every access whether it succeeds, fails, meets another
  process, or is where this process ends, so that a statement about all scripts is a statement
  about all failures and all crashes. Temporary files have names that nothing reads and are
  left out, and so is the v2 database: the directories are those without one.
\<close>

section \<open>Effects\<close>

datatype entry = Regular string | Symlink bool | Directory

type_synonym directory = "string \<Rightarrow> entry option"

text \<open>
  \<open>Io_error done\<close> is an \<open>OSError\<close> and \<open>Io_kill done\<close> the end of the process, before or after
  the file is in place; \<open>Io_race other\<close> means that another process linked the name with that
  content just before.
\<close>

datatype io_outcome = Io_ok | Io_error bool | Io_kill bool | Io_race string

record store_state =
  st_dir :: directory
  st_io :: "io_outcome list"

text \<open>Computations that change the store and may raise.\<close>

type_synonym ('s, 'a) action = "'s \<Rightarrow> (exc + 'a) \<times> 's"

definition thenS :: "('s, 'a) action \<Rightarrow> ('a \<Rightarrow> ('s, 'b) action) \<Rightarrow> ('s, 'b) action" where
  "thenS m f = (\<lambda>\<sigma>. case m \<sigma> of (Inl e, \<sigma>') \<Rightarrow> (Inl e, \<sigma>') | (Inr x, \<sigma>') \<Rightarrow> f x \<sigma>')"

definition pureS :: "exc + 'a \<Rightarrow> ('s, 'a) action" where
  "pureS x = (\<lambda>\<sigma>. (x, \<sigma>))"

definition next_io :: "store_state \<Rightarrow> io_outcome \<times> store_state" where
  "next_io \<sigma> =
     (case st_io \<sigma> of [] \<Rightarrow> (Io_ok, \<sigma>) | x # xs \<Rightarrow> (x, \<sigma>\<lparr>st_io := xs\<rparr>))"

definition put_file :: "string \<Rightarrow> string \<Rightarrow> store_state \<Rightarrow> store_state" where
  "put_file name content \<sigma> = \<sigma>\<lparr>st_dir := (st_dir \<sigma>)(name \<mapsto> Regular content)\<rparr>"

definition put_file_if :: "bool \<Rightarrow> string \<Rightarrow> string \<Rightarrow> store_state \<Rightarrow> store_state" where
  "put_file_if b name content \<sigma> = (if b then put_file name content \<sigma> else \<sigma>)"

section \<open>Names\<close>

definition current_pointer_name :: string where "current_pointer_name = ''CURRENT.json''"
definition generation_width :: nat where "generation_width = 20"
definition max_pointer_bytes :: nat where "max_pointer_bytes = 16384"
definition max_document_bytes :: nat where "max_document_bytes = 67108864"

text \<open>\<open>f"{kind}-{sequence:020d}.json"\<close>.\<close>

definition generation_name :: "string \<Rightarrow> int \<Rightarrow> exc + string" where
  "generation_name kind sequence =
     (if kind \<notin> set [''checkpoint'', ''manifest''] then Inl ValueError
      else if sequence < 0 then Inl ValueError
      else Inr (kind @ ''-'' @
        replicate (generation_width - length (int_str sequence)) CHR ''0'' @ int_str sequence @
        ''.json''))"

section \<open>\<open>StorePointer\<close>\<close>

record store_pointer =
  pt_version :: pyval
  pt_session_id :: string
  pt_sequence :: int
  pt_plan_fingerprint :: string
  pt_checkpoint_file :: string
  pt_checkpoint_sha256 :: string
  pt_manifest_file :: string
  pt_manifest_sha256 :: string

definition integrity :: "bool \<Rightarrow> exc + unit" where
  "integrity b = (if b then Inr () else Inl SessionCheckpointIntegrityError)"

definition pointer_uuid :: "pyval \<Rightarrow> exc + string" where
  "pointer_uuid v =
     (case v of
        PStr s \<Rightarrow> if canonical_uuid s then Inr s else Inl SessionCheckpointIntegrityError
      | _ \<Rightarrow> Inl SessionCheckpointIntegrityError)"

definition pointer_sequence :: "pyval \<Rightarrow> exc + int" where
  "pointer_sequence v =
     (case v of
        PInt n \<Rightarrow> if n < 0 then Inl SessionCheckpointIntegrityError else Inr n
      | _ \<Rightarrow> Inl SessionCheckpointIntegrityError)"

definition pointer_sha256 :: "pyval \<Rightarrow> exc + string" where
  "pointer_sha256 v =
     (case v of
        PStr s \<Rightarrow> if is_sha256_hex s then Inr s else Inl SessionCheckpointIntegrityError
      | _ \<Rightarrow> Inl SessionCheckpointIntegrityError)"

definition store_pointer_init ::
    "pyval \<Rightarrow> pyval \<Rightarrow> pyval \<Rightarrow> pyval \<Rightarrow> pyval \<Rightarrow> pyval \<Rightarrow> pyval \<Rightarrow> pyval \<Rightarrow> exc + store_pointer" where
  "store_pointer_init store_version session_id sequence plan_fingerprint checkpoint_file
       checkpoint_sha256 manifest_file manifest_sha256 =
     (if \<not> eq_int store_version 1 then Inl SessionCheckpointCompatibilityError
      else bindE (pointer_uuid session_id) (\<lambda>sid.
        bindE (pointer_sequence sequence) (\<lambda>n.
        bindE (pointer_sha256 plan_fingerprint) (\<lambda>fp.
        bindE (pointer_sha256 checkpoint_sha256) (\<lambda>csha.
        bindE (pointer_sha256 manifest_sha256) (\<lambda>msha.
        bindE (generation_name ''checkpoint'' n) (\<lambda>cname.
        bindE (generation_name ''manifest'' n) (\<lambda>mname.
        bindE (integrity (checkpoint_file = PStr cname)) (\<lambda>_.
        bindE (integrity (manifest_file = PStr mname)) (\<lambda>_.
          Inr \<lparr>pt_version = store_version, pt_session_id = sid, pt_sequence = n,
               pt_plan_fingerprint = fp, pt_checkpoint_file = cname, pt_checkpoint_sha256 = csha,
               pt_manifest_file = mname, pt_manifest_sha256 = msha\<rparr>))))))))))"

definition pointer_fields :: "string list" where
  "pointer_fields =
     [''store_version'', ''record_type'', ''session_id'', ''sequence'', ''plan_fingerprint'',
      ''checkpoint_file'', ''checkpoint_sha256'', ''manifest_file'', ''manifest_sha256'']"

definition store_pointer_to_dict :: "store_pointer \<Rightarrow> pyval" where
  "store_pointer_to_dict p = obj
     [(''checkpoint_file'', PStr (pt_checkpoint_file p)),
      (''checkpoint_sha256'', PStr (pt_checkpoint_sha256 p)),
      (''manifest_file'', PStr (pt_manifest_file p)),
      (''manifest_sha256'', PStr (pt_manifest_sha256 p)),
      (''plan_fingerprint'', PStr (pt_plan_fingerprint p)),
      (''record_type'', PStr ''single_target_checkpoint_pointer''),
      (''sequence'', PInt (pt_sequence p)),
      (''session_id'', PStr (pt_session_id p)),
      (''store_version'', pt_version p)]"

definition store_pointer_to_json :: "session_env \<Rightarrow> store_pointer \<Rightarrow> exc + string" where
  "store_pointer_to_json env p = deterministic_json env (store_pointer_to_dict p)"

definition strict_json_object :: "session_env \<Rightarrow> string \<Rightarrow> exc + (pyval \<times> pyval) list" where
  "strict_json_object env document =
     (case json_loads (env_float env) document of
        Some (PDict d) \<Rightarrow> Inr d
      | _ \<Rightarrow> Inl SessionCheckpointIntegrityError)"

definition store_pointer_from_json :: "session_env \<Rightarrow> string \<Rightarrow> exc + store_pointer" where
  "store_pointer_from_json env document =
     bindE (strict_json_object env document) (\<lambda>d.
     bindE (integrity (has_fields d pointer_fields)) (\<lambda>_.
     bindE (integrity (only_fields d pointer_fields)) (\<lambda>_.
     bindE (integrity (field d ''record_type'' = PStr ''single_target_checkpoint_pointer'')) (\<lambda>_.
       store_pointer_init (field d ''store_version'') (field d ''session_id'')
         (field d ''sequence'') (field d ''plan_fingerprint'') (field d ''checkpoint_file'')
         (field d ''checkpoint_sha256'') (field d ''manifest_file'') (field d ''manifest_sha256'')))))"

section \<open>\<open>SingleTargetCheckpointStore\<close>\<close>

definition require_single_target_plan :: "scan_plan \<Rightarrow> exc + unit" where
  "require_single_target_plan p =
     (if length (sp_requested_targets p) \<noteq> 1 \<or> length (sp_resolved_targets p) \<noteq> 1
      then Inl SingleTargetScopeError
      else if sp_target_workers p \<noteq> 1 then Inl SingleTargetScopeError
      else Inr ())"

text \<open>
  What a store requires of a plan: the store of single targets and the store of batches differ
  in this alone.
\<close>

type_synonym plan_scope = "scan_plan \<Rightarrow> exc + unit"

definition path_exists :: "entry option \<Rightarrow> bool" where
  "path_exists x =
     (case x of
        Some (Regular _) \<Rightarrow> True
      | Some Directory \<Rightarrow> True
      | Some (Symlink b) \<Rightarrow> b
      | None \<Rightarrow> False)"

definition has_checkpoint :: "store_state \<Rightarrow> bool" where
  "has_checkpoint \<sigma> = path_exists (st_dir \<sigma> current_pointer_name)"

definition read_regular_file :: "nat \<Rightarrow> string \<Rightarrow> (store_state, string) action" where
  "read_regular_file maximum name = (\<lambda>\<sigma>.
     case st_dir \<sigma> name of
       Some (Regular content) \<Rightarrow>
         if maximum < length content then (Inl SessionCheckpointIntegrityError, \<sigma>)
         else (case next_io \<sigma> of
                 (Io_error _, \<sigma>') \<Rightarrow> (Inl SessionCheckpointIntegrityError, \<sigma>')
               | (Io_kill _, \<sigma>') \<Rightarrow> (Inl Killed, \<sigma>')
               | (_, \<sigma>') \<Rightarrow> (Inr content, \<sigma>'))
     | _ \<Rightarrow> (Inl SessionCheckpointIntegrityError, \<sigma>))"

definition same_content :: "string \<Rightarrow> string \<Rightarrow> exc + unit" where
  "same_content existing content =
     (if existing \<noteq> content then Inl SessionPersistenceError else Inr ())"

definition write_generation :: "string \<Rightarrow> string \<Rightarrow> (store_state, unit) action" where
  "write_generation name content = (\<lambda>\<sigma>.
     if st_dir \<sigma> name \<noteq> None
     then thenS (read_regular_file max_document_bytes name)
            (\<lambda>existing. pureS (same_content existing content)) \<sigma>
     else case next_io \<sigma> of
            (Io_ok, \<sigma>') \<Rightarrow> (Inr (), put_file name content \<sigma>')
          | (Io_error b, \<sigma>') \<Rightarrow> (Inl SessionPersistenceError, put_file_if b name content \<sigma>')
          | (Io_kill b, \<sigma>') \<Rightarrow> (Inl Killed, put_file_if b name content \<sigma>')
          | (Io_race other, \<sigma>') \<Rightarrow>
              thenS (read_regular_file max_document_bytes name)
                (\<lambda>existing. pureS (same_content existing content)) (put_file name other \<sigma>'))"

definition replace_current :: "string \<Rightarrow> (store_state, unit) action" where
  "replace_current content = (\<lambda>\<sigma>.
     if st_dir \<sigma> current_pointer_name = Some Directory then (Inl SessionPersistenceError, \<sigma>)
     else case next_io \<sigma> of
            (Io_error b, \<sigma>') \<Rightarrow>
              (Inl SessionPersistenceError, put_file_if b current_pointer_name content \<sigma>')
          | (Io_kill b, \<sigma>') \<Rightarrow> (Inl Killed, put_file_if b current_pointer_name content \<sigma>')
          | (_, \<sigma>') \<Rightarrow> (Inr (), put_file current_pointer_name content \<sigma>'))"

definition decode_or_integrity :: "session_env \<Rightarrow> string \<Rightarrow> exc + string" where
  "decode_or_integrity env content =
     (case env_decode env content of
        None \<Rightarrow> Inl SessionCheckpointIntegrityError
      | Some t \<Rightarrow> Inr t)"

definition load_pointer :: "session_env \<Rightarrow> (store_state, store_pointer) action" where
  "load_pointer env = (\<lambda>\<sigma>.
     if \<not> path_exists (st_dir \<sigma> current_pointer_name)
     then (Inl SessionCheckpointNotFoundError, \<sigma>)
     else thenS (read_regular_file max_pointer_bytes current_pointer_name) (\<lambda>content.
            pureS (bindE (decode_or_integrity env content) (store_pointer_from_json env))) \<sigma>)"

text \<open>What a confirmed generation allows to follow it.\<close>

definition may_follow :: "session_env \<Rightarrow> store_pointer \<Rightarrow> session_checkpoint \<Rightarrow> bool" where
  "may_follow env current s \<longleftrightarrow>
     pt_session_id current = sk_session_id s \<and>
     pt_plan_fingerprint current = fingerprint env (sk_plan s) \<and>
     pt_sequence current \<le> sk_sequence s \<and> sk_sequence s \<le> pt_sequence current + 1"

definition check_follows :: "session_env \<Rightarrow> session_checkpoint \<Rightarrow> (store_state, unit) action" where
  "check_follows env s = (\<lambda>\<sigma>.
     if has_checkpoint \<sigma>
     then thenS (load_pointer env) (\<lambda>current.
            pureS (if may_follow env current s then Inr () else Inl SessionPersistenceError)) \<sigma>
     else (Inr (), \<sigma>))"

text \<open>The three files of a generation: the checkpoint, the manifest and the pointer to them.\<close>

definition stored_bytes :: "session_env \<Rightarrow> exc + string \<Rightarrow> exc + string" where
  "stored_bytes env document = bindE document (\<lambda>t. Inr (env_encode env (t @ [CHR 0x0A])))"

definition make_pointer ::
    "session_env \<Rightarrow> session_checkpoint \<Rightarrow> string \<Rightarrow> string \<Rightarrow> string \<Rightarrow> string \<Rightarrow> exc + store_pointer" where
  "make_pointer env s cname cbytes mname mbytes =
     store_pointer_init (PInt 1) (PStr (sk_session_id s)) (PInt (sk_sequence s))
       (PStr (fingerprint env (sk_plan s))) (PStr cname) (PStr (env_sha256 env cbytes))
       (PStr mname) (PStr (env_sha256 env mbytes))"

definition persist :: "plan_scope \<Rightarrow> session_env \<Rightarrow> session_checkpoint \<Rightarrow> (store_state, store_pointer) action" where
  "persist scope env s =
     thenS (pureS (scope (sk_plan s))) (\<lambda>_.
     thenS (check_follows env s) (\<lambda>_.
     thenS (pureS (manifest_from_checkpoint env s)) (\<lambda>m.
     thenS (pureS (stored_bytes env (checkpoint_to_json env s))) (\<lambda>cbytes.
     thenS (pureS (stored_bytes env (manifest_to_json env m))) (\<lambda>mbytes.
     thenS (pureS (generation_name ''checkpoint'' (sk_sequence s))) (\<lambda>cname.
     thenS (pureS (generation_name ''manifest'' (sk_sequence s))) (\<lambda>mname.
     thenS (write_generation cname cbytes) (\<lambda>_.
     thenS (write_generation mname mbytes) (\<lambda>_.
     thenS (pureS (make_pointer env s cname cbytes mname mbytes)) (\<lambda>p.
     thenS (pureS (stored_bytes env (store_pointer_to_json env p))) (\<lambda>pbytes.
     thenS (replace_current pbytes) (\<lambda>_.
       pureS (Inr p)))))))))))))"

definition decode_documents ::
    "session_env \<Rightarrow> string \<Rightarrow> string \<Rightarrow> exc + session_checkpoint \<times> session_manifest" where
  "decode_documents env cbytes mbytes =
     reraise (\<lambda>e. e = SessionContractError) SessionCheckpointCompatibilityError (
       bindE (decode_or_integrity env cbytes) (\<lambda>ct.
       bindE (checkpoint_from_json env ct) (\<lambda>s.
       bindE (decode_or_integrity env mbytes) (\<lambda>mt.
       bindE (manifest_from_json env mt) (\<lambda>m. Inr (s, m))))))"

definition check_generation ::
    "plan_scope \<Rightarrow> session_env \<Rightarrow> store_pointer \<Rightarrow> string \<Rightarrow> string \<Rightarrow> exc + session_checkpoint" where
  "check_generation scope env p cbytes mbytes =
     bindE (integrity (env_sha256 env cbytes = pt_checkpoint_sha256 p)) (\<lambda>_.
     bindE (integrity (env_sha256 env mbytes = pt_manifest_sha256 p)) (\<lambda>_.
     bindE (decode_documents env cbytes mbytes) (\<lambda>(s, m).
     bindE (integrity (sk_session_id s = pt_session_id p)) (\<lambda>_.
     bindE (integrity (sk_sequence s = pt_sequence p)) (\<lambda>_.
     bindE (integrity (fingerprint env (sk_plan s) = pt_plan_fingerprint p)) (\<lambda>_.
     bindE (manifest_from_checkpoint env s) (\<lambda>expected.
     bindE (integrity (session_manifest_to_dict m = session_manifest_to_dict expected)) (\<lambda>_.
     bindE (scope (sk_plan s)) (\<lambda>_. Inr s)))))))))"

definition load_checkpoint :: "plan_scope \<Rightarrow> session_env \<Rightarrow> (store_state, session_checkpoint) action" where
  "load_checkpoint scope env =
     thenS (load_pointer env) (\<lambda>p.
     thenS (read_regular_file max_document_bytes (pt_checkpoint_file p)) (\<lambda>cbytes.
     thenS (read_regular_file max_document_bytes (pt_manifest_file p)) (\<lambda>mbytes.
       pureS (check_generation scope env p cbytes mbytes))))"

section \<open>Runs of actions\<close>

lemma thenS_run:
  "thenS m f \<sigma> = (r, \<sigma>') \<longleftrightarrow>
     (\<exists>e. m \<sigma> = (Inl e, \<sigma>') \<and> r = Inl e) \<or> (\<exists>x \<tau>. m \<sigma> = (Inr x, \<tau>) \<and> f x \<tau> = (r, \<sigma>'))"
  by (auto simp: thenS_def split: prod.splits sum.splits)

lemma thenS_Inr:
  "thenS m f \<sigma> = (Inr y, \<sigma>') \<longleftrightarrow> (\<exists>x \<tau>. m \<sigma> = (Inr x, \<tau>) \<and> f x \<tau> = (Inr y, \<sigma>'))"
  by (auto simp: thenS_run)

lemma thenS_simps [simp]:
  "m \<sigma> = (Inl e, \<tau>) \<Longrightarrow> thenS m f \<sigma> = (Inl e, \<tau>)"
  "m \<sigma> = (Inr x, \<tau>) \<Longrightarrow> thenS m f \<sigma> = f x \<tau>"
  by (simp_all add: thenS_def)

lemma thenS_pure [simp]:
  "thenS (pureS (Inl e)) f \<sigma> = (Inl e, \<sigma>)" "thenS (pureS (Inr x)) f \<sigma> = f x \<sigma>"
  by (simp_all add: thenS_def pureS_def)

lemma pureS_run [simp]: "pureS x \<sigma> = (r, \<sigma>') \<longleftrightarrow> r = x \<and> \<sigma>' = \<sigma>"
  by (auto simp: pureS_def)

section \<open>Generations are immutable\<close>

lemma next_io_dir: "next_io \<sigma> = (x, \<sigma>') \<Longrightarrow> st_dir \<sigma>' = st_dir \<sigma>"
  by (auto simp: next_io_def split: list.splits)

lemma read_regular_file_run:
  assumes "read_regular_file mx name \<sigma> = (r, \<sigma>')"
  shows "st_dir \<sigma>' = st_dir \<sigma> \<and>
    (\<forall>content. r = Inr content \<longrightarrow> st_dir \<sigma> name = Some (Regular content) \<and> length content \<le> mx)"
  using assms
  by (auto simp: read_regular_file_def dest: next_io_dir
      split: option.splits entry.splits if_splits prod.splits io_outcome.splits)

lemma read_regular_file_healthy:
  "st_io \<sigma> = [] \<Longrightarrow> read_regular_file mx name \<sigma> = (Inr content, \<sigma>') \<longleftrightarrow>
   st_dir \<sigma> name = Some (Regular content) \<and> length content \<le> mx \<and> \<sigma>' = \<sigma>"
  by (auto simp: read_regular_file_def next_io_def split: option.splits entry.splits if_splits)

lemma put_file_dir [simp]: "st_dir (put_file n c \<sigma>) = (st_dir \<sigma>)(n \<mapsto> Regular c)"
  by (simp add: put_file_def)

lemma put_file_if_dir:
  "st_dir (put_file_if b n c \<sigma>) = (if b then (st_dir \<sigma>)(n \<mapsto> Regular c) else st_dir \<sigma>)"
  by (simp add: put_file_if_def)

lemma map_le_new: "d n = None \<Longrightarrow> d \<subseteq>\<^sub>m d(n \<mapsto> x)"
  by (auto simp: map_le_def)

text \<open>
  Writing a generation changes nothing but its own name, and that only when it was free; when
  it succeeds the name holds the content.
\<close>

lemma write_generation_run:
  assumes "write_generation name content \<sigma> = (r, \<sigma>')"
  shows "st_dir \<sigma> \<subseteq>\<^sub>m st_dir \<sigma>' \<and> (\<forall>n. n \<noteq> name \<longrightarrow> st_dir \<sigma>' n = st_dir \<sigma> n) \<and>
    (r = Inr () \<longrightarrow> st_dir \<sigma>' name = Some (Regular content))"
proof (cases "st_dir \<sigma> name = None")
  case False
  with assms show ?thesis
    by (auto simp: write_generation_def thenS_run same_content_def dest!: read_regular_file_run
        split: if_splits)
next
  case True
  obtain x \<tau> where io: "next_io \<sigma> = (x, \<tau>)" by (cases "next_io \<sigma>")
  then have d: "st_dir \<tau> = st_dir \<sigma>" by (rule next_io_dir)
  show ?thesis
    using assms True d map_le_new [of "st_dir \<sigma>" name]
    by (cases x) (auto simp: write_generation_def io put_file_if_dir thenS_run same_content_def
        dest!: read_regular_file_run split: if_splits)
qed

lemma replace_current_run:
  assumes "replace_current content \<sigma> = (r, \<sigma>')"
  shows "st_dir \<sigma>' = st_dir \<sigma> \<or> st_dir \<sigma>' = (st_dir \<sigma>)(current_pointer_name \<mapsto> Regular content)"
    "r = Inr () \<Longrightarrow> st_dir \<sigma>' = (st_dir \<sigma>)(current_pointer_name \<mapsto> Regular content)"
  using assms
  by (auto simp: replace_current_def put_file_if_dir dest: next_io_dir
      split: if_splits prod.splits io_outcome.splits)

section \<open>The confirmed checkpoint\<close>

text \<open>
  \<open>confirmed scope env d s\<close>: the files of the directory hold \<open>s\<close>. \<open>load\<close> refuses in addition files
  that exceed the size limits, which \<open>persist\<close> does not enforce: \<open>in_limits\<close>.
\<close>

definition pointer_in :: "session_env \<Rightarrow> directory \<Rightarrow> store_pointer \<Rightarrow> bool" where
  "pointer_in env d p \<longleftrightarrow>
     (\<exists>content. d current_pointer_name = Some (Regular content) \<and>
        bindE (decode_or_integrity env content) (store_pointer_from_json env) = Inr p)"

definition confirmed :: "plan_scope \<Rightarrow> session_env \<Rightarrow> directory \<Rightarrow> session_checkpoint \<Rightarrow> bool" where
  "confirmed scope env d s \<longleftrightarrow>
     (\<exists>p cbytes mbytes. pointer_in env d p \<and>
        d (pt_checkpoint_file p) = Some (Regular cbytes) \<and>
        d (pt_manifest_file p) = Some (Regular mbytes) \<and>
        check_generation scope env p cbytes mbytes = Inr s)"

definition sized :: "nat \<Rightarrow> entry option \<Rightarrow> bool" where
  "sized mx x \<longleftrightarrow> (\<forall>content. x = Some (Regular content) \<longrightarrow> length content \<le> mx)"

definition in_limits :: "session_env \<Rightarrow> directory \<Rightarrow> bool" where
  "in_limits env d \<longleftrightarrow>
     sized max_pointer_bytes (d current_pointer_name) \<and>
     (\<forall>p. pointer_in env d p \<longrightarrow>
        sized max_document_bytes (d (pt_checkpoint_file p)) \<and>
        sized max_document_bytes (d (pt_manifest_file p)))"

lemma pointer_in_unique: "pointer_in env d p \<Longrightarrow> pointer_in env d q \<Longrightarrow> p = q"
  by (auto simp: pointer_in_def)

lemma confirmed_unique: "confirmed scope env d s \<Longrightarrow> confirmed scope env d s' \<Longrightarrow> s = s'"
  unfolding confirmed_def by (auto dest: pointer_in_unique)

lemma pointer_in_mono: "pointer_in env d p \<Longrightarrow> d \<subseteq>\<^sub>m d' \<Longrightarrow> pointer_in env d' p"
  unfolding pointer_in_def map_le_def by (metis domI)

lemma confirmed_mono: "confirmed scope env d s \<Longrightarrow> d \<subseteq>\<^sub>m d' \<Longrightarrow> confirmed scope env d' s"
  unfolding confirmed_def using pointer_in_mono by (metis domI map_le_def)

lemma load_pointer_run:
  "load_pointer env \<sigma> = (r, \<sigma>') \<Longrightarrow>
   st_dir \<sigma>' = st_dir \<sigma> \<and> (\<forall>p. r = Inr p \<longrightarrow> pointer_in env (st_dir \<sigma>) p)"
  by (fastforce simp: load_pointer_def thenS_run pointer_in_def dest!: read_regular_file_run
      split: if_splits)

lemma load_checkpoint_run:
  "load_checkpoint scope env \<sigma> = (r, \<sigma>') \<Longrightarrow>
   st_dir \<sigma>' = st_dir \<sigma> \<and> (\<forall>s. r = Inr s \<longrightarrow> confirmed scope env (st_dir \<sigma>) s)"
  unfolding load_checkpoint_def thenS_run confirmed_def
  by (auto dest!: load_pointer_run read_regular_file_run)

lemma load_pointer_healthy:
  assumes "pointer_in env (st_dir \<sigma>) p" "sized max_pointer_bytes (st_dir \<sigma> current_pointer_name)"
    "st_io \<sigma> = []"
  shows "load_pointer env \<sigma> = (Inr p, \<sigma>)"
proof -
  from assms(1) obtain c where c: "st_dir \<sigma> current_pointer_name = Some (Regular c)"
    "bindE (decode_or_integrity env c) (store_pointer_from_json env) = Inr p"
    by (auto simp: pointer_in_def)
  with assms have "read_regular_file max_pointer_bytes current_pointer_name \<sigma> = (Inr c, \<sigma>)"
    by (simp add: read_regular_file_healthy sized_def)
  with c show ?thesis by (simp add: load_pointer_def path_exists_def)
qed

lemma load_checkpoint_healthy:
  assumes "confirmed scope env (st_dir \<sigma>) s" "in_limits env (st_dir \<sigma>)" "st_io \<sigma> = []"
  shows "load_checkpoint scope env \<sigma> = (Inr s, \<sigma>)"
proof -
  from assms(1) obtain p cb mb where p: "pointer_in env (st_dir \<sigma>) p"
    and f: "st_dir \<sigma> (pt_checkpoint_file p) = Some (Regular cb)"
      "st_dir \<sigma> (pt_manifest_file p) = Some (Regular mb)" "check_generation scope env p cb mb = Inr s"
    by (auto simp: confirmed_def)
  have "read_regular_file max_document_bytes (pt_checkpoint_file p) \<sigma> = (Inr cb, \<sigma>)"
    "read_regular_file max_document_bytes (pt_manifest_file p) \<sigma> = (Inr mb, \<sigma>)"
    using assms(2,3) p f by (auto simp: read_regular_file_healthy in_limits_def sized_def)
  moreover have "load_pointer env \<sigma> = (Inr p, \<sigma>)"
    using p assms(2,3) by (intro load_pointer_healthy) (auto simp: in_limits_def)
  ultimately show ?thesis using f by (simp add: load_checkpoint_def pureS_def)
qed

section \<open>Pointers\<close>

definition wf_pointer :: "store_pointer \<Rightarrow> bool" where
  "wf_pointer p \<longleftrightarrow>
     pt_version p = PInt 1 \<and> canonical_uuid (pt_session_id p) \<and> 0 \<le> pt_sequence p \<and>
     is_sha256_hex (pt_plan_fingerprint p) \<and> is_sha256_hex (pt_checkpoint_sha256 p) \<and>
     is_sha256_hex (pt_manifest_sha256 p) \<and>
     generation_name ''checkpoint'' (pt_sequence p) = Inr (pt_checkpoint_file p) \<and>
     generation_name ''manifest'' (pt_sequence p) = Inr (pt_manifest_file p)"

lemma store_pointer_init_id:
  "wf_pointer p \<Longrightarrow>
   store_pointer_init (PInt 1) (PStr (pt_session_id p)) (PInt (pt_sequence p))
     (PStr (pt_plan_fingerprint p)) (PStr (pt_checkpoint_file p)) (PStr (pt_checkpoint_sha256 p))
     (PStr (pt_manifest_file p)) (PStr (pt_manifest_sha256 p)) = Inr p"
  by (simp add: store_pointer_init_def wf_pointer_def pointer_uuid_def pointer_sequence_def
      pointer_sha256_def integrity_def)

lemma json_pointer:
  assumes "wf_pointer p"
  shows "json_value (store_pointer_to_dict p)"
  unfolding store_pointer_to_dict_def
proof (rule json_objI)
  show "sorted [''checkpoint_file'', ''checkpoint_sha256'', ''manifest_file'', ''manifest_sha256'',
      ''plan_fingerprint'', ''record_type'', ''sequence'', ''session_id'', ''store_version''] \<and>
    distinct [''checkpoint_file'', ''checkpoint_sha256'', ''manifest_file'', ''manifest_sha256'',
      ''plan_fingerprint'', ''record_type'', ''sequence'', ''session_id'', ''store_version'']"
    by code_simp
qed (use assms in \<open>simp_all add: wf_pointer_def\<close>)

lemma pointer_text:
  assumes "wf_pointer p" "repr_ok (env_float env) (env_repr env)" "set nl \<subseteq> {CHR 0x0A}"
  shows "store_pointer_from_json env
      (json_text (env_repr env) (store_pointer_to_dict p) @ nl) = Inr p"
proof -
  obtain d where d: "store_pointer_to_dict p = PDict d"
    by (simp add: store_pointer_to_dict_def obj_def)
  note get = dict_get_of_obj [OF d [unfolded store_pointer_to_dict_def]]
  have k: "dict_keys d = map PStr [''checkpoint_file'', ''checkpoint_sha256'', ''manifest_file'',
      ''manifest_sha256'', ''plan_fingerprint'', ''record_type'', ''sequence'', ''session_id'',
      ''store_version'']"
    using dict_keys_of_obj [OF d [unfolded store_pointer_to_dict_def]] by (simp add: dict_keys_def)
  have "has_fields d pointer_fields \<and> only_fields d pointer_fields"
    unfolding has_fields_def only_fields_def k by code_simp
  with json_loads_text [OF assms(2) json_pointer [OF assms(1)] assms(3)]
    store_pointer_init_id [OF assms(1)] assms(1)
  show ?thesis
    by (simp add: d store_pointer_from_json_def strict_json_object_def integrity_def field_def
        dict_get_or_def get wf_pointer_def)
qed

section \<open>The files of a generation\<close>

definition env_ok :: "session_env \<Rightarrow> bool" where
  "env_ok env \<longleftrightarrow>
     iso_ok env \<and> sha_ok env \<and> utf8_ok env \<and> repr_ok (env_float env) (env_repr env)"

definition file_bytes :: "session_env \<Rightarrow> pyval \<Rightarrow> string" where
  "file_bytes env v = env_encode env (json_text (env_repr env) v @ [CHR 0x0A])"

definition checkpoint_bytes :: "session_env \<Rightarrow> session_checkpoint \<Rightarrow> string" where
  "checkpoint_bytes env s = file_bytes env (session_checkpoint_to_dict s)"

definition manifest_bytes :: "session_env \<Rightarrow> session_checkpoint \<Rightarrow> string" where
  "manifest_bytes env s = file_bytes env (session_manifest_to_dict (manifest_of env s))"

definition name_of :: "string \<Rightarrow> session_checkpoint \<Rightarrow> string" where
  "name_of kind s =
     kind @ ''-'' @ replicate (generation_width - length (int_str (sk_sequence s))) CHR ''0'' @
     int_str (sk_sequence s) @ ''.json''"

definition pointer_of :: "session_env \<Rightarrow> session_checkpoint \<Rightarrow> store_pointer" where
  "pointer_of env s =
     \<lparr>pt_version = PInt 1, pt_session_id = sk_session_id s, pt_sequence = sk_sequence s,
      pt_plan_fingerprint = fingerprint env (sk_plan s),
      pt_checkpoint_file = name_of ''checkpoint'' s,
      pt_checkpoint_sha256 = env_sha256 env (checkpoint_bytes env s),
      pt_manifest_file = name_of ''manifest'' s,
      pt_manifest_sha256 = env_sha256 env (manifest_bytes env s)\<rparr>"

definition pointer_bytes :: "session_env \<Rightarrow> session_checkpoint \<Rightarrow> string" where
  "pointer_bytes env s = file_bytes env (store_pointer_to_dict (pointer_of env s))"

lemma stored_bytes_json:
  "json_value v \<Longrightarrow> stored_bytes env (deterministic_json env v) = Inr (file_bytes env v)"
  using json_value_finite by (simp add: stored_bytes_def deterministic_json_def file_bytes_def)

lemma generation_name_of:
  "0 \<le> sk_sequence s \<Longrightarrow> kind \<in> {''checkpoint'', ''manifest''} \<Longrightarrow>
   generation_name kind (sk_sequence s) = Inr (name_of kind s)"
  by (auto simp: generation_name_def name_of_def)

lemma name_of_distinct [simp]:
  "name_of ''checkpoint'' s \<noteq> name_of ''manifest'' s'"
  "name_of ''checkpoint'' s \<noteq> current_pointer_name"
  "name_of ''manifest'' s \<noteq> current_pointer_name"
  by (simp_all add: name_of_def current_pointer_name_def)

lemma wf_pointer_of:
  assumes "wf_checkpoint env s" "env_ok env"
  shows "wf_pointer (pointer_of env s)"
proof -
  have "wf_plan (sk_plan s)" using assms(1) by (simp add: wf_checkpoint_def)
  then have "is_sha256_hex (fingerprint env (sk_plan s))"
    using assms(2) by (simp add: fingerprint_wf env_ok_def sha_ok_def)
  then show ?thesis
    using wf_checkpoint_bounds [OF assms(1)] assms(2)
    by (simp add: wf_pointer_def pointer_of_def env_ok_def sha_ok_def generation_name_of)
qed

text \<open>\<open>persist\<close> reduced to its effects.\<close>

lemma persist_effects:
  assumes "wf_checkpoint env s" "env_ok env" "scope (sk_plan s) = Inr ()"
  shows "persist scope env s =
    thenS (check_follows env s) (\<lambda>_.
    thenS (write_generation (name_of ''checkpoint'' s) (checkpoint_bytes env s)) (\<lambda>_.
    thenS (write_generation (name_of ''manifest'' s) (manifest_bytes env s)) (\<lambda>_.
    thenS (replace_current (pointer_bytes env s)) (\<lambda>_.
      pureS (Inr (pointer_of env s))))))"
proof -
  have "sha_ok env" using assms(2) by (simp add: env_ok_def)
  from manifest_from_checkpoint_ok [OF assms(1) this]
  have m: "manifest_from_checkpoint env s = Inr (manifest_of env s)" .
  have b: "stored_bytes env (checkpoint_to_json env s) = Inr (checkpoint_bytes env s)"
    "stored_bytes env (manifest_to_json env (manifest_of env s)) = Inr (manifest_bytes env s)"
    "stored_bytes env (store_pointer_to_json env (pointer_of env s)) = Inr (pointer_bytes env s)"
    unfolding checkpoint_to_json_def manifest_to_json_def store_pointer_to_json_def
      checkpoint_bytes_def manifest_bytes_def pointer_bytes_def
    using stored_bytes_json [OF json_checkpoint [OF assms(1)]] stored_bytes_json [OF json_manifest]
      stored_bytes_json [OF json_pointer [OF wf_pointer_of [OF assms(1,2)]]] by simp_all
  have n: "generation_name ''checkpoint'' (sk_sequence s) = Inr (name_of ''checkpoint'' s)"
    "generation_name ''manifest'' (sk_sequence s) = Inr (name_of ''manifest'' s)"
    using wf_checkpoint_bounds(5) [OF assms(1)] by (simp_all add: generation_name_of)
  have "make_pointer env s (name_of ''checkpoint'' s) (checkpoint_bytes env s)
      (name_of ''manifest'' s) (manifest_bytes env s) = Inr (pointer_of env s)"
    using store_pointer_init_id [OF wf_pointer_of [OF assms(1,2)]]
    by (simp add: make_pointer_def pointer_of_def)
  with m b n assms(3) show ?thesis
    by (intro ext) (simp add: persist_def thenS_def [abs_def] pureS_def split: prod.splits sum.splits)
qed

text \<open>The three files in place are a confirmed checkpoint.\<close>

lemma decode_file: "utf8_ok env \<Longrightarrow>
   decode_or_integrity env (file_bytes env v) = Inr (json_text (env_repr env) v @ [CHR 0x0A])"
  by (simp add: utf8_ok_def decode_or_integrity_def file_bytes_def)

lemma generation_checks:
  assumes "wf_checkpoint env s" "env_ok env" "scope (sk_plan s) = Inr ()"
  shows "check_generation scope env (pointer_of env s) (checkpoint_bytes env s) (manifest_bytes env s) = Inr s"
proof -
  have o: "sha_ok env" "utf8_ok env" "repr_ok (env_float env) (env_repr env)"
    using assms(2) by (simp_all add: env_ok_def)
  have nl: "set [CHR 0x0A] \<subseteq> {CHR 0x0A}" by simp
  from checkpoint_text [OF assms(1) o(3) nl] obtain t where
    t: "checkpoint_to_json env s = Inr t" "checkpoint_from_json env (t @ [CHR 0x0A]) = Inr s" .
  then have ct: "checkpoint_from_json env
      (json_text (env_repr env) (session_checkpoint_to_dict s) @ [CHR 0x0A]) = Inr s"
    using json_value_finite [OF json_checkpoint [OF assms(1)]]
    by (simp add: checkpoint_to_json_def deterministic_json_def)
  from manifest_text [OF manifest_of_wf [OF assms(1) o(1)] o(3) nl] obtain u where
    u: "manifest_to_json env (manifest_of env s) = Inr u"
      "manifest_from_json env (u @ [CHR 0x0A]) = Inr (manifest_of env s)" .
  then have mt: "manifest_from_json env
      (json_text (env_repr env) (session_manifest_to_dict (manifest_of env s)) @ [CHR 0x0A]) =
      Inr (manifest_of env s)"
    using json_value_finite [OF json_manifest]
    by (simp add: manifest_to_json_def deterministic_json_def)
  have "decode_documents env (checkpoint_bytes env s) (manifest_bytes env s) = Inr (s, manifest_of env s)"
    using ct mt by (simp add: decode_documents_def checkpoint_bytes_def manifest_bytes_def
        decode_file [OF o(2)])
  with manifest_from_checkpoint_ok [OF assms(1) o(1)] assms(3) show ?thesis
    by (simp add: check_generation_def pointer_of_def integrity_def)
qed

lemma generation_confirmed:
  assumes "wf_checkpoint env s" "env_ok env" "scope (sk_plan s) = Inr ()"
    "d (name_of ''checkpoint'' s) = Some (Regular (checkpoint_bytes env s))"
    "d (name_of ''manifest'' s) = Some (Regular (manifest_bytes env s))"
    "d current_pointer_name = Some (Regular (pointer_bytes env s))"
  shows "confirmed scope env d s"
proof -
  have "decode_or_integrity env (pointer_bytes env s) =
      Inr (json_text (env_repr env) (store_pointer_to_dict (pointer_of env s)) @ [CHR 0x0A])"
    using assms(2) by (simp add: pointer_bytes_def decode_file env_ok_def)
  moreover have "store_pointer_from_json env
      (json_text (env_repr env) (store_pointer_to_dict (pointer_of env s)) @ [CHR 0x0A]) =
      Inr (pointer_of env s)"
    using assms(2) by (intro pointer_text wf_pointer_of assms) (simp_all add: env_ok_def)
  ultimately have "pointer_in env d (pointer_of env s)"
    using assms(6) by (simp add: pointer_in_def)
  moreover have "pt_checkpoint_file (pointer_of env s) = name_of ''checkpoint'' s"
    "pt_manifest_file (pointer_of env s) = name_of ''manifest'' s"
    by (simp_all add: pointer_of_def)
  ultimately show ?thesis
    using generation_checks [where scope = scope, OF assms(1,2,3)] assms(4,5) unfolding confirmed_def by metis
qed

section \<open>A persist is atomic\<close>

lemma check_follows_run:
  "check_follows env s \<sigma> = (r, \<sigma>') \<Longrightarrow>
   st_dir \<sigma>' = st_dir \<sigma> \<and>
   (r = Inr () \<longrightarrow> path_exists (st_dir \<sigma> current_pointer_name) \<longrightarrow>
      (\<exists>p. pointer_in env (st_dir \<sigma>) p \<and> may_follow env p s))"
  by (auto simp: check_follows_def has_checkpoint_def thenS_run dest!: load_pointer_run
      split: if_splits)

lemma thenS_assoc: "thenS (thenS m f) g = thenS m (\<lambda>x. thenS (f x) g)"
  by (rule ext) (simp add: thenS_def split: prod.splits sum.splits)

definition write_pair :: "session_env \<Rightarrow> session_checkpoint \<Rightarrow> (store_state, unit) action" where
  "write_pair env s =
     thenS (write_generation (name_of ''checkpoint'' s) (checkpoint_bytes env s)) (\<lambda>_.
       write_generation (name_of ''manifest'' s) (manifest_bytes env s))"

lemma write_pair_run:
  assumes "write_pair env s \<sigma> = (r, \<sigma>')"
  shows "st_dir \<sigma> \<subseteq>\<^sub>m st_dir \<sigma>' \<and>
    st_dir \<sigma>' current_pointer_name = st_dir \<sigma> current_pointer_name \<and>
    (r = Inr () \<longrightarrow>
       st_dir \<sigma>' (name_of ''checkpoint'' s) = Some (Regular (checkpoint_bytes env s)) \<and>
       st_dir \<sigma>' (name_of ''manifest'' s) = Some (Regular (manifest_bytes env s)))"
  using assms [unfolded write_pair_def thenS_run]
proof (elim disjE exE conjE)
  fix e assume "write_generation (name_of ''checkpoint'' s) (checkpoint_bytes env s) \<sigma> = (Inl e, \<sigma>')"
    "r = Inl e"
  with write_generation_run [OF this(1)] show ?thesis by (simp add: not_sym [OF name_of_distinct(2)])
next
  fix u \<tau>
  assume "write_generation (name_of ''checkpoint'' s) (checkpoint_bytes env s) \<sigma> = (Inr u, \<tau>)"
    and "write_generation (name_of ''manifest'' s) (manifest_bytes env s) \<tau> = (r, \<sigma>')"
  from write_generation_run [OF this(1)] write_generation_run [OF this(2)]
  have w: "st_dir \<sigma> \<subseteq>\<^sub>m st_dir \<tau>" "\<forall>n. n \<noteq> name_of ''checkpoint'' s \<longrightarrow> st_dir \<tau> n = st_dir \<sigma> n"
    "st_dir \<tau> (name_of ''checkpoint'' s) = Some (Regular (checkpoint_bytes env s))"
    "st_dir \<tau> \<subseteq>\<^sub>m st_dir \<sigma>'" "\<forall>n. n \<noteq> name_of ''manifest'' s \<longrightarrow> st_dir \<sigma>' n = st_dir \<tau> n"
    "r = Inr () \<Longrightarrow> st_dir \<sigma>' (name_of ''manifest'' s) = Some (Regular (manifest_bytes env s))"
    by simp_all
  show ?thesis
  proof (intro conjI impI)
    show "st_dir \<sigma> \<subseteq>\<^sub>m st_dir \<sigma>'" using w(1,4) by (rule map_le_trans)
    show "st_dir \<sigma>' current_pointer_name = st_dir \<sigma> current_pointer_name"
      using w(2,5) by (simp add: not_sym [OF name_of_distinct(2)] not_sym [OF name_of_distinct(3)])
    show "st_dir \<sigma>' (name_of ''checkpoint'' s) = Some (Regular (checkpoint_bytes env s))"
      using w(3,5) by simp
  qed (rule w(6))
qed

text \<open>
  A \<open>persist\<close> either leaves \<open>CURRENT.json\<close> alone and only adds files, or puts the new checkpoint
  in place; it succeeds only in the second case. What an error or the end of the process does
  is one of the two.
\<close>

definition kept :: "store_state \<Rightarrow> store_state \<Rightarrow> bool" where
  "kept \<sigma> \<sigma>' \<longleftrightarrow>
     st_dir \<sigma> \<subseteq>\<^sub>m st_dir \<sigma>' \<and>
     st_dir \<sigma>' current_pointer_name = st_dir \<sigma> current_pointer_name"

definition replaced :: "plan_scope \<Rightarrow> session_env \<Rightarrow> session_checkpoint \<Rightarrow> store_state \<Rightarrow> store_state \<Rightarrow> bool" where
  "replaced scope env s \<sigma> \<sigma>' \<longleftrightarrow>
     confirmed scope env (st_dir \<sigma>') s \<and>
     (path_exists (st_dir \<sigma> current_pointer_name) \<longrightarrow>
        (\<exists>p. pointer_in env (st_dir \<sigma>) p \<and> may_follow env p s))"

lemma persist_run:
  assumes "wf_checkpoint env s" "env_ok env" "scope (sk_plan s) = Inr ()"
    "persist scope env s \<sigma> = (r, \<sigma>')"
  shows "(kept \<sigma> \<sigma>' \<and> (\<forall>p. r \<noteq> Inr p)) \<or> replaced scope env s \<sigma> \<sigma>'"
proof -
  have "persist scope env s = thenS (check_follows env s) (\<lambda>_. thenS (write_pair env s) (\<lambda>_.
      thenS (replace_current (pointer_bytes env s)) (\<lambda>_. pureS (Inr (pointer_of env s)))))"
    by (simp add: persist_effects [where scope = scope, OF assms(1-3)] write_pair_def thenS_assoc)
  with assms(4) have "thenS (check_follows env s) (\<lambda>_. thenS (write_pair env s) (\<lambda>_.
      thenS (replace_current (pointer_bytes env s)) (\<lambda>_. pureS (Inr (pointer_of env s))))) \<sigma> = (r, \<sigma>')"
    by simp
  then consider e where "check_follows env s \<sigma> = (Inl e, \<sigma>')" "r = Inl e"
    | \<tau> e where "check_follows env s \<sigma> = (Inr (), \<tau>)" "write_pair env s \<tau> = (Inl e, \<sigma>')" "r = Inl e"
    | \<tau> \<upsilon> r4 where "check_follows env s \<sigma> = (Inr (), \<tau>)" "write_pair env s \<tau> = (Inr (), \<upsilon>)"
        "replace_current (pointer_bytes env s) \<upsilon> = (r4, \<sigma>')" "r4 = Inr () \<or> (\<forall>p. r \<noteq> Inr p)"
    unfolding thenS_run pureS_run by (elim disjE exE conjE) force+
  then show ?thesis
  proof cases
    case 1
    with check_follows_run [OF 1(1)] show ?thesis by (simp add: kept_def)
  next
    case 2
    with check_follows_run [OF 2(1)] write_pair_run [OF 2(2)] show ?thesis by (simp add: kept_def)
  next
    case 3
    note c = check_follows_run [OF 3(1)] and w = write_pair_run [OF 3(2)]
      and p = replace_current_run [OF 3(3)]
    have k: "kept \<sigma> \<upsilon>" using c w by (simp add: kept_def)
    have "replaced scope env s \<sigma> \<sigma>'"
      if d: "st_dir \<sigma>' = (st_dir \<upsilon>)(current_pointer_name \<mapsto> Regular (pointer_bytes env s))"
      using generation_confirmed [where scope = scope, OF assms(1-3), of "st_dir \<sigma>'"] c w
      by (simp add: d replaced_def)
    moreover have "kept \<sigma> \<sigma>'" if "st_dir \<sigma>' = st_dir \<upsilon>" using k that by (simp add: kept_def)
    ultimately show ?thesis using p 3(4) by blast
  qed
qed

lemma sample_env_ok: "env_ok sample_env"
proof -
  have "sha_ok sample_env" by (simp add: sha_ok_def sample_env_def) code_simp
  moreover have "utf8_ok sample_env" "repr_ok (env_float sample_env) (env_repr sample_env)"
    by (simp_all add: utf8_ok_def sample_env_def fraction_repr_ok)
  ultimately show ?thesis by (simp add: env_ok_def sample_iso_ok)
qed

section \<open>The contract of a store\<close>

text \<open>
  What a client relies on, of a store that only its own operations have written (it is
  usable): at most one record is held; reading does not change it; a write
  either changes nothing or puts a record in place that may follow the one held, and it does
  the latter when it succeeds. Nothing is said of why a write fails.
\<close>

locale atomic_store =
  fixes usable :: "'s \<Rightarrow> bool"
    and holds :: "'s \<Rightarrow> 'k \<Rightarrow> bool"
    and get :: "('s, 'k) action"
    and put :: "'k \<Rightarrow> ('s, 'p) action"
    and good :: "'k \<Rightarrow> bool"
    and follows :: "'k \<Rightarrow> 'k \<Rightarrow> bool"
  assumes holds_usable: "holds \<sigma> j \<Longrightarrow> usable \<sigma>"
    and holds_unique: "holds \<sigma> j \<Longrightarrow> holds \<sigma> k \<Longrightarrow> j = k"
    and get_holds: "usable \<sigma> \<Longrightarrow> get \<sigma> = (Inr k, \<sigma>') \<Longrightarrow> holds \<sigma> k"
    and get_keeps: "holds \<sigma> k \<Longrightarrow> get \<sigma> = (g, \<sigma>') \<Longrightarrow> holds \<sigma>' k"
    and put_atomic: "good k \<Longrightarrow> put k \<sigma> = (r, \<sigma>') \<Longrightarrow> holds \<sigma> j \<Longrightarrow>
      (holds \<sigma>' j \<and> (\<forall>p. r \<noteq> Inr p)) \<or> (holds \<sigma>' k \<and> follows j k)"
    and put_holds: "usable \<sigma> \<Longrightarrow> good k \<Longrightarrow> put k \<sigma> = (Inr p, \<sigma>') \<Longrightarrow> holds \<sigma>' k"
begin

lemma get_after_put:
  "usable \<sigma> \<Longrightarrow> good k \<Longrightarrow> put k \<sigma> = (Inr p, \<sigma>') \<Longrightarrow> get \<sigma>' = (Inr j, \<sigma>'') \<Longrightarrow> j = k"
  using put_holds get_holds holds_usable holds_unique by blast

lemma put_preserves:
  assumes "good k" "put k \<sigma> = (r, \<sigma>')" "holds \<sigma> j" "P j" "follows j k \<Longrightarrow> P k"
  shows "\<exists>i. holds \<sigma>' i \<and> P i"
  using put_atomic [OF assms(1-3)] assms(4,5) by blast

end

text \<open>A sequence of writes that stops at the first one that fails.\<close>

fun put_all :: "('k \<Rightarrow> ('s, 'p) action) \<Rightarrow> 'k list \<Rightarrow> ('s, unit) action" where
  "put_all put [] = pureS (Inr ())"
| "put_all put (k # ks) = thenS (put k) (\<lambda>_. put_all put ks)"

context atomic_store begin

text \<open>Whatever stops a sequence of writes, the record held is the first one or one of those written.\<close>

lemma put_all_prefix:
  assumes "\<forall>k \<in> set ks. good k" "put_all put ks \<sigma> = (r, \<sigma>')" "holds \<sigma> j"
  shows "\<exists>n \<le> length ks. holds \<sigma>' ((j # ks) ! n) \<and> (r = Inr () \<longrightarrow> n = length ks) \<and>
    (\<forall>i < n. follows ((j # ks) ! i) ((j # ks) ! Suc i))"
  using assms
proof (induction ks arbitrary: \<sigma> j)
  case Nil
  then show ?case by simp
next
  case (Cons k ks)
  from Cons.prems(2) consider e where "put k \<sigma> = (Inl e, \<sigma>')" "r = Inl e"
    | p \<tau> where "put k \<sigma> = (Inr p, \<tau>)" "put_all put ks \<tau> = (r, \<sigma>')"
    by (auto simp: thenS_run)
  then show ?case
  proof cases
    case 1
    with put_atomic [of k \<sigma> "Inl e" \<sigma>' j] Cons.prems
    have "holds \<sigma>' j \<or> (holds \<sigma>' k \<and> follows j k)" by auto
    then show ?thesis
    proof
      assume "holds \<sigma>' j"
      with 1 show ?thesis by (intro exI [of _ 0]) simp
    next
      assume "holds \<sigma>' k \<and> follows j k"
      with 1 show ?thesis by (intro exI [of _ 1]) simp
    qed
  next
    case 2
    with put_atomic [of k \<sigma> "Inr p" \<tau> j] Cons.prems have k: "holds \<tau> k" "follows j k" by auto
    from Cons.IH [OF _ 2(2) k(1)] Cons.prems(1) obtain n where
      n: "n \<le> length ks" "holds \<sigma>' ((k # ks) ! n)" "r = Inr () \<longrightarrow> n = length ks"
        "\<forall>i < n. follows ((k # ks) ! i) ((k # ks) ! Suc i)" by auto
    have "\<forall>i < Suc n. follows ((j # k # ks) ! i) ((j # k # ks) ! Suc i)"
      using n(4) k(2) by (auto simp: less_Suc_eq_0_disj)
    with n show ?thesis by (intro exI [of _ "Suc n"]) simp
  qed
qed

end

definition good_checkpoint :: "plan_scope \<Rightarrow> session_env \<Rightarrow> session_checkpoint \<Rightarrow> bool" where
  "good_checkpoint scope env s \<longleftrightarrow>
     env_ok env \<and> wf_checkpoint env s \<and> scope (sk_plan s) = Inr ()"

definition next_generation :: "session_env \<Rightarrow> session_checkpoint \<Rightarrow> session_checkpoint \<Rightarrow> bool" where
  "next_generation env s s' \<longleftrightarrow>
     sk_session_id s' = sk_session_id s \<and>
     fingerprint env (sk_plan s') = fingerprint env (sk_plan s) \<and>
     sk_sequence s \<le> sk_sequence s' \<and> sk_sequence s' \<le> sk_sequence s + 1"

lemma confirmed_pointer:
  assumes "confirmed scope env d s" "pointer_in env d p"
  shows "path_exists (d current_pointer_name)" "pt_session_id p = sk_session_id s"
    "pt_sequence p = sk_sequence s" "pt_plan_fingerprint p = fingerprint env (sk_plan s)"
proof -
  from assms obtain cb mb where c: "check_generation scope env p cb mb = Inr s"
    unfolding confirmed_def by (metis pointer_in_unique)
  then show "pt_session_id p = sk_session_id s" "pt_sequence p = sk_sequence s"
    "pt_plan_fingerprint p = fingerprint env (sk_plan s)"
    by (auto simp: check_generation_def run integrity_def)
  show "path_exists (d current_pointer_name)"
    using assms(2) by (auto simp: pointer_in_def path_exists_def)
qed

interpretation v1: atomic_store "\<lambda>_. True" "\<lambda>\<sigma>. confirmed scope env (st_dir \<sigma>)" "load_checkpoint scope env"
    "persist scope env" "good_checkpoint scope env" "next_generation env" for scope env
proof
  show "confirmed scope env (st_dir \<sigma>) j \<Longrightarrow> confirmed scope env (st_dir \<sigma>) k \<Longrightarrow> j = k" for \<sigma> j k
    by (rule confirmed_unique)
  show "load_checkpoint scope env \<sigma> = (Inr k, \<sigma>') \<Longrightarrow> confirmed scope env (st_dir \<sigma>) k" for \<sigma> k \<sigma>'
    by (auto dest: load_checkpoint_run)
  show "confirmed scope env (st_dir \<sigma>) k \<Longrightarrow> load_checkpoint scope env \<sigma> = (r, \<sigma>') \<Longrightarrow>
      confirmed scope env (st_dir \<sigma>') k" for \<sigma> r \<sigma>' k
    by (auto dest: load_checkpoint_run)
next
  fix k \<sigma> r \<sigma>' j
  assume g: "good_checkpoint scope env k" and p: "persist scope env k \<sigma> = (r, \<sigma>')"
    and h: "confirmed scope env (st_dir \<sigma>) j"
  then obtain q where q: "pointer_in env (st_dir \<sigma>) q" by (auto simp: confirmed_def)
  from g p have "(kept \<sigma> \<sigma>' \<and> (\<forall>p. r \<noteq> Inr p)) \<or> replaced scope env k \<sigma> \<sigma>'"
    by (intro persist_run) (simp_all add: good_checkpoint_def)
  then show "(confirmed scope env (st_dir \<sigma>') j \<and> (\<forall>p. r \<noteq> Inr p)) \<or>
      (confirmed scope env (st_dir \<sigma>') k \<and> next_generation env j k)"
  proof
    assume "kept \<sigma> \<sigma>' \<and> (\<forall>p. r \<noteq> Inr p)"
    with confirmed_mono [OF h] show ?thesis by (simp add: kept_def)
  next
    assume "replaced scope env k \<sigma> \<sigma>'"
    moreover from this have "may_follow env q k"
      using confirmed_pointer(1) [OF h q] pointer_in_unique [OF q] by (auto simp: replaced_def)
    ultimately show ?thesis
      using confirmed_pointer [OF h q] by (simp add: replaced_def may_follow_def next_generation_def)
  qed
next
  show "confirmed scope env (st_dir \<sigma>') k"
    if "good_checkpoint scope env k" "persist scope env k \<sigma> = (Inr p, \<sigma>')" for k \<sigma> p \<sigma>'
    using that persist_run [of env k scope \<sigma> "Inr p" \<sigma>'] by (auto simp: good_checkpoint_def replaced_def)
qed simp

section \<open>When a persist succeeds\<close>

definition free_for :: "session_env \<Rightarrow> session_checkpoint \<Rightarrow> directory \<Rightarrow> bool" where
  "free_for env s d \<longleftrightarrow>
     d (name_of ''checkpoint'' s) = None \<and> d (name_of ''manifest'' s) = None \<and>
     d current_pointer_name \<noteq> Some Directory \<and>
     (path_exists (d current_pointer_name) \<longrightarrow>
        sized max_pointer_bytes (d current_pointer_name) \<and>
        (\<exists>p. pointer_in env d p \<and> may_follow env p s))"

lemma persist_healthy:
  assumes "good_checkpoint scope env s" "free_for env s d"
  shows "persist scope env s \<lparr>st_dir = d, st_io = []\<rparr> =
    (Inr (pointer_of env s),
     \<lparr>st_dir = d(name_of ''checkpoint'' s \<mapsto> Regular (checkpoint_bytes env s),
        name_of ''manifest'' s \<mapsto> Regular (manifest_bytes env s),
        current_pointer_name \<mapsto> Regular (pointer_bytes env s)), st_io = []\<rparr>)"
proof -
  let ?\<sigma> = "\<lparr>st_dir = d, st_io = []\<rparr>"
  have "check_follows env s ?\<sigma> = (Inr (), ?\<sigma>)"
  proof (cases "path_exists (d current_pointer_name)")
    case True
    with assms(2) obtain p where p: "pointer_in env d p" "may_follow env p s"
      "sized max_pointer_bytes (d current_pointer_name)" by (auto simp: free_for_def)
    then have "load_pointer env ?\<sigma> = (Inr p, ?\<sigma>)" by (intro load_pointer_healthy) simp_all
    with p True show ?thesis by (simp add: check_follows_def has_checkpoint_def pureS_def)
  qed (simp add: check_follows_def has_checkpoint_def)
  moreover have "persist scope env s = thenS (check_follows env s) (\<lambda>_.
    thenS (write_generation (name_of ''checkpoint'' s) (checkpoint_bytes env s)) (\<lambda>_.
    thenS (write_generation (name_of ''manifest'' s) (manifest_bytes env s)) (\<lambda>_.
    thenS (replace_current (pointer_bytes env s)) (\<lambda>_.
      pureS (Inr (pointer_of env s))))))"
    using assms(1) by (intro persist_effects) (simp_all add: good_checkpoint_def)
  ultimately show ?thesis
    using assms(2) name_of_distinct [of s] not_sym [OF name_of_distinct(1), of s s]
      not_sym [OF name_of_distinct(2), of s] not_sym [OF name_of_distinct(3), of s]
    by (simp add: write_generation_def replace_current_def next_io_def put_file_def free_for_def
        pureS_def)
qed

definition small_generation :: "session_env \<Rightarrow> session_checkpoint \<Rightarrow> bool" where
  "small_generation env s \<longleftrightarrow>
     length (checkpoint_bytes env s) \<le> max_document_bytes \<and>
     length (manifest_bytes env s) \<le> max_document_bytes \<and>
     length (pointer_bytes env s) \<le> max_pointer_bytes"

lemma pointer_in_generation:
  assumes "good_checkpoint scope env s" "d current_pointer_name = Some (Regular (pointer_bytes env s))"
  shows "pointer_in env d (pointer_of env s)"
proof -
  from assms(1) have g: "env_ok env" "wf_checkpoint env s" by (simp_all add: good_checkpoint_def)
  then have "utf8_ok env" "repr_ok (env_float env) (env_repr env)" by (simp_all add: env_ok_def)
  with pointer_text [OF wf_pointer_of [OF g(2,1)], where nl = "[CHR 0x0A]"] assms(2) show ?thesis
    by (simp add: pointer_in_def pointer_bytes_def decode_file)
qed

lemma generation_in_limits:
  assumes "good_checkpoint scope env s" "small_generation env s"
    "d (name_of ''checkpoint'' s) = Some (Regular (checkpoint_bytes env s))"
    "d (name_of ''manifest'' s) = Some (Regular (manifest_bytes env s))"
    "d current_pointer_name = Some (Regular (pointer_bytes env s))"
  shows "confirmed scope env d s" "in_limits env d"
proof -
  show "confirmed scope env d s"
    using assms by (intro generation_confirmed) (simp_all add: good_checkpoint_def)
  show "in_limits env d"
    unfolding in_limits_def
  proof (intro conjI allI impI)
    fix p assume "pointer_in env d p"
    then have p: "p = pointer_of env s"
      by (rule pointer_in_unique) (rule pointer_in_generation, fact+)
    show "sized max_document_bytes (d (pt_checkpoint_file p))"
      "sized max_document_bytes (d (pt_manifest_file p))"
      using assms(2-4) by (simp_all add: p pointer_of_def sized_def small_generation_def)
  qed (use assms(2,5) in \<open>simp add: sized_def small_generation_def\<close>)
qed

lemma load_generation:
  assumes "good_checkpoint scope env s" "small_generation env s"
    "d (name_of ''checkpoint'' s) = Some (Regular (checkpoint_bytes env s))"
    "d (name_of ''manifest'' s) = Some (Regular (manifest_bytes env s))"
    "d current_pointer_name = Some (Regular (pointer_bytes env s))"
  shows "load_checkpoint scope env \<lparr>st_dir = d, st_io = []\<rparr> = (Inr s, \<lparr>st_dir = d, st_io = []\<rparr>)"
  using generation_in_limits [of scope env s d] assms by (intro load_checkpoint_healthy) simp_all

section \<open>A generation left behind\<close>

text \<open>Two checkpoints are written differently.\<close>

lemma checkpoint_bytes_inj:
  assumes "env_ok env" "wf_checkpoint env s" "wf_checkpoint env t"
    "checkpoint_bytes env s = checkpoint_bytes env t"
  shows "s = t"
proof -
  have o: "utf8_ok env" "repr_ok (env_float env) (env_repr env)" using assms(1) by (simp_all add: env_ok_def)
  have "decode_or_integrity env (checkpoint_bytes env s) = decode_or_integrity env (checkpoint_bytes env t)"
    using assms(4) by simp
  then have "json_text (env_repr env) (session_checkpoint_to_dict s) =
      json_text (env_repr env) (session_checkpoint_to_dict t)"
    by (simp add: checkpoint_bytes_def decode_file [OF o(1)])
  then have "json_loads (env_float env) (json_text (env_repr env) (session_checkpoint_to_dict s) @ []) =
      json_loads (env_float env) (json_text (env_repr env) (session_checkpoint_to_dict t) @ [])"
    by (rule arg_cong)
  then have "session_checkpoint_to_dict s = session_checkpoint_to_dict t"
    by (simp only: json_loads_text [OF o(2) json_checkpoint [OF assms(2)] empty_subsetI [folded list.set(1)]]
        json_loads_text [OF o(2) json_checkpoint [OF assms(3)] empty_subsetI [folded list.set(1)]] option.inject)
  then have "session_checkpoint_from_dict env (session_checkpoint_to_dict s) =
      session_checkpoint_from_dict env (session_checkpoint_to_dict t)"
    by (rule arg_cong)
  then show ?thesis
    by (simp only: checkpoint_roundtrip [OF assms(2)] checkpoint_roundtrip [OF assms(3)] sum.inject)
qed

lemma blocked_write:
  assumes "st_dir \<sigma> name = Some (Regular other)" "other \<noteq> content"
    "write_generation name content \<sigma> = (r, \<sigma>')"
  shows "r \<noteq> Inr () \<and> st_dir \<sigma>' = st_dir \<sigma>"
  using assms
  by (auto simp: write_generation_def thenS_run same_content_def dest!: read_regular_file_run
      split: if_splits)

lemma persist_blocked:
  assumes "good_checkpoint scope env s" "st_dir \<sigma> (name_of ''checkpoint'' s) = Some (Regular other)"
    "other \<noteq> checkpoint_bytes env s" "persist scope env s \<sigma> = (r, \<sigma>')"
  shows "(\<forall>p. r \<noteq> Inr p) \<and> st_dir \<sigma>' = st_dir \<sigma>"
proof -
  have "persist scope env s = thenS (check_follows env s) (\<lambda>_.
    thenS (write_generation (name_of ''checkpoint'' s) (checkpoint_bytes env s)) (\<lambda>_.
    thenS (write_generation (name_of ''manifest'' s) (manifest_bytes env s)) (\<lambda>_.
    thenS (replace_current (pointer_bytes env s)) (\<lambda>_.
      pureS (Inr (pointer_of env s))))))"
    using assms(1) by (intro persist_effects) (simp_all add: good_checkpoint_def)
  with assms(4) consider e where "check_follows env s \<sigma> = (Inl e, \<sigma>')" "r = Inl e"
    | \<tau> e where "check_follows env s \<sigma> = (Inr (), \<tau>)"
        "write_generation (name_of ''checkpoint'' s) (checkpoint_bytes env s) \<tau> = (Inl e, \<sigma>')" "r = Inl e"
    | \<tau> \<upsilon> where "check_follows env s \<sigma> = (Inr (), \<tau>)"
        "write_generation (name_of ''checkpoint'' s) (checkpoint_bytes env s) \<tau> = (Inr (), \<upsilon>)"
    by (simp only: thenS_run [of "check_follows env s"]
        thenS_run [of "write_generation (name_of ''checkpoint'' s) (checkpoint_bytes env s)"])
      (elim disjE exE conjE, force+)
  then show ?thesis
  proof cases
    case 1
    with check_follows_run [OF 1(1)] show ?thesis by simp
  next
    case 2
    with check_follows_run [OF 2(1)] blocked_write [OF _ assms(3) 2(2)] assms(2) show ?thesis by simp
  next
    case 3
    with check_follows_run [OF 3(1)] blocked_write [OF _ assms(3) 3(2)] assms(2) show ?thesis by simp
  qed
qed

text \<open>
  Unless another process interferes, linking a generation either changes nothing and fails, or
  the file holds what was to be written.
\<close>

definition undisturbed :: "io_outcome list \<Rightarrow> bool" where
  "undisturbed io \<longleftrightarrow> (\<forall>other. Io_race other \<notin> set io)"

lemma next_io_undisturbed:
  "next_io \<sigma> = (x, \<sigma>') \<Longrightarrow> undisturbed (st_io \<sigma>) \<Longrightarrow> undisturbed (st_io \<sigma>') \<and> (\<forall>other. x \<noteq> Io_race other)"
  by (auto simp: next_io_def undisturbed_def split: list.splits)

lemma check_follows_undisturbed:
  "check_follows env s \<sigma> = (r, \<sigma>') \<Longrightarrow> undisturbed (st_io \<sigma>) \<Longrightarrow> undisturbed (st_io \<sigma>')"
  by (auto simp: check_follows_def load_pointer_def read_regular_file_def thenS_run
      dest: next_io_undisturbed split: if_splits option.splits entry.splits prod.splits io_outcome.splits)

lemma write_generation_linked:
  assumes "write_generation name content \<sigma> = (r, \<sigma>')" "undisturbed (st_io \<sigma>)" "st_dir \<sigma>' \<noteq> st_dir \<sigma> \<or> r = Inr ()"
  shows "st_dir \<sigma>' name = Some (Regular content)"
proof (cases "st_dir \<sigma> name = None")
  case False
  with assms write_generation_run [OF assms(1)] show ?thesis
    by (auto simp: write_generation_def thenS_run dest!: read_regular_file_run)
next
  case True
  obtain x \<tau> where io: "next_io \<sigma> = (x, \<tau>)" by (cases "next_io \<sigma>")
  from next_io_dir [OF io] next_io_undisturbed [OF io assms(2)] True assms(1,3) show ?thesis
    by (cases x) (auto simp: write_generation_def io put_file_if_dir split: if_splits)
qed

lemma persist_linked:
  assumes "good_checkpoint scope env s" "persist scope env s \<sigma> = (r, \<sigma>')" "undisturbed (st_io \<sigma>)"
    "st_dir \<sigma>' \<noteq> st_dir \<sigma>"
  shows "st_dir \<sigma>' (name_of ''checkpoint'' s) = Some (Regular (checkpoint_bytes env s))"
proof -
  let ?w = "write_generation (name_of ''checkpoint'' s) (checkpoint_bytes env s)"
  have "persist scope env s = thenS (check_follows env s) (\<lambda>_. thenS ?w (\<lambda>_.
    thenS (write_generation (name_of ''manifest'' s) (manifest_bytes env s)) (\<lambda>_.
    thenS (replace_current (pointer_bytes env s)) (\<lambda>_. pureS (Inr (pointer_of env s))))))"
    using assms(1) by (intro persist_effects) (simp_all add: good_checkpoint_def)
  with assms(2) consider e where "check_follows env s \<sigma> = (Inl e, \<sigma>')"
    | \<tau> e where "check_follows env s \<sigma> = (Inr (), \<tau>)" "?w \<tau> = (Inl e, \<sigma>')"
    | \<tau> \<upsilon> q where "check_follows env s \<sigma> = (Inr (), \<tau>)" "?w \<tau> = (Inr (), \<upsilon>)"
        "thenS (write_generation (name_of ''manifest'' s) (manifest_bytes env s)) (\<lambda>_.
           thenS (replace_current (pointer_bytes env s)) (\<lambda>_. pureS (Inr (pointer_of env s)))) \<upsilon> = (q, \<sigma>')"
    by (simp only: thenS_run [of "check_follows env s"] thenS_run [of ?w]) (elim disjE exE conjE, force+)
  then show ?thesis
  proof cases
    case 1
    with check_follows_run [OF 1] assms(4) show ?thesis by simp
  next
    case 2
    with check_follows_run [OF 2(1)] assms(4)
      write_generation_linked [OF 2(2) check_follows_undisturbed [OF 2(1) assms(3)]]
    show ?thesis by simp
  next
    case 3
    have "st_dir \<upsilon> (name_of ''checkpoint'' s) = Some (Regular (checkpoint_bytes env s))"
      using write_generation_run [OF 3(2)] by simp
    moreover have "st_dir \<sigma>' (name_of ''checkpoint'' s) = st_dir \<upsilon> (name_of ''checkpoint'' s)"
      using 3(3) by (auto simp: thenS_run dest!: write_generation_run replace_current_run(1))
    ultimately show ?thesis by simp
  qed
qed

section \<open>Properties\<close>

definition sample_later :: session_checkpoint where
  "sample_later = sample_checkpoint\<lparr>sk_sequence := 4\<rparr>"

definition sample_retry :: session_checkpoint where
  "sample_retry = sample_checkpoint\<lparr>sk_sequence := 4, sk_updated_at := ''2026-01-01T00:00:00Z''\<rparr>"

lemma sample_good: "good_checkpoint require_single_target_plan sample_env sample_checkpoint"
  and sample_later_good: "good_checkpoint require_single_target_plan sample_env sample_later"
  and sample_retry_good: "good_checkpoint require_single_target_plan sample_env sample_retry"
proof -
  have "session_checkpoint_from_dict sample_env (session_checkpoint_to_dict sample_later) = Inr sample_later"
    "session_checkpoint_from_dict sample_env (session_checkpoint_to_dict sample_retry) = Inr sample_retry"
    by code_simp+
  then have "wf_checkpoint sample_env sample_checkpoint" "wf_checkpoint sample_env sample_later"
    "wf_checkpoint sample_env sample_retry"
    using checkpoint_accepted_wf [OF sample_iso_ok] sample_checkpoint_accepted by blast+
  moreover have "require_single_target_plan sample_plan = Inr ()" by code_simp
  ultimately show "good_checkpoint require_single_target_plan sample_env sample_checkpoint"
    "good_checkpoint require_single_target_plan sample_env sample_later" "good_checkpoint require_single_target_plan sample_env sample_retry"
    by (simp_all add: good_checkpoint_def sample_env_ok sample_later_def sample_retry_def sample_checkpoint_def)
qed

lemma sample_free: "free_for sample_env s (\<lambda>_. None)"
  by (simp add: free_for_def path_exists_def)

lemma sample_confirmed: "\<exists>d. confirmed require_single_target_plan sample_env d sample_checkpoint"
proof -
  have "persist require_single_target_plan sample_env sample_checkpoint \<lparr>st_dir = \<lambda>_. None, st_io = []\<rparr> =
      (Inr (pointer_of sample_env sample_checkpoint),
       snd (persist require_single_target_plan sample_env sample_checkpoint \<lparr>st_dir = \<lambda>_. None, st_io = []\<rparr>))"
    using persist_healthy [OF sample_good sample_free] by simp
  from v1.put_holds [OF TrueI sample_good this] show ?thesis by blast
qed

text \<open>
  C2. Crash consistency. From a directory that holds a confirmed checkpoint, persist any
  sequence of well-formed checkpoints, under any script of I\<open>/\<close>O errors, interfering processes and
  points where the process dies. Afterwards the directory holds the first checkpoint or one of
  those persisted before the run stopped, each step of the way a legal successor of the one
  before, and the last one when nothing failed. A later load returns exactly that checkpoint
  unless its files exceed the size limits.
\<close>

theorem persist_crash_consistent:
  assumes "\<forall>k \<in> set ks. good_checkpoint scope env k" "confirmed scope env (st_dir \<sigma>) j"
    "put_all (persist scope env) ks \<sigma> = (r, \<sigma>')"
  shows "\<exists>n \<le> length ks. confirmed scope env (st_dir \<sigma>') ((j # ks) ! n) \<and>
    (r = Inr () \<longrightarrow> n = length ks) \<and>
    (\<forall>i < n. next_generation env ((j # ks) ! i) ((j # ks) ! Suc i)) \<and>
    (in_limits env (st_dir \<sigma>') \<longrightarrow>
       fst (load_checkpoint scope env \<lparr>st_dir = st_dir \<sigma>', st_io = []\<rparr>) = Inr ((j # ks) ! n))"
proof -
  from v1.put_all_prefix [OF assms(1,3,2)] obtain n where
    n: "n \<le> length ks" "confirmed scope env (st_dir \<sigma>') ((j # ks) ! n)" "r = Inr () \<longrightarrow> n = length ks"
      "\<forall>i < n. next_generation env ((j # ks) ! i) ((j # ks) ! Suc i)" by blast
  moreover have "fst (load_checkpoint scope env \<lparr>st_dir = st_dir \<sigma>', st_io = []\<rparr>) = Inr ((j # ks) ! n)"
    if "in_limits env (st_dir \<sigma>')"
    using load_checkpoint_healthy [of scope env "\<lparr>st_dir = st_dir \<sigma>', st_io = []\<rparr>"] n(2) that by simp
  ultimately show ?thesis by blast
qed

theorem persist_crash_consistent_witness:
  "\<exists>d. \<forall>io. \<exists>s \<in> {sample_checkpoint, sample_later}.
     confirmed require_single_target_plan sample_env
       (st_dir (snd (put_all (persist require_single_target_plan sample_env) [sample_later] \<lparr>st_dir = d, st_io = io\<rparr>))) s"
proof -
  from sample_confirmed obtain d where d: "confirmed require_single_target_plan sample_env d sample_checkpoint" ..
  have "\<exists>s \<in> {sample_checkpoint, sample_later}. confirmed require_single_target_plan sample_env
      (st_dir (snd (put_all (persist require_single_target_plan sample_env) [sample_later] \<lparr>st_dir = d, st_io = io\<rparr>))) s" for io
  proof -
    obtain r \<sigma>' where r: "put_all (persist require_single_target_plan sample_env) [sample_later] \<lparr>st_dir = d, st_io = io\<rparr> = (r, \<sigma>')"
      by (cases "put_all (persist require_single_target_plan sample_env) [sample_later] \<lparr>st_dir = d, st_io = io\<rparr>")
    have "\<forall>k \<in> set [sample_later]. good_checkpoint require_single_target_plan sample_env k" by (simp add: sample_later_good)
    from persist_crash_consistent [OF this _ r, of sample_checkpoint] d obtain n where
      "n \<le> 1" "confirmed require_single_target_plan sample_env (st_dir \<sigma>') ([sample_checkpoint, sample_later] ! n)" by auto
    then show ?thesis unfolding r snd_conv by (cases n) auto
  qed
  then show ?thesis by blast
qed

text \<open>
  C26. Without failures a well-formed single-target checkpoint is persisted whenever it may
  follow the confirmed one and its names are free, and loading gives it back when its files are
  within the size limits.
\<close>

theorem persist_then_load:
  assumes "good_checkpoint scope env s" "free_for env s d" "small_generation env s"
  shows "\<exists>\<sigma>. persist scope env s \<lparr>st_dir = d, st_io = []\<rparr> = (Inr (pointer_of env s), \<sigma>) \<and>
    load_checkpoint scope env \<sigma> = (Inr s, \<sigma>)"
proof (intro exI conjI)
  show "persist scope env s \<lparr>st_dir = d, st_io = []\<rparr> =
    (Inr (pointer_of env s),
     \<lparr>st_dir = d(name_of ''checkpoint'' s \<mapsto> Regular (checkpoint_bytes env s),
        name_of ''manifest'' s \<mapsto> Regular (manifest_bytes env s),
        current_pointer_name \<mapsto> Regular (pointer_bytes env s)), st_io = []\<rparr>)"
    by (rule persist_healthy [OF assms(1,2)])
  show "load_checkpoint scope env \<lparr>st_dir = d(name_of ''checkpoint'' s \<mapsto> Regular (checkpoint_bytes env s),
        name_of ''manifest'' s \<mapsto> Regular (manifest_bytes env s),
        current_pointer_name \<mapsto> Regular (pointer_bytes env s)), st_io = []\<rparr> =
    (Inr s, \<lparr>st_dir = d(name_of ''checkpoint'' s \<mapsto> Regular (checkpoint_bytes env s),
        name_of ''manifest'' s \<mapsto> Regular (manifest_bytes env s),
        current_pointer_name \<mapsto> Regular (pointer_bytes env s)), st_io = []\<rparr>)"
    by (rule load_generation [OF assms(1,3)])
      (simp_all add: not_sym [OF name_of_distinct(1)] not_sym [OF name_of_distinct(2)]
        not_sym [OF name_of_distinct(3)])
qed

lemma sample_generation_free:
  "free_for sample_env sample_later
     (\<lambda>n. if n = current_pointer_name then Some (Regular (pointer_bytes sample_env sample_checkpoint))
        else None)"
proof -
  let ?d = "\<lambda>n. if n = current_pointer_name
    then Some (Regular (pointer_bytes sample_env sample_checkpoint)) else None"
  have "pointer_in sample_env ?d (pointer_of sample_env sample_checkpoint)"
    by (rule pointer_in_generation [OF sample_good]) simp
  moreover have "may_follow sample_env (pointer_of sample_env sample_checkpoint) sample_later"
    by (simp add: may_follow_def pointer_of_def sample_later_def sample_checkpoint_def)
  moreover have "length (pointer_bytes sample_env sample_checkpoint) \<le> max_pointer_bytes"
    by code_simp
  ultimately show ?thesis by (auto simp: free_for_def sized_def)
qed

theorem persist_then_load_witness:
  "\<exists>\<sigma>. load_checkpoint require_single_target_plan sample_env \<sigma> = (Inr sample_checkpoint, \<sigma>)"
proof -
  have "length (checkpoint_bytes sample_env sample_checkpoint) < 3000" by code_simp
  moreover have "length (manifest_bytes sample_env sample_checkpoint) < 3000" by code_simp
  moreover have "length (pointer_bytes sample_env sample_checkpoint) < 3000" by code_simp
  ultimately have "small_generation sample_env sample_checkpoint"
    by (simp add: small_generation_def max_document_bytes_def max_pointer_bytes_def)
  from persist_then_load [OF sample_good sample_free this] show ?thesis by blast
qed

text \<open>
  C37. A generation left behind blocks the session. An attempt to persist \<open>s\<close> fails, or its process
  dies, at any point after it linked a file of that generation and before the generation was in
  place, while no other process writes to the directory. The checkpoint confirmed before stays
  confirmed, and from then on no attempt to persist a different checkpoint \<open>t\<close> under that sequence,
  as a later resume makes with its own time stamp, succeeds or changes anything, whatever the
  I\<open>/\<close>O does.
\<close>

theorem stale_generation_blocks:
  assumes "good_checkpoint scope env s" "good_checkpoint scope env t" "sk_sequence s = sk_sequence t" "s \<noteq> t"
    "persist scope env s \<lparr>st_dir = d, st_io = io\<rparr> = (r, \<sigma>)" "undisturbed io"
    "st_dir \<sigma> \<noteq> d" "\<not> confirmed scope env (st_dir \<sigma>) s"
  shows "(\<exists>e. r = Inl e) \<and> (\<forall>j. confirmed scope env d j \<longrightarrow> confirmed scope env (st_dir \<sigma>) j) \<and>
    (\<forall>io' p. fst (persist scope env t \<lparr>st_dir = st_dir \<sigma>, st_io = io'\<rparr>) \<noteq> Inr p \<and>
       st_dir (snd (persist scope env t \<lparr>st_dir = st_dir \<sigma>, st_io = io'\<rparr>)) = st_dir \<sigma>)"
proof (intro conjI allI impI)
  have kept: "kept \<lparr>st_dir = d, st_io = io\<rparr> \<sigma>" "\<forall>p. r \<noteq> Inr p"
    using persist_run [OF _ _ _ assms(5)] assms(1,8) by (auto simp: good_checkpoint_def replaced_def)
  then show "\<exists>e. r = Inl e" by (cases r) auto
  show "confirmed scope env (st_dir \<sigma>) j" if "confirmed scope env d j" for j
    using confirmed_mono [OF that] kept(1) by (simp add: kept_def)
  have linked: "st_dir \<sigma> (name_of ''checkpoint'' t) = Some (Regular (checkpoint_bytes env s))"
    using persist_linked [OF assms(1,5)] assms(3,6,7) by (simp add: name_of_def)
  have ne: "checkpoint_bytes env s \<noteq> checkpoint_bytes env t"
    using checkpoint_bytes_inj [of env s t] assms(1,2,4) by (auto simp: good_checkpoint_def)
  show "fst (persist scope env t \<lparr>st_dir = st_dir \<sigma>, st_io = io'\<rparr>) \<noteq> Inr p"
    "st_dir (snd (persist scope env t \<lparr>st_dir = st_dir \<sigma>, st_io = io'\<rparr>)) = st_dir \<sigma>" for io' p
    using persist_blocked [OF assms(2) _ ne, of "\<lparr>st_dir = st_dir \<sigma>, st_io = io'\<rparr>"] linked
    by (metis prod.collapse store_state.select_convs(1))+
qed

lemma persist_killed_late:
  assumes "good_checkpoint scope env s" "free_for env s d" "path_exists (d current_pointer_name)"
  shows "persist scope env s \<lparr>st_dir = d, st_io = [Io_ok, Io_ok, Io_ok, Io_kill False]\<rparr> =
    (Inl Killed,
     \<lparr>st_dir = d(name_of ''checkpoint'' s \<mapsto> Regular (checkpoint_bytes env s),
        name_of ''manifest'' s \<mapsto> Regular (manifest_bytes env s)), st_io = []\<rparr>)"
proof -
  let ?io = "[Io_ok, Io_ok, Io_kill False]"
  from assms(2,3) obtain p c where p: "may_follow env p s"
    "d current_pointer_name = Some (Regular c)" "length c \<le> max_pointer_bytes"
    "bindE (decode_or_integrity env c) (store_pointer_from_json env) = Inr p"
    by (auto simp: free_for_def pointer_in_def sized_def)
  then have "load_pointer env \<lparr>st_dir = d, st_io = Io_ok # ?io\<rparr> = (Inr p, \<lparr>st_dir = d, st_io = ?io\<rparr>)"
    by (simp add: load_pointer_def path_exists_def thenS_def read_regular_file_def next_io_def pureS_def)
  with p(1) assms(3) have "check_follows env s \<lparr>st_dir = d, st_io = Io_ok # ?io\<rparr> = (Inr (), \<lparr>st_dir = d, st_io = ?io\<rparr>)"
    by (simp add: check_follows_def has_checkpoint_def pureS_def)
  moreover have "persist scope env s = thenS (check_follows env s) (\<lambda>_.
    thenS (write_generation (name_of ''checkpoint'' s) (checkpoint_bytes env s)) (\<lambda>_.
    thenS (write_generation (name_of ''manifest'' s) (manifest_bytes env s)) (\<lambda>_.
    thenS (replace_current (pointer_bytes env s)) (\<lambda>_.
      pureS (Inr (pointer_of env s))))))"
    using assms(1) by (intro persist_effects) (simp_all add: good_checkpoint_def)
  ultimately show ?thesis
    using assms(2) p(2) not_sym [OF name_of_distinct(1), of s s] not_sym [OF name_of_distinct(2), of s]
      not_sym [OF name_of_distinct(3), of s]
    by (simp add: write_generation_def replace_current_def next_io_def put_file_def put_file_if_def free_for_def)
qed

theorem stale_generation_blocks_witness:
  "\<exists>d. path_exists (d current_pointer_name) \<and> d (name_of ''manifest'' sample_later) \<noteq> None \<and>
     (\<forall>io p. fst (persist require_single_target_plan sample_env sample_retry \<lparr>st_dir = d, st_io = io\<rparr>) \<noteq> Inr p)"
proof -
  let ?d = "\<lambda>n. if n = current_pointer_name
    then Some (Regular (pointer_bytes sample_env sample_checkpoint)) else None"
  have e: "sk_sequence sample_later = sk_sequence sample_retry" "sample_later \<noteq> sample_retry"
    "path_exists (?d current_pointer_name)" "undisturbed [Io_ok, Io_ok, Io_ok, Io_kill False]"
    by (simp_all add: sample_later_def sample_retry_def sample_checkpoint_def path_exists_def undisturbed_def)
  note k = persist_killed_late [OF sample_later_good sample_generation_free e(3)]
  let ?d' = "?d(name_of ''checkpoint'' sample_later \<mapsto> Regular (checkpoint_bytes sample_env sample_later),
      name_of ''manifest'' sample_later \<mapsto> Regular (manifest_bytes sample_env sample_later))"
  have "?d' (name_of ''manifest'' sample_later) \<noteq> ?d (name_of ''manifest'' sample_later)" by simp
  then have new: "?d' \<noteq> ?d" by metis
  have p: "pointer_in sample_env ?d' (pointer_of sample_env sample_checkpoint)"
    by (rule pointer_in_generation [OF sample_good])
      (simp add: not_sym [OF name_of_distinct(2)] not_sym [OF name_of_distinct(3)])
  have "\<not> confirmed require_single_target_plan sample_env ?d' sample_later"
  proof
    assume "confirmed require_single_target_plan sample_env ?d' sample_later"
    from confirmed_pointer(3) [OF this p] have "sk_sequence sample_checkpoint = sk_sequence sample_later"
      by (simp add: pointer_of_def)
    then show False by (simp add: sample_later_def sample_checkpoint_def)
  qed
  with stale_generation_blocks [OF sample_later_good sample_retry_good e(1,2) k e(4)] new
  have "fst (persist require_single_target_plan sample_env sample_retry \<lparr>st_dir = ?d', st_io = io\<rparr>) \<noteq> Inr p" for io p
    by simp
  then show ?thesis
    by (intro exI [of _ ?d'])
      (simp add: path_exists_def not_sym [OF name_of_distinct(2)] not_sym [OF name_of_distinct(3)])
qed

text \<open>
  C12. Every record that the session contract accepts is a JSON document. The text of an accepted
  checkpoint is written without failure and read back as the checkpoint, and so are the text of
  its plan, read back as the plan, and the text of the manifest built from it, read back as that
  manifest. The dictionary of each of its endpoints holds only strings, finite numbers, lists and
  objects with sorted, distinct string keys and is read back as the endpoint.
\<close>

theorem session_documents_typed:
  assumes "env_ok env" "session_checkpoint_from_dict env v = Inr s"
  shows "(\<exists>t. checkpoint_to_json env s = Inr t \<and> checkpoint_from_json env t = Inr s) \<and>
    (\<exists>t. scan_plan_to_json env (sk_plan s) = Inr t \<and> scan_plan_from_json env t = Inr (sk_plan s)) \<and>
    (\<exists>m t. manifest_from_checkpoint env s = Inr m \<and> manifest_to_json env m = Inr t \<and>
       manifest_from_json env t = Inr m) \<and>
    (\<forall>e \<in> set (sk_endpoints s). json_value (endpoint_progress_to_dict e) \<and>
       endpoint_progress_from_dict env (endpoint_progress_to_dict e) = Inr e)"
proof (intro conjI ballI)
  have env: "iso_ok env" "sha_ok env" "repr_ok (env_float env) (env_repr env)"
    using assms(1) by (simp_all add: env_ok_def)
  have wf: "wf_checkpoint env s" by (rule checkpoint_accepted_wf [OF env(1) assms(2)])
  then have parts: "wf_plan (sk_plan s)" "\<And>e. e \<in> set (sk_endpoints s) \<Longrightarrow> wf_progress e"
    by (simp_all add: wf_checkpoint_def list_all_iff)
  note no_nl = empty_subsetI [folded list.set(1)]
  show "\<exists>t. checkpoint_to_json env s = Inr t \<and> checkpoint_from_json env t = Inr s"
    using checkpoint_text [OF wf env(3) no_nl] by (metis append_Nil2)
  show "\<exists>t. scan_plan_to_json env (sk_plan s) = Inr t \<and> scan_plan_from_json env t = Inr (sk_plan s)"
    using plan_text [OF parts(1) env(3) no_nl] by (metis append_Nil2)
  show "\<exists>m t. manifest_from_checkpoint env s = Inr m \<and> manifest_to_json env m = Inr t \<and>
      manifest_from_json env t = Inr m"
    using manifest_text [OF manifest_of_wf [OF wf env(2)] env(3) no_nl]
      manifest_from_checkpoint_ok [OF wf env(2)] by (metis append_Nil2)
  show "json_value (endpoint_progress_to_dict e)"
    "endpoint_progress_from_dict env (endpoint_progress_to_dict e) = Inr e"
    if "e \<in> set (sk_endpoints s)" for e
    using parts(2) [OF that] by (rule json_progress, rule progress.roundtrip)
qed

theorem session_documents_typed_witness:
  "(\<exists>t. scan_plan_to_json sample_env sample_plan = Inr t \<and> scan_plan_from_json sample_env t = Inr sample_plan) \<and>
   (\<exists>m t. manifest_from_checkpoint sample_env sample_checkpoint = Inr m \<and>
      manifest_to_json sample_env m = Inr t \<and> manifest_from_json sample_env t = Inr m)"
  using session_documents_typed [OF sample_env_ok sample_checkpoint_accepted]
  by (simp add: sample_checkpoint_def)

end
