(* ===== verification/Session_Runner.thy ===== *)
theory Session_Runner
  imports Checkpoint_Store
begin

text \<open>
  \<open>src/session_runtime.py\<close>, from line 675: \<open>SingleTargetSessionRunner\<close> over the generational
  store. The executor is a parameter: the results it reports for a request and how its scan
  ends, and the outcome of each banner grab. An exception of the callback ends the scan and
  propagates, as it does in \<open>RustScannerBridge.scan\<close>. The clock is a sequence of readings, the
  cancellation event a sequence of observations. The branches for a store with
  \<open>append_results\<close> and \<open>complete_banner\<close> belong to the v2 store and are left out.
\<close>

section \<open>State and parameters\<close>

record runner_state =
  rn_store :: store_state
  rn_now :: nat
  rn_cancel :: "bool list"

record runner_env =
  re_session :: session_env
  re_clock :: "nat \<Rightarrow> string"
  re_message :: "exc \<Rightarrow> string"
  re_class :: "exc \<Rightarrow> string"

text \<open>A result as the executor hands it over: an object of \<open>ScanResult\<close> or a mapping.\<close>

type_synonym raw_result = "scan_result + (pyval \<times> pyval) list"

record executor =
  ex_scan :: "target_identity \<Rightarrow> int list \<Rightarrow> int \<Rightarrow> int \<Rightarrow> raw_result list \<times> exc option"
  ex_banner :: "target_identity \<Rightarrow> int \<Rightarrow> int \<Rightarrow> exc + (pyval \<times> pyval) list"

type_synonym 'a runner_action = "(runner_state, 'a) action"

definition on_store :: "(store_state, 'a) action \<Rightarrow> 'a runner_action" where
  "on_store m = (\<lambda>\<sigma>. case m (rn_store \<sigma>) of (r, \<tau>) \<Rightarrow> (r, \<sigma>\<lparr>rn_store := \<tau>\<rparr>))"

definition clock :: "runner_env \<Rightarrow> string runner_action" where
  "clock re = (\<lambda>\<sigma>. (Inr (re_clock re (rn_now \<sigma>)), \<sigma>\<lparr>rn_now := Suc (rn_now \<sigma>)\<rparr>))"

definition raise_if_cancelled :: "unit runner_action" where
  "raise_if_cancelled = (\<lambda>\<sigma>.
     case rn_cancel \<sigma> of
       [] \<Rightarrow> (Inr (), \<sigma>)
     | c # cs \<Rightarrow> (if c then Inl ScanCancelledError else Inr (), \<sigma>\<lparr>rn_cancel := cs\<rparr>))"

definition normalize_error :: "runner_env \<Rightarrow> exc \<Rightarrow> string" where
  "normalize_error re e =
     (let s = strip (re_message re e);
          text = (if s = [] then re_class re e else s)
      in take 2048 (filter (\<lambda>c. c \<noteq> CHR 0x00) text))"

section \<open>Building the next checkpoint\<close>

definition make_progress ::
    "session_env \<Rightarrow> target_identity \<Rightarrow> scan_result list \<Rightarrow> int list \<Rightarrow> int list \<Rightarrow> string option
     \<Rightarrow> exc + endpoint_progress" where
  "make_progress env identity results pending banner_ports error =
     endpoint_progress_init env (Inl identity) (PList (map scan_result_to_dict results))
       (PList (map PInt pending)) (PList (map PInt banner_ports)) (str_or_none error) (PInt 1)"

definition make_checkpoint ::
    "session_env \<Rightarrow> pyval \<Rightarrow> scan_plan \<Rightarrow> session_status \<Rightarrow> endpoint_progress \<Rightarrow> string \<Rightarrow> string
     \<Rightarrow> int \<Rightarrow> string option \<Rightarrow> exc + session_checkpoint" where
  "make_checkpoint env sid plan status endpoint created updated sequence last_error =
     session_checkpoint_init env sid (Inl plan) (PStr (session_status_value status))
       (Inl [endpoint]) (PStr created) (PStr updated) (PInt sequence) (str_or_none last_error)
       (PInt 1)"

definition replace_checkpoint ::
    "runner_env \<Rightarrow> session_checkpoint \<Rightarrow> session_status \<Rightarrow> endpoint_progress \<Rightarrow> string option
     \<Rightarrow> session_checkpoint runner_action" where
  "replace_checkpoint re s status endpoint last_error =
     thenS (clock re) (\<lambda>now.
       pureS (make_checkpoint (re_session re) (PStr (sk_session_id s)) (sk_plan s) status endpoint
         (sk_created_at s) now (sk_sequence s + 1) last_error))"

definition persist_next :: "runner_env \<Rightarrow> session_checkpoint \<Rightarrow> session_checkpoint runner_action" where
  "persist_next re s = thenS (on_store (persist require_single_target_plan (re_session re) s)) (\<lambda>_. pureS (Inr s))"

definition first_endpoint :: "session_checkpoint \<Rightarrow> endpoint_progress" where
  "first_endpoint s = hd (sk_endpoints s)"

section \<open>Creating a session\<close>

definition create_session ::
    "runner_env \<Rightarrow> scan_plan \<Rightarrow> string \<Rightarrow> session_checkpoint runner_action" where
  "create_session re plan identifier =
     thenS (pureS (require_single_target_plan plan)) (\<lambda>_.
     thenS (\<lambda>\<sigma>. (if has_checkpoint (rn_store \<sigma>) then Inl SessionPersistenceError else Inr (), \<sigma>)) (\<lambda>_.
     thenS (clock re) (\<lambda>now.
     thenS (pureS (make_progress (re_session re) (hd (sp_resolved_targets plan)) [] (sp_ports plan) []
       None)) (\<lambda>e.
     thenS (pureS (make_checkpoint (re_session re) (PStr identifier) plan SS_CREATED e now now 0
       None)) (\<lambda>s.
       persist_next re s)))))"

section \<open>The phases of a run\<close>

definition transition_to_running ::
    "runner_env \<Rightarrow> session_checkpoint \<Rightarrow> session_checkpoint runner_action" where
  "transition_to_running re s =
     (let e = first_endpoint s
      in thenS (pureS (make_progress (re_session re) (ep_identity e) (ep_completed_results e)
           (ep_pending_ports e) (ep_completed_banner_ports e) None)) (\<lambda>e'.
         thenS (replace_checkpoint re s SS_RUNNING e' None) (\<lambda>s'.
           persist_next re s')))"

definition canonical_result :: "session_env \<Rightarrow> raw_result \<Rightarrow> target_identity \<Rightarrow> exc + scan_result" where
  "canonical_result env raw identity =
     bindE (case raw of
         Inl r \<Rightarrow> scan_result_from_dict (env_float env) (scan_result_to_dict r)
       | Inr d \<Rightarrow> scan_result_from_dict (env_float env) (PDict d)) (\<lambda>r.
     bindE (attach_target_identity (PStr (ti_requested identity)) (PStr (ti_address identity)) r) (\<lambda>r'.
       if sr_protocol r' \<noteq> ''tcp'' then Inl SessionExecutionError else Inr r'))"

text \<open>The callback of the scan: one result is recorded and confirmed before the next one.\<close>

definition record_result ::
    "runner_env \<Rightarrow> target_identity \<Rightarrow> raw_result \<Rightarrow> session_checkpoint \<times> int list
     \<Rightarrow> (session_checkpoint \<times> int list) runner_action" where
  "record_result re identity raw st =
     (let s = fst st; seen = snd st; e = first_endpoint s
      in thenS raise_if_cancelled (\<lambda>_.
         thenS (pureS (canonical_result (re_session re) raw identity)) (\<lambda>r.
         let port = sr_port r
         in if port \<notin> set (ep_pending_ports e) then pureS (Inl SessionExecutionError)
            else if port \<in> set seen then pureS (Inl SessionExecutionError)
            else
              thenS (pureS (make_progress (re_session re) identity (ep_completed_results e @ [r])
                [p \<leftarrow> ep_pending_ports e. p \<noteq> port] (ep_completed_banner_ports e) None)) (\<lambda>e'.
              thenS (replace_checkpoint re s SS_RUNNING e' None) (\<lambda>s'.
              thenS (persist_next re s') (\<lambda>t. pureS (Inr (t, port # seen))))))))"

fun record_all ::
    "runner_env \<Rightarrow> target_identity \<Rightarrow> raw_result list \<Rightarrow> session_checkpoint \<times> int list
     \<Rightarrow> (session_checkpoint \<times> int list) runner_action" where
  "record_all re identity [] st = pureS (Inr st)"
| "record_all re identity (raw # raws) st =
     thenS (record_result re identity raw st) (\<lambda>st'. record_all re identity raws st')"

definition ended :: "exc option \<Rightarrow> exc + unit" where
  "ended x = (case x of None \<Rightarrow> Inr () | Some e \<Rightarrow> Inl e)"

definition complete_scan_phase ::
    "runner_env \<Rightarrow> executor \<Rightarrow> session_checkpoint \<Rightarrow> session_checkpoint runner_action" where
  "complete_scan_phase re ex s =
     (let e = first_endpoint s; pending = ep_pending_ports e
      in if pending = [] then pureS (Inr s)
         else case ex_scan ex (ep_identity e) pending (sp_timeout_ms (sk_plan s))
                (min (sp_threads (sk_plan s)) (int (length pending))) of
                (raws, ending) \<Rightarrow>
                  thenS (record_all re (ep_identity e) raws (s, ep_completed_ports e)) (\<lambda>st.
                  thenS (pureS (ended ending)) (\<lambda>_.
                    if ep_pending_ports (first_endpoint (fst st)) \<noteq> []
                    then pureS (Inl SessionExecutionError) else pureS (Inr (fst st)))))"

definition banner_value :: "native_banner_result \<Rightarrow> pyval" where
  "banner_value b = (if nres_banner b = Some [] then PNone else str_or_none (nres_banner b))"

definition set_banner :: "int \<Rightarrow> pyval \<Rightarrow> scan_result \<Rightarrow> scan_result" where
  "set_banner port b r = (if sr_port r = port then r\<lparr>sr_banner := b\<rparr> else r)"

definition grab_one_banner ::
    "runner_env \<Rightarrow> executor \<Rightarrow> int \<Rightarrow> session_checkpoint \<Rightarrow> session_checkpoint runner_action" where
  "grab_one_banner re ex port s =
     (let e = first_endpoint s; identity = ep_identity e
      in thenS raise_if_cancelled (\<lambda>_.
         thenS (pureS (ex_banner ex identity port (sp_timeout_ms (sk_plan s)))) (\<lambda>raw.
         thenS (pureS (native_banner_result_from_dict (PDict raw))) (\<lambda>b.
         if nres_target b \<noteq> ti_address identity then pureS (Inl SessionExecutionError)
         else if nres_port b \<noteq> port then pureS (Inl SessionExecutionError)
         else
           thenS (pureS (make_progress (re_session re) identity
             (map (set_banner port (banner_value b)) (ep_completed_results e))
             (ep_pending_ports e) (ep_completed_banner_ports e @ [port]) None)) (\<lambda>e'.
           thenS (replace_checkpoint re s SS_RUNNING e' None) (\<lambda>s'.
             persist_next re s'))))))"

fun grab_banners ::
    "runner_env \<Rightarrow> executor \<Rightarrow> int list \<Rightarrow> session_checkpoint \<Rightarrow> session_checkpoint runner_action" where
  "grab_banners re ex [] s = pureS (Inr s)"
| "grab_banners re ex (p # ps) s = thenS (grab_one_banner re ex p s) (grab_banners re ex ps)"

definition pending_banner_ports :: "endpoint_progress \<Rightarrow> int list" where
  "pending_banner_ports e = [p \<leftarrow> ep_open_ports e. p \<notin> set (ep_completed_banner_ports e)]"

definition complete_banner_phase ::
    "runner_env \<Rightarrow> executor \<Rightarrow> session_checkpoint \<Rightarrow> session_checkpoint runner_action" where
  "complete_banner_phase re ex s =
     (if \<not> sp_banner_grab (sk_plan s) then pureS (Inr s)
      else grab_banners re ex (pending_banner_ports (first_endpoint s)) s)"

section \<open>Resuming\<close>

definition run_phases ::
    "runner_env \<Rightarrow> executor \<Rightarrow> session_checkpoint \<Rightarrow> session_checkpoint runner_action" where
  "run_phases re ex s =
     thenS raise_if_cancelled (\<lambda>_.
     thenS (complete_scan_phase re ex s) (\<lambda>s1.
     thenS (complete_banner_phase re ex s1) (\<lambda>s2.
     thenS (replace_checkpoint re s2 SS_COMPLETED (first_endpoint s2) None) (\<lambda>s3.
       persist_next re s3))))"

definition is_session_error :: "exc \<Rightarrow> bool" where
  "is_session_error e \<longleftrightarrow>
     e \<in> set [SingleTargetScopeError, SessionCheckpointNotFoundError, SessionCheckpointIntegrityError,
       SessionCheckpointCompatibilityError, SessionPersistenceError, SessionExecutionError]"

text \<open>The three handlers; what they raise themselves takes the place of the first exception.\<close>

definition store_cancelled :: "runner_env \<Rightarrow> string \<Rightarrow> unit runner_action" where
  "store_cancelled re reason =
     thenS (on_store (load_checkpoint require_single_target_plan (re_session re))) (\<lambda>latest.
     thenS (replace_checkpoint re latest SS_CANCELLED (first_endpoint latest) (Some reason)) (\<lambda>s.
     thenS (persist_next re s) (\<lambda>_. pureS (Inr ()))))"

definition store_failed :: "runner_env \<Rightarrow> string \<Rightarrow> unit runner_action" where
  "store_failed re reason =
     thenS (on_store (load_checkpoint require_single_target_plan (re_session re))) (\<lambda>latest.
     let e = first_endpoint latest
     in thenS (pureS (make_progress (re_session re) (ep_identity e) (ep_completed_results e)
          (ep_pending_ports e) (ep_completed_banner_ports e) (Some reason))) (\<lambda>e'.
        thenS (replace_checkpoint re latest SS_FAILED e' (Some reason)) (\<lambda>s.
        thenS (persist_next re s) (\<lambda>_. pureS (Inr ())))))"

definition handle_failure :: "runner_env \<Rightarrow> exc \<Rightarrow> session_checkpoint runner_action" where
  "handle_failure re e =
     (if e = Killed then pureS (Inl Killed)
      else if e = ScanCancelledError
      then thenS (store_cancelled re (normalize_error re e)) (\<lambda>_. pureS (Inl e))
      else if e = KeyboardInterrupt
      then thenS (store_cancelled re ''interrupted_by_keyboard'') (\<lambda>_. pureS (Inl e))
      else thenS (store_failed re (normalize_error re e)) (\<lambda>_.
             pureS (Inl (if is_session_error e then e else SessionExecutionError))))"

definition guarded :: "('s, 'a) action \<Rightarrow> (exc \<Rightarrow> ('s, 'a) action) \<Rightarrow> ('s, 'a) action" where
  "guarded m h = (\<lambda>\<sigma>. case m \<sigma> of (Inl e, \<tau>) \<Rightarrow> h e \<tau> | (Inr x, \<tau>) \<Rightarrow> (Inr x, \<tau>))"

definition check_expected ::
    "session_env \<Rightarrow> session_checkpoint \<Rightarrow> scan_plan option \<Rightarrow> exc + unit" where
  "check_expected env s expected =
     bindE (require_single_target_plan (sk_plan s)) (\<lambda>_.
       case expected of
         None \<Rightarrow> Inr ()
       | Some p \<Rightarrow>
           bindE (require_single_target_plan p) (\<lambda>_.
             if fingerprint env (sk_plan s) \<noteq> fingerprint env p
             then Inl SessionCheckpointCompatibilityError else Inr ()))"

definition resume ::
    "runner_env \<Rightarrow> executor \<Rightarrow> scan_plan option \<Rightarrow> session_checkpoint runner_action" where
  "resume re ex expected =
     thenS (on_store (load_checkpoint require_single_target_plan (re_session re))) (\<lambda>s.
     thenS (pureS (check_expected (re_session re) s expected)) (\<lambda>_.
       if sk_status s = SS_COMPLETED then pureS (Inr s)
       else thenS (transition_to_running re s) (\<lambda>current.
         guarded (run_phases re ex current) (handle_failure re))))"

definition run_session ::
    "runner_env \<Rightarrow> executor \<Rightarrow> scan_plan \<Rightarrow> string \<Rightarrow> session_checkpoint runner_action" where
  "run_session re ex plan identifier =
     thenS (create_session re plan identifier) (\<lambda>_. resume re ex (Some plan))"

section \<open>Triples\<close>

text \<open>
  From a state with \<open>P\<close>, a value leads to \<open>Q\<close> and an exception to \<open>E\<close>.
\<close>

definition triple ::
    "('s \<Rightarrow> bool) \<Rightarrow> ('s, 'a) action \<Rightarrow> ('a \<Rightarrow> 's \<Rightarrow> bool) \<Rightarrow> ('s \<Rightarrow> bool) \<Rightarrow> bool" where
  "triple P m Q E \<longleftrightarrow>
     (\<forall>\<sigma> r \<sigma>'. P \<sigma> \<longrightarrow> m \<sigma> = (r, \<sigma>') \<longrightarrow> (case r of Inl e \<Rightarrow> E \<sigma>' | Inr x \<Rightarrow> Q x \<sigma>'))"

named_theorems triple_rules \<open>composition of triples\<close>

lemma tripleI:
  "(\<And>\<sigma> r \<sigma>'. P \<sigma> \<Longrightarrow> m \<sigma> = (r, \<sigma>') \<Longrightarrow> (case r of Inl e \<Rightarrow> E \<sigma>' | Inr x \<Rightarrow> Q x \<sigma>')) \<Longrightarrow> triple P m Q E"
  by (simp add: triple_def)

lemma tripleD:
  "triple P m Q E \<Longrightarrow> P \<sigma> \<Longrightarrow> m \<sigma> = (r, \<sigma>') \<Longrightarrow> (case r of Inl e \<Rightarrow> E \<sigma>' | Inr x \<Rightarrow> Q x \<sigma>')"
  by (simp add: triple_def)

lemma triple_then [triple_rules]:
  assumes "triple P m R E" "\<And>x. triple (R x) (f x) Q E"
  shows "triple P (thenS m f) Q E"
  using assms by (fastforce simp: triple_def thenS_run split: sum.splits)

lemma triple_pure [triple_rules]:
  "(\<And>\<sigma> x. P \<sigma> \<Longrightarrow> v = Inr x \<Longrightarrow> Q x \<sigma>) \<Longrightarrow> (\<And>\<sigma>. P \<sigma> \<Longrightarrow> E \<sigma>) \<Longrightarrow> triple P (pureS v) Q E"
  by (auto simp: triple_def split: sum.splits)

lemma triple_weaken:
  "triple P m Q E \<Longrightarrow> (\<And>\<sigma>. P' \<sigma> \<Longrightarrow> P \<sigma>) \<Longrightarrow> (\<And>x \<sigma>. Q x \<sigma> \<Longrightarrow> Q' x \<sigma>) \<Longrightarrow> (\<And>\<sigma>. E \<sigma> \<Longrightarrow> E' \<sigma>) \<Longrightarrow>
   triple P' m Q' E'"
  by (fastforce simp: triple_def split: sum.splits)

lemma triple_guarded [triple_rules]:
  "triple P m Q R \<Longrightarrow> (\<And>e. triple R (h e) Q E) \<Longrightarrow> triple P (guarded m h) Q E"
  by (fastforce simp: triple_def guarded_def split: sum.splits prod.splits)

lemma triple_assume: "(\<And>\<sigma>. P \<sigma> \<Longrightarrow> A) \<Longrightarrow> (A \<Longrightarrow> triple P m Q E) \<Longrightarrow> triple P m Q E"
  by (auto simp: triple_def)

section \<open>Progress is kept\<close>

text \<open>
  A later state of an endpoint keeps every completed result as it is. The one change it may make
  is the banner of a port whose banner had not been completed before and has been since; what
  was completed stays completed.
\<close>

definition result_kept :: "scan_result \<Rightarrow> scan_result \<Rightarrow> bool" where
  "result_kept r r' \<longleftrightarrow> (\<exists>b. r' = r\<lparr>sr_banner := b\<rparr>)"

definition newly_bannered :: "endpoint_progress \<Rightarrow> int set \<Rightarrow> int \<Rightarrow> bool" where
  "newly_bannered e ports port \<longleftrightarrow> port \<in> ports \<and> port \<notin> set (ep_completed_banner_ports e)"

definition result_carried :: "endpoint_progress \<Rightarrow> int set \<Rightarrow> scan_result \<Rightarrow> scan_result \<Rightarrow> bool" where
  "result_carried e ports r r' \<longleftrightarrow> r' = r \<or> newly_bannered e ports (sr_port r) \<and> result_kept r r'"

definition progress_extends :: "endpoint_progress \<Rightarrow> endpoint_progress \<Rightarrow> bool" where
  "progress_extends e e' \<longleftrightarrow>
     ep_identity e' = ep_identity e \<and>
     (\<forall>r \<in> set (ep_completed_results e). \<exists>r' \<in> set (ep_completed_results e').
        result_carried e (set (ep_completed_banner_ports e')) r r') \<and>
     set (ep_completed_banner_ports e) \<subseteq> set (ep_completed_banner_ports e')"

definition session_extends :: "session_checkpoint \<Rightarrow> session_checkpoint \<Rightarrow> bool" where
  "session_extends s s' \<longleftrightarrow>
     sk_session_id s' = sk_session_id s \<and> sk_plan s' = sk_plan s \<and>
     sk_created_at s' = sk_created_at s \<and> sk_sequence s \<le> sk_sequence s' \<and>
     progress_extends (first_endpoint s) (first_endpoint s')"

lemma result_kept_refl [simp]: "result_kept r r"
  unfolding result_kept_def by (rule exI [of _ "sr_banner r"]) simp

lemma result_kept_trans: "result_kept r q \<Longrightarrow> result_kept q p \<Longrightarrow> result_kept r p"
  by (auto simp: result_kept_def)

lemma progress_extends_refl [simp]: "progress_extends e e"
  unfolding progress_extends_def result_carried_def by blast

lemma result_carried_kept: "result_carried e ps r r' \<Longrightarrow> result_kept r r'"
  by (auto simp: result_carried_def)

lemma result_kept_port: "result_kept r r' \<Longrightarrow> sr_port r' = sr_port r"
  by (auto simp: result_kept_def)

lemma result_carried_trans:
  assumes "result_carried e (set (ep_completed_banner_ports f)) r x" "result_carried f ps x z"
    "set (ep_completed_banner_ports e) \<subseteq> set (ep_completed_banner_ports f)"
    "set (ep_completed_banner_ports f) \<subseteq> ps"
  shows "result_carried e ps r z"
proof (cases "x = r")
  case True
  with assms(2,3) show ?thesis by (auto simp: result_carried_def newly_bannered_def)
next
  case False
  with assms(1) have x: "newly_bannered e (set (ep_completed_banner_ports f)) (sr_port r)" "result_kept r x"
    by (auto simp: result_carried_def)
  have "result_kept r z" using x(2) result_carried_kept [OF assms(2)] by (rule result_kept_trans)
  with x(1) assms(4) show ?thesis by (auto simp: result_carried_def newly_bannered_def)
qed

lemma progress_extends_banners:
  "progress_extends e e' \<Longrightarrow> set (ep_completed_banner_ports e) \<subseteq> set (ep_completed_banner_ports e')"
  by (simp add: progress_extends_def)

lemma progress_extends_trans:
  "progress_extends e f \<Longrightarrow> progress_extends f g \<Longrightarrow> progress_extends e g"
proof -
  assume ef: "progress_extends e f" and fg: "progress_extends f g"
  have "\<exists>z \<in> set (ep_completed_results g). result_carried e (set (ep_completed_banner_ports g)) r z"
    if "r \<in> set (ep_completed_results e)" for r
  proof -
    from ef that obtain x where x: "x \<in> set (ep_completed_results f)"
      "result_carried e (set (ep_completed_banner_ports f)) r x" by (auto simp: progress_extends_def)
    from fg x(1) obtain z where z: "z \<in> set (ep_completed_results g)"
      "result_carried f (set (ep_completed_banner_ports g)) x z" by (auto simp: progress_extends_def)
    have "result_carried e (set (ep_completed_banner_ports g)) r z"
      by (rule result_carried_trans [OF x(2) z(2) progress_extends_banners [OF ef] progress_extends_banners [OF fg]])
    with z(1) show ?thesis by blast
  qed
  moreover have "ep_identity g = ep_identity e" using ef fg by (simp add: progress_extends_def)
  moreover have "set (ep_completed_banner_ports e) \<subseteq> set (ep_completed_banner_ports g)"
    using progress_extends_banners [OF ef] progress_extends_banners [OF fg] by simp
  ultimately show ?thesis unfolding progress_extends_def by blast
qed

lemma session_extends_refl [simp]: "session_extends s s"
  by (simp add: session_extends_def)

lemma session_extends_trans:
  "session_extends s t \<Longrightarrow> session_extends t u \<Longrightarrow> session_extends s u"
  unfolding session_extends_def using progress_extends_trans by fastforce

section \<open>Building progress\<close>

lemma ports_loop_ints:
  "ports_loop (map PInt ps) seen = Inr qs \<Longrightarrow> qs = seen @ ps"
  by (induction ps arbitrary: seen) (fastforce simp: run require_int_Inr)+

lemma normalize_ports_ints:
  "normalize_ports b (PList (map PInt ps)) = Inr qs \<Longrightarrow> qs = sort ps"
  by (auto simp: normalize_ports_def run require_iterable_def dest!: ports_loop_ints)

lemma canonicalize_banner:
  assumes "wf_session_identity t" "wf_port_result t r" "result_kept r q"
    "canonicalize_port_result env (scan_result_to_dict q) t = Inr p"
  shows "p = q"
proof -
  from assms(3) obtain b where q: "q = r\<lparr>sr_banner := b\<rparr>" by (auto simp: result_kept_def)
  obtain d where d: "scan_result_to_dict q = PDict d" by (simp add: scan_result_to_dict_def obj_def)
  from assms(4) obtain reason where "check_result_values d = Inr reason"
    unfolding d canonicalize_port_result_def by (simp only: bindE_Inr require_mapping_Inr pyval.inject) blast
  from check_result_valuesD(3) [OF this] have "b = PNone \<or> text_field 300 b"
    using dict_get_of_obj [OF d [unfolded scan_result_to_dict_def]] by (auto simp: q)
  then have "wf_port_result t q"
    using assms(2) by (auto simp: q wf_port_result_def wf_scan_result_def wf_address_def)
  from canonicalize_id [OF assms(1) this] assms(4) show ?thesis by simp
qed

lemma make_progress_Inr:
  assumes "make_progress env t rs pend bp err = Inr e'" "wf_session_identity t"
  shows "wf_progress e'" "ep_identity e' = t" "ep_pending_ports e' = sort pend"
    "ep_completed_banner_ports e' = sort bp"
    "\<exists>qs. map_err (\<lambda>r. canonicalize_port_result env (scan_result_to_dict r) t) rs = Inr qs \<and>
       ep_completed_results e' = sort_key session_result_key qs"
proof -
  from assms(1) show w: "wf_progress e'"
    unfolding make_progress_def by (rule endpoint_progress_init_ok)
  from assms have "ep_identity e' = t \<and> ep_pending_ports e' = sort pend \<and>
      ep_completed_banner_ports e' = sort bp \<and>
      (\<exists>qs. map_err (\<lambda>r. canonicalize_port_result env (scan_result_to_dict r) t) rs = Inr qs \<and>
       ep_completed_results e' = sort_key session_result_key qs)"
    unfolding make_progress_def endpoint_progress_init_def Let_def
    by (simp only: bindE_Inr check_that_Inr normalize_target_identity_id)
      (auto simp: require_iterable_def map_err_comp dest!: normalize_ports_ints)
  then show "ep_identity e' = t" "ep_pending_ports e' = sort pend"
    "ep_completed_banner_ports e' = sort bp"
    "\<exists>qs. map_err (\<lambda>r. canonicalize_port_result env (scan_result_to_dict r) t) rs = Inr qs \<and>
       ep_completed_results e' = sort_key session_result_key qs"
    by blast+
qed

lemma make_progress_extends:
  assumes "make_progress env (ep_identity e) rs pend bp err = Inr e'" "wf_progress e"
    "\<And>r. r \<in> set (ep_completed_results e) \<Longrightarrow> \<exists>q \<in> set rs. result_carried e (set bp) r q"
    "set (ep_completed_banner_ports e) \<subseteq> set bp"
  shows "progress_extends e e'"
proof -
  have w: "wf_session_identity (ep_identity e)" using assms(2) by (simp add: wf_progress_def)
  note mk = make_progress_Inr [OF assms(1) w]
  from mk(5) obtain qs where qs:
    "map_err (\<lambda>r. canonicalize_port_result env (scan_result_to_dict r) (ep_identity e)) rs = Inr qs"
    "ep_completed_results e' = sort_key session_result_key qs" by blast
  have "\<exists>r' \<in> set (ep_completed_results e'). result_carried e (set (ep_completed_banner_ports e')) r r'"
    if r: "r \<in> set (ep_completed_results e)" for r
  proof -
    from assms(3) [OF r] obtain q where q: "q \<in> set rs" "result_carried e (set bp) r q" by blast
    from map_err_Inr_img [OF qs(1) q(1)] obtain p where p: "p \<in> set qs"
      "canonicalize_port_result env (scan_result_to_dict q) (ep_identity e) = Inr p" by blast
    have "wf_port_result (ep_identity e) r"
      using assms(2) r by (simp add: wf_progress_def list_all_iff)
    from canonicalize_banner [OF w this result_carried_kept [OF q(2)] p(2)] p(1) q(2) show ?thesis
      by (auto simp: qs(2) mk(4))
  qed
  then show ?thesis using assms(4) by (simp add: progress_extends_def mk)
qed

section \<open>Where a run stands\<close>

lemma confirmed_good:
  assumes "env_ok env" "confirmed require_single_target_plan env d s"
  shows "good_checkpoint require_single_target_plan env s"
proof -
  from assms(2) obtain p cb mb where c: "check_generation require_single_target_plan env p cb mb = Inr s"
    by (auto simp: confirmed_def)
  then obtain m where "decode_documents env cb mb = Inr (s, m)"
    and r: "require_single_target_plan (sk_plan s) = Inr ()"
    by (auto simp: check_generation_def run integrity_def)
  then obtain v where "session_checkpoint_from_dict env v = Inr s"
    by (auto simp: decode_documents_def run checkpoint_from_json_def)
  with assms(1) r show ?thesis
    by (auto simp: good_checkpoint_def env_ok_def intro: checkpoint_accepted_wf)
qed

lemma single_plan_endpoint:
  assumes "good_checkpoint require_single_target_plan env s"
  shows "sk_endpoints s = [first_endpoint s]"
proof -
  have "length (sk_endpoints s) = 1"
    using assms
    by (auto simp: good_checkpoint_def wf_checkpoint_def endpoints_match_def
        require_single_target_plan_def split: if_splits)
  then show ?thesis by (cases "sk_endpoints s") (auto simp: first_endpoint_def)
qed

lemma good_progress:
  assumes "good_checkpoint require_single_target_plan env s"
  shows "wf_progress (first_endpoint s)" "ports_accounted (sk_plan s) (first_endpoint s)"
    "wf_plan (sk_plan s)" "wf_session_identity (ep_identity (first_endpoint s))"
  using assms single_plan_endpoint [OF assms]
  by (auto simp: good_checkpoint_def wf_checkpoint_def list_all_iff wf_progress_def)

text \<open>The store holds \<open>s\<close>, a successor of where the run began.\<close>

definition stands :: "runner_env \<Rightarrow> session_checkpoint \<Rightarrow> session_checkpoint \<Rightarrow> runner_state \<Rightarrow> bool" where
  "stands re s0 s \<sigma> \<longleftrightarrow>
     confirmed require_single_target_plan (re_session re) (st_dir (rn_store \<sigma>)) s \<and> session_extends s0 s"

definition safe :: "runner_env \<Rightarrow> session_checkpoint \<Rightarrow> runner_state \<Rightarrow> bool" where
  "safe re s0 \<sigma> \<longleftrightarrow> (\<exists>s. stands re s0 s \<sigma>)"

lemma stands_safe: "stands re s0 s \<sigma> \<Longrightarrow> safe re s0 \<sigma>"
  by (auto simp: safe_def)

text \<open>\<open>s'\<close> may be persisted next after \<open>s\<close>.\<close>

definition successor :: "runner_env \<Rightarrow> session_checkpoint \<Rightarrow> session_checkpoint \<Rightarrow> bool" where
  "successor re s s' \<longleftrightarrow>
     good_checkpoint require_single_target_plan (re_session re) s' \<and> session_extends s s' \<and> sk_sequence s' = sk_sequence s + 1"

lemma make_checkpoint_Inr:
  assumes "make_checkpoint env (PStr (sk_session_id s)) (sk_plan s) st e (sk_created_at s) now n err = Inr s'"
    "good_checkpoint require_single_target_plan env s" "wf_progress e"
  shows "good_checkpoint require_single_target_plan env s'" "sk_session_id s' = sk_session_id s" "sk_plan s' = sk_plan s"
    "sk_created_at s' = sk_created_at s" "sk_sequence s' = n" "sk_status s' = st"
    "first_endpoint s' = e"
proof -
  have g: "wf_plan (sk_plan s)" "canonical_uuid (sk_session_id s)"
    "wf_timestamp env (sk_created_at s)" "iso_ok env" "env_ok env"
    "require_single_target_plan (sk_plan s) = Inr ()"
    using assms(2) by (simp_all add: good_checkpoint_def wf_checkpoint_def env_ok_def)
  have w: "wf_checkpoint env s'"
    using session_checkpoint_init_ok [OF g(4) assms(1) [unfolded make_checkpoint_def]] g(1) assms(3)
    by simp
  have "sk_session_id s' = sk_session_id s \<and> sk_plan s' = sk_plan s \<and>
      sk_created_at s' = sk_created_at s \<and> sk_sequence s' = n \<and> sk_status s' = st \<and>
      first_endpoint s' = e"
    using assms(1) g(2,3) unfolding make_checkpoint_def session_checkpoint_init_def
    by (simp only: bindE_Inr check_that_Inr)
      (auto simp: coerce_plan_def coerce_endpoints_def wf_timestamp_def first_endpoint_def require_int_Inr)
  with w g show "good_checkpoint require_single_target_plan env s'" "sk_session_id s' = sk_session_id s" "sk_plan s' = sk_plan s"
    "sk_created_at s' = sk_created_at s" "sk_sequence s' = n" "sk_status s' = st"
    "first_endpoint s' = e"
    by (simp_all add: good_checkpoint_def)
qed

lemma triple_clock: "triple (stands re s0 s) (clock re) (\<lambda>_. stands re s0 s) (safe re s0)"
  by (auto simp: triple_def clock_def stands_def)

lemma triple_cancel [triple_rules]:
  "triple (stands re s0 s) raise_if_cancelled (\<lambda>_. stands re s0 s) (safe re s0)"
  by (auto simp: triple_def raise_if_cancelled_def stands_def safe_def split: list.splits)

lemma triple_replace:
  assumes "env_ok (re_session re)" "wf_progress e" "progress_extends (first_endpoint s) e"
  shows "triple (stands re s0 s) (replace_checkpoint re s st e err)
    (\<lambda>s' \<sigma>. stands re s0 s \<sigma> \<and> successor re s s' \<and> sk_status s' = st \<and> first_endpoint s' = e)
    (safe re s0)"
  unfolding replace_checkpoint_def
proof (rule triple_then [OF triple_clock], rule triple_pure)
  fix now \<sigma> s'
  assume \<sigma>: "stands re s0 s \<sigma>" and mk: "make_checkpoint (re_session re) (PStr (sk_session_id s))
      (sk_plan s) st e (sk_created_at s) now (sk_sequence s + 1) err = Inr s'"
  have g: "good_checkpoint require_single_target_plan (re_session re) s"
    using confirmed_good [OF assms(1)] \<sigma> by (auto simp: stands_def)
  from make_checkpoint_Inr [OF mk g assms(2)] \<sigma> assms(3)
  show "stands re s0 s \<sigma> \<and> successor re s s' \<and> sk_status s' = st \<and> first_endpoint s' = e"
    by (simp add: successor_def session_extends_def)
qed (rule stands_safe)

lemma triple_persist:
  assumes "successor re s s'"
  shows "triple (stands re s0 s) (persist_next re s') (\<lambda>t \<sigma>. t = s' \<and> stands re s0 s' \<sigma>) (safe re s0)"
proof (rule tripleI)
  fix \<sigma> r \<sigma>'
  assume \<sigma>: "stands re s0 s \<sigma>" and run: "persist_next re s' \<sigma> = (r, \<sigma>')"
  have g: "good_checkpoint require_single_target_plan (re_session re) s'" "session_extends s s'"
    using assms by (simp_all add: successor_def)
  obtain q \<tau> where p: "persist require_single_target_plan (re_session re) s' (rn_store \<sigma>) = (q, \<tau>)"
    by (cases "persist require_single_target_plan (re_session re) s' (rn_store \<sigma>)")
  have ext: "session_extends s0 s" "session_extends s0 s'"
    using \<sigma> g(2) session_extends_trans by (auto simp: stands_def)
  from run p have r: "\<sigma>' = \<sigma>\<lparr>rn_store := \<tau>\<rparr>" "r = bindE q (\<lambda>_. Inr s')"
    by (auto simp: persist_next_def thenS_def on_store_def pureS_def split: sum.splits)
  from \<sigma> have "confirmed require_single_target_plan (re_session re) (st_dir (rn_store \<sigma>)) s" by (simp add: stands_def)
  from v1.put_atomic [OF g(1) p this] v1.put_holds [OF TrueI g(1)] p ext
  show "case r of Inl e \<Rightarrow> safe re s0 \<sigma>' | Inr t \<Rightarrow> t = s' \<and> stands re s0 s' \<sigma>'"
    by (cases q) (auto simp: r safe_def stands_def)
qed

lemma triple_load:
  "triple (safe re s0) (on_store (load_checkpoint require_single_target_plan (re_session re))) (stands re s0) (safe re s0)"
proof (rule tripleI)
  fix \<sigma> r \<sigma>'
  assume "safe re s0 \<sigma>" "on_store (load_checkpoint require_single_target_plan (re_session re)) \<sigma> = (r, \<sigma>')"
  then obtain s \<tau> where s: "stands re s0 s \<sigma>"
    and l: "load_checkpoint require_single_target_plan (re_session re) (rn_store \<sigma>) = (r, \<tau>)" "\<sigma>' = \<sigma>\<lparr>rn_store := \<tau>\<rparr>"
    by (auto simp: safe_def on_store_def split: prod.splits)
  have d: "st_dir (rn_store \<sigma>') = st_dir (rn_store \<sigma>)"
    using load_checkpoint_run [OF l(1)] by (simp add: l(2))
  show "case r of Inl e \<Rightarrow> safe re s0 \<sigma>' | Inr t \<Rightarrow> stands re s0 t \<sigma>'"
  proof (cases r)
    case (Inl e)
    with s d show ?thesis by (auto simp: safe_def stands_def)
  next
    case (Inr t)
    with load_checkpoint_run [OF l(1)] s have "t = s"
      by (auto simp: stands_def intro: confirmed_unique)
    with Inr s d show ?thesis by (simp add: stands_def)
  qed
qed

section \<open>The phases\<close>

lemma triple_keep: "(\<And>\<sigma>. P \<sigma> \<Longrightarrow> E \<sigma>) \<Longrightarrow> triple P (pureS v) (\<lambda>_. P) E"
  by (rule triple_pure)

lemma triple_raise: "(\<And>\<sigma>. P \<sigma> \<Longrightarrow> E \<sigma>) \<Longrightarrow> triple P (pureS (Inl e)) Q E"
  by (rule triple_pure) simp_all

lemma triple_if:
  "(b \<Longrightarrow> triple P m Q E) \<Longrightarrow> (\<not> b \<Longrightarrow> triple P n Q E) \<Longrightarrow> triple P (if b then m else n) Q E"
  by simp

text \<open>Building, numbering and persisting one more checkpoint.\<close>

lemma triple_advance:
  assumes "env_ok (re_session re)"
    "\<And>e'. good_checkpoint require_single_target_plan (re_session re) s \<Longrightarrow> mk = Inr e' \<Longrightarrow>
       wf_progress e' \<and> progress_extends (first_endpoint s) e'"
  shows "triple (stands re s0 s)
    (thenS (pureS mk) (\<lambda>e'. thenS (replace_checkpoint re s st e' err) (\<lambda>s'. persist_next re s')))
    (\<lambda>s' \<sigma>. stands re s0 s' \<sigma> \<and> sk_status s' = st) (safe re s0)"
proof (rule triple_then)
  show "triple (stands re s0 s) (pureS mk)
      (\<lambda>e' \<sigma>. stands re s0 s \<sigma> \<and> wf_progress e' \<and> progress_extends (first_endpoint s) e') (safe re s0)"
    using assms(2) confirmed_good [OF assms(1)]
    by (intro triple_pure) (auto simp: stands_def safe_def)
next
  fix e'
  show "triple (\<lambda>\<sigma>. stands re s0 s \<sigma> \<and> wf_progress e' \<and> progress_extends (first_endpoint s) e')
      (thenS (replace_checkpoint re s st e' err) (\<lambda>s'. persist_next re s'))
      (\<lambda>s' \<sigma>. stands re s0 s' \<sigma> \<and> sk_status s' = st) (safe re s0)"
  proof (rule triple_assume [where A = "wf_progress e' \<and> progress_extends (first_endpoint s) e'"])
    assume e: "wf_progress e' \<and> progress_extends (first_endpoint s) e'"
    have "triple (stands re s0 s) (thenS (replace_checkpoint re s st e' err) (\<lambda>s'. persist_next re s'))
      (\<lambda>s' \<sigma>. stands re s0 s' \<sigma> \<and> sk_status s' = st) (safe re s0)"
    proof (rule triple_then [OF triple_replace [OF assms(1)]])
      show "triple (\<lambda>\<sigma>. stands re s0 s \<sigma> \<and> successor re s s' \<and> sk_status s' = st \<and> first_endpoint s' = e')
          (persist_next re s') (\<lambda>s' \<sigma>. stands re s0 s' \<sigma> \<and> sk_status s' = st) (safe re s0)" for s'
      proof (rule triple_assume [where A = "successor re s s' \<and> sk_status s' = st"])
        assume "successor re s s' \<and> sk_status s' = st"
        then show "triple (\<lambda>\<sigma>. stands re s0 s \<sigma> \<and> successor re s s' \<and> sk_status s' = st \<and>
              first_endpoint s' = e')
            (persist_next re s') (\<lambda>s' \<sigma>. stands re s0 s' \<sigma> \<and> sk_status s' = st) (safe re s0)"
          by (intro triple_weaken [OF triple_persist [of re s s' s0]]) auto
      qed simp
    qed (use e in auto)
    then show "triple (\<lambda>\<sigma>. stands re s0 s \<sigma> \<and> wf_progress e' \<and> progress_extends (first_endpoint s) e')
      (thenS (replace_checkpoint re s st e' err) (\<lambda>s'. persist_next re s'))
      (\<lambda>s' \<sigma>. stands re s0 s' \<sigma> \<and> sk_status s' = st) (safe re s0)"
      by (rule triple_weaken) auto
  qed simp
qed

lemma make_progress_keeps:
  assumes "make_progress env (ep_identity e) rs pend bp err = Inr e'" "wf_progress e"
    "set (ep_completed_results e) \<subseteq> set rs" "set (ep_completed_banner_ports e) \<subseteq> set bp"
  shows "wf_progress e' \<and> progress_extends e e'"
proof
  show "wf_progress e'"
    using make_progress_Inr(1) [OF assms(1)] assms(2) by (simp add: wf_progress_def)
  show "progress_extends e e'"
    by (rule make_progress_extends [OF assms(1,2) _ assms(4)]) (use assms(3) in \<open>auto simp: result_carried_def\<close>)
qed

lemma triple_transition:
  assumes "env_ok (re_session re)"
  shows "triple (stands re s0 s) (transition_to_running re s)
    (\<lambda>s' \<sigma>. stands re s0 s' \<sigma> \<and> sk_status s' = SS_RUNNING) (safe re s0)"
  unfolding transition_to_running_def Let_def
  by (rule triple_advance [OF assms]) (rule make_progress_keeps, auto intro: good_progress(1))

lemma triple_record:
  assumes "env_ok (re_session re)" "identity = ep_identity (first_endpoint (fst st))"
  shows "triple (stands re s0 (fst st)) (record_result re identity raw st)
    (\<lambda>st' \<sigma>. stands re s0 (fst st') \<sigma>) (safe re s0)"
proof -
  let ?s = "fst st" and ?e = "first_endpoint (fst st)"
  have adv: "triple (stands re s0 ?s)
      (thenS (pureS (make_progress (re_session re) identity (ep_completed_results ?e @ [r])
                [p \<leftarrow> ep_pending_ports ?e. p \<noteq> sr_port r] (ep_completed_banner_ports ?e) None)) (\<lambda>e'.
              thenS (replace_checkpoint re ?s SS_RUNNING e' None) (\<lambda>s'. persist_next re s')))
      (\<lambda>s' \<sigma>. stands re s0 s' \<sigma> \<and> sk_status s' = SS_RUNNING) (safe re s0)" for r
  proof (rule triple_advance [OF assms(1)])
    fix e' assume g: "good_checkpoint require_single_target_plan (re_session re) ?s"
      and m: "make_progress (re_session re) identity (ep_completed_results ?e @ [r])
                [p \<leftarrow> ep_pending_ports ?e. p \<noteq> sr_port r] (ep_completed_banner_ports ?e) None = Inr e'"
    show "wf_progress e' \<and> progress_extends ?e e'"
      by (rule make_progress_keeps [OF m [unfolded assms(2)] good_progress(1) [OF g]]) auto
  qed
  have adv2: "triple (stands re s0 ?s)
      (thenS (pureS (make_progress (re_session re) identity (ep_completed_results ?e @ [r])
                [p \<leftarrow> ep_pending_ports ?e. p \<noteq> sr_port r] (ep_completed_banner_ports ?e) None)) (\<lambda>e'.
              thenS (replace_checkpoint re ?s SS_RUNNING e' None) (\<lambda>s'.
              thenS (persist_next re s') (\<lambda>t. pureS (Inr (t, sr_port r # snd st))))))
      (\<lambda>st' \<sigma>. stands re s0 (fst st') \<sigma>) (safe re s0)" for r
    unfolding thenS_assoc [symmetric]
  proof (rule triple_then [OF adv [unfolded thenS_assoc [symmetric]]])
    show "triple (\<lambda>\<sigma>. stands re s0 s' \<sigma> \<and> sk_status s' = SS_RUNNING)
        (pureS (Inr (s', sr_port r # snd st))) (\<lambda>st' \<sigma>. stands re s0 (fst st') \<sigma>) (safe re s0)" for s'
      by (rule triple_pure) (auto intro: stands_safe)
  qed
  show ?thesis
    unfolding record_result_def Let_def
    by (rule triple_then [OF triple_cancel], rule triple_then [OF triple_keep [OF stands_safe]],
        assumption, intro triple_if triple_raise adv2 stands_safe)
qed

lemma stands_identity:
  "stands re s0 s \<sigma> \<Longrightarrow> ep_identity (first_endpoint s) = ep_identity (first_endpoint s0)"
  by (simp add: stands_def session_extends_def progress_extends_def)

lemma triple_record_all:
  assumes "env_ok (re_session re)" "identity = ep_identity (first_endpoint s0)"
  shows "triple (stands re s0 (fst st)) (record_all re identity raws st)
    (\<lambda>st' \<sigma>. stands re s0 (fst st') \<sigma>) (safe re s0)"
proof (induction raws arbitrary: st)
  case Nil
  show ?case by (auto intro: triple_pure stands_safe)
next
  case (Cons raw raws)
  have "triple (stands re s0 (fst st)) (record_result re identity raw st)
      (\<lambda>st' \<sigma>. stands re s0 (fst st') \<sigma>) (safe re s0)"
    by (rule triple_assume [of _ "identity = ep_identity (first_endpoint (fst st))"])
      (auto simp: assms(2) dest: stands_identity intro: triple_record [OF assms(1)])
  then show ?case by (auto intro: triple_then Cons.IH)
qed

lemma triple_scan_phase:
  assumes "env_ok (re_session re)"
  shows "triple (stands re s0 s) (complete_scan_phase re ex s)
    (\<lambda>s' \<sigma>. stands re s0 s' \<sigma> \<and> ep_pending_ports (first_endpoint s') = []) (safe re s0)"
proof (rule triple_assume [of _ "ep_identity (first_endpoint s) = ep_identity (first_endpoint s0)"])
  assume i: "ep_identity (first_endpoint s) = ep_identity (first_endpoint s0)"
  let ?e = "first_endpoint s"
  obtain raws ending where x: "ex_scan ex (ep_identity ?e) (ep_pending_ports ?e) (sp_timeout_ms (sk_plan s))
      (min (sp_threads (sk_plan s)) (int (length (ep_pending_ports ?e)))) = (raws, ending)"
    by (meson surj_pair)
  have "triple (stands re s0 s)
      (thenS (record_all re (ep_identity ?e) raws (s, ep_completed_ports ?e)) (\<lambda>st.
       thenS (pureS (ended ending)) (\<lambda>_.
         if ep_pending_ports (first_endpoint (fst st)) \<noteq> []
         then pureS (Inl SessionExecutionError) else pureS (Inr (fst st)))))
      (\<lambda>s' \<sigma>. stands re s0 s' \<sigma> \<and> ep_pending_ports (first_endpoint s') = []) (safe re s0)"
    using triple_record_all [OF assms i, of "(s, ep_completed_ports ?e)" raws]
    by (intro triple_then [where R = "\<lambda>st. stands re s0 (fst st)"]
        triple_then [OF triple_keep [OF stands_safe]] triple_if)
      (auto intro: triple_raise triple_pure stands_safe)
  then show ?thesis
    by (auto simp: complete_scan_phase_def Let_def x intro: triple_pure stands_safe)
qed (rule stands_identity)

lemma set_banner_kept: "result_kept r (set_banner p b r)"
  by (simp add: set_banner_def result_kept_def) (metis result_kept_def result_kept_refl)

lemma set_banner_carried:
  "newly_bannered e ports p \<Longrightarrow> result_carried e ports r (set_banner p b r)"
  using set_banner_kept by (auto simp: result_carried_def set_banner_def)

text \<open>The constructor refuses a port that occurs twice.\<close>

lemma make_progress_new_banner:
  assumes "make_progress env (ep_identity e) rs pend (ep_completed_banner_ports e @ [p]) err = Inr e'"
    "wf_session_identity (ep_identity e)"
  shows "newly_bannered e (set (ep_completed_banner_ports e @ [p])) p"
proof -
  note mk = make_progress_Inr [OF assms]
  have "distinct (sort (ep_completed_banner_ports e @ [p]))"
    using mk(1,4) by (simp add: wf_progress_def port_list_def)
  then show ?thesis by (simp add: newly_bannered_def)
qed

lemma open_ports_set_banner:
  "map sr_port (open_results (map (set_banner p b) rs)) = map sr_port (open_results rs)"
  by (induction rs) (auto simp: open_results_def set_banner_def)

lemma triple_grab_one:
  assumes "env_ok (re_session re)"
  shows "triple (stands re s0 s) (grab_one_banner re ex p s) (stands re s0) (safe re s0)"
proof -
  let ?e = "first_endpoint s"
  have adv: "triple (stands re s0 s)
      (thenS (pureS (make_progress (re_session re) (ep_identity ?e)
             (map (set_banner p b) (ep_completed_results ?e))
             (ep_pending_ports ?e) (ep_completed_banner_ports ?e @ [p]) None)) (\<lambda>e'.
           thenS (replace_checkpoint re s SS_RUNNING e' None) (\<lambda>s'. persist_next re s')))
      (\<lambda>s' \<sigma>. stands re s0 s' \<sigma> \<and> sk_status s' = SS_RUNNING) (safe re s0)" for b
  proof (rule triple_advance [OF assms])
    fix e' assume g: "good_checkpoint require_single_target_plan (re_session re) s"
      and m: "make_progress (re_session re) (ep_identity ?e)
             (map (set_banner p b) (ep_completed_results ?e))
             (ep_pending_ports ?e) (ep_completed_banner_ports ?e @ [p]) None = Inr e'"
    show "wf_progress e' \<and> progress_extends ?e e'"
    proof
      show "wf_progress e'" by (rule make_progress_Inr(1) [OF m good_progress(4) [OF g]])
      show "progress_extends ?e e'"
        using set_banner_carried [OF make_progress_new_banner [OF m good_progress(4) [OF g]]]
        by (intro make_progress_extends [OF m good_progress(1) [OF g]]) auto
    qed
  qed
  then have adv': "triple (stands re s0 s)
      (thenS (pureS (make_progress (re_session re) (ep_identity ?e)
             (map (set_banner p b) (ep_completed_results ?e))
             (ep_pending_ports ?e) (ep_completed_banner_ports ?e @ [p]) None)) (\<lambda>e'.
           thenS (replace_checkpoint re s SS_RUNNING e' None) (\<lambda>s'. persist_next re s')))
      (stands re s0) (safe re s0)" for b
    by (rule triple_weaken) auto
  show ?thesis
    unfolding grab_one_banner_def Let_def
    by (rule triple_then [OF triple_cancel], rule triple_then [OF triple_keep [OF stands_safe]],
        assumption, rule triple_then [OF triple_keep [OF stands_safe]], assumption,
        intro triple_if triple_raise adv' stands_safe)
qed

lemma triple_banners:
  assumes "env_ok (re_session re)"
  shows "triple (stands re s0 s) (grab_banners re ex ps s) (stands re s0) (safe re s0)"
proof (induction ps arbitrary: s)
  case Nil
  show ?case by (auto intro: triple_pure stands_safe)
next
  case (Cons p ps)
  show ?case by (auto intro: triple_then triple_grab_one [OF assms] Cons.IH)
qed

lemma triple_banner_phase:
  "env_ok (re_session re) \<Longrightarrow>
   triple (stands re s0 s) (complete_banner_phase re ex s) (stands re s0) (safe re s0)"
  unfolding complete_banner_phase_def
  by (intro triple_if triple_pure triple_banners) (auto intro: stands_safe)

text \<open>The last step builds no new progress: the endpoint stays as it is.\<close>

lemma triple_store_step:
  assumes "env_ok (re_session re)"
  shows "triple (stands re s0 s)
    (thenS (replace_checkpoint re s st (first_endpoint s) err) (\<lambda>s'. persist_next re s'))
    (\<lambda>s' \<sigma>. stands re s0 s' \<sigma> \<and> sk_status s' = st) (safe re s0)"
proof -
  have "triple (stands re s0 s)
    (thenS (pureS (Inr (first_endpoint s))) (\<lambda>e'.
       thenS (replace_checkpoint re s st e' err) (\<lambda>s'. persist_next re s')))
    (\<lambda>s' \<sigma>. stands re s0 s' \<sigma> \<and> sk_status s' = st) (safe re s0)"
    by (rule triple_advance [OF assms]) (auto intro: good_progress(1))
  moreover have "thenS (pureS (Inr (first_endpoint s))) (\<lambda>e'.
       thenS (replace_checkpoint re s st e' err) (\<lambda>s'. persist_next re s')) =
     thenS (replace_checkpoint re s st (first_endpoint s) err) (\<lambda>s'. persist_next re s')"
    by (rule ext) simp
  ultimately show ?thesis by simp
qed

lemma triple_run_phases:
  assumes "env_ok (re_session re)"
  shows "triple (stands re s0 s) (run_phases re ex s)
    (\<lambda>s' \<sigma>. stands re s0 s' \<sigma> \<and> sk_status s' = SS_COMPLETED) (safe re s0)"
proof -
  have scan: "triple (stands re s0 s) (complete_scan_phase re ex s) (stands re s0) (safe re s0)"
    by (rule triple_weaken [OF triple_scan_phase [OF assms]]) auto
  show ?thesis
    unfolding run_phases_def
    by (rule triple_then [OF triple_cancel], rule triple_then [OF scan],
        rule triple_then [OF triple_banner_phase [OF assms]], rule triple_store_step [OF assms])
qed

section \<open>The handlers\<close>

lemma triple_persist_then:
  assumes "triple P (thenS m (\<lambda>s. persist_next re s)) (\<lambda>s' \<sigma>. stands re s0 s' \<sigma> \<and> Q s') (safe re s0)"
  shows "triple P (thenS m (\<lambda>s. thenS (persist_next re s) (\<lambda>_. pureS (Inr ())))) (\<lambda>_. safe re s0) (safe re s0)"
  unfolding thenS_assoc [symmetric]
  by (rule triple_then [OF assms]) (auto intro: triple_pure stands_safe)

lemma triple_store_cancelled:
  assumes "env_ok (re_session re)"
  shows "triple (safe re s0) (store_cancelled re reason) (\<lambda>_. safe re s0) (safe re s0)"
  unfolding store_cancelled_def
  by (rule triple_then [OF triple_load], rule triple_persist_then [OF triple_store_step [OF assms]])

lemma triple_store_failed:
  assumes "env_ok (re_session re)"
  shows "triple (safe re s0) (store_failed re reason) (\<lambda>_. safe re s0) (safe re s0)"
  unfolding store_failed_def Let_def
proof (rule triple_then [OF triple_load])
  fix s
  let ?e = "first_endpoint s"
  have "triple (stands re s0 s) (thenS (pureS (make_progress (re_session re) (ep_identity ?e)
      (ep_completed_results ?e) (ep_pending_ports ?e) (ep_completed_banner_ports ?e) (Some reason))) (\<lambda>e'.
      thenS (replace_checkpoint re s SS_FAILED e' (Some reason)) (\<lambda>s'. persist_next re s')))
      (\<lambda>s' \<sigma>. stands re s0 s' \<sigma> \<and> sk_status s' = SS_FAILED) (safe re s0)"
    by (rule triple_advance [OF assms]) (rule make_progress_keeps, auto intro: good_progress(1))
  then show "triple (stands re s0 s) (thenS (pureS (make_progress (re_session re) (ep_identity ?e)
      (ep_completed_results ?e) (ep_pending_ports ?e) (ep_completed_banner_ports ?e) (Some reason))) (\<lambda>e'.
      thenS (replace_checkpoint re s SS_FAILED e' (Some reason)) (\<lambda>s'.
      thenS (persist_next re s') (\<lambda>_. pureS (Inr ())))))
      (\<lambda>_. safe re s0) (safe re s0)"
    unfolding thenS_assoc [symmetric] by (rule triple_then) (auto intro: triple_pure stands_safe)
qed

lemma triple_handle:
  assumes "env_ok (re_session re)"
  shows "triple (safe re s0) (handle_failure re e) Q (safe re s0)"
  unfolding handle_failure_def
  by (intro triple_if triple_raise triple_then [OF triple_store_cancelled [OF assms]]
      triple_then [OF triple_store_failed [OF assms]])

definition sample_runner :: runner_env where
  "sample_runner =
     \<lparr>re_session = sample_env, re_clock = (\<lambda>n. if n = 0 then ''2026-01-01T00:00:00Z'' else ''2026-01-01T00:00:01Z''),
      re_message = (\<lambda>_. []), re_class = (\<lambda>_. ''RuntimeError'')\<rparr>"

definition sample_executor :: executor where
  "sample_executor =
     \<lparr>ex_scan = (\<lambda>t ps timeout workers.
        (map (\<lambda>p. Inl (sample_result\<lparr>sr_port := p\<rparr>)) ps, None)),
      ex_banner = (\<lambda>t p timeout. Inr
        [(PStr ''contract_version'', PInt 1), (PStr ''record_type'', PStr ''banner_result''),
         (PStr ''target'', PStr (ti_address t)), (PStr ''port'', PInt p), (PStr ''status'', PStr ''captured''),
         (PStr ''service'', PStr ''ssh''), (PStr ''banner'', PStr ''SSH-2.0''), (PStr ''error'', PNone),
         (PStr ''source'', PStr ''go'')])\<rparr>"

definition sample_id :: string where "sample_id = ''01234567-89ab-cdef-0123-456789abcdef''"

definition empty_runner :: runner_state where
  "empty_runner = \<lparr>rn_store = \<lparr>st_dir = (\<lambda>_. None), st_io = []\<rparr>, rn_now = 0, rn_cancel = []\<rparr>"


lemma sample_runner_ok: "env_ok (re_session sample_runner)"
  by (simp add: sample_runner_def sample_env_ok)

section \<open>Properties\<close>

lemma triple_resume:
  assumes "env_ok (re_session re)"
  shows "triple (safe re s0) (resume re ex expected)
    (\<lambda>t \<sigma>. stands re s0 t \<sigma> \<and> sk_status t = SS_COMPLETED) (safe re s0)"
proof -
  have body: "triple (stands re s0 s) (guarded (run_phases re ex s) (handle_failure re))
      (\<lambda>t \<sigma>. stands re s0 t \<sigma> \<and> sk_status t = SS_COMPLETED) (safe re s0)" for s
    by (rule triple_guarded [OF triple_run_phases [OF assms] triple_handle [OF assms]])
  have start: "triple (stands re s0 s) (transition_to_running re s) (stands re s0) (safe re s0)" for s
    by (rule triple_weaken [OF triple_transition [OF assms]]) auto
  show ?thesis
    unfolding resume_def
    by (rule triple_then [OF triple_load], rule triple_then [OF triple_keep [OF stands_safe]],
        assumption, rule triple_if, rule triple_pure, simp, erule stands_safe,
        rule triple_then [OF start body])
qed

text \<open>
  C1. Resuming never loses confirmed work. Whatever the executor reports and however it ends,
  under any cancellation, any error of the store and any point where the process dies, the
  store afterwards holds a checkpoint of the same session and plan that keeps every completed
  result of the checkpoint it started from exactly as it was, banner included; the only change
  it may make to one is to set the banner of a port whose banner had not been completed yet and
  is completed now. Completed banners stay completed. When the run returns, what it returns is
  that checkpoint and it is completed: no port is pending and the completed ports are exactly
  those of the plan.
\<close>

theorem resume_keeps_progress:
  assumes "env_ok (re_session re)" "confirmed require_single_target_plan (re_session re) (st_dir (rn_store \<sigma>)) s0"
    "resume re ex expected \<sigma> = (r, \<sigma>')"
  shows "\<exists>s. confirmed require_single_target_plan (re_session re) (st_dir (rn_store \<sigma>')) s \<and> session_extends s0 s \<and>
    (\<forall>t. r = Inr t \<longrightarrow> t = s \<and> sk_status t = SS_COMPLETED \<and>
       ep_pending_ports (first_endpoint t) = [] \<and>
       set (ep_completed_ports (first_endpoint t)) = set (sp_ports (sk_plan s0)))"
proof -
  have "safe re s0 \<sigma>" using assms(2) by (auto simp: safe_def stands_def)
  from tripleD [OF triple_resume [OF assms(1)] this assms(3)]
  show ?thesis
  proof (cases r)
    case (Inl e)
    with \<open>case r of Inl e \<Rightarrow> safe re s0 \<sigma>' | Inr x \<Rightarrow> _ x\<close> show ?thesis
      by (auto simp: safe_def stands_def)
  next
    case (Inr t)
    with \<open>case r of Inl e \<Rightarrow> safe re s0 \<sigma>' | Inr x \<Rightarrow> _ x\<close>
    have t: "confirmed require_single_target_plan (re_session re) (st_dir (rn_store \<sigma>')) t" "session_extends s0 t"
      "sk_status t = SS_COMPLETED" by (simp_all add: stands_def)
    from confirmed_good [OF assms(1) t(1)] have g: "good_checkpoint require_single_target_plan (re_session re) t" .
    then have "completed_rule (sk_plan t) (first_endpoint t)"
      using t(3) single_plan_endpoint [OF g]
      by (auto simp: good_checkpoint_def wf_checkpoint_def status_rules_def list_all_iff)
    with good_progress(2) [OF g] t(2)
    have "ep_pending_ports (first_endpoint t) = [] \<and>
        set (ep_completed_ports (first_endpoint t)) = set (sp_ports (sk_plan s0))"
      by (auto simp: completed_rule_def ports_accounted_def session_extends_def)
    with t Inr show ?thesis by auto
  qed
qed

theorem resume_keeps_progress_witness:
  "\<exists>d. \<forall>io cancel ex. \<exists>s.
     confirmed require_single_target_plan sample_env (st_dir (rn_store (snd (resume sample_runner ex None
       \<lparr>rn_store = \<lparr>st_dir = d, st_io = io\<rparr>, rn_now = 1, rn_cancel = cancel\<rparr>)))) s \<and>
     session_extends sample_checkpoint s"
proof -
  from sample_confirmed obtain d where d: "confirmed require_single_target_plan sample_env d sample_checkpoint" ..
  have "\<exists>s. confirmed require_single_target_plan sample_env (st_dir (rn_store (snd (resume sample_runner ex None
       \<lparr>rn_store = \<lparr>st_dir = d, st_io = io\<rparr>, rn_now = 1, rn_cancel = cancel\<rparr>)))) s \<and>
     session_extends sample_checkpoint s" for io cancel ex
  proof -
    let ?\<sigma> = "\<lparr>rn_store = \<lparr>st_dir = d, st_io = io\<rparr>, rn_now = 1, rn_cancel = cancel\<rparr>"
    obtain r \<sigma>' where r: "resume sample_runner ex None ?\<sigma> = (r, \<sigma>')"
      by (cases "resume sample_runner ex None ?\<sigma>")
    have "confirmed require_single_target_plan (re_session sample_runner) (st_dir (rn_store ?\<sigma>)) sample_checkpoint"
      using d by (simp add: sample_runner_def)
    from resume_keeps_progress [OF sample_runner_ok this r]
    have "\<exists>s. confirmed require_single_target_plan sample_env (st_dir (rn_store \<sigma>')) s \<and> session_extends sample_checkpoint s"
      by (auto simp: sample_runner_def)
    then show ?thesis unfolding r snd_conv .
  qed
  then show ?thesis by blast
qed

end
