(* ===== verification/Native_Events.thy ===== *)
theory Native_Events
  imports Contracts
begin

text \<open>
  \<open>src/native_events.py\<close>: the event channel of the native engines. \<open>NativeEvent\<close> is one record
  of the channel, \<open>NativeEventStream\<close> the protocol that accepts them in order. Reading a line
  as JSON and the subscriber's callback are parameters; the pipe and its thread are not
  modelled, the lines they deliver are given.
\<close>

section \<open>\<open>NativeEvent\<close>\<close>

definition native_event_fields :: "string list" where
  "native_event_fields =
     [''contract_version'', ''record_type'', ''engine'', ''phase'', ''event'', ''target'',
      ''sequence'', ''elapsed_ms'', ''port'', ''status'', ''completed'', ''total'', ''workers'']"

text \<open>\<open>PHASES.get(engine)\<close>.\<close>

definition phase_of :: "string \<Rightarrow> string option" where
  "phase_of engine =
     (if engine = ''rust'' then Some ''tcp_scan''
      else if engine = ''go'' then Some ''banner_grab''
      else None)"

text \<open>
  The version is compared with 1 only, so \<open>True\<close> and \<open>1.0\<close> pass; target and status are not
  validated here.
\<close>

record native_event =
  ne_contract_version :: pyval
  ne_engine :: string
  ne_phase :: string
  ne_event :: string
  ne_target :: pyval
  ne_sequence :: int
  ne_elapsed_ms :: int
  ne_port :: "int option"
  ne_status :: pyval
  ne_completed :: int
  ne_total :: int
  ne_workers :: int

text \<open>Membership in a set or a dictionary needs a hashable value.\<close>

definition hashable :: "pyval \<Rightarrow> bool" where
  "hashable v \<longleftrightarrow> (case v of PList _ \<Rightarrow> False | PDict _ \<Rightarrow> False | _ \<Rightarrow> True)"

definition strict_int :: "pyval \<Rightarrow> exc + int" where
  "strict_int v = (case v of PInt n \<Rightarrow> Inr n | _ \<Rightarrow> Inl ValueError)"

definition event_engine :: "pyval \<Rightarrow> pyval \<Rightarrow> exc + string \<times> string" where
  "event_engine engine phase =
     (if \<not> hashable engine then Inl TypeError
      else case engine of
        PStr s \<Rightarrow>
          (case phase_of s of
             Some p \<Rightarrow> if phase = PStr p then Inr (s, p) else Inl ValueError
           | None \<Rightarrow> Inl ValueError)
      | _ \<Rightarrow> Inl ValueError)"

definition event_names :: "string list" where
  "event_names = [''engine_started'', ''port_completed'', ''engine_completed'']"

definition event_name :: "pyval \<Rightarrow> exc + string" where
  "event_name v =
     (if \<not> hashable v then Inl TypeError
      else case v of
        PStr s \<Rightarrow> if s \<in> set event_names then Inr s else Inl ValueError
      | _ \<Rightarrow> Inl ValueError)"

definition event_port :: "pyval \<Rightarrow> exc + int option" where
  "event_port v =
     (case v of
        PNone \<Rightarrow> Inr None
      | PInt n \<Rightarrow> if 1 \<le> n \<and> n \<le> 65535 then Inr (Some n) else Inl ValueError
      | _ \<Rightarrow> Inl ValueError)"

definition native_event_init :: "(string \<Rightarrow> pyval) \<Rightarrow> exc + native_event" where
  "native_event_init f =
     (if \<not> eq_int (f ''contract_version'') 1 \<or> f ''record_type'' \<noteq> PStr ''native_event''
      then Inl ValueError else
     bindE (event_engine (f ''engine'') (f ''phase'')) (\<lambda>(engine, phase).
     bindE (event_name (f ''event'')) (\<lambda>event.
     bindE (strict_int (f ''sequence'')) (\<lambda>seq.
     bindE (strict_int (f ''elapsed_ms'')) (\<lambda>elapsed.
     bindE (strict_int (f ''completed'')) (\<lambda>completed.
     bindE (strict_int (f ''total'')) (\<lambda>all.
     bindE (strict_int (f ''workers'')) (\<lambda>workers.
       if seq < 1 \<or> elapsed < 0 \<or> all < 1 then Inl ValueError
       else if \<not> (1 \<le> workers \<and> workers \<le> all) \<or> \<not> (0 \<le> completed \<and> completed \<le> all)
       then Inl ValueError else
     bindE (event_port (f ''port'')) (\<lambda>port.
       Inr \<lparr>ne_contract_version = f ''contract_version'', ne_engine = engine, ne_phase = phase,
            ne_event = event, ne_target = f ''target'', ne_sequence = seq,
            ne_elapsed_ms = elapsed, ne_port = port, ne_status = f ''status'',
            ne_completed = completed, ne_total = all, ne_workers = workers\<rparr>)))))))))"

definition native_event_from_payload :: "pyval \<Rightarrow> exc + native_event" where
  "native_event_from_payload payload =
     bindE (require_exact_fields native_event_fields payload) (\<lambda>d.
       native_event_init (\<lambda>k. dict_get_or d k PNone))"

definition native_event_to_payload :: "native_event \<Rightarrow> pyval" where
  "native_event_to_payload e = obj
     [(''contract_version'', ne_contract_version e), (''record_type'', PStr ''native_event''),
      (''engine'', PStr (ne_engine e)), (''phase'', PStr (ne_phase e)),
      (''event'', PStr (ne_event e)), (''target'', ne_target e),
      (''sequence'', PInt (ne_sequence e)), (''elapsed_ms'', PInt (ne_elapsed_ms e)),
      (''port'', case ne_port e of None \<Rightarrow> PNone | Some n \<Rightarrow> PInt n),
      (''status'', ne_status e), (''completed'', PInt (ne_completed e)),
      (''total'', PInt (ne_total e)), (''workers'', PInt (ne_workers e))]"

definition wf_native_event :: "native_event \<Rightarrow> bool" where
  "wf_native_event e \<longleftrightarrow>
     eq_int (ne_contract_version e) 1 \<and> phase_of (ne_engine e) = Some (ne_phase e) \<and>
     ne_event e \<in> set event_names \<and> 1 \<le> ne_sequence e \<and> 0 \<le> ne_elapsed_ms e \<and>
     1 \<le> ne_workers e \<and> ne_workers e \<le> ne_total e \<and>
     0 \<le> ne_completed e \<and> ne_completed e \<le> ne_total e \<and>
     (case ne_port e of None \<Rightarrow> True | Some n \<Rightarrow> 1 \<le> n \<and> n \<le> 65535)"

lemma strict_int_Inr [run]: "strict_int v = Inr n \<longleftrightarrow> v = PInt n"
  by (cases v) (auto simp: strict_int_def)

lemma event_engine_Inr [run]:
  "event_engine e p = Inr (s, q) \<longleftrightarrow> e = PStr s \<and> phase_of s = Some q \<and> p = PStr q"
  by (cases e) (auto simp: event_engine_def hashable_def split: option.splits)

lemma event_name_Inr [run]: "event_name v = Inr s \<longleftrightarrow> v = PStr s \<and> s \<in> set event_names"
  by (cases v) (auto simp: event_name_def hashable_def)

lemma event_port_Inr [run]:
  "event_port v = Inr p \<longleftrightarrow> v = (case p of None \<Rightarrow> PNone | Some n \<Rightarrow> PInt n) \<and>
     (case p of None \<Rightarrow> True | Some n \<Rightarrow> 1 \<le> n \<and> n \<le> 65535)"
  by (cases v) (auto simp: event_port_def split: option.splits)

lemma native_event_init_wf: "native_event_init f = Inr e \<Longrightarrow> wf_native_event e"
  by (auto simp: native_event_init_def wf_native_event_def run)

interpretation ne: wire_record wf_native_event native_event_to_payload native_event_from_payload
proof
  show "native_event_from_payload p = Inr r \<Longrightarrow> wf_native_event r" for p r
    by (auto simp: native_event_from_payload_def run intro: native_event_init_wf)
next
  fix r assume "wf_native_event r"
  then show "native_event_from_payload (native_event_to_payload r) = Inr r"
    by (cases r) (auto simp: native_event_from_payload_def native_event_to_payload_def
        dict_eval native_event_fields_def dict_get_or_def native_event_init_def wf_native_event_def run)
qed

section \<open>\<open>NativeEventStream\<close>\<close>

record native_stream =
  st_engine :: string
  st_phase :: string
  st_target :: string
  st_ports :: "int list"
  st_workers :: int
  st_events :: "native_event list"
  st_completed :: "int set"
  st_error :: "exc option"
  st_finished :: bool

definition native_stream_init ::
  "string \<Rightarrow> string \<Rightarrow> int list \<Rightarrow> int \<Rightarrow> exc + native_stream" where
  "native_stream_init engine target ports workers =
     (let ports = sort (remdups ports) in
      case phase_of engine of
        None \<Rightarrow> Inl ValueError
      | Some phase \<Rightarrow>
          if ports = [] then Inl ValueError
          else Inr \<lparr>st_engine = engine, st_phase = phase, st_target = target, st_ports = ports,
                    st_workers = min (max 1 workers) (int (length ports)), st_events = [],
                    st_completed = {}, st_error = None, st_finished = False\<rparr>)"

text \<open>
  \<open>_accept\<close>, first what the kind of event asks for and the ports completed after it. The set
  is updated before the last guard of \<open>_accept\<close>, but that guard cannot fail after an update,
  and an error ends the stream.
\<close>

definition accept_kind :: "native_stream \<Rightarrow> native_event \<Rightarrow> exc + int set" where
  "accept_kind s e =
     (if st_events s = []
      then (if ne_event e = ''engine_started'' \<and> ne_port e = None \<and>
               ne_status e = PStr ''running'' \<and> ne_completed e = 0
            then Inr (st_completed s) else Inl ValueError)
      else if ne_event e = ''port_completed''
      then (case ne_port e of
              None \<Rightarrow> Inl ValueError
            | Some p \<Rightarrow>
                if p \<notin> set (st_ports s) \<or> p \<in> st_completed s then Inl ValueError
                else if ne_completed e \<noteq> int (card (st_completed s)) + 1 then Inl ValueError
                else Inr (insert p (st_completed s)))
      else if ne_event e = ''engine_completed''
      then (if ne_port e \<noteq> None \<or> ne_status e \<noteq> PStr ''success'' \<or>
               ne_completed e \<noteq> int (length (st_ports s)) \<or>
               st_completed s \<noteq> set (st_ports s)
            then Inl ValueError else Inr (st_completed s))
      else Inl ValueError)"

definition accept :: "native_stream \<Rightarrow> native_event \<Rightarrow> exc + native_stream" where
  "accept s e =
     (if ne_sequence e \<noteq> int (length (st_events s)) + 1 then Inl ValueError
      else if ne_engine e \<noteq> st_engine s \<or> ne_phase e \<noteq> st_phase s \<or> ne_target e \<noteq> PStr (st_target s)
      then Inl ValueError
      else if ne_total e \<noteq> int (length (st_ports s)) \<or> ne_workers e \<noteq> st_workers s
      then Inl ValueError
      else
        bindE (accept_kind s e) (\<lambda>completed.
        if st_events s \<noteq> [] \<and> ne_event (last (st_events s)) = ''engine_completed''
        then Inl ValueError
        else Inr (s\<lparr>st_events := st_events s @ [e], st_completed := completed\<rparr>)))"

text \<open>
  \<open>_read\<close>: each line is decoded, accepted and delivered; \<open>callback k e\<close> is what the subscriber
  does with the \<open>k\<close>th event. The first exception ends the reading and is kept.
\<close>

type_synonym callback = "nat \<Rightarrow> native_event \<Rightarrow> exc option"

fun read_lines ::
  "(string \<Rightarrow> exc + pyval) \<Rightarrow> callback \<Rightarrow> string list \<Rightarrow> native_stream \<Rightarrow> native_stream" where
  "read_lines loads callback [] s = s"
| "read_lines loads callback (raw # rest) s =
     (case (if list_all (\<lambda>c. c = CHR 0x0A) raw then Inl ValueError else
            bindE (loads raw) (\<lambda>payload.
            bindE (native_event_from_payload payload) (\<lambda>e.
            bindE (accept s e) (\<lambda>s'. Inr (e, s'))))) of
        Inl err \<Rightarrow> s\<lparr>st_error := Some err\<rparr>
      | Inr (e, s') \<Rightarrow>
          (case callback (length (st_events s)) e of
             Some err \<Rightarrow> s'\<lparr>st_error := Some err\<rparr>
           | None \<Rightarrow> read_lines loads callback rest s'))"

text \<open>\<open>finish\<close>; \<open>alive\<close>: the reader has not ended when the wait does.\<close>

definition finish_stream :: "bool \<Rightarrow> native_stream \<Rightarrow> exc + pyval list \<times> native_stream" where
  "finish_stream alive s =
     (if st_finished s then Inr (map native_event_to_payload (st_events s), s)
      else if alive then Inl RuntimeError
      else if st_error s \<noteq> None then Inl RuntimeError
      else if length (st_events s) \<noteq> length (st_ports s) + 2 \<or>
              ne_event (last (st_events s)) \<noteq> ''engine_completed''
      then Inl RuntimeError
      else Inr (map native_event_to_payload (st_events s), s\<lparr>st_finished := True\<rparr>))"

section \<open>The protocol of the channel\<close>

text \<open>
  The reference: which event may stand at which position of a log. The first starts the engine,
  then each port completes once in any order, then the engine ends; every event carries its
  position and the stream's own identity and budget.
\<close>

definition common_ok :: "native_stream \<Rightarrow> nat \<Rightarrow> native_event \<Rightarrow> bool" where
  "common_ok s i e \<longleftrightarrow>
     ne_sequence e = int i + 1 \<and> ne_engine e = st_engine s \<and> ne_phase e = st_phase s \<and>
     ne_target e = PStr (st_target s) \<and> ne_total e = int (length (st_ports s)) \<and>
     ne_workers e = st_workers s"

definition entry_ok :: "native_stream \<Rightarrow> native_event list \<Rightarrow> native_event \<Rightarrow> bool" where
  "entry_ok s past e \<longleftrightarrow> common_ok s (length past) e \<and>
     (if past = [] then
        ne_event e = ''engine_started'' \<and> ne_port e = None \<and> ne_status e = PStr ''running'' \<and>
        ne_completed e = 0
      else if length past \<le> length (st_ports s) then
        ne_event e = ''port_completed'' \<and> ne_port e \<in> Some ` set (st_ports s) \<and>
        ne_port e \<notin> ne_port ` set past \<and> ne_completed e = int (length past)
      else
        length past = length (st_ports s) + 1 \<and> ne_event e = ''engine_completed'' \<and>
        ne_port e = None \<and> ne_status e = PStr ''success'' \<and>
        ne_completed e = int (length (st_ports s)))"

fun log_ok :: "native_stream \<Rightarrow> native_event list \<Rightarrow> native_event list \<Rightarrow> bool" where
  "log_ok s past [] = True"
| "log_ok s past (e # es) = (entry_ok s past e \<and> log_ok s (past @ [e]) es)"

fun accept_all :: "native_stream \<Rightarrow> native_event list \<Rightarrow> exc + native_stream" where
  "accept_all s [] = Inr s"
| "accept_all s (e # es) = bindE (accept s e) (\<lambda>s'. accept_all s' es)"

definition done_ports :: "native_event list \<Rightarrow> int list" where
  "done_ports es = List.map_filter ne_port es"

definition fresh_stream :: "native_stream \<Rightarrow> bool" where
  "fresh_stream s \<longleftrightarrow> st_events s = [] \<and> st_completed s = {} \<and> st_error s = None \<and>
     \<not> st_finished s \<and> st_ports s \<noteq> [] \<and> distinct (st_ports s)"

definition stream_at :: "native_stream \<Rightarrow> native_event list \<Rightarrow> native_stream" where
  "stream_at s es = s\<lparr>st_events := es, st_completed := set (done_ports es)\<rparr>"

lemma done_ports_append: "done_ports (es @ [e]) = done_ports es @ (case ne_port e of None \<Rightarrow> [] | Some p \<Rightarrow> [p])"
  by (auto simp: done_ports_def map_filter_def split: option.splits)

lemma done_ports_mem: "p \<in> set (done_ports es) \<longleftrightarrow> Some p \<in> ne_port ` set es"
  by (induction es) (auto simp: done_ports_def map_filter_def)

lemma done_ports_Nil [simp]: "done_ports [] = []"
  by (simp add: done_ports_def map_filter_def)

lemma log_ok_append: "log_ok s past (xs @ ys) \<longleftrightarrow> log_ok s past xs \<and> log_ok s (past @ xs) ys"
  by (induction xs arbitrary: past) auto

lemma log_facts:
  assumes "fresh_stream s"
  shows "log_ok s [] es \<Longrightarrow> distinct (done_ports es) \<and> set (done_ports es) \<subseteq> set (st_ports s) \<and>
    length (done_ports es) = min (length es - 1) (length (st_ports s)) \<and>
    length es \<le> length (st_ports s) + 2 \<and>
    (es \<noteq> [] \<longrightarrow> (ne_event (last es) = ''engine_completed'' \<longleftrightarrow>
       length es = length (st_ports s) + 2))"
proof (induction es rule: rev_induct)
  case (snoc e es)
  then have e: "entry_ok s es e" and IH: "distinct (done_ports es)"
    "set (done_ports es) \<subseteq> set (st_ports s)"
    "length (done_ports es) = min (length es - 1) (length (st_ports s))"
    by (simp_all add: log_ok_append)
  have n: "length (st_ports s) > 0" using assms by (simp add: fresh_stream_def)
  consider "es = []" | "es \<noteq> []" "length es \<le> length (st_ports s)"
    | "es \<noteq> []" "length es > length (st_ports s)" by fastforce
  then show ?case
  proof cases
    case 1
    then show ?thesis using e n using done_ports_append [of "[]" e] by (auto simp: entry_ok_def)
  next
    case 2
    then obtain p where p: "ne_port e = Some p" "p \<in> set (st_ports s)" "p \<notin> set (done_ports es)"
      "ne_event e = ''port_completed''"
      using e by (auto simp: entry_ok_def done_ports_mem)
    have "length es \<ge> 1" using 2(1) by (cases es) auto
    then show ?thesis using 2 p IH by (auto simp: done_ports_append)
  next
    case 3
    then show ?thesis using e IH by (auto simp: entry_ok_def done_ports_append)
  qed
qed simp

lemma accept_common:
  "accept s e =
     (if common_ok s (length (st_events s)) e
      then bindE (accept_kind s e) (\<lambda>completed.
        if st_events s \<noteq> [] \<and> ne_event (last (st_events s)) = ''engine_completed''
        then Inl ValueError
        else Inr (s\<lparr>st_events := st_events s @ [e], st_completed := completed\<rparr>))
      else Inl ValueError)"
  by (simp add: accept_def common_ok_def)

lemma accept_kind_at:
  assumes "fresh_stream s" "log_ok s [] es" "length es \<le> length (st_ports s) + 1"
    "common_ok s (length es) e"
  shows "accept_kind (stream_at s es) e =
    (if entry_ok s es e then Inr (set (done_ports (es @ [e]))) else Inl ValueError)"
proof -
  note f = log_facts [OF assms(1,2)]
  have card: "card (set (done_ports es)) = min (length es - 1) (length (st_ports s))"
    using f distinct_card by metis
  have all: "card (set (st_ports s)) = length (st_ports s)"
    using assms(1) by (simp add: fresh_stream_def distinct_card)
  have full: "set (done_ports es) = set (st_ports s) \<longleftrightarrow> length (st_ports s) \<le> length es - 1"
    using f card all card_subset_eq [of "set (st_ports s)" "set (done_ports es)"] by auto
  consider "es = []" | "es \<noteq> []" "length es \<le> length (st_ports s)"
    | "es \<noteq> []" "length es = length (st_ports s) + 1" using assms(3) by linarith
  then show ?thesis
  proof cases
    case 1
    then show ?thesis using assms(4) done_ports_append [of "[]" e]
      by (auto simp: accept_kind_def stream_at_def entry_ok_def)
  next
    case 2
    then have l: "length es \<ge> 1" by (cases es) auto
    then have c: "int (card (set (done_ports es))) + 1 = int (length es)" using card 2 by simp
    have ne: "set (done_ports es) \<noteq> set (st_ports s)" using full 2 l by simp
    show ?thesis
    proof (cases "ne_port e")
      case None
      then show ?thesis using 2 ne assms(4)
        by (auto simp: accept_kind_def stream_at_def entry_ok_def)
    next
      case (Some p)
      then show ?thesis using 2 assms(4) c
        by (auto simp: accept_kind_def stream_at_def entry_ok_def done_ports_append
            simp flip: done_ports_mem)
    qed
  next
    case 3
    then have eq: "set (done_ports es) = set (st_ports s)" using full by simp
    show ?thesis
    proof (cases "ne_port e")
      case None
      then show ?thesis using 3 eq assms(4)
        by (auto simp: accept_kind_def stream_at_def entry_ok_def done_ports_append)
    next
      case (Some p)
      then show ?thesis using 3 eq
        by (auto simp: accept_kind_def stream_at_def entry_ok_def)
    qed
  qed
qed

lemma accept_entry:
  assumes "fresh_stream s" "log_ok s [] es"
  shows "accept (stream_at s es) e =
    (if entry_ok s es e then Inr (stream_at s (es @ [e])) else Inl ValueError)"
proof -
  note f = log_facts [OF assms]
  have c: "common_ok (stream_at s es) k e = common_ok s k e" for k
    by (simp add: common_ok_def stream_at_def)
  have past: "st_events (stream_at s es) = es" by (simp add: stream_at_def)
  have grow: "stream_at s es\<lparr>st_events := xs, st_completed := set (done_ports xs)\<rparr> = stream_at s xs"
    for xs by (simp add: stream_at_def)
  show ?thesis
  proof (cases "common_ok s (length es) e")
    case False
    then show ?thesis by (simp add: accept_common c past entry_ok_def)
  next
    case common: True
    show ?thesis
    proof (cases "length es \<le> length (st_ports s) + 1")
      case True
      then have "es = [] \<or> ne_event (last es) \<noteq> ''engine_completed''" using f by auto
      then show ?thesis using accept_kind_at [OF assms True common] common
        by (auto simp: accept_common c past grow)
    next
      case False
      then have "length es = length (st_ports s) + 2" "es \<noteq> []" using f by auto
      moreover from this f have "ne_event (last es) = ''engine_completed''" by blast
      ultimately show ?thesis
        by (cases "accept_kind (stream_at s es) e")
          (auto simp: accept_common c past entry_ok_def accept_kind_def split: option.splits if_splits)
    qed
  qed
qed

lemma log_ok_prefix: "log_ok s past (xs @ ys) \<Longrightarrow> log_ok s past xs"
  by (simp add: log_ok_append)

lemma accept_all_at:
  assumes "fresh_stream s"
  shows "log_ok s [] past \<Longrightarrow> accept_all (stream_at s past) es =
    (if log_ok s past es then Inr (stream_at s (past @ es)) else Inl ValueError)"
proof (induction es arbitrary: past)
  case (Cons e es)
  show ?case
  proof (cases "entry_ok s past e")
    case True
    with Cons.prems have "log_ok s [] (past @ [e])" by (simp add: log_ok_append)
    from Cons.IH [OF this] True show ?thesis by (simp add: accept_entry [OF assms Cons.prems])
  qed (simp add: accept_entry [OF assms Cons.prems])
qed simp

lemma native_stream_init_fresh:
  assumes "native_stream_init engine target ports workers = Inr s"
  shows "fresh_stream s" "stream_at s [] = s" "set (st_ports s) = set ports"
    "sorted (st_ports s)" "phase_of (st_engine s) = Some (st_phase s)" "st_target s = target"
  using assms by (auto simp: native_stream_init_def fresh_stream_def stream_at_def Let_def
      split: option.splits if_splits)

definition read_event :: "(string \<Rightarrow> exc + pyval) \<Rightarrow> string \<Rightarrow> exc + native_event" where
  "read_event loads raw = bindE (loads raw) native_event_from_payload"

lemma read_lines_events:
  assumes "fresh_stream s"
  shows "log_ok s [] past \<Longrightarrow> st_error (read_lines loads callback lines (stream_at s past)) = None \<Longrightarrow>
    \<exists>es. map_err (read_event loads) lines = Inr es \<and> log_ok s [] (past @ es) \<and>
      read_lines loads callback lines (stream_at s past) = stream_at s (past @ es)"
proof (induction lines arbitrary: past)
  case (Cons raw rest)
  have st: "st_error (stream_at s past) = None" "st_events (stream_at s past) = past"
    using assms by (simp_all add: stream_at_def fresh_stream_def)
  obtain e where raw: "\<not> list_all (\<lambda>c. c = CHR 0x0A) raw" and e: "read_event loads raw = Inr e"
    and acc: "entry_ok s past e"
    using Cons.prems(2)
    by (cases "loads raw"; cases "list_all (\<lambda>c. c = CHR 0x0A) raw"; cases "read_event loads raw")
      (auto simp: read_event_def accept_entry [OF assms Cons.prems(1)] split: if_splits)
  have past': "log_ok s [] (past @ [e])" using acc Cons.prems(1) by (simp add: log_ok_append)
  have step: "read_lines loads callback (raw # rest) (stream_at s past) =
    (case callback (length past) e of
       Some err \<Rightarrow> stream_at s (past @ [e])\<lparr>st_error := Some err\<rparr>
     | None \<Rightarrow> read_lines loads callback rest (stream_at s (past @ [e])))"
    using raw e acc by (auto simp: read_event_def run st accept_entry [OF assms Cons.prems(1)])
  with Cons.prems(2) have "callback (length past) e = None" by (cases "callback (length past) e") auto
  with step have step: "read_lines loads callback (raw # rest) (stream_at s past) =
    read_lines loads callback rest (stream_at s (past @ [e]))" by simp
  from Cons.IH [OF past'] Cons.prems(2) e show ?case unfolding step by fastforce
qed (auto simp: assms)

lemma read_lines_log:
  assumes "fresh_stream s"
  shows "log_ok s [] (past @ es) \<Longrightarrow> list_all wf_native_event es \<Longrightarrow>
    list_all (\<lambda>e. \<not> list_all (\<lambda>c. c = CHR 0x0A) (line e) \<and>
      loads (line e) = Inr (native_event_to_payload e)) es \<Longrightarrow>
    read_lines loads (\<lambda>k e. None) (map line es) (stream_at s past) = stream_at s (past @ es)"
proof (induction es arbitrary: past)
  case (Cons e es)
  have past: "log_ok s [] past" "entry_ok s past e" using Cons.prems(1)
    by (simp_all add: log_ok_append)
  have "native_event_from_payload (native_event_to_payload e) = Inr e"
    using Cons.prems(2) by (simp add: ne.roundtrip)
  then show ?case using Cons.prems past Cons.IH [of "past @ [e]"]
    by (simp add: accept_entry [OF assms past(1)])
qed simp

lemma read_lines_finished: "st_finished (read_lines loads callback lines s) = st_finished s"
proof -
  have "accept s e = Inr s' \<Longrightarrow> st_finished s' = st_finished s" for s e s'
    by (auto simp: accept_common run)
  then show ?thesis
    by (induction lines arbitrary: s) (auto simp: run split: sum.split option.split prod.split)
qed

text \<open>
  C24. The stream accepts exactly the logs of the protocol: the engine starts, each requested
  port completes once in any order, the engine ends, and every event carries its position and
  the identity and budget of the stream.
\<close>

theorem stream_accepts_protocol:
  assumes "native_stream_init engine target ports workers = Inr s"
  shows "accept_all s es = (if log_ok s [] es then Inr (stream_at s es) else Inl ValueError)"
  using accept_all_at [OF native_stream_init_fresh(1) [OF assms], of "[]" es]
  by (simp add: native_stream_init_fresh(2) [OF assms])

text \<open>
  C18. When \<open>finish\<close> returns, whatever the engine wrote, however lines are decoded and whatever
  the subscriber did, every line was a valid event, the events form a complete log, every
  requested port was completed exactly once, and the payloads returned read back as the events.
\<close>

theorem finished_stream_complete:
  assumes "native_stream_init engine target ports workers = Inr s"
    and "finish_stream alive (read_lines loads callback lines s) = Inr (payloads, s')"
  shows "\<exists>es. map_err (read_event loads) lines = Inr es \<and> log_ok s [] es \<and>
    length es = card (set ports) + 2 \<and> distinct (done_ports es) \<and>
    set (done_ports es) = set ports \<and> map_err native_event_from_payload payloads = Inr es"
proof -
  note fresh = native_stream_init_fresh [OF assms(1)]
  let ?s = "read_lines loads callback lines s"
  have "\<not> st_finished ?s" using fresh(1) by (simp add: read_lines_finished fresh_stream_def)
  then have fin: "st_error ?s = None" "length (st_events ?s) = length (st_ports ?s) + 2"
    "payloads = map native_event_to_payload (st_events ?s)"
    using assms(2) by (auto simp: finish_stream_def split: if_splits)
  from read_lines_events [OF fresh(1), of "[]" loads callback lines] fin(1) obtain es where
    es: "map_err (read_event loads) lines = Inr es" "log_ok s [] es" "?s = stream_at s es"
    by (auto simp: fresh(2))
  note f = log_facts [OF fresh(1) es(2)]
  have n: "card (set (st_ports s)) = length (st_ports s)"
    using fresh(1) by (simp add: fresh_stream_def distinct_card)
  have len: "length es = length (st_ports s) + 2" using fin(2) es(3) by (simp add: stream_at_def)
  have "card (set (done_ports es)) = card (set (st_ports s))"
    using f len n distinct_card [of "done_ports es"] by simp
  then have "set (done_ports es) = set (st_ports s)"
    using f card_subset_eq [of "set (st_ports s)"] by simp
  moreover have "map_err native_event_from_payload payloads = Inr es"
    unfolding fin(3) es(3) stream_at_def
    using ne.map_roundtrip [of es] map_err_Inr_mem [OF es(1)]
    by (fastforce simp: read_event_def run dest: ne.accepted_wf)
  ultimately show ?thesis using es len n f by (auto simp: fresh(3))
qed

text \<open>
  C38. A correct engine is heard: when its lines decode to a complete log of the protocol and
  the subscriber raises nothing, \<open>finish\<close> returns the events in their order.
\<close>

theorem correct_log_finishes:
  assumes "native_stream_init engine target ports workers = Inr s"
    and "log_ok s [] es" and "length es = card (set ports) + 2" and "list_all wf_native_event es"
    and "list_all (\<lambda>e. \<not> list_all (\<lambda>c. c = CHR 0x0A) (line e) \<and>
      loads (line e) = Inr (native_event_to_payload e)) es"
  shows "map_sum id fst (finish_stream False (read_lines loads (\<lambda>k e. None) (map line es) s)) =
    Inr (map native_event_to_payload es)"
proof -
  note fresh = native_stream_init_fresh [OF assms(1)]
  have "length (st_ports s) = card (set ports)"
    using fresh(1) by (simp add: fresh_stream_def distinct_card flip: fresh(3))
  moreover have "ne_event (last es) = ''engine_completed''"
    using log_facts [OF fresh(1) assms(2)] assms(3) calculation by auto
  moreover have "read_lines loads (\<lambda>k e. None) (map line es) s = stream_at s es"
    using read_lines_log [OF fresh(1), of "[]" es line loads] assms(2,4,5) by (simp add: fresh(2))
  ultimately show ?thesis using fresh(1) assms(3)
    by (simp add: finish_stream_def stream_at_def fresh_stream_def)
qed

section \<open>The log of one port\<close>

definition sample_event :: "string \<Rightarrow> int \<Rightarrow> int option \<Rightarrow> string \<Rightarrow> int \<Rightarrow> native_event" where
  "sample_event event seq port status completed =
     \<lparr>ne_contract_version = PInt 1, ne_engine = ''rust'', ne_phase = ''tcp_scan'',
      ne_event = event, ne_target = PStr ''host'', ne_sequence = seq, ne_elapsed_ms = 0,
      ne_port = port, ne_status = PStr status, ne_completed = completed, ne_total = 1,
      ne_workers = 1\<rparr>"

definition sample_log :: "native_event list" where
  "sample_log =
     [sample_event ''engine_started'' 1 None ''running'' 0,
      sample_event ''port_completed'' 2 (Some 80) ''open'' 1,
      sample_event ''engine_completed'' 3 None ''success'' 1]"

definition sample_stream :: native_stream where
  "sample_stream =
     \<lparr>st_engine = ''rust'', st_phase = ''tcp_scan'', st_target = ''host'', st_ports = [80],
      st_workers = 1, st_events = [], st_completed = {}, st_error = None, st_finished = False\<rparr>"

definition sample_line :: "native_event \<Rightarrow> string" where
  "sample_line e = to_digits 10 (ne_sequence e)"

definition sample_loads :: "string \<Rightarrow> exc + pyval" where
  "sample_loads raw =
     (if raw = ''1'' then Inr (native_event_to_payload (sample_log ! 0))
      else if raw = ''2'' then Inr (native_event_to_payload (sample_log ! 1))
      else if raw = ''3'' then Inr (native_event_to_payload (sample_log ! 2))
      else Inl ValueError)"

lemma sample_stream_init:
  "native_stream_init ''rust'' ''host'' [80, 80] 4 = Inr sample_stream"
  "log_ok sample_stream [] sample_log" "list_all wf_native_event sample_log"
  "map sample_line sample_log = [''1'', ''2'', ''3'']"
  "list_all (\<lambda>e. \<not> list_all (\<lambda>c. c = CHR 0x0A) (sample_line e) \<and>
      sample_loads (sample_line e) = Inr (native_event_to_payload e)) sample_log"
  by code_simp+

lemma stream_accepts_protocol_witness:
  "accept_all sample_stream sample_log = Inr (stream_at sample_stream sample_log)"
  using stream_accepts_protocol [OF sample_stream_init(1), of sample_log] sample_stream_init(2)
  by simp

lemma correct_log_finishes_witness:
  "map_sum id fst (finish_stream False
     (read_lines sample_loads (\<lambda>k e. None) [''1'', ''2'', ''3''] sample_stream)) =
   Inr (map native_event_to_payload sample_log)"
proof -
  have "length sample_log = card (set [80, 80 :: int]) + 2" by (simp add: sample_log_def)
  from correct_log_finishes [OF sample_stream_init(1,2) this sample_stream_init(3,5)]
  show ?thesis by (simp only: sample_stream_init(4))
qed

lemma sample_finished:
  "finish_stream False
     (read_lines sample_loads (\<lambda>k e. None) [''1'', ''2'', ''3''] sample_stream) =
   Inr (map native_event_to_payload sample_log,
     stream_at sample_stream sample_log\<lparr>st_finished := True\<rparr>)"
  by code_simp

lemma finished_stream_complete_witness:
  "\<exists>es. map_err (read_event sample_loads) [''1'', ''2'', ''3''] = Inr es \<and> length es = 3 \<and>
     set (done_ports es) = {80}"
  using finished_stream_complete [OF sample_stream_init(1) sample_finished] by auto

end
