(* ===== verification/Resilience.thy ===== *)
theory Resilience
  imports Json_Text
begin

text \<open>
  \<open>src/resource_budget.py\<close>, \<open>src/failure_injection.py\<close>, \<open>src/resilience.py\<close> and
  \<open>src/long_running_operation.py\<close>: logical resource budgets, schedules of injected failures,
  the decisions and assessments taken from them, and the harness that drives a long operation
  cycle by cycle. SHA-256 is a parameter; the step, the clock and the moments of cancellation
  are given by the \<open>harness_world\<close>.
\<close>

section \<open>\<open>json.dumps\<close> with ASCII escapes\<close>

text \<open>
  Without \<open>ensure_ascii=False\<close> every character outside the printable ASCII range is escaped.
  Such characters occur only inside the strings of the unescaped text. No float is written.
\<close>

definition ascii_char :: "char \<Rightarrow> string" where
  "ascii_char c =
     (if 32 \<le> ord c \<and> ord c \<le> 126 then [c]
      else backslash # ''u00'' @ [digit_char (ord c div 16), digit_char (ord c mod 16)])"

definition compact_dumps :: "pyval \<Rightarrow> string" where
  "compact_dumps v = concat (map ascii_char (json_text (\<lambda>r. []) v))"

section \<open>Resource budgets\<close>

definition bounded_int :: "int \<Rightarrow> int \<Rightarrow> pyval \<Rightarrow> exc + int" where
  "bounded_int minimum maximum v =
     (case v of
        PInt n \<Rightarrow> if n < minimum \<or> n > maximum then Inl ValueError else Inr n
      | _ \<Rightarrow> Inl TypeError)"

record resource_budget =
  rb_max_cycles :: int
  rb_max_workers :: int
  rb_max_pending :: int
  rb_max_events :: int
  rb_max_retries :: int
  rb_max_logical_bytes :: int
  rb_max_diagnostics :: int
  rb_max_join_steps :: int
  rb_stability_window :: int

definition budget_limits :: "(string \<times> int \<times> int) list" where
  "budget_limits =
     [(''max_cycles'', 1, 1000000), (''max_workers'', 1, 256), (''max_pending'', 0, 1000000),
      (''max_events'', 0, 1000000), (''max_retries'', 0, 10000),
      (''max_logical_bytes'', 0, 2 ^ 50), (''max_diagnostics'', 0, 1024),
      (''max_join_steps'', 1, 1000000), (''stability_window'', 2, 100000)]"

text \<open>The arguments of the constructor are given by the name of the field.\<close>

fun budget_of_values :: "int list \<Rightarrow> resource_budget option" where
  "budget_of_values [a, b, c, d, e, f, g, h, i] =
     Some \<lparr>rb_max_cycles = a, rb_max_workers = b, rb_max_pending = c, rb_max_events = d,
           rb_max_retries = e, rb_max_logical_bytes = f, rb_max_diagnostics = g,
           rb_max_join_steps = h, rb_stability_window = i\<rparr>"
| "budget_of_values _ = None"

definition resource_budget_init :: "(string \<Rightarrow> pyval) \<Rightarrow> exc + resource_budget" where
  "resource_budget_init args =
     bindE (map_err (\<lambda>(field, minimum, maximum). bounded_int minimum maximum (args field))
              budget_limits) (\<lambda>vs.
       case budget_of_values vs of
         None \<Rightarrow> Inl TypeError
       | Some b \<Rightarrow>
           if rb_stability_window b > rb_max_cycles b then Inl ValueError else Inr b)"

definition budget_values :: "resource_budget \<Rightarrow> int list" where
  "budget_values b =
     [rb_max_cycles b, rb_max_workers b, rb_max_pending b, rb_max_events b, rb_max_retries b,
      rb_max_logical_bytes b, rb_max_diagnostics b, rb_max_join_steps b, rb_stability_window b]"

definition budget_as_dict :: "resource_budget \<Rightarrow> (string \<times> int) list" where
  "budget_as_dict b = zip (map fst budget_limits) (budget_values b)"

definition wf_budget :: "resource_budget \<Rightarrow> bool" where
  "wf_budget b \<longleftrightarrow>
     list_all2 (\<lambda>(_, lo, hi) v. lo \<le> v \<and> v \<le> hi) budget_limits (budget_values b) \<and>
     rb_stability_window b \<le> rb_max_cycles b"

lemma bounded_int_Inr [run]:
  "bounded_int lo hi v = Inr n \<longleftrightarrow> v = PInt n \<and> lo \<le> n \<and> n \<le> hi"
  by (cases v) (auto simp: bounded_int_def)

lemma map_bounded_int:
  "map_err (\<lambda>(field, lo, hi). bounded_int lo hi (args field)) ls = Inr vs \<longleftrightarrow>
     map (args \<circ> fst) ls = map PInt vs \<and> list_all2 (\<lambda>(_, lo, hi) v. lo \<le> v \<and> v \<le> hi) ls vs"
proof (induction ls arbitrary: vs)
  case (Cons l ls)
  then show ?case by (cases vs) (auto simp: run split: prod.splits)
qed auto

lemma budget_of_values_iff: "budget_of_values vs = Some b \<longleftrightarrow> vs = budget_values b"
proof
  show "budget_of_values vs = Some b \<Longrightarrow> vs = budget_values b"
    by (induction vs rule: budget_of_values.induct) (auto simp: budget_values_def)
  show "vs = budget_values b \<Longrightarrow> budget_of_values vs = Some b"
    by (simp add: budget_values_def)
qed

lemma budget_of_values_Inr:
  "(case budget_of_values vs of None \<Rightarrow> Inl e | Some b \<Rightarrow> f b) = Inr y \<longleftrightarrow>
     (\<exists>b. vs = budget_values b \<and> f b = Inr y)"
  by (auto simp flip: budget_of_values_iff split: option.splits)

lemma resource_budget_init_iff:
  "resource_budget_init args = Inr b \<longleftrightarrow>
     map (args \<circ> fst) budget_limits = map PInt (budget_values b) \<and> wf_budget b"
  unfolding resource_budget_init_def wf_budget_def run budget_of_values_Inr map_bounded_int
  by auto

section \<open>Schedules of failures\<close>

datatype failure_kind = TIMEOUT | TRANSIENT_ERROR | PERMANENT_ERROR | RESOURCE_EXHAUSTED

fun failure_kind_value :: "failure_kind \<Rightarrow> string" where
  "failure_kind_value TIMEOUT = ''TIMEOUT''"
| "failure_kind_value TRANSIENT_ERROR = ''TRANSIENT_ERROR''"
| "failure_kind_value PERMANENT_ERROR = ''PERMANENT_ERROR''"
| "failure_kind_value RESOURCE_EXHAUSTED = ''RESOURCE_EXHAUSTED''"

record failure_event =
  fe_cycle :: int
  fe_kind :: failure_kind
  fe_code :: string
  fe_recoverable :: bool

definition max_failure_cycle :: int where "max_failure_cycle = 1000000"
definition max_failure_events :: nat where "max_failure_events = 1024"

definition lower_ascii :: "char \<Rightarrow> bool" where
  "lower_ascii c \<longleftrightarrow> 97 \<le> ord c \<and> ord c \<le> 122"

definition code_format :: "string \<Rightarrow> bool" where
  "code_format s \<longleftrightarrow> s \<noteq> [] \<and> length s \<le> 80 \<and> lower_ascii (hd s) \<and>
     list_all (\<lambda>c. lower_ascii c \<or> is_digit c \<or> c \<in> set ''_.-'') s"

definition failure_event_init ::
  "pyval \<Rightarrow> failure_kind + pyval \<Rightarrow> pyval \<Rightarrow> pyval \<Rightarrow> exc + failure_event" where
  "failure_event_init cyc kind code recoverable =
     bindE (bounded_int 1 max_failure_cycle cyc) (\<lambda>n.
     bindE (case kind of Inl k \<Rightarrow> Inr k | Inr _ \<Rightarrow> Inl TypeError) (\<lambda>k.
     bindE (case code of PStr s \<Rightarrow> if code_format s then Inr s else Inl ValueError
              | _ \<Rightarrow> Inl ValueError) (\<lambda>s.
     bindE (case recoverable of PBool r \<Rightarrow> Inr r | _ \<Rightarrow> Inl TypeError) (\<lambda>r.
       if k = PERMANENT_ERROR \<and> r then Inl ValueError
       else Inr \<lparr>fe_cycle = n, fe_kind = k, fe_code = s, fe_recoverable = r\<rparr>))))"

definition failure_event_as_dict :: "failure_event \<Rightarrow> pyval" where
  "failure_event_as_dict e =
     obj [(''cycle'', PInt (fe_cycle e)), (''kind'', PStr (failure_kind_value (fe_kind e))),
          (''code'', PStr (fe_code e)), (''recoverable'', PBool (fe_recoverable e))]"

definition wf_event :: "failure_event \<Rightarrow> bool" where
  "wf_event e \<longleftrightarrow> 1 \<le> fe_cycle e \<and> fe_cycle e \<le> max_failure_cycle \<and> code_format (fe_code e) \<and>
     (fe_kind e = PERMANENT_ERROR \<longrightarrow> \<not> fe_recoverable e)"

record failure_plan =
  fp_events :: "failure_event list"
  fp_plan_id :: string

definition failure_plan_id :: "(string \<Rightarrow> string) \<Rightarrow> failure_event list \<Rightarrow> string" where
  "failure_plan_id sha events = sha (compact_dumps (PList (map failure_event_as_dict events)))"

definition failure_plan_init ::
  "(string \<Rightarrow> string) \<Rightarrow> failure_event list \<Rightarrow> string \<Rightarrow> exc + failure_plan" where
  "failure_plan_init sha events plan_id =
     (let cycles = map fe_cycle events in
      if length events > max_failure_events then Inl ValueError
      else if card (set cycles) \<noteq> length cycles then Inl ValueError
      else if cycles \<noteq> sort cycles then Inl ValueError
      else if plan_id \<noteq> failure_plan_id sha events then Inl ValueError
      else Inr \<lparr>fp_events = events, fp_plan_id = plan_id\<rparr>)"

definition failure_plan_build ::
  "(string \<Rightarrow> string) \<Rightarrow> failure_event list \<Rightarrow> exc + failure_plan" where
  "failure_plan_build sha events = failure_plan_init sha events (failure_plan_id sha events)"

text \<open>The search stops at the first event of a later cycle, which is right for sorted events.\<close>

fun find_event :: "int \<Rightarrow> failure_event list \<Rightarrow> failure_event option" where
  "find_event c [] = None"
| "find_event c (e # es) =
     (if fe_cycle e = c then Some e
      else if fe_cycle e > c then None
      else find_event c es)"

definition event_for :: "failure_plan \<Rightarrow> int \<Rightarrow> failure_event option" where
  "event_for p c = find_event c (fp_events p)"

definition wf_failure_plan :: "(string \<Rightarrow> string) \<Rightarrow> failure_plan \<Rightarrow> bool" where
  "wf_failure_plan sha p \<longleftrightarrow> length (fp_events p) \<le> max_failure_events \<and>
     sorted_wrt (<) (map fe_cycle (fp_events p)) \<and>
     fp_plan_id p = failure_plan_id sha (fp_events p)"

lemma failure_event_init_ok: "failure_event_init c k s r = Inr e \<Longrightarrow> wf_event e"
  by (auto simp: failure_event_init_def wf_event_def run split: pyval.splits sum.splits if_splits)

lemma sort_unique_iff:
  fixes xs :: "int list"
  shows "card (set xs) = length xs \<and> xs = sort xs \<longleftrightarrow> sorted_wrt (<) xs"
  by (metis distinct_card_iff sorted_distinct_sort sorted_sort strict_sorted_iff)

lemma failure_plan_init_iff:
  "failure_plan_init sha es i = Inr p \<longleftrightarrow> p = \<lparr>fp_events = es, fp_plan_id = i\<rparr> \<and> wf_failure_plan sha p"
  using sort_unique_iff [of "map fe_cycle es"]
  by (auto simp: failure_plan_init_def wf_failure_plan_def Let_def)

lemma find_event_Some:
  "sorted_wrt (<) (map fe_cycle es) \<Longrightarrow> find_event c es = Some e \<longleftrightarrow> e \<in> set es \<and> fe_cycle e = c"
proof (induction es)
  case (Cons a es)
  then have *: "\<And>x. x \<in> set es \<Longrightarrow> fe_cycle a < fe_cycle x" by simp
  consider "fe_cycle a = c" | "fe_cycle a > c" | "fe_cycle a < c" by linarith
  then show ?case
  proof cases
    case 3
    then show ?thesis using Cons by auto
  qed (use * in force)+
qed simp

lemma find_event_None:
  assumes "sorted_wrt (<) (map fe_cycle es)"
  shows "find_event c es = None \<longleftrightarrow> c \<notin> fe_cycle ` set es"
proof -
  have "find_event c es = None \<longleftrightarrow> (\<forall>e. find_event c es \<noteq> Some e)" by (cases "find_event c es") auto
  then show ?thesis using find_event_Some [OF assms, of c] by auto
qed

section \<open>Counters\<close>

datatype counter_name = PROCESSED | FAILURES | RETRIES | CANCELLATIONS

type_synonym counters = "counter_name \<Rightarrow> int"

definition new_counters :: counters where "new_counters = (\<lambda>_. 0)"

definition increment :: "counter_name \<Rightarrow> int \<Rightarrow> counters \<Rightarrow> exc + counters" where
  "increment n amount k =
     (if amount < 0 \<or> amount > 1000000 then Inl ValueError
      else Inr (k(n := k n + amount)))"

definition counters_snapshot :: "counters \<Rightarrow> (string \<times> int) list" where
  "counters_snapshot k =
     [(''PROCESSED'', k PROCESSED), (''FAILURES'', k FAILURES), (''RETRIES'', k RETRIES),
      (''CANCELLATIONS'', k CANCELLATIONS)]"

section \<open>Samples of stability\<close>

record stability_snapshot =
  sn_cycle :: int
  sn_tick :: int
  sn_retained_events :: int
  sn_pending :: int
  sn_logical_bytes :: int
  sn_active_workers :: int
  sn_diagnostics :: int

definition snapshot_values :: "stability_snapshot \<Rightarrow> int list" where
  "snapshot_values s =
     [sn_cycle s, sn_tick s, sn_retained_events s, sn_pending s, sn_logical_bytes s,
      sn_active_workers s, sn_diagnostics s]"

definition stability_snapshot_init :: "stability_snapshot \<Rightarrow> exc + stability_snapshot" where
  "stability_snapshot_init s =
     (if \<not> list_all (\<lambda>v. 0 \<le> v) (snapshot_values s) then Inl ValueError
      else if sn_cycle s < 1 then Inl ValueError
      else Inr s)"

definition snapshot_as_dict :: "stability_snapshot \<Rightarrow> pyval" where
  "snapshot_as_dict s =
     obj (zip [''cycle'', ''tick'', ''retained_events'', ''pending'', ''logical_bytes'',
               ''active_workers'', ''diagnostics''] (map PInt (snapshot_values s)))"

record stability_assessment =
  as_stable :: bool
  as_violations :: "string list"
  as_samples :: nat

definition measures :: "(string \<times> (stability_snapshot \<Rightarrow> int) \<times> (resource_budget \<Rightarrow> int)) list" where
  "measures =
     [(''retained_events'', sn_retained_events, rb_max_events),
      (''pending'', sn_pending, rb_max_pending),
      (''logical_bytes'', sn_logical_bytes, rb_max_logical_bytes),
      (''active_workers'', sn_active_workers, rb_max_workers),
      (''diagnostics'', sn_diagnostics, rb_max_diagnostics)]"

definition budget_violations :: "resource_budget \<Rightarrow> stability_snapshot \<Rightarrow> string list" where
  "budget_violations b s =
     map (\<lambda>(field, _). ''budget_exceeded.'' @ field)
       (filter (\<lambda>(field, actual, maximum). actual s > maximum b) measures)"

fun strictly_growing :: "int list \<Rightarrow> bool" where
  "strictly_growing (x # y # zs) = (x < y \<and> strictly_growing (y # zs))"
| "strictly_growing _ = True"

definition growth_violations :: "resource_budget \<Rightarrow> stability_snapshot list \<Rightarrow> string list" where
  "growth_violations b ss =
     (let w = nat (rb_stability_window b); window = drop (length ss - w) ss in
      if length window = w
      then map (\<lambda>(field, _). ''strict_monotonic_growth.'' @ field)
             (filter (\<lambda>(field, actual, _). strictly_growing (map actual window)) measures)
      else [])"

definition assess_stability ::
  "stability_snapshot list \<Rightarrow> resource_budget \<Rightarrow> stability_assessment" where
  "assess_stability ss b =
     (let violations = concat (map (budget_violations b) ss) @ growth_violations b ss;
          unique = sort (remdups violations)
      in \<lparr>as_stable = (unique = []), as_violations = unique, as_samples = length ss\<rparr>)"

section \<open>Recovery\<close>

datatype operation_state =
  Pending | Running | Degraded | Recovering | Cancelled | Completed | Failed

fun operation_state_value :: "operation_state \<Rightarrow> string" where
  "operation_state_value Pending = ''PENDING''"
| "operation_state_value Running = ''RUNNING''"
| "operation_state_value Degraded = ''DEGRADED''"
| "operation_state_value Recovering = ''RECOVERING''"
| "operation_state_value Cancelled = ''CANCELLED''"
| "operation_state_value Completed = ''COMPLETED''"
| "operation_state_value Failed = ''FAILED''"

datatype termination_reason =
    Ran_To_End | Was_Cancelled | Permanent_Failure | Retry_Budget_Exhausted
  | Resource_Budget_Exhausted | Unbounded_Growth_Detected | Non_Monotonic_Clock | Step_Exception

fun termination_reason_value :: "termination_reason \<Rightarrow> string" where
  "termination_reason_value Ran_To_End = ''COMPLETED''"
| "termination_reason_value Was_Cancelled = ''CANCELLED''"
| "termination_reason_value Permanent_Failure = ''PERMANENT_FAILURE''"
| "termination_reason_value Retry_Budget_Exhausted = ''RETRY_BUDGET_EXHAUSTED''"
| "termination_reason_value Resource_Budget_Exhausted = ''RESOURCE_BUDGET_EXHAUSTED''"
| "termination_reason_value Unbounded_Growth_Detected = ''UNBOUNDED_GROWTH_DETECTED''"
| "termination_reason_value Non_Monotonic_Clock = ''NON_MONOTONIC_CLOCK''"
| "termination_reason_value Step_Exception = ''STEP_EXCEPTION''"

record recovery_decision =
  rd_retry_allowed :: bool
  rd_next_state :: operation_state
  rd_code :: string

definition decide_recovery ::
  "failure_event \<Rightarrow> int \<Rightarrow> resource_budget \<Rightarrow> exc + recovery_decision" where
  "decide_recovery e retries_used b =
     (if retries_used < 0 then Inl ValueError
      else if fe_kind e = PERMANENT_ERROR \<or> \<not> fe_recoverable e
      then Inr \<lparr>rd_retry_allowed = False, rd_next_state = Failed, rd_code = ''permanent_failure''\<rparr>
      else if retries_used \<ge> rb_max_retries b
      then Inr \<lparr>rd_retry_allowed = False, rd_next_state = Failed,
                rd_code = ''retry_budget_exhausted''\<rparr>
      else Inr \<lparr>rd_retry_allowed = True, rd_next_state = Recovering, rd_code = ''retry_allowed''\<rparr>)"

section \<open>Results\<close>

record operation_fields =
  op_state :: operation_state
  op_reason :: termination_reason
  op_attempted :: int
  op_completed :: int
  op_retries :: int
  op_processed :: int
  op_snapshots :: "stability_snapshot list"
  op_diagnostics :: "string list"
  op_failure_codes :: "string list"
  op_stable :: bool

record operation_result = operation_fields +
  op_result_id :: string

definition no_effects :: pyval where
  "no_effects =
     obj [(''filesystem_mutation'', PBool False), (''process_execution'', PBool False),
          (''network_access'', PBool False), (''privilege_change'', PBool False)]"

definition operation_payload :: "'a operation_fields_scheme \<Rightarrow> (string \<times> pyval) list" where
  "operation_payload r =
     [(''state'', PStr (operation_state_value (op_state r))),
      (''reason'', PStr (termination_reason_value (op_reason r))),
      (''cycles_attempted'', PInt (op_attempted r)),
      (''cycles_completed'', PInt (op_completed r)),
      (''retries_used'', PInt (op_retries r)),
      (''processed'', PInt (op_processed r)),
      (''snapshots'', PList (map snapshot_as_dict (op_snapshots r))),
      (''diagnostics'', PList (map PStr (op_diagnostics r))),
      (''failure_codes'', PList (map PStr (op_failure_codes r))),
      (''stable'', PBool (op_stable r)),
      (''effects'', no_effects)]"

definition result_id_of :: "(string \<Rightarrow> string) \<Rightarrow> (string \<times> pyval) list \<Rightarrow> string" where
  "result_id_of sha payload = sha (compact_dumps (obj payload))"

definition operation_result_init ::
  "(string \<Rightarrow> string) \<Rightarrow> operation_result \<Rightarrow> exc + operation_result" where
  "operation_result_init sha r =
     (if op_attempted r < 0 \<or> op_completed r < 0 \<or> op_retries r < 0 \<or> op_processed r < 0
      then Inl ValueError
      else if op_completed r > op_attempted r then Inl ValueError
      else if op_result_id r \<noteq> result_id_of sha (operation_payload r) then Inl ValueError
      else Inr r)"

definition build_operation_result ::
  "(string \<Rightarrow> string) \<Rightarrow> operation_fields \<Rightarrow> exc + operation_result" where
  "build_operation_result sha f =
     operation_result_init sha
       (operation_fields.extend f \<lparr>op_result_id = result_id_of sha (operation_payload f)\<rparr>)"

definition operation_as_dict :: "operation_result \<Rightarrow> pyval" where
  "operation_as_dict r = obj (operation_payload r @ [(''result_id'', PStr (op_result_id r))])"

definition operation_to_json :: "operation_result \<Rightarrow> string" where
  "operation_to_json r = compact_dumps (operation_as_dict r)"

definition wf_operation :: "(string \<Rightarrow> string) \<Rightarrow> operation_result \<Rightarrow> bool" where
  "wf_operation sha r \<longleftrightarrow>
     0 \<le> op_completed r \<and> op_completed r \<le> op_attempted r \<and> 0 \<le> op_retries r \<and>
     0 \<le> op_processed r \<and> op_result_id r = result_id_of sha (operation_payload r)"

end
