(* ===== verification/Long_Running.thy ===== *)
theory Long_Running
  imports Resilience
begin

text \<open>
  \<open>src/long_running_operation.py\<close>: \<open>LongRunningHarness.run\<close> drives a step function for a
  bounded number of cycles. The clock and the step are called at most once per cycle and the
  token is read before and after the step, so their behaviour over a run, with whatever state
  or threads are behind it, is a function of the cycle.
\<close>

section \<open>What the harness is given\<close>

record step_sample =
  ss_processed :: int
  ss_retained_events :: int
  ss_pending :: int
  ss_logical_bytes :: int
  ss_active_workers :: int
  ss_diagnostics :: int

definition sample_values :: "step_sample \<Rightarrow> int list" where
  "sample_values s =
     [ss_processed s, ss_retained_events s, ss_pending s, ss_logical_bytes s,
      ss_active_workers s, ss_diagnostics s]"

definition step_sample_init :: "step_sample \<Rightarrow> exc + step_sample" where
  "step_sample_init s =
     (if list_all (\<lambda>v. 0 \<le> v \<and> v \<le> 1000000000) (sample_values s) then Inr s
      else Inl ValueError)"

record operation_context =
  oc_cycle :: int
  oc_tick :: int

definition operation_context_init :: "int \<Rightarrow> int \<Rightarrow> exc + operation_context" where
  "operation_context_init c t =
     (if c < 1 then Inl ValueError
      else if t < 0 then Inl ValueError
      else Inr \<lparr>oc_cycle = c, oc_tick = t\<rparr>)"

text \<open>
  A step returns a sample, anything else or raises; the clock returns any value or raises.
  \<open>hw_cancelled_before c\<close> and \<open>hw_cancelled_after c\<close> are what the token answers in cycle \<open>c\<close>.
\<close>

record harness_world =
  hw_cancelled_before :: "int \<Rightarrow> bool"
  hw_cancelled_after :: "int \<Rightarrow> bool"
  hw_clock :: "int \<Rightarrow> exc + pyval"
  hw_step :: "operation_context \<Rightarrow> exc + (step_sample + pyval)"

definition default_tick :: "int \<Rightarrow> exc + pyval" where
  "default_tick c = Inr (PInt c)"

text \<open>\<open>except Exception\<close> lets an interruption of the process through.\<close>

definition is_exception :: "exc \<Rightarrow> bool" where
  "is_exception e \<longleftrightarrow> e \<noteq> KeyboardInterrupt \<and> e \<noteq> Killed"

record harness =
  lh_budget :: resource_budget
  lh_plan :: failure_plan

definition harness_init ::
  "(string \<Rightarrow> string) \<Rightarrow> resource_budget \<Rightarrow> failure_plan option \<Rightarrow> exc + harness" where
  "harness_init sha b plan =
     bindE (case plan of Some p \<Rightarrow> Inr p | None \<Rightarrow> failure_plan_build sha []) (\<lambda>p.
       if list_ex (\<lambda>e. fe_cycle e > rb_max_cycles b) (fp_events p) then Inl ValueError
       else Inr \<lparr>lh_budget = b, lh_plan = p\<rparr>)"

section \<open>\<open>run\<close>\<close>

record run_state =
  rs_counters :: counters
  rs_snapshots :: "stability_snapshot list"
  rs_diagnostics :: "string list"
  rs_failure_codes :: "string list"
  rs_retries :: int
  rs_completed :: int
  rs_attempted :: int
  rs_processed :: int
  rs_previous_tick :: int

definition run_start :: run_state where
  "run_start =
     \<lparr>rs_counters = new_counters, rs_snapshots = [], rs_diagnostics = [], rs_failure_codes = [],
      rs_retries = 0, rs_completed = 0, rs_attempted = 0, rs_processed = 0,
      rs_previous_tick = -1\<rparr>"

definition run_result ::
  "(string \<Rightarrow> string) \<Rightarrow> operation_state \<Rightarrow> termination_reason \<Rightarrow> bool \<Rightarrow> run_state \<Rightarrow>
     exc + operation_result" where
  "run_result sha state reason is_stable st =
     build_operation_result sha
       \<lparr>op_state = state, op_reason = reason, op_attempted = rs_attempted st,
        op_completed = rs_completed st, op_retries = rs_retries st,
        op_processed = rs_processed st, op_snapshots = rs_snapshots st,
        op_diagnostics = rs_diagnostics st, op_failure_codes = rs_failure_codes st,
        op_stable = is_stable\<rparr>"

text \<open>One cycle either returns a result (\<open>Inl\<close>) or goes on with a new state (\<open>Inr\<close>).\<close>

type_synonym cycle_outcome = "exc + (operation_result + run_state)"

definition stop ::
  "(string \<Rightarrow> string) \<Rightarrow> operation_state \<Rightarrow> termination_reason \<Rightarrow> bool \<Rightarrow> run_state \<Rightarrow>
     cycle_outcome" where
  "stop sha state reason is_stable st =
     bindE (run_result sha state reason is_stable st) (\<lambda>r. Inr (Inl r))"

definition cancel_run :: "(string \<Rightarrow> string) \<Rightarrow> run_state \<Rightarrow> cycle_outcome" where
  "cancel_run sha st =
     bindE (increment CANCELLATIONS 1 (rs_counters st)) (\<lambda>k.
       stop sha Cancelled Was_Cancelled True (st\<lparr>rs_counters := k\<rparr>))"

definition failure_cycle ::
  "(string \<Rightarrow> string) \<Rightarrow> resource_budget \<Rightarrow> failure_event \<Rightarrow> run_state \<Rightarrow> cycle_outcome" where
  "failure_cycle sha b e st =
     bindE (increment FAILURES 1 (rs_counters st)) (\<lambda>k.
     let st = st\<lparr>rs_counters := k, rs_failure_codes := rs_failure_codes st @ [fe_code e]\<rparr> in
     bindE (decide_recovery e (rs_retries st) b) (\<lambda>decision.
       if \<not> rd_retry_allowed decision
       then stop sha Failed
              (if rd_code decision = ''retry_budget_exhausted'' then Retry_Budget_Exhausted
               else Permanent_Failure) False st
       else
         bindE (increment RETRIES 1 (rs_counters st)) (\<lambda>k.
         let st = st\<lparr>rs_retries := rs_retries st + 1, rs_counters := k\<rparr> in
         if int (length (rs_diagnostics st)) \<ge> rb_max_diagnostics b
         then stop sha Failed Resource_Budget_Exhausted False st
         else Inr (Inr (st\<lparr>rs_diagnostics := rs_diagnostics st @ [rd_code decision]\<rparr>)))))"

definition take_sample ::
  "(string \<Rightarrow> string) \<Rightarrow> resource_budget \<Rightarrow> int \<Rightarrow> int \<Rightarrow> bool \<Rightarrow> step_sample \<Rightarrow> run_state \<Rightarrow>
     cycle_outcome" where
  "take_sample sha b c tick cancelled sample st =
     bindE (stability_snapshot_init
       \<lparr>sn_cycle = c, sn_tick = tick, sn_retained_events = ss_retained_events sample,
        sn_pending = ss_pending sample, sn_logical_bytes = ss_logical_bytes sample,
        sn_active_workers = ss_active_workers sample,
        sn_diagnostics = ss_diagnostics sample\<rparr>) (\<lambda>snapshot.
     let st = st\<lparr>rs_snapshots := rs_snapshots st @ [snapshot],
                rs_completed := rs_completed st + 1,
                rs_processed := rs_processed st + ss_processed sample\<rparr> in
     case increment PROCESSED (ss_processed sample) (rs_counters st) of
       Inl e \<Rightarrow>
         if is_value_error e then stop sha Failed Resource_Budget_Exhausted False st else Inl e
     | Inr k \<Rightarrow>
         let st = st\<lparr>rs_counters := k\<rparr> in
         if \<not> as_stable (assess_stability [snapshot] b)
         then stop sha Failed Resource_Budget_Exhausted False st
         else if cancelled then cancel_run sha st
         else Inr (Inr st))"

definition step_cycle ::
  "(string \<Rightarrow> string) \<Rightarrow> harness \<Rightarrow> harness_world \<Rightarrow> int \<Rightarrow> int \<Rightarrow> run_state \<Rightarrow> cycle_outcome" where
  "step_cycle sha h w c tick st =
     (case bindE (operation_context_init c tick) (hw_step w) of
        Inl e \<Rightarrow>
          if is_exception e then stop sha Failed Step_Exception False st else Inl e
      | Inr (Inr _) \<Rightarrow> stop sha Failed Step_Exception False st
      | Inr (Inl sample) \<Rightarrow>
          take_sample sha (lh_budget h) c tick (hw_cancelled_after w c) sample st)"

definition run_cycle ::
  "(string \<Rightarrow> string) \<Rightarrow> harness \<Rightarrow> harness_world \<Rightarrow> int \<Rightarrow> run_state \<Rightarrow> cycle_outcome" where
  "run_cycle sha h w c st =
     (let st = st\<lparr>rs_attempted := c\<rparr> in
      if hw_cancelled_before w c then cancel_run sha st
      else
        case hw_clock w c of
          Inl e \<Rightarrow>
            if is_exception e then stop sha Failed Non_Monotonic_Clock False st else Inl e
        | Inr v \<Rightarrow>
            (case v of
               PInt tick \<Rightarrow>
                 if tick < 0 \<or> tick \<le> rs_previous_tick st
                 then stop sha Failed Non_Monotonic_Clock False st
                 else
                   let st = st\<lparr>rs_previous_tick := tick\<rparr> in
                   (case event_for (lh_plan h) c of
                      Some e \<Rightarrow> failure_cycle sha (lh_budget h) e st
                    | None \<Rightarrow> step_cycle sha h w c tick st)
             | _ \<Rightarrow> stop sha Failed Non_Monotonic_Clock False st))"

definition final_assessment ::
  "(string \<Rightarrow> string) \<Rightarrow> harness \<Rightarrow> run_state \<Rightarrow> exc + operation_result" where
  "final_assessment sha h st =
     (let a = assess_stability (rs_snapshots st) (lh_budget h) in
      if \<not> as_stable a
      then run_result sha Failed
             (if list_ex (starts_with ''strict_monotonic_growth.'') (as_violations a)
              then Unbounded_Growth_Detected else Resource_Budget_Exhausted) False st
      else run_result sha Completed Ran_To_End True st)"

fun run_cycles ::
  "(string \<Rightarrow> string) \<Rightarrow> harness \<Rightarrow> harness_world \<Rightarrow> int list \<Rightarrow> run_state \<Rightarrow>
     exc + operation_result" where
  "run_cycles sha h w [] st = final_assessment sha h st"
| "run_cycles sha h w (c # cs) st =
     bindE (run_cycle sha h w c st) (\<lambda>outcome.
       case outcome of Inl r \<Rightarrow> Inr r | Inr st' \<Rightarrow> run_cycles sha h w cs st')"

definition harness_run ::
  "(string \<Rightarrow> string) \<Rightarrow> harness \<Rightarrow> harness_world \<Rightarrow> exc + operation_result" where
  "harness_run sha h w = run_cycles sha h w [1..rb_max_cycles (lh_budget h)] run_start"

section \<open>What a run keeps\<close>

text \<open>
  After \<open>n\<close> cycles each cycle has a sample or an injected failure that was retried. A result
  never reports more than the budget allows.
\<close>

definition failed_until :: "failure_plan \<Rightarrow> int \<Rightarrow> failure_event list" where
  "failed_until p n = filter (\<lambda>e. fe_cycle e \<le> n) (fp_events p)"

definition sampled_until :: "failure_plan \<Rightarrow> int \<Rightarrow> int list" where
  "sampled_until p n = filter (\<lambda>c. c \<notin> fe_cycle ` set (fp_events p)) [1..n]"

definition samples_ok :: "run_state \<Rightarrow> bool" where
  "samples_ok st \<longleftrightarrow> int (length (rs_snapshots st)) = rs_completed st \<and>
     sorted_wrt (<) (map sn_tick (rs_snapshots st)) \<and>
     list_all (\<lambda>s. sn_tick s \<le> rs_previous_tick st) (rs_snapshots st)"

definition counts_ok :: "harness \<Rightarrow> run_state \<Rightarrow> bool" where
  "counts_ok h st \<longleftrightarrow> 0 \<le> rs_completed st \<and> 0 \<le> rs_retries st \<and> 0 \<le> rs_processed st \<and>
     rs_completed st + rs_retries st \<le> rs_attempted st \<and>
     rs_attempted st \<le> rb_max_cycles (lh_budget h) \<and>
     rs_retries st \<le> rb_max_retries (lh_budget h) \<and>
     int (length (rs_diagnostics st)) \<le> rb_max_diagnostics (lh_budget h)"

definition run_inv :: "harness \<Rightarrow> int \<Rightarrow> run_state \<Rightarrow> bool" where
  "run_inv h n st \<longleftrightarrow> counts_ok h st \<and> samples_ok st \<and>
     rs_attempted st = n \<and> rs_completed st + rs_retries st = n \<and>
     int (length (rs_diagnostics st)) = rs_retries st \<and>
     rs_failure_codes st = map fe_code (failed_until (lh_plan h) n) \<and>
     rs_retries st = int (length (failed_until (lh_plan h) n)) \<and>
     map sn_cycle (rs_snapshots st) = sampled_until (lh_plan h) n \<and>
     list_all (\<lambda>s. budget_violations (lh_budget h) s = []) (rs_snapshots st)"

definition result_ok :: "(string \<Rightarrow> string) \<Rightarrow> harness \<Rightarrow> operation_result \<Rightarrow> bool" where
  "result_ok sha h r \<longleftrightarrow> wf_operation sha r \<and>
     op_completed r + op_retries r \<le> op_attempted r \<and>
     op_attempted r \<le> rb_max_cycles (lh_budget h) \<and>
     op_retries r \<le> rb_max_retries (lh_budget h) \<and>
     int (length (op_diagnostics r)) \<le> rb_max_diagnostics (lh_budget h) \<and>
     int (length (op_snapshots r)) = op_completed r \<and>
     sorted_wrt (<) (map sn_tick (op_snapshots r)) \<and>
     (op_stable r \<longleftrightarrow> op_state r = Completed \<or> op_state r = Cancelled)"

definition completed_ok :: "harness \<Rightarrow> operation_result \<Rightarrow> bool" where
  "completed_ok h r \<longleftrightarrow> op_attempted r = rb_max_cycles (lh_budget h) \<and>
     op_completed r + op_retries r = op_attempted r \<and>
     op_failure_codes r = map fe_code (fp_events (lh_plan h)) \<and>
     map sn_cycle (op_snapshots r) =
       sampled_until (lh_plan h) (rb_max_cycles (lh_budget h)) \<and>
     list_all (\<lambda>s. budget_violations (lh_budget h) s = []) (op_snapshots r) \<and>
     growth_violations (lh_budget h) (op_snapshots r) = []"

definition outcome_ok :: "(string \<Rightarrow> string) \<Rightarrow> harness \<Rightarrow> int \<Rightarrow> cycle_outcome \<Rightarrow> bool" where
  "outcome_ok sha h c out \<longleftrightarrow>
     (\<exists>r. out = Inr (Inl r) \<and> result_ok sha h r \<and> op_state r \<noteq> Completed) \<or>
     (\<exists>st. out = Inr (Inr st) \<and> run_inv h c st)"

text \<open>
  The step and the clock raise subclasses of \<open>Exception\<close> only, and a sample was accepted by its
  constructor.
\<close>

definition world_ok :: "harness_world \<Rightarrow> bool" where
  "world_ok w \<longleftrightarrow> (\<forall>c e. hw_clock w c = Inl e \<longrightarrow> is_exception e) \<and>
     (\<forall>x e. hw_step w x = Inl e \<longrightarrow> is_exception e) \<and>
     (\<forall>x s. hw_step w x = Inr (Inl s) \<longrightarrow> step_sample_init s = Inr s)"

definition wf_harness :: "harness \<Rightarrow> bool" where
  "wf_harness h \<longleftrightarrow> wf_budget (lh_budget h) \<and>
     sorted_wrt (<) (map fe_cycle (fp_events (lh_plan h))) \<and>
     list_all (\<lambda>e. 1 \<le> fe_cycle e \<and> fe_cycle e \<le> rb_max_cycles (lh_budget h))
       (fp_events (lh_plan h))"

lemma run_result_ok:
  assumes "counts_ok h st" "samples_ok st" "s \<longleftrightarrow> q = Completed \<or> q = Cancelled"
  shows "\<exists>r. run_result sha q y s st = Inr r \<and> result_ok sha h r \<and> op_state r = q \<and>
    op_attempted r = rs_attempted st \<and> op_completed r = rs_completed st \<and>
    op_retries r = rs_retries st \<and> op_failure_codes r = rs_failure_codes st \<and>
    op_snapshots r = rs_snapshots st"
  using assms unfolding counts_ok_def samples_ok_def
  by (auto simp: run_result_def build_operation_result_def operation_result_init_def
      operation_fields.extend_def operation_payload_def result_ok_def wf_operation_def)

lemma stop_ok:
  assumes "counts_ok h st" "samples_ok st" "q \<noteq> Completed" "s \<longleftrightarrow> q = Cancelled"
  shows "outcome_ok sha h c (stop sha q y s st)"
  using run_result_ok [OF assms(1,2), of s q sha y] assms(3,4)
  by (auto simp: stop_def outcome_ok_def)

lemma go_ok: "run_inv h c st \<Longrightarrow> outcome_ok sha h c (Inr (Inr st))"
  by (simp add: outcome_ok_def)

lemma cancel_run_ok: "counts_ok h st \<Longrightarrow> samples_ok st \<Longrightarrow> outcome_ok sha h c (cancel_run sha st)"
  by (auto simp: cancel_run_def increment_def intro!: stop_ok)
    (auto simp: counts_ok_def samples_ok_def)

lemma failed_until_step:
  assumes "sorted_wrt (<) (map fe_cycle (fp_events p))"
  shows "failed_until p c = failed_until p (c - 1) @
    (case event_for p c of None \<Rightarrow> [] | Some e \<Rightarrow> [e])"
proof -
  have "filter (\<lambda>e. fe_cycle e \<le> c) es = filter (\<lambda>e. fe_cycle e \<le> c - 1) es @
      (case find_event c es of None \<Rightarrow> [] | Some e \<Rightarrow> [e])"
    if "sorted_wrt (<) (map fe_cycle es)" for es :: "failure_event list"
    using that
  proof (induction es)
    case (Cons a es)
    then have *: "\<And>x. x \<in> set es \<Longrightarrow> fe_cycle a < fe_cycle x" by simp
    consider "fe_cycle a = c" | "fe_cycle a > c" | "fe_cycle a < c" by linarith
    then show ?case
    proof cases
      case 1
      then have "filter (\<lambda>e. fe_cycle e \<le> c) es = []" "filter (\<lambda>e. fe_cycle e \<le> c - 1) es = []"
        using * by (force simp: filter_empty_conv)+
      then show ?thesis using 1 by simp
    next
      case 2
      then have "filter (\<lambda>e. fe_cycle e \<le> c) es = []" "filter (\<lambda>e. fe_cycle e \<le> c - 1) es = []"
        using * by (force simp: filter_empty_conv)+
      then show ?thesis using 2 by simp
    next
      case 3
      then show ?thesis using Cons by simp
    qed
  qed simp
  then show ?thesis using assms by (simp add: failed_until_def event_for_def)
qed

lemma sampled_until_step:
  assumes "sorted_wrt (<) (map fe_cycle (fp_events p))" "1 \<le> c"
  shows "sampled_until p c = sampled_until p (c - 1) @
    (case event_for p c of None \<Rightarrow> [c] | Some _ \<Rightarrow> [])"
proof -
  have "[1..c] = [1..c - 1] @ [c]" using upto_rec2 [of 1 c] assms(2) by simp
  then show ?thesis using find_event_None [OF assms(1), of c] find_event_Some [OF assms(1), of c]
    by (auto simp: sampled_until_def event_for_def split: option.splits)
qed

lemma as_stable_iff:
  "as_stable (assess_stability ss b) \<longleftrightarrow>
     list_all (\<lambda>s. budget_violations b s = []) ss \<and> growth_violations b ss = []"
proof -
  have "sort (remdups vs) = [] \<longleftrightarrow> vs = []" for vs :: "string list"
    by (metis length_0_conv length_sort remdups_eq_nil_iff)
  then show ?thesis by (auto simp: assess_stability_def Let_def list_all_iff)
qed

lemma sampled_until_snoc:
  assumes "wf_harness h" "run_inv h (c - 1) st" "1 \<le> c"
  shows "failed_until (lh_plan h) c = failed_until (lh_plan h) (c - 1) @
      (case event_for (lh_plan h) c of None \<Rightarrow> [] | Some e \<Rightarrow> [e])"
    "sampled_until (lh_plan h) c = sampled_until (lh_plan h) (c - 1) @
      (case event_for (lh_plan h) c of None \<Rightarrow> [c] | Some _ \<Rightarrow> [])"
  using assms(1,3) unfolding wf_harness_def
  by (blast intro: failed_until_step sampled_until_step)+

lemma failure_cycle_ok:
  assumes "wf_harness h" "1 \<le> c" "c \<le> rb_max_cycles (lh_budget h)" "run_inv h (c - 1) st0"
    "event_for (lh_plan h) c = Some e" "st = st0\<lparr>rs_attempted := c, rs_previous_tick := t\<rparr>"
    "rs_previous_tick st0 < t"
  shows "outcome_ok sha h c (failure_cycle sha (lh_budget h) e st)"
proof -
  note new = sampled_until_snoc [OF assms(1,4,2), unfolded assms(5), simplified]
  have inv: "run_inv h (c - 1) st0" by fact
  have st: "counts_ok h st" "samples_ok st"
    using inv assms(3,7) by (auto simp: assms(6) run_inv_def counts_ok_def samples_ok_def list_all_iff)
  show ?thesis
  proof (cases "fe_kind e = PERMANENT_ERROR \<or> \<not> fe_recoverable e \<or>
      rb_max_retries (lh_budget h) \<le> rs_retries st")
    case True
    then show ?thesis using st
      by (auto simp: failure_cycle_def increment_def decide_recovery_def Let_def counts_ok_def
          samples_ok_def intro!: stop_ok)
  next
    case False
    let ?k = "(rs_counters st)(FAILURES := rs_counters st FAILURES + 1)"
    let ?st = "st\<lparr>rs_failure_codes := rs_failure_codes st @ [fe_code e],
      rs_retries := rs_retries st + 1, rs_counters := ?k(RETRIES := ?k RETRIES + 1)\<rparr>"
    have run: "failure_cycle sha (lh_budget h) e st =
      (if int (length (rs_diagnostics st)) \<ge> rb_max_diagnostics (lh_budget h)
       then stop sha Failed Resource_Budget_Exhausted False ?st
       else Inr (Inr (?st\<lparr>rs_diagnostics := rs_diagnostics st @ [''retry_allowed'']\<rparr>)))"
      using False st by (simp add: failure_cycle_def increment_def decide_recovery_def Let_def
          counts_ok_def)
    have "counts_ok h ?st" "samples_ok ?st"
      using st False inv by (auto simp: counts_ok_def samples_ok_def run_inv_def assms(6))
    moreover have "run_inv h c (?st\<lparr>rs_diagnostics := rs_diagnostics st @ [''retry_allowed'']\<rparr>)"
      if "\<not> int (length (rs_diagnostics st)) \<ge> rb_max_diagnostics (lh_budget h)"
      using that calculation inv new
      by (auto simp: run_inv_def counts_ok_def samples_ok_def assms(6))
    ultimately show ?thesis unfolding run by (auto intro!: stop_ok go_ok)
  qed
qed

lemma take_sample_ok:
  assumes "wf_harness h" "1 \<le> c" "c \<le> rb_max_cycles (lh_budget h)" "run_inv h (c - 1) st0"
    "event_for (lh_plan h) c = None" "st = st0\<lparr>rs_attempted := c, rs_previous_tick := t\<rparr>"
    "rs_previous_tick st0 < t" "0 \<le> t" "step_sample_init s = Inr s"
  shows "outcome_ok sha h c (take_sample sha (lh_budget h) c t cancelled s st)"
proof -
  note new = sampled_until_snoc [OF assms(1,4,2), unfolded assms(5), simplified]
  have inv: "run_inv h (c - 1) st0" by fact
  let ?n = "\<lparr>sn_cycle = c, sn_tick = t, sn_retained_events = ss_retained_events s,
    sn_pending = ss_pending s, sn_logical_bytes = ss_logical_bytes s,
    sn_active_workers = ss_active_workers s, sn_diagnostics = ss_diagnostics s\<rparr>"
  let ?st = "st\<lparr>rs_snapshots := rs_snapshots st @ [?n], rs_completed := rs_completed st + 1,
    rs_processed := rs_processed st + ss_processed s\<rparr>"
  have n: "stability_snapshot_init ?n = Inr ?n" "0 \<le> ss_processed s"
    using assms(2,8,9)
    by (auto simp: stability_snapshot_init_def snapshot_values_def step_sample_init_def
        sample_values_def split: if_splits)
  have st: "counts_ok h (?st\<lparr>rs_counters := k\<rparr>)" "samples_ok (?st\<lparr>rs_counters := k\<rparr>)" for k
    using inv assms(3,7) n(2)
    by (auto simp: assms(6) run_inv_def counts_ok_def samples_ok_def list_all_iff sorted_wrt_append)
  have st': "counts_ok h ?st" "samples_ok ?st" using st [of "rs_counters st"] by simp_all
  have "run_inv h c (?st\<lparr>rs_counters := k\<rparr>)" if "as_stable (assess_stability [?n] (lh_budget h))" for k
    using st [of k] inv new that
    by (auto simp: run_inv_def assms(6) as_stable_iff)
  then show ?thesis using st st' n(2)
    by (simp add: take_sample_def n(1) increment_def Let_def stop_ok go_ok cancel_run_ok)
qed

lemma step_cycle_ok:
  assumes "wf_harness h" "world_ok w" "1 \<le> c" "c \<le> rb_max_cycles (lh_budget h)"
    "run_inv h (c - 1) st0" "event_for (lh_plan h) c = None"
    "st = st0\<lparr>rs_attempted := c, rs_previous_tick := t\<rparr>" "rs_previous_tick st0 < t" "0 \<le> t"
  shows "outcome_ok sha h c (step_cycle sha h w c t st)"
proof -
  have st: "counts_ok h st" "samples_ok st"
    using assms(4,5,8)
    by (auto simp: assms(7) run_inv_def counts_ok_def samples_ok_def list_all_iff)
  show ?thesis
  proof (cases "hw_step w \<lparr>oc_cycle = c, oc_tick = t\<rparr>")
    case (Inl e)
    then have "is_exception e" using assms(2) unfolding world_ok_def by blast
    then show ?thesis using Inl assms(3,9) st
      by (auto simp: step_cycle_def operation_context_init_def intro!: stop_ok)
  next
    case (Inr v)
    show ?thesis
    proof (cases v)
      case (Inl s)
      then have "step_sample_init s = Inr s" using assms(2) Inr unfolding world_ok_def by blast
      then show ?thesis
        using Inl Inr assms(3,9) take_sample_ok [OF assms(1,3,4,5,6,7,8,9)]
        by (simp add: step_cycle_def operation_context_init_def)
    qed (use Inr assms(3,9) st in
        \<open>auto simp: step_cycle_def operation_context_init_def intro!: stop_ok\<close>)
  qed
qed

lemma run_cycle_ok:
  assumes "wf_harness h" "world_ok w" "1 \<le> c" "c \<le> rb_max_cycles (lh_budget h)"
    "run_inv h (c - 1) st"
  shows "outcome_ok sha h c (run_cycle sha h w c st)"
proof -
  have st: "counts_ok h (st\<lparr>rs_attempted := c\<rparr>)" "samples_ok (st\<lparr>rs_attempted := c\<rparr>)"
    using assms(4,5) by (auto simp: run_inv_def counts_ok_def samples_ok_def)
  have clock: "hw_clock w c = Inl e \<Longrightarrow> is_exception e" for e
    using assms(2) unfolding world_ok_def by blast
  have bad: "outcome_ok sha h c (stop sha Failed Non_Monotonic_Clock False (st\<lparr>rs_attempted := c\<rparr>))"
    using st by (auto intro: stop_ok)
  have tick: "outcome_ok sha h c (case event_for (lh_plan h) c of
      Some e \<Rightarrow> failure_cycle sha (lh_budget h) e (st\<lparr>rs_attempted := c, rs_previous_tick := t\<rparr>)
    | None \<Rightarrow> step_cycle sha h w c t (st\<lparr>rs_attempted := c, rs_previous_tick := t\<rparr>))"
    if "0 \<le> t" "rs_previous_tick st < t" for t
    using failure_cycle_ok [OF assms(1,3,4,5) _ refl that(2)]
      step_cycle_ok [OF assms _ refl that(2,1)]
    by (auto split: option.split)
  show ?thesis
  proof (cases "hw_clock w c")
    case (Inl e)
    then show ?thesis using bad clock st by (auto simp: run_cycle_def Let_def intro: cancel_run_ok)
  next
    case (Inr v)
    then show ?thesis using bad tick st
      by (cases v) (auto simp: run_cycle_def Let_def intro: cancel_run_ok)
  qed
qed

section \<open>Runs\<close>

lemma run_start_inv: "wf_harness h \<Longrightarrow> run_inv h 0 run_start"
  by (auto simp: run_inv_def run_start_def counts_ok_def samples_ok_def sampled_until_def
      failed_until_def wf_harness_def wf_budget_def budget_limits_def budget_values_def
      list_all_iff filter_empty_conv)

lemma final_assessment_ok:
  assumes "wf_harness h" "run_inv h (rb_max_cycles (lh_budget h)) st"
  shows "\<exists>r. final_assessment sha h st = Inr r \<and> result_ok sha h r \<and>
    op_snapshots r = rs_snapshots st \<and> op_retries r = rs_retries st \<and>
    op_attempted r = rs_attempted st \<and> op_completed r = rs_completed st \<and>
    op_failure_codes r = rs_failure_codes st \<and>
    (if growth_violations (lh_budget h) (rs_snapshots st) = []
     then op_state r = Completed \<and> completed_ok h r else op_state r = Failed)"
proof -
  have st: "counts_ok h st" "samples_ok st" using assms(2) by (simp_all add: run_inv_def)
  have all: "failed_until (lh_plan h) (rb_max_cycles (lh_budget h)) = fp_events (lh_plan h)"
    using assms(1) by (auto simp: failed_until_def wf_harness_def list_all_iff)
  show ?thesis
  proof (cases "growth_violations (lh_budget h) (rs_snapshots st) = []")
    case True
    with assms(2) have "as_stable (assess_stability (rs_snapshots st) (lh_budget h))"
      by (simp add: as_stable_iff run_inv_def)
    moreover from run_result_ok [OF st, of True Completed sha Ran_To_End]
    obtain r where "run_result sha Completed Ran_To_End True st = Inr r" "result_ok sha h r"
      "op_state r = Completed" "op_snapshots r = rs_snapshots st" "op_retries r = rs_retries st"
      "op_attempted r = rs_attempted st" "op_completed r = rs_completed st"
      "op_failure_codes r = rs_failure_codes st" by auto
    ultimately show ?thesis using True assms(2) all
      by (auto simp: final_assessment_def Let_def completed_ok_def run_inv_def)
  next
    case False
    then have "\<not> as_stable (assess_stability (rs_snapshots st) (lh_budget h))"
      by (simp add: as_stable_iff)
    then show ?thesis using False run_result_ok [OF st, of False Failed sha]
      by (fastforce simp: final_assessment_def Let_def)
  qed
qed

lemma upto_split: "c \<le> d \<Longrightarrow> [c..d] = c # [c + 1..d]"
  by (rule upto_rec1)

lemma run_cycles_ok:
  assumes "wf_harness h" "world_ok w"
  shows "1 \<le> c \<Longrightarrow> c \<le> rb_max_cycles (lh_budget h) + 1 \<Longrightarrow> run_inv h (c - 1) st \<Longrightarrow>
    \<exists>r. run_cycles sha h w [c..rb_max_cycles (lh_budget h)] st = Inr r \<and> result_ok sha h r \<and>
      (op_state r = Completed \<longrightarrow> completed_ok h r)"
proof (induction "nat (rb_max_cycles (lh_budget h) + 1 - c)" arbitrary: c st)
  case 0
  then have "c = rb_max_cycles (lh_budget h) + 1" by simp
  then show ?case using final_assessment_ok [OF assms(1), of st sha] 0
    by (fastforce split: if_splits)
next
  case (Suc k)
  then have c: "c \<le> rb_max_cycles (lh_budget h)" by simp
  note cyc = run_cycle_ok [OF assms Suc.prems(1) c Suc.prems(3), of sha, unfolded outcome_ok_def]
  then show ?case
  proof
    assume "\<exists>r. run_cycle sha h w c st = Inr (Inl r) \<and> result_ok sha h r \<and> op_state r \<noteq> Completed"
    then show ?thesis by (auto simp: upto_split [OF c])
  next
    assume "\<exists>st'. run_cycle sha h w c st = Inr (Inr st') \<and> run_inv h c st'"
    then obtain st' where "run_cycle sha h w c st = Inr (Inr st')" "run_inv h c st'" by blast
    then show ?thesis using Suc.hyps(1) [of "c + 1" st'] Suc.hyps(2) Suc.prems(1) c
      by (simp add: upto_split [OF c])
  qed
qed

lemma harness_init_ok:
  assumes "resource_budget_init args = Inr b"
    "list_all (\<lambda>e. \<exists>c k s r. failure_event_init c k s r = Inr e) es"
    "failure_plan_build sha es = Inr p" "harness_init sha b (Some p) = Inr h"
  shows "wf_harness h \<and> lh_budget h = b \<and> lh_plan h = p \<and> fp_events p = es"
proof -
  have "wf_event e" if "e \<in> set es" for e
    using assms(2) that by (auto simp: list_all_iff dest: failure_event_init_ok)
  then show ?thesis using assms(1,3,4)
    by (auto simp: harness_init_def failure_plan_build_def failure_plan_init_iff wf_failure_plan_def
        resource_budget_init_iff wf_harness_def wf_event_def list_ex_iff list_all_iff
        not_less split: if_splits)
qed

lemmas harness_run_ok =
  run_cycles_ok [where c = 1, simplified, OF _ _ _ run_start_inv, folded harness_run_def]

text \<open>
  A healthy world is never cancelled, uses the harness's own clock, and every sample stays
  within the budget. A plan can be retried when every failure is recoverable and there is
  room for all of them.
\<close>

definition sample_fits :: "resource_budget \<Rightarrow> step_sample \<Rightarrow> bool" where
  "sample_fits b s \<longleftrightarrow> ss_processed s \<le> 1000000 \<and>
     ss_retained_events s \<le> rb_max_events b \<and> ss_pending s \<le> rb_max_pending b \<and>
     ss_logical_bytes s \<le> rb_max_logical_bytes b \<and> ss_active_workers s \<le> rb_max_workers b \<and>
     ss_diagnostics s \<le> rb_max_diagnostics b"

definition healthy_world :: "resource_budget \<Rightarrow> harness_world \<Rightarrow> bool" where
  "healthy_world b w \<longleftrightarrow>
     (\<forall>c. \<not> hw_cancelled_before w c \<and> \<not> hw_cancelled_after w c \<and>
          hw_clock w c = default_tick c) \<and>
     (\<forall>x. \<exists>s. hw_step w x = Inr (Inl s) \<and> step_sample_init s = Inr s \<and> sample_fits b s)"

definition retryable :: "resource_budget \<Rightarrow> failure_event list \<Rightarrow> bool" where
  "retryable b es \<longleftrightarrow> list_all (\<lambda>e. fe_recoverable e \<and> fe_kind e \<noteq> PERMANENT_ERROR) es \<and>
     int (length es) \<le> rb_max_retries b \<and> int (length es) \<le> rb_max_diagnostics b"

lemma healthy_world_ok: "healthy_world b w \<Longrightarrow> world_ok w"
  unfolding healthy_world_def world_ok_def default_tick_def
  by (metis Inl_Inr_False Inl_inject Inr_inject)

lemma sample_fits_violations:
  "sample_fits b s \<Longrightarrow> budget_violations b
     \<lparr>sn_cycle = c, sn_tick = t, sn_retained_events = ss_retained_events s,
      sn_pending = ss_pending s, sn_logical_bytes = ss_logical_bytes s,
      sn_active_workers = ss_active_workers s, sn_diagnostics = ss_diagnostics s\<rparr> = []"
  by (simp add: sample_fits_def budget_violations_def measures_def)

lemma growth_single: "wf_budget b \<Longrightarrow> growth_violations b [s] = []"
  by (auto simp: growth_violations_def Let_def wf_budget_def budget_limits_def budget_values_def)

lemma healthy_failure_cycle:
  assumes "wf_harness h" "retryable (lh_budget h) (fp_events (lh_plan h))" "1 \<le> c"
    "run_inv h (c - 1) st0" "event_for (lh_plan h) c = Some e"
    "st = st0\<lparr>rs_attempted := c, rs_previous_tick := c\<rparr>"
  shows "\<exists>st'. failure_cycle sha (lh_budget h) e st = Inr (Inr st') \<and> rs_previous_tick st' = c"
proof -
  have "failed_until (lh_plan h) c = failed_until (lh_plan h) (c - 1) @ [e]"
    using sampled_until_snoc(1) [OF assms(1,4,3)] assms(5) by simp
  moreover have "length (failed_until (lh_plan h) c) \<le> length (fp_events (lh_plan h))"
    by (simp add: failed_until_def)
  ultimately have n: "length (failed_until (lh_plan h) (c - 1)) < length (fp_events (lh_plan h))"
    by simp
  have "e \<in> set (fp_events (lh_plan h))"
    using assms(1,5) find_event_Some by (auto simp: wf_harness_def event_for_def)
  then have "fe_recoverable e" "fe_kind e \<noteq> PERMANENT_ERROR"
    using assms(2) by (auto simp: retryable_def list_all_iff)
  then show ?thesis using assms(2,4) n
    by (auto simp: failure_cycle_def increment_def decide_recovery_def assms(6) run_inv_def
        retryable_def Let_def)
qed

lemma healthy_cycle:
  assumes "wf_harness h" "healthy_world (lh_budget h) w"
    "retryable (lh_budget h) (fp_events (lh_plan h))" "1 \<le> c" "c \<le> rb_max_cycles (lh_budget h)"
    "run_inv h (c - 1) st" "rs_previous_tick st < c"
  shows "\<exists>st'. run_cycle sha h w c st = Inr (Inr st') \<and> run_inv h c st' \<and>
    rs_previous_tick st' = c"
proof -
  obtain s where s: "hw_step w \<lparr>oc_cycle = c, oc_tick = c\<rparr> = Inr (Inl s)"
    "step_sample_init s = Inr s" "sample_fits (lh_budget h) s"
    using assms(2) unfolding healthy_world_def by blast
  have n: "0 \<le> ss_processed s" "ss_processed s \<le> 1000000" "0 \<le> ss_retained_events s"
    "0 \<le> ss_pending s" "0 \<le> ss_logical_bytes s" "0 \<le> ss_active_workers s" "0 \<le> ss_diagnostics s"
    using s(2,3)
    by (auto simp: step_sample_init_def sample_values_def sample_fits_def split: if_splits)
  have w: "\<not> hw_cancelled_before w c" "\<not> hw_cancelled_after w c" "hw_clock w c = Inr (PInt c)"
    using assms(2) by (auto simp: healthy_world_def default_tick_def)
  have b: "wf_budget (lh_budget h)" using assms(1) by (simp add: wf_harness_def)
  have "\<exists>st'. run_cycle sha h w c st = Inr (Inr st') \<and> rs_previous_tick st' = c"
  proof (cases "event_for (lh_plan h) c")
    case None
    then show ?thesis using assms(4,7) w s n
      by (simp add: run_cycle_def step_cycle_def operation_context_init_def take_sample_def
          stability_snapshot_init_def snapshot_values_def increment_def as_stable_iff
          sample_fits_violations growth_single [OF b] Let_def)
  next
    case (Some e)
    then show ?thesis using healthy_failure_cycle [OF assms(1,3,4,6) Some refl] assms(4,7) w
      by (simp add: run_cycle_def Let_def)
  qed
  then show ?thesis
    using run_cycle_ok [OF assms(1) healthy_world_ok [OF assms(2)] assms(4-6), of sha]
    by (auto simp: outcome_ok_def)
qed

text \<open>A snapshot holds what the step returned when it was called in that cycle at that tick.\<close>

definition sample_of_step :: "harness_world \<Rightarrow> stability_snapshot \<Rightarrow> bool" where
  "sample_of_step w s \<longleftrightarrow>
     (\<exists>x. hw_step w \<lparr>oc_cycle = sn_cycle s, oc_tick = sn_tick s\<rparr> = Inr (Inl x) \<and>
        sn_retained_events s = ss_retained_events x \<and> sn_pending s = ss_pending x \<and>
        sn_logical_bytes s = ss_logical_bytes x \<and> sn_active_workers s = ss_active_workers x \<and>
        sn_diagnostics s = ss_diagnostics x)"

lemma stop_stops [simp]: "stop sha q y s st \<noteq> Inr (Inr st')" "cancel_run sha st \<noteq> Inr (Inr st')"
  by (auto simp: stop_def cancel_run_def run)

lemma take_sample_snapshots:
  assumes "take_sample sha b c tick cancelled x st = Inr (Inr st')"
  shows "\<exists>s. rs_snapshots st' = rs_snapshots st @ [s] \<and> sn_cycle s = c \<and> sn_tick s = tick \<and>
    sn_retained_events s = ss_retained_events x \<and> sn_pending s = ss_pending x \<and>
    sn_logical_bytes s = ss_logical_bytes x \<and> sn_active_workers s = ss_active_workers x \<and>
    sn_diagnostics s = ss_diagnostics x"
  using assms
  by (auto simp: take_sample_def stability_snapshot_init_def Let_def run split: if_splits sum.splits)

lemma run_cycle_samples:
  assumes "run_cycle sha h w c st = Inr (Inr st')" "list_all (sample_of_step w) (rs_snapshots st)"
  shows "list_all (sample_of_step w) (rs_snapshots st')"
proof -
  obtain tick where "rs_snapshots st' = rs_snapshots st \<or>
      (\<exists>st0. step_cycle sha h w c tick st0 = Inr (Inr st') \<and> rs_snapshots st0 = rs_snapshots st)"
    using assms(1)
    by (fastforce simp: run_cycle_def failure_cycle_def Let_def run split: if_splits sum.splits pyval.splits option.splits)
  then show ?thesis
  proof (elim disjE exE conjE)
    fix st0
    assume st0: "step_cycle sha h w c tick st0 = Inr (Inr st')" "rs_snapshots st0 = rs_snapshots st"
    then obtain x where x: "hw_step w \<lparr>oc_cycle = c, oc_tick = tick\<rparr> = Inr (Inl x)"
      "take_sample sha (lh_budget h) c tick (hw_cancelled_after w c) x st0 = Inr (Inr st')"
      by (auto simp: step_cycle_def operation_context_init_def run split: if_splits sum.splits)
    from take_sample_snapshots [OF x(2)] x(1) st0(2) assms(2) show ?thesis
      by (auto simp: sample_of_step_def)
  qed (use assms(2) in simp)
qed

lemma healthy_cycles:
  assumes "wf_harness h" "healthy_world (lh_budget h) w"
    "retryable (lh_budget h) (fp_events (lh_plan h))"
  shows "1 \<le> c \<Longrightarrow> c \<le> rb_max_cycles (lh_budget h) + 1 \<Longrightarrow> run_inv h (c - 1) st \<Longrightarrow>
    rs_previous_tick st < c \<Longrightarrow> list_all (sample_of_step w) (rs_snapshots st) \<Longrightarrow>
    \<exists>st'. run_cycles sha h w [c..rb_max_cycles (lh_budget h)] st = final_assessment sha h st' \<and>
      run_inv h (rb_max_cycles (lh_budget h)) st' \<and> list_all (sample_of_step w) (rs_snapshots st')"
proof (induction "nat (rb_max_cycles (lh_budget h) + 1 - c)" arbitrary: c st)
  case 0
  then have "c = rb_max_cycles (lh_budget h) + 1" by simp
  then show ?case using 0 by auto
next
  case (Suc k)
  then have c: "c \<le> rb_max_cycles (lh_budget h)" by simp
  from healthy_cycle [OF assms Suc.prems(1) c Suc.prems(3,4), of sha] obtain st' where
    st': "run_cycle sha h w c st = Inr (Inr st')" "run_inv h c st'" "rs_previous_tick st' = c" by blast
  with run_cycle_samples [OF st'(1) Suc.prems(5)]
  show ?case using Suc.hyps(1) [of "c + 1" st'] Suc.hyps(2) Suc.prems(1) c
    by (simp add: upto_split [OF c])
qed

text \<open>
  C19. Whatever the step, the clock, the cancellations and the injected failures do, a run
  returns a result within the budget: it attempts at most \<open>max_cycles\<close> cycles, every completed
  cycle has one snapshot with strictly increasing ticks, retries and diagnostics stay within
  their limits, the identifier matches the payload, and the result is marked stable exactly
  when the run completed or was cancelled.
\<close>

theorem harness_run_returns:
  assumes "resource_budget_init args = Inr b"
    and "list_all (\<lambda>e. \<exists>c k s r. failure_event_init c k s r = Inr e) es"
    and "failure_plan_build sha es = Inr p" and "harness_init sha b (Some p) = Inr h"
    and "world_ok w"
  shows "\<exists>r. harness_run sha h w = Inr r \<and> wf_operation sha r \<and>
    op_completed r + op_retries r \<le> op_attempted r \<and> op_attempted r \<le> rb_max_cycles b \<and>
    op_retries r \<le> rb_max_retries b \<and>
    int (length (op_diagnostics r)) \<le> rb_max_diagnostics b \<and>
    int (length (op_snapshots r)) = op_completed r \<and>
    sorted_wrt (<) (map sn_tick (op_snapshots r)) \<and>
    (op_stable r \<longleftrightarrow> op_state r = Completed \<or> op_state r = Cancelled)"
proof -
  from harness_init_ok [OF assms(1-4)] have h: "wf_harness h" "lh_budget h = b" by simp_all
  then have "1 \<le> rb_max_cycles b"
    by (auto simp: wf_harness_def wf_budget_def budget_limits_def budget_values_def)
  with harness_run_ok [OF h(1) assms(5), of sha] h show ?thesis by (auto simp: result_ok_def)
qed

text \<open>
  A run that reports \<open>COMPLETED\<close> has accounted for every cycle: the cycles with an injected
  failure are exactly the retried ones and all their codes are reported, every other cycle has
  its snapshot, in order and within the budget, and no measure grew through the whole last
  window.
\<close>

theorem completed_run_accounts:
  assumes "resource_budget_init args = Inr b"
    and "list_all (\<lambda>e. \<exists>c k s r. failure_event_init c k s r = Inr e) es"
    and "failure_plan_build sha es = Inr p" and "harness_init sha b (Some p) = Inr h"
    and "world_ok w" and "harness_run sha h w = Inr r" and "op_state r = Completed"
  shows "op_attempted r = rb_max_cycles b \<and> op_completed r + op_retries r = rb_max_cycles b \<and>
    op_failure_codes r = map fe_code es \<and>
    map sn_cycle (op_snapshots r) = filter (\<lambda>c. c \<notin> fe_cycle ` set es) [1..rb_max_cycles b] \<and>
    list_all (\<lambda>s. budget_violations b s = []) (op_snapshots r) \<and>
    growth_violations b (op_snapshots r) = []"
proof -
  from harness_init_ok [OF assms(1-4)] have h: "wf_harness h" "lh_budget h = b"
    "fp_events (lh_plan h) = es" by simp_all
  then have "1 \<le> rb_max_cycles b"
    by (auto simp: wf_harness_def wf_budget_def budget_limits_def budget_values_def)
  with harness_run_ok [OF h(1) assms(5), of sha] h assms(6,7) show ?thesis
    by (auto simp: completed_ok_def sampled_until_def)
qed

text \<open>
  C39. A run in a healthy world with retryable failures goes through all its cycles: it attempts
  every one of the budget, the cycles with an injected failure are retried and their codes
  reported, and every other cycle calls the step and has a snapshot of what it returned, in
  order. The run completes unless some measure grew through the whole last window.
\<close>

theorem healthy_run_completes:
  assumes "resource_budget_init args = Inr b"
    and "list_all (\<lambda>e. \<exists>c k s r. failure_event_init c k s r = Inr e) es"
    and "failure_plan_build sha es = Inr p" and "harness_init sha b (Some p) = Inr h"
    and "healthy_world b w" and "retryable b es"
  shows "\<exists>r. harness_run sha h w = Inr r \<and> op_attempted r = rb_max_cycles b \<and>
    op_retries r = int (length es) \<and> op_completed r = rb_max_cycles b - int (length es) \<and>
    op_failure_codes r = map fe_code es \<and>
    map sn_cycle (op_snapshots r) = filter (\<lambda>c. c \<notin> fe_cycle ` set es) [1..rb_max_cycles b] \<and>
    list_all (sample_of_step w) (op_snapshots r) \<and>
    op_state r = (if growth_violations b (op_snapshots r) = [] then Completed else Failed)"
proof -
  from harness_init_ok [OF assms(1-4)] have h: "wf_harness h" "lh_budget h = b"
    "fp_events (lh_plan h) = es" by simp_all
  then have n: "1 \<le> rb_max_cycles b" and all: "failed_until (lh_plan h) (rb_max_cycles b) = es"
    by (auto simp: wf_harness_def wf_budget_def budget_limits_def budget_values_def
        failed_until_def list_all_iff)
  from healthy_cycles [where c = 1 and st = run_start and sha = sha, OF h(1), unfolded h(2,3), OF assms(5,6)] n
  obtain st where st: "harness_run sha h w = final_assessment sha h st"
    "run_inv h (rb_max_cycles b) st" "list_all (sample_of_step w) (rs_snapshots st)"
    using run_start_inv [OF h(1)] by (auto simp: harness_run_def h(2) run_start_def)
  have "rs_attempted st = rb_max_cycles b" "rs_retries st = int (length es)"
    "rs_completed st = rb_max_cycles b - int (length es)" "rs_failure_codes st = map fe_code es"
    "map sn_cycle (rs_snapshots st) = filter (\<lambda>c. c \<notin> fe_cycle ` set es) [1..rb_max_cycles b]"
    using st(2) all h(3) by (simp_all add: run_inv_def sampled_until_def)
  with final_assessment_ok [OF h(1), of st sha] h(2) st show ?thesis
    by (auto split: if_splits)
qed

section \<open>A run of three cycles\<close>

definition sample_budget_args :: "string \<Rightarrow> pyval" where
  "sample_budget_args field = PInt (if field = ''stability_window'' then 2 else 3)"

definition sample_budget :: resource_budget where
  "sample_budget =
     \<lparr>rb_max_cycles = 3, rb_max_workers = 3, rb_max_pending = 3, rb_max_events = 3,
      rb_max_retries = 3, rb_max_logical_bytes = 3, rb_max_diagnostics = 3,
      rb_max_join_steps = 3, rb_stability_window = 2\<rparr>"

definition sample_failure :: failure_event where
  "sample_failure =
     \<lparr>fe_cycle = 2, fe_kind = TIMEOUT, fe_code = ''probe.timeout'', fe_recoverable = True\<rparr>"

definition sample_step :: step_sample where
  "sample_step =
     \<lparr>ss_processed = 5, ss_retained_events = 1, ss_pending = 0, ss_logical_bytes = 2,
      ss_active_workers = 1, ss_diagnostics = 0\<rparr>"

definition sample_world :: harness_world where
  "sample_world =
     \<lparr>hw_cancelled_before = (\<lambda>c. False), hw_cancelled_after = (\<lambda>c. False),
      hw_clock = default_tick, hw_step = (\<lambda>x. Inr (Inl sample_step))\<rparr>"

definition sample_sha :: "string \<Rightarrow> string" where
  "sample_sha s = int_str (int (length s))"

definition sample_failures :: failure_plan where
  "sample_failures =
     \<lparr>fp_events = [sample_failure], fp_plan_id = failure_plan_id sample_sha [sample_failure]\<rparr>"

definition sample_harness :: harness where
  "sample_harness = \<lparr>lh_budget = sample_budget, lh_plan = sample_failures\<rparr>"

lemma sample_run_setup:
  "resource_budget_init sample_budget_args = Inr sample_budget"
  "list_all (\<lambda>e. \<exists>c k s r. failure_event_init c k s r = Inr e) [sample_failure]"
  "failure_plan_build sample_sha [sample_failure] = Inr sample_failures"
  "harness_init sample_sha sample_budget (Some sample_failures) = Inr sample_harness"
  "healthy_world sample_budget sample_world"
  "retryable sample_budget [sample_failure]"
proof -
  have "failure_event_init (PInt 2) (Inl TIMEOUT) (PStr ''probe.timeout'') (PBool True) =
      Inr sample_failure" by code_simp
  then show "list_all (\<lambda>e. \<exists>c k s r. failure_event_init c k s r = Inr e) [sample_failure]"
    by auto
  show "healthy_world sample_budget sample_world"
    by (auto simp: healthy_world_def sample_world_def sample_step_def step_sample_init_def
        sample_values_def sample_fits_def sample_budget_def)
qed (auto simp: resource_budget_init_iff budget_limits_def budget_values_def wf_budget_def
    sample_budget_args_def sample_budget_def failure_plan_build_def failure_plan_init_def
    sample_failures_def harness_init_def sample_harness_def sample_failure_def retryable_def
    max_failure_events_def)

lemma sample_run_completes:
  "map_sum id (\<lambda>r. (op_state r, op_completed r)) (harness_run sample_sha sample_harness sample_world)
    = Inr (Completed, 2)"
  by code_simp

lemma harness_run_returns_witness:
  "\<exists>r. harness_run sample_sha sample_harness sample_world = Inr r \<and>
    op_attempted r \<le> 3 \<and> int (length (op_snapshots r)) = op_completed r"
  using harness_run_returns [OF sample_run_setup(1-4) healthy_world_ok [OF sample_run_setup(5)]]
  by (auto simp: sample_budget_def)

lemma completed_run_accounts_witness:
  "\<exists>r. harness_run sample_sha sample_harness sample_world = Inr r \<and>
    op_failure_codes r = [''probe.timeout''] \<and> map sn_cycle (op_snapshots r) = [1, 3]"
proof -
  from sample_run_completes obtain r where r: "harness_run sample_sha sample_harness sample_world = Inr r"
    "op_state r = Completed"
    by (cases "harness_run sample_sha sample_harness sample_world") auto
  have "[1..3::int] = [1, 2, 3]" by code_simp
  then show ?thesis
    using completed_run_accounts [OF sample_run_setup(1-4) healthy_world_ok [OF sample_run_setup(5)] r] r
    by (auto simp: sample_budget_def sample_failure_def)
qed

lemma healthy_run_completes_witness:
  "\<exists>r. harness_run sample_sha sample_harness sample_world = Inr r \<and> op_attempted r = 3 \<and> op_retries r = 1 \<and>
    op_completed r = 2"
  using healthy_run_completes [OF sample_run_setup] by (auto simp: sample_budget_def)

end
