(* ===== verification/Native_Bridges.thy ===== *)
theory Native_Bridges
  imports Scan_Results Native_Events
begin

text \<open>
  \<open>src/bridge_rust.py\<close> and \<open>src/bridge_go.py\<close>: the requests to the native engines, the
  validation of what they write and the decision whether a run is complete. The process is
  given by what the bridge observes of it: the lines of its output and the moments at which a
  cancellation is seen. JSON decoding is a parameter.
\<close>

section \<open>Seconds to milliseconds\<close>

text \<open>
  The product of two floats is rounded to the nearest double, half to even, with gradual
  underflow (the product overflows only from $2^{1024}$ on, which no exponent up to 970 reaches);
  \<open>round\<close> of a float is the nearest integer, half to even.
\<close>

definition round_half_even :: "rat \<Rightarrow> int" where
  "round_half_even r =
     (let q = \<lfloor>r\<rfloor>; d = r - of_int q
      in if d < 1 / 2 \<or> (d = 1 / 2 \<and> even q) then q else q + 1)"

definition power2 :: "int \<Rightarrow> rat" where
  "power2 e = (if e \<ge> 0 then 2 ^ nat e else 1 / 2 ^ nat (- e))"

definition rat_exponent :: "rat \<Rightarrow> int" where
  "rat_exponent r =
     (case quotient_of r of (p, q) \<Rightarrow>
        let e = int (bit_length p) - int (bit_length q)
        in if r \<ge> power2 e then e else e - 1)"

definition double_of_rat :: "rat \<Rightarrow> pyfloat" where
  "double_of_rat r =
     (if r = 0 then FFin 0
      else
        let e = max (rat_exponent \<bar>r\<bar> - 52) (- 1074);
            m = of_int (round_half_even (\<bar>r\<bar> / power2 e)) * power2 e
        in if e \<le> 970 then FFin (if r < 0 then - m else m)
           else if m \<ge> 2 ^ 1024 then (if r < 0 then FNegInf else FPosInf)
           else FFin (if r < 0 then - m else m))"

definition float_value :: "pyval \<Rightarrow> exc + pyfloat" where
  "float_value v =
     (case v of PInt n \<Rightarrow> float_of_int n | PFloat f \<Rightarrow> Inr f | _ \<Rightarrow> Inl ValueError)"

definition seconds_to_milliseconds :: "pyval \<Rightarrow> exc + int" where
  "seconds_to_milliseconds v =
     bindE (float_value v) (\<lambda>f.
       case f of
         FFin r \<Rightarrow>
           if r \<le> 0 then Inl ValueError
           else (case double_of_rat (r * 1000) of
                   FFin m \<Rightarrow> Inr (max 1 (round_half_even m))
                 | _ \<Rightarrow> Inl OverflowError)
       | _ \<Rightarrow> Inl ValueError)"

definition scan_request_from_seconds ::
  "pyval \<Rightarrow> int list \<Rightarrow> pyval \<Rightarrow> pyval \<Rightarrow> exc + native_scan_request" where
  "scan_request_from_seconds target ports timeout workers =
     bindE (seconds_to_milliseconds timeout) (\<lambda>ms.
       native_scan_request_init target (PList (map PInt ports)) (PInt ms) workers (PInt 1))"

definition banner_request_from_seconds ::
  "pyval \<Rightarrow> int list \<Rightarrow> pyval \<Rightarrow> exc + native_banner_request" where
  "banner_request_from_seconds target ports timeout =
     bindE (seconds_to_milliseconds timeout) (\<lambda>ms.
       native_banner_request_init target (PList (map PInt ports)) (PInt ms) (PInt 1))"

section \<open>The records of the Rust engine\<close>

definition rust_result_fields :: "string list" where
  "rust_result_fields =
     [''contract_version'', ''record_type'', ''target'', ''address'', ''address_family'',
      ''host_state'', ''port'', ''protocol'', ''state'', ''reason'', ''technique'', ''service'',
      ''banner'', ''response_time'', ''is_open'', ''evidence'']"

text \<open>A field error is a \<open>RuntimeError\<close>; the message fails on unexpected keys that are not text.\<close>

definition exact_fields ::
  "string list \<Rightarrow> string list \<Rightarrow> pyval \<Rightarrow> exc + (pyval \<times> pyval) list" where
  "exact_fields required optional v =
     (case v of
        PDict d \<Rightarrow>
          if \<not> has_fields d required then Inl RuntimeError
          else if \<not> only_fields d (required @ optional)
          then (if list_all is_str (dict_keys d) then Inl RuntimeError else Inl TypeError)
          else Inr d
      | _ \<Rightarrow> Inl RuntimeError)"

definition require_that :: "bool \<Rightarrow> exc + unit" where
  "require_that b = (if b then Inr () else Inl RuntimeError)"

definition check_rust_time :: "pyval \<Rightarrow> exc + unit" where
  "check_rust_time v =
     (case v of
        PInt n \<Rightarrow> bindE (float_of_int n) (\<lambda>_. require_that (0 \<le> n))
      | PFloat f \<Rightarrow> require_that (isfinite f \<and> \<not> fl_neg f)
      | _ \<Rightarrow> Inl RuntimeError)"

definition check_rust_evidence :: "pyval \<Rightarrow> exc + unit" where
  "check_rust_evidence v =
     bindE (exact_fields [''reason'', ''source''] [''detail'', ''errno''] v) (\<lambda>ev.
     bindE (require_that (dict_get ev ''source'' = Some (PStr ''rust''))) (\<lambda>_.
     bindE (require_that (case dict_get ev ''detail'' of None \<Rightarrow> True | Some x \<Rightarrow> is_str x)) (\<lambda>_.
       require_that (case dict_get ev ''errno'' of None \<Rightarrow> True | Some x \<Rightarrow> is_strict_int x))))"

definition check_rust_payload :: "string \<Rightarrow> pyval \<Rightarrow> exc + (pyval \<times> pyval) list" where
  "check_rust_payload requested_target payload =
     bindE (exact_fields rust_result_fields [] payload) (\<lambda>d.
     bindE (require_that (dict_get d ''target'' = Some (PStr requested_target))) (\<lambda>_.
     bindE (require_that (is_strict_int (dict_get_or d ''port'' PNone))) (\<lambda>_.
     bindE (check_rust_time (dict_get_or d ''response_time'' PNone)) (\<lambda>_.
     bindE (require_that (is_str (dict_get_or d ''service'' PNone))) (\<lambda>_.
     bindE (require_that (dict_get d ''banner'' = Some PNone)) (\<lambda>_.
     bindE (check_rust_evidence (dict_get_or d ''evidence'' PNone)) (\<lambda>_.
       Inr d)))))))"

definition allowed_reasons :: "port_state \<Rightarrow> reason_code list" where
  "allowed_reasons s =
     (case s of
        PS_OPEN \<Rightarrow> [RC_CONNECTION_ACCEPTED]
      | PS_CLOSED \<Rightarrow> [RC_CONNECTION_REFUSED, RC_CONNECTION_RESET]
      | PS_FILTERED \<Rightarrow>
          [RC_TIMEOUT, RC_PERMISSION_DENIED, RC_HOST_UNREACHABLE, RC_NETWORK_UNREACHABLE,
           RC_RESOLUTION_FAILED, RC_INTERNAL_ERROR]
      | _ \<Rightarrow> [])"

definition check_rust_result :: "(pyval \<times> pyval) list \<Rightarrow> scan_result \<Rightarrow> exc + unit" where
  "check_rust_result d r =
     bindE (require_that (dict_get_or d ''is_open'' PNone = sr_is_open r)) (\<lambda>_.
     bindE (require_that (sr_protocol r = ''tcp'')) (\<lambda>_.
     bindE (require_that (sr_technique r = ST_TCP_CONNECT)) (\<lambda>_.
     bindE (require_that (allowed_reasons (sr_state r) \<noteq> [])) (\<lambda>_.
     bindE (require_that (sr_reason r \<in> set (allowed_reasons (sr_state r)))) (\<lambda>_.
     bindE (require_that (sr_state r \<in> {PS_OPEN, PS_CLOSED} \<longrightarrow> sr_host_state r = HS_UP)) (\<lambda>_.
     bindE (require_that (sr_state r = PS_OPEN \<longrightarrow> truthy (sr_service r))) (\<lambda>_.
       require_that (sr_state r \<noteq> PS_OPEN \<longrightarrow> \<not> truthy (sr_service r)))))))))"

text \<open>The record the code returns is the dictionary of this result.\<close>

definition validate_record :: "float_reader \<Rightarrow> string \<Rightarrow> pyval \<Rightarrow> exc + scan_result" where
  "validate_record fs requested_target payload =
     bindE (check_rust_payload requested_target payload) (\<lambda>d.
     bindE (reraise is_type_or_value_error RuntimeError (scan_result_from_dict fs payload)) (\<lambda>r.
     bindE (check_rust_result d r) (\<lambda>_.
       Inr r)))"

section \<open>A run of the Rust engine\<close>

datatype rust_item =
    Cancel_seen
  | Stdout_error
  | Stdout_line string

record rust_process =
  rp_available :: bool
  rp_spawn_error :: "exc option"
  rp_cancelled_at_spawn :: bool
  rp_pipes :: bool
  rp_write_error :: bool
  rp_items :: "rust_item list"
  rp_cancelled_waiting :: bool
  rp_return_code :: int
  rp_events :: "(bool \<times> native_stream) option"

definition normalize_rust_ports :: "pyval list \<Rightarrow> exc + int list" where
  "normalize_rust_ports ports =
     bindE (map_err check_port ports) (\<lambda>ns.
       if ns = [] then Inl ValueError else Inr (sort (remdups ns)))"

type_synonym 's result_callback = "pyval \<Rightarrow> 's \<Rightarrow> exc + 's"

text \<open>
  The loop over the queue. Every record is kept and then handed to the callback, which changes
  the subscriber's state or raises.
\<close>

fun consume_stdout ::
  "(string \<Rightarrow> pyval option) \<Rightarrow> float_reader \<Rightarrow> string \<Rightarrow> int set \<Rightarrow> 's result_callback \<Rightarrow>
     rust_item list \<Rightarrow> int set \<Rightarrow> pyval list \<Rightarrow> 's \<Rightarrow> (exc + int set \<times> pyval list) \<times> 's" where
  "consume_stdout loads fs target requested callback [] completed results s =
     (Inr (completed, results), s)"
| "consume_stdout loads fs target requested callback (Cancel_seen # items) completed results s =
     (Inl ScanCancelledError, s)"
| "consume_stdout loads fs target requested callback (Stdout_error # items) completed results s =
     (Inl RuntimeError, s)"
| "consume_stdout loads fs target requested callback (Stdout_line line # items) completed results s =
     (let raw = strip line in
      if raw = [] then (Inl RuntimeError, s)
      else case loads raw of
        None \<Rightarrow> (Inl RuntimeError, s)
      | Some payload \<Rightarrow>
          (case validate_record fs target payload of
             Inl e \<Rightarrow> (Inl e, s)
           | Inr r \<Rightarrow>
               let port = sr_port r; record = scan_result_to_dict r in
               if port \<notin> requested then (Inl RuntimeError, s)
               else if port \<in> completed then (Inl RuntimeError, s)
               else case callback record s of
                 Inl e \<Rightarrow> (Inl e, s)
               | Inr s' \<Rightarrow>
                   consume_stdout loads fs target requested callback items (insert port completed)
                     (results @ [record]) s'))"

definition finish_rust ::
  "rust_process \<Rightarrow> int set \<Rightarrow> int set \<times> pyval list \<Rightarrow> exc + pyval list" where
  "finish_rust proc requested outcome =
     (case outcome of (completed, results) \<Rightarrow>
        if rp_cancelled_waiting proc then Inl ScanCancelledError
        else if rp_return_code proc \<noteq> 0 then Inl RuntimeError
        else if requested - completed \<noteq> {} then Inl RuntimeError
        else
          bindE (case rp_events proc of
                   None \<Rightarrow> Inr ()
                 | Some (alive, stream) \<Rightarrow> bindE (finish_stream alive stream) (\<lambda>_. Inr ())) (\<lambda>_.
            Inr results))"

definition rust_scan ::
  "(string \<Rightarrow> pyval option) \<Rightarrow> float_reader \<Rightarrow> rust_process \<Rightarrow> pyval \<Rightarrow> pyval list \<Rightarrow> pyval \<Rightarrow>
     pyval \<Rightarrow> 's result_callback \<Rightarrow> 's \<Rightarrow> (exc + pyval list) \<times> 's" where
  "rust_scan loads fs proc host ports timeout workers callback s =
     (if \<not> rp_available proc then (Inl FileNotFoundError, s)
      else case bindE (normalize_rust_ports ports) (\<lambda>ns.
                  scan_request_from_seconds host ns timeout workers) of
        Inl e \<Rightarrow> (Inl e, s)
      | Inr request \<Rightarrow>
          if rp_spawn_error proc \<noteq> None then (Inl (the (rp_spawn_error proc)), s)
          else if rp_cancelled_at_spawn proc then (Inl ScanCancelledError, s)
          else if \<not> rp_pipes proc then (Inl RuntimeError, s)
          else if rp_write_error proc then (Inl RuntimeError, s)
          else
            case consume_stdout loads fs (nsr_target request) (set (nsr_ports request)) callback
                   (rp_items proc) {} [] s of
              (Inl e, s') \<Rightarrow> (Inl e, s')
            | (Inr outcome, s') \<Rightarrow> (finish_rust proc (set (nsr_ports request)) outcome, s'))"

section \<open>A run of the Go engine\<close>

text \<open>\<open>str.splitlines\<close> on characters below 256.\<close>

definition line_break :: "char \<Rightarrow> bool" where
  "line_break c \<longleftrightarrow> ord c \<in> {10, 11, 12, 13, 28, 29, 30, 133}"

fun split_lines :: "string \<Rightarrow> string \<Rightarrow> string list" where
  "split_lines acc [] = (if acc = [] then [] else [rev acc])"
| "split_lines acc [c] =
     (if line_break c then [rev acc] else [rev (c # acc)])"
| "split_lines acc (c # d # cs) =
     (if ord c = 13 \<and> ord d = 10 then rev acc # split_lines [] cs
      else if line_break c then rev acc # split_lines [] (d # cs)
      else split_lines (c # acc) (d # cs))"

datatype go_exit =
    Go_cancelled
  | Go_exited int string

record go_process =
  gp_available :: bool
  gp_spawn_error :: "exc option"
  gp_exit :: go_exit
  gp_events :: "(bool \<times> native_stream) option"

fun read_banners ::
  "(string \<Rightarrow> pyval option) \<Rightarrow> string \<Rightarrow> int set \<Rightarrow> string list \<Rightarrow> int set \<Rightarrow>
     native_banner_result list \<Rightarrow> exc + int set \<times> native_banner_result list" where
  "read_banners loads target requested [] completed results = Inr (completed, results)"
| "read_banners loads target requested (raw # rest) completed results =
     (if strip raw = [] then Inl RuntimeError
      else case loads raw of
        None \<Rightarrow> Inl RuntimeError
      | Some payload \<Rightarrow>
          bindE (reraise is_type_or_value_error RuntimeError
                   (native_banner_result_from_dict payload)) (\<lambda>r.
            if nres_target r \<noteq> target then Inl RuntimeError
            else if nres_port r \<notin> requested then Inl RuntimeError
            else if nres_port r \<in> completed then Inl RuntimeError
            else read_banners loads target requested rest (insert (nres_port r) completed)
                   (results @ [r])))"

definition go_banners ::
  "(string \<Rightarrow> pyval option) \<Rightarrow> go_process \<Rightarrow> pyval \<Rightarrow> int list \<Rightarrow> pyval \<Rightarrow>
     exc + native_banner_result list" where
  "go_banners loads proc host ports timeout =
     (if \<not> gp_available proc then Inl FileNotFoundError
      else
        bindE (banner_request_from_seconds host ports timeout) (\<lambda>request.
          if gp_spawn_error proc \<noteq> None then Inl (the (gp_spawn_error proc))
          else case gp_exit proc of
            Go_cancelled \<Rightarrow> Inl ScanCancelledError
          | Go_exited code stdout \<Rightarrow>
              if code \<noteq> 0 then Inl RuntimeError
              else if strip stdout = [] then Inl RuntimeError
              else
                bindE (read_banners loads (nbr_target request) (set (nbr_ports request))
                         (split_lines [] stdout) {} []) (\<lambda>(completed, results).
                  if set (nbr_ports request) - completed \<noteq> {} then Inl RuntimeError
                  else
                    bindE (case gp_events proc of
                             None \<Rightarrow> Inr ()
                           | Some (alive, stream) \<Rightarrow>
                               bindE (finish_stream alive stream) (\<lambda>_. Inr ())) (\<lambda>_.
                      Inr (sort_key nres_port results)))))"

section \<open>What a bridge guarantees\<close>

text \<open>The result of a TCP probe of the Rust engine, coherent in state, reason, host and service.\<close>

definition rust_record :: "string \<Rightarrow> scan_result \<Rightarrow> bool" where
  "rust_record target r \<longleftrightarrow> wf_scan_result r \<and> sr_target r = PStr target \<and>
     sr_protocol r = ''tcp'' \<and> sr_technique r = ST_TCP_CONNECT \<and>
     sr_reason r \<in> set (allowed_reasons (sr_state r)) \<and>
     (sr_state r \<in> {PS_OPEN, PS_CLOSED} \<longrightarrow> sr_host_state r = HS_UP) \<and>
     (truthy (sr_service r) \<longleftrightarrow> sr_state r = PS_OPEN)"

fun feed :: "'s result_callback \<Rightarrow> pyval list \<Rightarrow> 's \<Rightarrow> exc + 's" where
  "feed callback [] s = Inr s"
| "feed callback (r # rs) s = bindE (callback r s) (feed callback rs)"

lemma feed_append: "feed callback (xs @ ys) s = bindE (feed callback xs s) (feed callback ys)"
proof (induction xs arbitrary: s)
  case (Cons x xs)
  then show ?case by (cases "callback x s") simp_all
qed simp

lemma require_that_Inr [run]: "require_that b = Inr u \<longleftrightarrow> b"
  by (simp add: require_that_def)

lemma exact_fields_Inr [run]:
  "exact_fields req opt v = Inr d \<longleftrightarrow> v = PDict d \<and> has_fields d req \<and> only_fields d (req @ opt)"
  by (cases v) (auto simp: exact_fields_def)

lemma scan_result_init_target:
  assumes "scan_result_init p io sv b rt pr st tg ad fam hs tq ev v = Inr r"
    "tg = PStr t" "t \<noteq> []"
  shows "sr_target r = PStr t"
  using assms unfolding scan_result_init_def
  apply (simp only: run_if bindE_Inr split_beta)
  apply (elim exE conjE)
  apply (auto simp: resolve_address_def run split: if_splits)
  done

lemma scan_result_from_dict_target:
  assumes "scan_result_from_dict fs (PDict d) = Inr r" "dict_get d ''target'' = Some (PStr t)" "t \<noteq> []"
  shows "sr_target r = PStr t"
proof -
  have t: "dict_get_or d ''target'' (PStr []) = PStr t" by (simp add: dict_get_or_def assms(2))
  show ?thesis using assms(1) unfolding scan_result_from_dict_def Let_def
    apply (simp only: pyval.case run_if bindE_Inr reraise_Inr split_beta)
    apply (elim exE conjE)
    apply (simp only: sum.inject)
    apply (erule scan_result_init_target)
     apply (rule t)
    apply (rule assms(3))
    done
qed

lemma validate_record_ok:
  assumes "validate_record fs target payload = Inr r" "target \<noteq> []"
  shows "rust_record target r"
proof -
  obtain d where d: "check_rust_payload target payload = Inr d"
    and r: "scan_result_from_dict fs payload = Inr r" and c: "check_rust_result d r = Inr ()"
    using assms(1) by (auto simp: validate_record_def run)
  from d have p: "payload = PDict d" "dict_get d ''target'' = Some (PStr target)"
    by (auto simp: check_rust_payload_def run)
  have "wf_scan_result r" by (rule scan_result_from_dict_wf [OF r])
  moreover have "sr_target r = PStr target"
    using scan_result_from_dict_target [of fs d r target] r p assms(2) by simp
  moreover have "sr_protocol r = ''tcp''" "sr_technique r = ST_TCP_CONNECT"
    "sr_reason r \<in> set (allowed_reasons (sr_state r))"
    "sr_state r \<in> {PS_OPEN, PS_CLOSED} \<longrightarrow> sr_host_state r = HS_UP"
    "truthy (sr_service r) \<longleftrightarrow> sr_state r = PS_OPEN"
    using c unfolding check_rust_result_def run by blast+
  ultimately show ?thesis by (simp add: rust_record_def)
qed

lemma consume_stdout_ok:
  assumes "target \<noteq> []"
  shows "consume_stdout loads fs target requested callback items completed results s =
    (Inr (completed', results'), s') \<Longrightarrow>
    \<exists>rs. results' = results @ map scan_result_to_dict rs \<and> list_all (rust_record target) rs \<and>
      distinct (map sr_port rs) \<and> set (map sr_port rs) \<subseteq> requested \<and>
      set (map sr_port rs) \<inter> completed = {} \<and> completed' = completed \<union> set (map sr_port rs) \<and>
      feed callback (map scan_result_to_dict rs) s = Inr s'"
proof (induction items arbitrary: completed results s)
  case (Cons item items)
  then obtain line where item: "item = Stdout_line line" by (cases item) auto
  obtain payload r s1 where step: "validate_record fs target payload = Inr r"
    "sr_port r \<in> requested" "sr_port r \<notin> completed" "callback (scan_result_to_dict r) s = Inr s1"
    "consume_stdout loads fs target requested callback items (insert (sr_port r) completed)
       (results @ [scan_result_to_dict r]) s1 = (Inr (completed', results'), s')"
    using Cons.prems unfolding item
    by (auto simp: Let_def split: if_splits option.splits sum.splits)
  from Cons.IH [OF step(5)] obtain rs where
    "results' = results @ [scan_result_to_dict r] @ map scan_result_to_dict rs"
    "list_all (rust_record target) rs" "distinct (map sr_port rs)"
    "set (map sr_port rs) \<subseteq> requested"
    "set (map sr_port rs) \<inter> insert (sr_port r) completed = {}"
    "completed' = insert (sr_port r) completed \<union> set (map sr_port rs)"
    "feed callback (map scan_result_to_dict rs) s1 = Inr s'" by auto
  then show ?case using step validate_record_ok [OF step(1) assms]
    by (intro exI [of _ "r # rs"]) auto
qed (auto simp: assms)

lemma normalize_rust_ports_ok:
  assumes "normalize_rust_ports ports = Inr ns"
  shows "ns \<noteq> [] \<and> sorted ns \<and> distinct ns \<and> list_all (\<lambda>n. 1 \<le> n \<and> n \<le> 65535) ns \<and>
    set (map PInt ns) = set ports"
proof -
  obtain ms where ms: "map_err check_port ports = Inr ms" "ms \<noteq> []" "ns = sort (remdups ms)"
    using assms by (auto simp: normalize_rust_ports_def run)
  with map_err_check_port [OF ms(1)] show ?thesis by (simp add: list_all_iff)
qed

lemma normalize_contract_ports_PInt:
  assumes "normalize_contract_ports (PList (map PInt ns)) = Inr ps"
  shows "ps = sort (remdups ns)"
proof -
  obtain ms where ms: "map_err check_port (map PInt ns) = Inr ms" "ps = sort (remdups ms)"
    using assms by (auto simp: normalize_contract_ports_def run)
  have "map PInt ms = map PInt ns" using map_err_check_port [OF ms(1)] by simp
  then have "ms = ns" by (rule map_injective) (simp add: inj_def)
  with ms(2) show ?thesis by simp
qed

lemma scan_request_from_seconds_ok:
  assumes "scan_request_from_seconds (PStr host) ns timeout workers = Inr req"
  shows "wf_scan_request req" "nsr_target req = strip host" "nsr_ports req = sort (remdups ns)"
proof -
  obtain ms where init: "native_scan_request_init (PStr host) (PList (map PInt ns)) (PInt ms) workers
      (PInt 1) = Inr req"
    using assms by (auto simp: scan_request_from_seconds_def run)
  show "wf_scan_request req" by (rule native_scan_request_init_wf [OF init])
  show "nsr_target req = strip host" "nsr_ports req = sort (remdups ns)"
    using init by (auto simp: native_scan_request_init_def run check_target_def split: if_splits
        dest: normalize_contract_ports_PInt)
qed

lemma banner_request_from_seconds_ok:
  assumes "banner_request_from_seconds (PStr host) ns timeout = Inr req"
  shows "nbr_target req = strip host" "nbr_ports req = sort (remdups ns)"
proof -
  obtain ms where init: "native_banner_request_init (PStr host) (PList (map PInt ns)) (PInt ms)
      (PInt 1) = Inr req"
    using assms by (auto simp: banner_request_from_seconds_def run)
  then show "nbr_target req = strip host" "nbr_ports req = sort (remdups ns)"
    by (auto simp: native_banner_request_init_def run check_target_def split: if_splits
        dest: normalize_contract_ports_PInt)
qed

lemma rust_scan_facts:
  assumes "rust_scan loads fs proc (PStr host) ports timeout workers callback s = (Inr records, s')"
  shows "\<exists>rs. records = map scan_result_to_dict rs \<and> set (map (PInt \<circ> sr_port) rs) = set ports \<and>
    distinct (map sr_port rs) \<and> list_all (rust_record (strip host)) rs \<and>
    feed callback records s = Inr s'"
proof -
  obtain ns req where ns: "normalize_rust_ports ports = Inr ns"
    and req: "scan_request_from_seconds (PStr host) ns timeout workers = Inr req"
    using assms by (auto simp: rust_scan_def run split: if_splits sum.splits)
  obtain completed results where
    con: "consume_stdout loads fs (nsr_target req) (set (nsr_ports req)) callback (rp_items proc) {} [] s =
      (Inr (completed, results), s')" and
    fin: "finish_rust proc (set (nsr_ports req)) (completed, results) = Inr records"
    using assms ns req by (auto simp: rust_scan_def split: if_splits sum.splits prod.splits)
  note req_ok = scan_request_from_seconds_ok [OF req]
  have ports: "set (map PInt (nsr_ports req)) = set ports"
    using normalize_rust_ports_ok [OF ns] req_ok(3) by simp
  have "nsr_target req \<noteq> []" using req_ok(1) by (simp add: wf_scan_request_def wf_target_def)
  from consume_stdout_ok [OF this con] obtain rs where rs: "results = map scan_result_to_dict rs"
    "list_all (rust_record (nsr_target req)) rs" "distinct (map sr_port rs)"
    "set (map sr_port rs) \<subseteq> set (nsr_ports req)" "completed = set (map sr_port rs)"
    "feed callback (map scan_result_to_dict rs) s = Inr s'" by auto
  from fin have "set (nsr_ports req) \<subseteq> completed" "records = results"
    by (auto simp: finish_rust_def run split: if_splits)
  with rs have "set (map sr_port rs) = set (nsr_ports req)" by auto
  then have "set (map (PInt \<circ> sr_port) rs) = set ports"
    using ports by (metis image_set map_map)
  with rs \<open>records = results\<close> req_ok(2) show ?thesis by auto
qed

text \<open>
  C14. When the Rust bridge returns, whatever the process wrote and however its lines are
  decoded, there is exactly one record per requested port, each a well-formed and coherent TCP
  result of the requested host, and the callback received each record once, in that order.
\<close>

theorem rust_scan_complete:
  assumes "rust_scan loads fs proc (PStr host) ports timeout workers callback s = (Inr records, s')"
  shows "\<exists>rs. records = map scan_result_to_dict rs \<and> set (map (PInt \<circ> sr_port) rs) = set ports \<and>
    distinct (map sr_port rs) \<and> list_all (rust_record (strip host)) rs \<and>
    feed callback records s = Inr s'"
  using assms by (rule rust_scan_facts)

lemma read_banners_ok:
  "read_banners loads target requested raws completed results = Inr (completed', results') \<Longrightarrow>
    \<exists>rs. results' = results @ rs \<and> list_all (\<lambda>r. wf_banner_result r \<and> nres_target r = target) rs \<and>
      distinct (map nres_port rs) \<and> set (map nres_port rs) \<subseteq> requested \<and>
      set (map nres_port rs) \<inter> completed = {} \<and> completed' = completed \<union> set (map nres_port rs)"
proof (induction raws arbitrary: completed results)
  case (Cons raw raws)
  obtain payload r where step: "native_banner_result_from_dict payload = Inr r"
    "nres_target r = target" "nres_port r \<in> requested" "nres_port r \<notin> completed"
    "read_banners loads target requested raws (insert (nres_port r) completed) (results @ [r]) =
      Inr (completed', results')"
    using Cons.prems by (auto simp: run split: if_splits option.splits)
  from Cons.IH [OF step(5)] obtain rs where "results' = results @ [r] @ rs"
    "list_all (\<lambda>r. wf_banner_result r \<and> nres_target r = target) rs" "distinct (map nres_port rs)"
    "set (map nres_port rs) \<subseteq> requested"
    "set (map nres_port rs) \<inter> insert (nres_port r) completed = {}"
    "completed' = insert (nres_port r) completed \<union> set (map nres_port rs)" by auto
  then show ?case using step nres.accepted_wf [OF step(1)] by (intro exI [of _ "r # rs"]) auto
qed simp

lemma go_banners_facts:
  assumes "go_banners loads proc (PStr host) ports timeout = Inr rs"
  shows "map nres_port rs = sort (remdups ports) \<and>
    list_all (\<lambda>r. wf_banner_result r \<and> nres_target r = strip host) rs"
proof -
  obtain code stdout where ex: "gp_exit proc = Go_exited code stdout"
    using assms by (cases "gp_exit proc") (auto simp: go_banners_def run split: if_splits)
  obtain req completed results where
    req: "banner_request_from_seconds (PStr host) ports timeout = Inr req" and
    read: "read_banners loads (nbr_target req) (set (nbr_ports req)) (split_lines [] stdout) {} [] =
      Inr (completed, results)" and
    all: "set (nbr_ports req) \<subseteq> completed" and rs: "rs = sort_key nres_port results"
    using assms ex by (auto simp: go_banners_def run split: if_splits)
  note req_ok = banner_request_from_seconds_ok [OF req]
  from read_banners_ok [OF read] obtain "list_all (\<lambda>r. wf_banner_result r \<and> nres_target r = nbr_target req) results"
    "distinct (map nres_port results)" "set (map nres_port results) = set (nbr_ports req)"
    using all by auto
  moreover from this have "map nres_port (sort_key nres_port results) = sort (remdups ports)"
    using req_ok(2) by (intro sorted_distinct_set_unique) auto
  ultimately show ?thesis using req_ok(1) unfolding rs by (simp add: list_all_iff)
qed

text \<open>
  C23. When the Go bridge returns, there is exactly one well-formed banner result of the
  requested host per requested port, in ascending order of the ports.
\<close>

theorem go_banners_complete:
  assumes "go_banners loads proc (PStr host) ports timeout = Inr rs"
  shows "map nres_port rs = sort (remdups ports) \<and>
    list_all (\<lambda>r. wf_banner_result r \<and> nres_target r = strip host) rs"
  using assms by (rule go_banners_facts)

lemma round_half_even_of_int: "round_half_even (of_int m) = m"
  by (simp add: round_half_even_def)

lemma double_of_int:
  assumes "0 < n" "n < 2 ^ 53"
  shows "double_of_rat (of_int n) = FFin (of_int n)"
proof -
  define b where "b = bit_length n"
  from bit_length_bounds [OF assms(1)] have b: "2 ^ (b - 1) \<le> n" "n < 2 ^ b"
    by (simp_all add: b_def)
  from b(2) assms(1) have "b \<noteq> 0" by (auto intro: ccontr)
  then have "0 < b" by simp
  have "(2::int) ^ (b - 1) < 2 ^ 53" using b(1) assms(2) by linarith
  then have b53: "b \<le> 53" by (metis power_less_imp_less_exp one_less_numeral_iff semiring_norm(76) Suc_pred' less_Suc_eq_le \<open>0 < b\<close> Suc_leI)
  have q: "quotient_of (of_int n :: rat) = (n, 1)" using quotient_of_int [of n] by (simp add: Rat.of_int_def)
  have one: "bit_length 1 = 1" by (simp add: bit_length.simps [of 1] bit_length.simps [of 0])
  have "of_int (2 ^ (b - 1)) \<le> (of_int n :: rat)" using b(1) by (simp only: of_int_le_iff)
  then have "power2 (int b - 1) \<le> of_int n"
    using \<open>0 < b\<close> by (simp add: power2_def nat_diff_distrib)
  then have e: "rat_exponent (of_int n) = int b - 1"
    by (simp add: rat_exponent_def q one flip: b_def)
  let ?k = "nat (53 - int b)"
  have max: "max (int b - 1 - 52) (- 1074) = int b - 53" using \<open>0 < b\<close> by simp
  have unit: "power2 (int b - 53) = 1 / 2 ^ ?k"
    using b53 by (cases "b = 53") (auto simp: power2_def intro!: arg_cong [where f = nat])
  have "of_int n / (1 / (2::rat) ^ ?k) = of_int (n * 2 ^ ?k)" by simp
  then have m: "of_int (round_half_even (of_int n / power2 (int b - 53))) * power2 (int b - 53) =
      (of_int n :: rat)"
    unfolding unit by (simp only: round_half_even_of_int) simp
  have "\<not> of_int n < (0 :: rat)" "of_int n \<noteq> (0 :: rat)" "\<bar>of_int n\<bar> = (of_int n :: rat)"
    using assms(1) by simp_all
  moreover have "int b - 53 \<le> 970" using b53 by simp
  ultimately show ?thesis by (simp only: double_of_rat_def e max m Let_def if_False if_True)
qed

text \<open>
  A timeout of whole seconds up to a million reaches the engines as exactly a thousand
  milliseconds per second, and no accepted timeout becomes zero.
\<close>

theorem whole_seconds_exact:
  "(0 < n \<and> n \<le> 1000000 \<longrightarrow> seconds_to_milliseconds (PInt n) = Inr (1000 * n)) \<and>
   (\<forall>v ms. seconds_to_milliseconds v = Inr ms \<longrightarrow> 1 \<le> ms)"
proof (intro conjI impI allI)
  assume n: "0 < n \<and> n \<le> 1000000"
  then have "float_of_int n = Inr (FFin (of_int n))" by (intro float_of_int_small) simp
  moreover have "double_of_rat (of_int (1000 * n)) = FFin (of_int (1000 * n))"
    using n by (intro double_of_int) simp_all
  ultimately show "seconds_to_milliseconds (PInt n) = Inr (1000 * n)"
    using n round_half_even_of_int [of "1000 * n"]
    by (simp add: seconds_to_milliseconds_def float_value_def mult.commute)
next
  fix v ms assume "seconds_to_milliseconds v = Inr ms"
  then obtain f where f: "float_value v = Inr f" and "seconds_to_milliseconds v = Inr ms"
    by (auto simp: seconds_to_milliseconds_def run)
  moreover obtain r where r: "f = FFin r" "0 < r"
    using calculation by (cases f) (auto simp: seconds_to_milliseconds_def split: if_splits)
  ultimately show "1 \<le> ms"
    by (cases "double_of_rat (r * 1000)") (auto simp: seconds_to_milliseconds_def)
qed

lemma whole_seconds_exact_witness: "seconds_to_milliseconds (PInt 3) = Inr 3000"
  using whole_seconds_exact [of 3] by simp

section \<open>A run over two ports\<close>

definition sample_record :: "int \<Rightarrow> string \<Rightarrow> string \<Rightarrow> string \<Rightarrow> pyval" where
  "sample_record port state reason service = obj
     [(''contract_version'', PInt 1), (''record_type'', PStr ''port_result''),
      (''target'', PStr ''10.0.0.1''), (''address'', PStr ''10.0.0.1''),
      (''address_family'', PStr ''ipv4''), (''host_state'', PStr ''up''), (''port'', PInt port),
      (''protocol'', PStr ''tcp''), (''state'', PStr state), (''reason'', PStr reason),
      (''technique'', PStr ''tcp_connect''), (''service'', PStr service), (''banner'', PNone),
      (''response_time'', PFloat (FFin (1 / 2))), (''is_open'', PBool (state = ''open'')),
      (''evidence'', obj [(''reason'', PStr reason), (''source'', PStr ''rust'')])]"

definition sample_decoder :: "string \<Rightarrow> pyval option" where
  "sample_decoder line =
     (if line = ''a'' then Some (sample_record 443 ''closed'' ''connection_refused'' [])
      else if line = ''b'' then Some (sample_record 80 ''open'' ''connection_accepted'' ''HTTP'')
      else if line = ''c'' then Some (obj
        [(''contract_version'', PInt 1), (''record_type'', PStr ''banner_result''),
         (''target'', PStr ''10.0.0.1''), (''port'', PInt 80), (''status'', PStr ''captured''),
         (''service'', PStr ''HTTP''), (''banner'', PStr ''hi''), (''error'', PNone),
         (''source'', PStr ''go'')])
      else None)"

definition sample_process :: rust_process where
  "sample_process =
     \<lparr>rp_available = True, rp_spawn_error = None, rp_cancelled_at_spawn = False, rp_pipes = True,
      rp_write_error = False, rp_items = [Stdout_line ''a'', Stdout_line ''b''],
      rp_cancelled_waiting = False, rp_return_code = 0, rp_events = None\<rparr>"

definition keep_record :: "pyval list result_callback" where
  "keep_record r s = Inr (s @ [r])"

lemma sample_rust_run:
  "\<exists>records. rust_scan sample_decoder (\<lambda>_. None) sample_process (PStr ''10.0.0.1'')
      [PInt 80, PInt 443, PInt 80] (PInt 2) (PInt 10) keep_record [] = (Inr records, records) \<and>
    length records = 2"
proof -
  have "(case rust_scan sample_decoder (\<lambda>_. None) sample_process (PStr ''10.0.0.1'')
      [PInt 80, PInt 443, PInt 80] (PInt 2) (PInt 10) keep_record [] of
        (Inr records, s) \<Rightarrow> s = records \<and> length records = 2 | _ \<Rightarrow> False)" by code_simp
  then show ?thesis by (auto split: prod.splits sum.splits)
qed

lemma rust_scan_complete_witness:
  "\<exists>rs. set (map sr_port rs) = {80, 443} \<and> distinct (map sr_port rs) \<and>
    list_all (rust_record ''10.0.0.1'') rs"
proof -
  obtain records where "rust_scan sample_decoder (\<lambda>_. None) sample_process (PStr ''10.0.0.1'')
      [PInt 80, PInt 443, PInt 80] (PInt 2) (PInt 10) keep_record [] = (Inr records, records)"
    using sample_rust_run by blast
  from rust_scan_complete [OF this] obtain rs where
    rs: "set (map (PInt \<circ> sr_port) rs) = set [PInt 80, PInt 443, PInt 80]" "distinct (map sr_port rs)"
    "list_all (rust_record (strip ''10.0.0.1'')) rs" by blast
  have "PInt ` set (map sr_port rs) = PInt ` {80, 443}" using rs(1) by (simp add: image_image) auto
  then have "set (map sr_port rs) = {80, 443}" by (rule inj_image_eq_iff [THEN iffD1, rotated]) (simp add: inj_def)
  moreover have "strip ''10.0.0.1'' = ''10.0.0.1''" by code_simp
  ultimately show ?thesis using rs by auto
qed

lemma sample_go_run:
  "\<exists>rs. go_banners sample_decoder
     \<lparr>gp_available = True, gp_spawn_error = None, gp_exit = Go_exited 0 ''c'', gp_events = None\<rparr>
     (PStr ''10.0.0.1'') [80] (PInt 3) = Inr rs"
proof -
  have "(case go_banners sample_decoder
     \<lparr>gp_available = True, gp_spawn_error = None, gp_exit = Go_exited 0 ''c'', gp_events = None\<rparr>
     (PStr ''10.0.0.1'') [80] (PInt 3) of Inr rs \<Rightarrow> True | Inl e \<Rightarrow> False)" by code_simp
  then show ?thesis by (auto split: sum.splits)
qed

lemma go_banners_complete_witness:
  "\<exists>rs. map nres_port rs = [80] \<and> list_all wf_banner_result rs"
proof -
  obtain rs where "go_banners sample_decoder
     \<lparr>gp_available = True, gp_spawn_error = None, gp_exit = Go_exited 0 ''c'', gp_events = None\<rparr>
     (PStr ''10.0.0.1'') [80] (PInt 3) = Inr rs" using sample_go_run by blast
  from go_banners_complete [OF this] show ?thesis
    by (intro exI [of _ rs]) (auto simp: list_all_iff)
qed

end
