(* ===== verification/Orchestrator.thy ===== *)
theory Orchestrator
  imports Scanner Targets Native_Bridges
begin

text \<open>
  \<open>src/orchestrator.py\<close>: one target is scanned by the Rust bridge into the shared scanner,
  enriched by the Go bridge and reported. The engines' processes, name resolution, clocks and
  report writers are parameters.
\<close>

section \<open>Requests\<close>

record scan_request =
  sq_host :: string
  sq_ports :: string
  sq_common_ports :: bool
  sq_threads :: pyval
  sq_timeout :: pyval
  sq_engine :: string
  sq_banner_grab :: bool
  sq_banner_engine :: string
  sq_output :: string
  sq_report_dir :: string
  sq_report_format :: string
  sq_profile :: string

definition get_ports_to_scan :: "scan_request \<Rightarrow> exc + int list" where
  "get_ports_to_scan q =
     (if sq_common_ports q then Inr (sort (map fst common_ports))
      else case validate_port_range (sq_ports q) of
        None \<Rightarrow> Inl ValueError
      | Some (start_port, end_port) \<Rightarrow> Inr [start_port..end_port])"

definition resolve_scan_engine :: "string \<Rightarrow> exc + string" where
  "resolve_scan_engine requested =
     (if requested \<noteq> ''rust'' then Inl SpecializedFlowError else Inr ''rust'')"

definition resolve_banner_engine :: "string \<Rightarrow> exc + string" where
  "resolve_banner_engine requested =
     (if requested \<noteq> ''go'' then Inl SpecializedFlowError else Inr ''go'')"

definition require_specialized_binaries :: "bool \<Rightarrow> bool \<Rightarrow> bool \<Rightarrow> exc + unit" where
  "require_specialized_binaries rust_available go_available banner_grab =
     (let missing = (if rust_available then [] else [''Rust'']) @
                    (if banner_grab \<and> \<not> go_available then [''Go''] else [])
      in if missing \<noteq> [] then Inl SpecializedFlowError else Inr ())"

text \<open>\<open>timeout <= 0\<close>: false for a NaN, a \<open>TypeError\<close> for what is not a number.\<close>

definition not_positive :: "pyval \<Rightarrow> exc + bool" where
  "not_positive v =
     (case v of
        PInt n \<Rightarrow> Inr (n \<le> 0)
      | PBool b \<Rightarrow> Inr (\<not> b)
      | PFloat f \<Rightarrow> Inr (fl_neg f \<or> f = FFin 0)
      | _ \<Rightarrow> Inl TypeError)"

definition check_threads :: "pyval \<Rightarrow> exc + int" where
  "check_threads v =
     (case v of PInt n \<Rightarrow> if n < 1 \<or> n > 500 then Inl ValueError else Inr n | _ \<Rightarrow> Inl ValueError)"

definition prepare_request ::
  "bool \<Rightarrow> bool \<Rightarrow> scan_request \<Rightarrow> exc + int list \<times> string \<times> string" where
  "prepare_request rust_available go_available q =
     bindE (check_threads (sq_threads q)) (\<lambda>_.
     bindE (not_positive (sq_timeout q)) (\<lambda>bad.
       if bad then Inl ValueError else
     bindE (get_ports_to_scan q) (\<lambda>ports.
     bindE (resolve_scan_engine (sq_engine q)) (\<lambda>scan_engine.
     bindE (resolve_banner_engine (sq_banner_engine q)) (\<lambda>resolved.
     bindE (require_specialized_binaries rust_available go_available (sq_banner_grab q)) (\<lambda>_.
       Inr (ports, scan_engine, if sq_banner_grab q then resolved else ''no usado'')))))))"

section \<open>The scan of one address\<close>

text \<open>
  Records of the contract are parsed, older records without it are completed;
  \<open>getservbyport\<close> refuses numbers that are not ports.
\<close>

definition contract_result ::
  "float_reader \<Rightarrow> string \<Rightarrow> string \<Rightarrow> pyval \<Rightarrow> exc + scan_result" where
  "contract_result fs target address v =
     bindE (scan_result_from_dict fs v) (\<lambda>r.
       if address \<noteq> [] then
         attach_target_identity
           (if target \<noteq> [] then PStr target
            else if truthy (sr_target r) then sr_target r else PStr address)
           (PStr address) r
       else Inr (if target \<noteq> [] then r\<lparr>sr_target := PStr target\<rparr> else r))"

definition legacy_result ::
  "float_reader \<Rightarrow> (int \<Rightarrow> string) \<Rightarrow> string \<Rightarrow> string \<Rightarrow> (pyval \<times> pyval) list \<Rightarrow>
     exc + scan_result" where
  "legacy_result fs service_name target address d =
     bindE (py_int (dict_get_or d ''port'' (PInt 0))) (\<lambda>port.
     case dict_get_or d ''is_open'' PNone of
       PBool is_open \<Rightarrow>
         let given = dict_get_or d ''service'' PNone in
         bindE (if truthy given then Inr given
                else if port < 0 \<or> port > 65535 then Inl OverflowError
                else Inr (PStr (service_of_port service_name port))) (\<lambda>service.
         bindE (py_float fs (dict_get_or d ''response_time'' (PFloat (FFin 0)))) (\<lambda>rt.
              scan_result_init port (PBool is_open) (if is_open then service else PStr [])
                (dict_get_or d ''banner'' PNone) rt
                (dict_get_or d ''protocol'' (PStr ''tcp''))
                (PStr (port_state_value (if is_open then PS_OPEN else PS_CLOSED)))
                (PStr target) (PStr address) PNone
                (PStr (host_state_value (if is_open then HS_UP else HS_UNKNOWN)))
                (PStr (scan_technique_value ST_TCP_CONNECT))
                (Inl \<lparr>ev_reason = (if is_open then RC_CONNECTION_ACCEPTED else RC_UNKNOWN),
                      ev_source = ''rust'',
                      ev_detail = (if is_open then PNone
                        else PStr ''El contrato Rust legado no expone la causa del cierre.''),
                      ev_errno = PNone\<rparr>)
                (PInt 1)))
     | _ \<Rightarrow> Inl ValueError)"

definition convert_rust_result ::
  "float_reader \<Rightarrow> (int \<Rightarrow> string) \<Rightarrow> string \<Rightarrow> string \<Rightarrow> pyval \<Rightarrow> exc + scan_result" where
  "convert_rust_result fs service_name target address v =
     (case v of
        PDict d \<Rightarrow>
          if dict_get_or d ''contract_version'' PNone \<noteq> PNone \<or>
             dict_get_or d ''record_type'' PNone \<noteq> PNone
          then contract_result fs target address v
          else legacy_result fs service_name target address d
      | _ \<Rightarrow> Inl AttributeError)"

definition attach_identities ::
  "string \<Rightarrow> string \<Rightarrow> scan_result list \<Rightarrow> exc + scan_result list" where
  "attach_identities requested address rs =
     map_err (\<lambda>r. attach_target_identity (PStr requested)
       (if truthy (sr_address r) then sr_address r else PStr address) r) rs"

text \<open>
  What stands around a scan: the decoder of JSON lines, the readers of floats and of service
  names, the two processes and the times at which a scan starts and ends.
\<close>

record scan_world =
  sw_loads :: "string \<Rightarrow> pyval option"
  sw_float :: float_reader
  sw_service :: "int \<Rightarrow> string"
  sw_rust :: rust_process
  sw_go :: go_process
  sw_start :: rat
  sw_end :: rat

definition record_rust_result :: "scan_world \<Rightarrow> string \<Rightarrow> int \<Rightarrow> scanner result_callback" where
  "record_rust_result w host_ip total_ports item s =
     bindE (convert_rust_result (sw_float w) (sw_service w) host_ip host_ip item) (\<lambda>r.
       record_external_result r total_ports s)"

fun record_results :: "scan_world \<Rightarrow> string \<Rightarrow> int \<Rightarrow> pyval list \<Rightarrow> scanner \<Rightarrow> exc option \<times> scanner" where
  "record_results w host_ip total_ports [] s = (None, s)"
| "record_results w host_ip total_ports (item # items) s =
     (case record_rust_result w host_ip total_ports item s of
        Inl e \<Rightarrow> (Some e, s)
      | Inr s' \<Rightarrow> record_results w host_ip total_ports items s')"

definition is_exception_class :: "exc \<Rightarrow> bool" where
  "is_exception_class e \<longleftrightarrow> e \<noteq> KeyboardInterrupt \<and> e \<noteq> Killed"

definition external_results ::
  "scan_world \<Rightarrow> string \<Rightarrow> int list \<Rightarrow> scan_request \<Rightarrow> scanner \<Rightarrow> exc option \<times> scanner" where
  "external_results w host_ip ports q s =
     (let n = int (length ports) in
      case rust_scan (sw_loads w) (sw_float w) (sw_rust w) (PStr host_ip) (map PInt ports)
             (sq_timeout q) (sq_threads q) (record_rust_result w host_ip n) s of
        (Inl e, s1) \<Rightarrow> (Some e, s1)
      | (Inr raw_results, s1) \<Rightarrow>
          (case (if sc_results s1 = [] then record_results w host_ip n raw_results s1
                 else (None, s1)) of
             (Some e, s2) \<Rightarrow> (Some e, s2)
           | (None, s2) \<Rightarrow>
               (if int (length (sc_results s2)) \<noteq> n then Some RuntimeError else None, s2)))"

definition scan_with_rust ::
  "scan_world \<Rightarrow> string \<Rightarrow> scan_request \<Rightarrow> scanner \<Rightarrow> (exc + scan_result list) \<times> scanner" where
  "scan_with_rust w host_ip q s =
     (if \<not> rp_available (sw_rust w) then (Inl FileNotFoundError, s)
      else case get_ports_to_scan q of
        Inl e \<Rightarrow> (Inl e, s)
      | Inr ports \<Rightarrow>
          (case external_results w host_ip ports q (begin_scan (sw_start w) s) of
             (Some e, s1) \<Rightarrow>
               (Inl e, if is_exception_class e
                       then snd (finish_external_scan (sw_end w) [] False s1) else s1)
           | (None, s1) \<Rightarrow>
               (case finish_external_scan (sw_end w) (sc_results s1) False s1 of
                  (rs, s2) \<Rightarrow> (Inr rs, s2))))"

section \<open>Banners\<close>

definition banners_by_port :: "native_banner_result list \<Rightarrow> int \<Rightarrow> pyval option" where
  "banners_by_port bs =
     map_of (rev (map (\<lambda>b. (nres_port b,
       case nres_banner b of None \<Rightarrow> PNone | Some t \<Rightarrow> if t = [] then PNone else PStr t)) bs))"

definition apply_go_banners ::
  "scan_world \<Rightarrow> string \<Rightarrow> scan_result list \<Rightarrow> exc + scan_result list" where
  "apply_go_banners w host_ip rs =
     (let open_ports = map sr_port (filter (\<lambda>r. sr_state r = PS_OPEN) rs) in
      if open_ports = [] then Inr rs
      else if \<not> gp_available (sw_go w) then Inl FileNotFoundError
      else
        bindE (go_banners (sw_loads w) (sw_go w) (PStr host_ip) open_ports (PFloat (FFin 3))) (\<lambda>bs.
          Inr (map (\<lambda>r. case banners_by_port bs (sr_port r) of
                          None \<Rightarrow> r | Some b \<Rightarrow> r\<lparr>sr_banner := b\<rparr>) rs)))"

definition apply_requested_banners ::
  "scan_world \<Rightarrow> string \<Rightarrow> string \<Rightarrow> scan_result list \<Rightarrow> exc + scan_result list" where
  "apply_requested_banners w banner_engine host_ip rs =
     (if banner_engine \<noteq> ''go'' then Inl SpecializedFlowError
      else apply_go_banners w host_ip rs)"

section \<open>Names of reports\<close>

definition filename_char :: "char \<Rightarrow> bool" where
  "filename_char c \<longleftrightarrow> is_alnum_ascii c \<or> c \<in> set ''._-''"

text \<open>Every run of other characters becomes one underscore.\<close>

fun squeeze :: "bool \<Rightarrow> string \<Rightarrow> string" where
  "squeeze in_run [] = []"
| "squeeze in_run (c # cs) =
     (if filename_char c then c # squeeze False cs
      else if in_run then squeeze True cs
      else CHR ''_'' # squeeze True cs)"

definition strip_dots :: "string \<Rightarrow> string" where
  "strip_dots s =
     (let dot = (\<lambda>c. c \<in> set ''._'') in rev (dropWhile dot (rev (dropWhile dot s))))"

definition safe_filename_component :: "string \<Rightarrow> string" where
  "safe_filename_component value =
     (let sanitized = strip_dots (squeeze False value)
      in if sanitized = [] then ''target'' else sanitized)"

definition report_extension :: "string \<Rightarrow> exc + string" where
  "report_extension report_format =
     (case map_of [(''text'', ''.txt''), (''json'', ''.json''), (''csv'', ''.csv''), (''html'', ''.html'')]
             report_format of
        None \<Rightarrow> Inl KeyError
      | Some extension \<Rightarrow> Inr extension)"

text \<open>
  A name for a file that is not taken: the base name, or the first free of its numbered
  variants from 2 on. The loop ends because finitely many names are taken.
\<close>

definition numbered :: "string \<Rightarrow> string \<Rightarrow> nat \<Rightarrow> string" where
  "numbered stem extension k = stem @ ''_'' @ int_str (int k) @ extension"

lemma int_str_inj: "int_str m = int_str n \<Longrightarrow> m = n"
  by (metis int_of_str_int_str sum.inject(2))

lemma numbered_inj: "inj (numbered stem extension)"
  by (auto simp: inj_def numbered_def dest: int_str_inj)

function free_number :: "string \<Rightarrow> string \<Rightarrow> string list \<Rightarrow> nat \<Rightarrow> nat" where
  "free_number stem extension taken k =
     (if numbered stem extension k \<in> set taken then free_number stem extension taken (k + 1)
      else k)"
  by pat_completeness auto
termination
proof (relation "measure (\<lambda>(stem, extension, taken, k).
    card {j. k \<le> j \<and> numbered stem extension j \<in> set taken})")
  fix stem extension :: string and taken k
  assume k: "numbered stem extension k \<in> set taken"
  let ?A = "\<lambda>k. {j. k \<le> j \<and> numbered stem extension j \<in> set taken}"
  have "finite (numbered stem extension -` set taken)"
    by (intro finite_vimageI numbered_inj) simp
  then have "finite (?A k)" by (rule rev_finite_subset) auto
  moreover have "?A (k + 1) \<subseteq> ?A k" "k \<in> ?A k" "k \<notin> ?A (k + 1)" using k by auto
  then have "?A (k + 1) \<subset> ?A k" by blast
  ultimately show "((stem, extension, taken, k + 1), stem, extension, taken, k) \<in>
      measure (\<lambda>(stem, extension, taken, k).
        card {j. k \<le> j \<and> numbered stem extension j \<in> set taken})"
    by (simp add: psubset_card_mono)
qed simp

declare free_number.simps [simp del]

definition free_name :: "string \<Rightarrow> string \<Rightarrow> string list \<Rightarrow> string" where
  "free_name stem extension taken =
     (if stem @ extension \<in> set taken
      then numbered stem extension (free_number stem extension taken 2)
      else stem @ extension)"

definition default_report_name ::
  "string \<Rightarrow> string \<Rightarrow> string \<Rightarrow> string list \<Rightarrow> exc + string" where
  "default_report_name host timestamp report_format existing =
     bindE (report_extension report_format) (\<lambda>extension.
       Inr (free_name (''scan_report_'' @ safe_filename_component host @ ''_'' @ timestamp)
              extension existing))"

section \<open>The run of one resolved target\<close>

datatype event_kind =
    Status | Target_started | Progress | Open_port | Report | Target_complete
  | Target_failed | Complete | Batch_complete | Run_cancelled

text \<open>An event with its progress and result; messages and data are left out.\<close>

record orchestrator_event =
  oe_kind :: event_kind
  oe_progress :: "rat option"
  oe_result :: "scan_result option"

definition plain_event :: "event_kind \<Rightarrow> orchestrator_event" where
  "plain_event k = \<lparr>oe_kind = k, oe_progress = None, oe_result = None\<rparr>"

definition progress_events :: "(rat \<times> scan_result) list \<Rightarrow> orchestrator_event list" where
  "progress_events calls =
     concat (map (\<lambda>(p, r).
       \<lparr>oe_kind = Progress, oe_progress = Some p, oe_result = Some r\<rparr> #
       (if sr_state r = PS_OPEN
        then [\<lparr>oe_kind = Open_port, oe_progress = Some p, oe_result = Some r\<rparr>] else [])) calls)"

record scan_outcome =
  so_target :: string
  so_resolved_host :: string
  so_profile :: string
  so_scan_engine :: string
  so_banner_engine :: string
  so_results :: "scan_result list"
  so_statistics :: statistics
  so_output_path :: string
  so_report :: string
  so_report_format :: string

text \<open>
  Around one run: its scan, the moments at which the cancellation of the user is seen, the
  path chosen for the report, and the writer of the report, which is given the results, the
  target, the path, the format and the two engines and raises or says where it wrote.
\<close>

record run_world =
  rw_scan :: scan_world
  rw_cancelled_after_scan :: bool
  rw_cancelled_after_banners :: bool
  rw_output :: "exc + string"
  rw_report :: "scan_result list \<Rightarrow> string \<Rightarrow> string \<Rightarrow> string \<Rightarrow> string \<Rightarrow> string \<Rightarrow> exc + string"

definition build_outcome ::
  "scan_request \<Rightarrow> string \<Rightarrow> string \<Rightarrow> string \<Rightarrow> scanner \<Rightarrow> string \<Rightarrow> string \<Rightarrow> scan_outcome" where
  "build_outcome q host_ip scan_engine banner_engine s path report =
     \<lparr>so_target = sq_host q, so_resolved_host = host_ip, so_profile = sq_profile q,
      so_scan_engine = scan_engine, so_banner_engine = banner_engine,
      so_results = sc_results s, so_statistics = get_statistics s, so_output_path = path,
      so_report = report, so_report_format = sq_report_format q\<rparr>"

text \<open>The handlers of \<open>_run_resolved\<close>: a cancellation is announced, an interruption becomes one.\<close>

definition leave_run ::
  "exc \<Rightarrow> orchestrator_event list \<Rightarrow> (exc + scan_outcome) \<times> orchestrator_event list" where
  "leave_run e events =
     (if e = ScanCancelledError \<or> e = KeyboardInterrupt
      then (Inl ScanCancelledError, events @ [plain_event Run_cancelled])
      else (Inl e, events))"

definition cancellable :: "bool \<Rightarrow> 'a \<Rightarrow> exc + 'a" where
  "cancellable cancelled x = (if cancelled then Inl ScanCancelledError else Inr x)"

definition report_phase ::
  "run_world \<Rightarrow> scan_request \<Rightarrow> string \<Rightarrow> string \<Rightarrow> string \<Rightarrow> scanner \<Rightarrow> exc + scan_outcome" where
  "report_phase w q host_ip scan_engine banner_engine s =
     bindE (if sq_banner_grab q
            then bindE (apply_requested_banners (rw_scan w) banner_engine host_ip (sc_results s))
                   (cancellable (rw_cancelled_after_banners w))
            else Inr (sc_results s)) (\<lambda>rs.
     bindE (rw_output w) (\<lambda>path.
     bindE (rw_report w rs (sq_host q) path (sq_report_format q) scan_engine banner_engine) (\<lambda>report.
       Inr (build_outcome q host_ip scan_engine banner_engine (s\<lparr>sc_results := rs\<rparr>) path report))))"

definition run_resolved ::
  "run_world \<Rightarrow> scan_request \<Rightarrow> string \<Rightarrow> string \<Rightarrow> string \<Rightarrow>
     (exc + scan_outcome) \<times> orchestrator_event list" where
  "run_resolved w q host_ip scan_engine banner_engine =
     (case scan_with_rust (rw_scan w) host_ip q (new_scanner True) of
        (scanned, s1) \<Rightarrow>
          let events = [plain_event Status, plain_event Status] @ progress_events (sc_calls s1) in
          (case bindE scanned (\<lambda>_.
                bindE (attach_identities (sq_host q) host_ip (sc_results s1))
                  (cancellable (rw_cancelled_after_scan w))) of
             Inl e \<Rightarrow> leave_run e events
           | Inr rs \<Rightarrow>
               let events = events @ (if sq_banner_grab q then [plain_event Status] else []) in
               (case report_phase w q host_ip scan_engine banner_engine (s1\<lparr>sc_results := rs\<rparr>) of
                  Inl e \<Rightarrow> leave_run e events
                | Inr outcome \<Rightarrow>
                    (Inr outcome, events @ [plain_event Report,
                       \<lparr>oe_kind = Complete, oe_progress = Some 100, oe_result = None\<rparr>]))))"

text \<open>\<open>run\<close>, a session with one target.\<close>

definition run_single ::
  "bool \<Rightarrow> bool \<Rightarrow> name_service \<Rightarrow> run_world \<Rightarrow> scan_request \<Rightarrow>
     (exc + scan_outcome) \<times> orchestrator_event list" where
  "run_single rust_available go_available names w q =
     (case (if \<not> is_valid_host (PStr (sq_host q)) then Inl ValueError else
            bindE (prepare_request rust_available go_available q) (\<lambda>(ports, scan_engine, banner_engine).
            bindE (resolve_host names (sq_host q)) (\<lambda>address.
              case address of
                None \<Rightarrow> Inl ValueError
              | Some host_ip \<Rightarrow>
                  if host_ip = [] then Inl ValueError
                  else Inr (host_ip, scan_engine, banner_engine)))) of
        Inl e \<Rightarrow> (Inl e, [])
      | Inr (host_ip, scan_engine, banner_engine) \<Rightarrow>
          run_resolved w q host_ip scan_engine banner_engine)"

section \<open>The scan of one address, verified\<close>

lemma attach_target_identity_ok:
  assumes "attach_target_identity (PStr t) v r = Inr r'" "t \<noteq> []" "wf_scan_result r"
  shows "wf_scan_result r' \<and> sr_port r' = sr_port r \<and> sr_protocol r' = sr_protocol r \<and>
    sr_state r' = sr_state r \<and> sr_target r' = PStr t"
proof -
  obtain a where a: "ip_address_of_val v = Inr a" "r' = r\<lparr>sr_target := PStr t,
      sr_address := PStr (ip_str a), sr_family := Some (family_of_ip a)\<rparr>"
    using assms(1) by (auto simp: attach_target_identity_def run)
  have "valid_ip a" using ip_address_of_val_valid [OF a(1)] .
  then have "wf_address r'" using assms(2) ip_str_nonempty by (auto simp: wf_address_def a(2))
  then show ?thesis using assms(3) by (simp add: wf_scan_result_def a(2))
qed

lemma contract_dict_keys: "\<exists>d. scan_result_to_dict r = PDict d \<and>
    dict_get_or d ''record_type'' PNone = PStr ''port_result''"
  by (simp add: scan_result_to_dict_def obj_def dict_get_or_def)

lemma convert_wire:
  assumes "wf_scan_result r" "host \<noteq> []"
  shows "convert_rust_result fs sn host host (scan_result_to_dict r) =
    attach_target_identity (PStr host) (PStr host) r"
proof -
  obtain d where d: "scan_result_to_dict r = PDict d" "dict_get_or d ''record_type'' PNone = PStr ''port_result''"
    using contract_dict_keys by blast
  have "scan_result_from_dict fs (PDict d) = Inr r" using sr.roundtrip [OF assms(1), of fs] d(1) by simp
  with d assms(2) show ?thesis by (simp add: convert_rust_result_def contract_result_def)
qed

text \<open>The results a scanner has for the records it was given: same ports and states, own target.\<close>

definition recorded :: "string \<Rightarrow> scan_result \<Rightarrow> scan_result \<Rightarrow> bool" where
  "recorded host r r' \<longleftrightarrow> wf_scan_result r' \<and> sr_port r' = sr_port r \<and>
     sr_protocol r' = sr_protocol r \<and> sr_state r' = sr_state r \<and> sr_target r' = PStr host"

definition numbered_calls :: "nat \<Rightarrow> int \<Rightarrow> scan_result list \<Rightarrow> (rat \<times> scan_result) list" where
  "numbered_calls k n rs = map (\<lambda>(i, r). (progress i n, r)) (zip [Suc k..<Suc k + length rs] rs)"

lemma numbered_calls_simps [simp]:
  "numbered_calls k n [] = []"
  "numbered_calls k n (r # rs) = (progress (Suc k) n, r) # numbered_calls (Suc k) n rs"
proof -
  have "[Suc k..<Suc k + length (r # rs)] = Suc k # [Suc (Suc k)..<Suc (Suc k) + length rs]"
    by (simp add: upt_rec)
  then show "numbered_calls k n (r # rs) = (progress (Suc k) n, r) # numbered_calls (Suc k) n rs"
    by (simp add: numbered_calls_def)
qed (simp add: numbered_calls_def)

lemma feed_recorded:
  assumes "host \<noteq> []"
  shows "list_all wf_scan_result rs \<Longrightarrow> sc_callback s \<Longrightarrow>
    feed (record_rust_result w host n) (map scan_result_to_dict rs) s = Inr s' \<Longrightarrow>
    \<exists>rs'. sc_results s' = sc_results s @ rs' \<and> list_all2 (recorded host) rs rs' \<and>
      sc_calls s' = sc_calls s @ numbered_calls (length (sc_results s)) n rs'"
proof (induction rs arbitrary: s)
  case (Cons r rs)
  obtain s1 where s1: "record_rust_result w host n (scan_result_to_dict r) s = Inr s1"
    and rest: "feed (record_rust_result w host n) (map scan_result_to_dict rs) s1 = Inr s'"
    using Cons.prems(3) by (auto simp: run)
  have wf: "wf_scan_result r" using Cons.prems(1) by simp
  obtain r' where r': "attach_target_identity (PStr host) (PStr host) r = Inr r'"
    and rec: "record_external_result r' n s = Inr s1"
    using s1 by (auto simp: record_rust_result_def run convert_wire [OF wf assms])
  have "recorded host r r'"
    using attach_target_identity_ok [OF r' assms wf] by (simp add: recorded_def)
  moreover have s1: "sc_results s1 = sc_results s @ [r']" "sc_callback s1"
    "sc_calls s1 = sc_calls s @ [(progress (Suc (length (sc_results s))) n, r')]"
    using rec Cons.prems(2) by (auto simp: record_external_result_Inr notify_def)
  moreover obtain rs' where "sc_results s' = sc_results s1 @ rs'" "list_all2 (recorded host) rs rs'"
    "sc_calls s' = sc_calls s1 @ numbered_calls (length (sc_results s1)) n rs'"
    using Cons.IH [OF _ s1(2) rest] Cons.prems(1) by auto
  ultimately show ?case by (intro exI [of _ "r' # rs'"]) simp
qed simp

lemma recorded_map:
  "list_all2 (recorded host) rs rs' \<Longrightarrow> map sr_port rs' = map sr_port rs \<and>
    map sr_protocol rs' = map sr_protocol rs \<and> map sr_state rs' = map sr_state rs \<and>
    list_all (\<lambda>r. wf_scan_result r \<and> sr_target r = PStr host) rs'"
  by (induction rule: list_all2_induct) (auto simp: recorded_def)

lemma common_ports_distinct: "distinct (map fst common_ports)"
  by code_simp

lemma get_ports_to_scan_sorted:
  "get_ports_to_scan q = Inr ports \<Longrightarrow> sorted ports \<and> distinct ports"
  using common_ports_distinct
  by (auto simp: get_ports_to_scan_def split: if_splits option.splits)

lemma sorted_ports:
  assumes "sorted (map result_key rs)" "\<forall>r \<in> set rs. sr_protocol r = p"
  shows "sorted (map sr_port rs)"
proof -
  have "sorted_wrt (\<lambda>a b. result_key a \<le> result_key b) rs" using assms(1) by (simp add: sorted_map)
  then have "sorted_wrt (\<lambda>a b. sr_port a \<le> sr_port b) rs"
    by (rule sorted_wrt_mono_rel [rotated]) (use assms(2) in \<open>auto simp: result_key_def\<close>)
  then show ?thesis by (simp add: sorted_map)
qed

lemma rust_scan_host:
  assumes "rust_scan loads fs proc (PStr host) ports timeout workers callback s = (Inr records, s')"
  shows "strip host \<noteq> []"
proof -
  obtain ns req where "scan_request_from_seconds (PStr host) ns timeout workers = Inr req"
    using assms by (auto simp: rust_scan_def run split: if_splits sum.splits)
  from scan_request_from_seconds_ok [OF this] show ?thesis
    by (simp add: wf_scan_request_def wf_target_def)
qed

lemma rust_record_state:
  "rust_record t r \<Longrightarrow> sr_protocol r = ''tcp'' \<and> sr_state r \<in> {PS_OPEN, PS_CLOSED, PS_FILTERED}"
  by (cases "sr_state r") (auto simp: rust_record_def allowed_reasons_def)

lemma PInt_image_eq: "PInt ` A = PInt ` B \<longleftrightarrow> A = B"
  by (intro inj_image_eq_iff) (simp add: inj_def)

lemma recorded_all:
  "list_all2 (recorded host) rs rs' \<Longrightarrow>
    list_all (\<lambda>r. sr_protocol r = ''tcp'' \<and> sr_state r \<in> {PS_OPEN, PS_CLOSED, PS_FILTERED}) rs \<Longrightarrow>
    list_all (\<lambda>r. wf_scan_result r \<and> sr_protocol r = ''tcp'' \<and> sr_target r = PStr host \<and>
      sr_state r \<in> {PS_OPEN, PS_CLOSED, PS_FILTERED}) rs'"
  by (induction rule: list_all2_induct) (auto simp: recorded_def)

lemma scan_with_rust_facts:
  assumes "scan_with_rust w host q s = (Inr opened, s')" "strip host = host" "get_ports_to_scan q = Inr ports"
    "sc_callback s"
  shows "map sr_port (sc_results s') = ports \<and>
    list_all (\<lambda>r. wf_scan_result r \<and> sr_protocol r = ''tcp'' \<and> sr_target r = PStr host \<and>
      sr_state r \<in> {PS_OPEN, PS_CLOSED, PS_FILTERED}) (sc_results s') \<and>
    opened = get_open_ports s' \<and> \<not> sc_is_scanning s' \<and>
    (\<exists>rs. mset rs = mset (sc_results s') \<and>
      sc_calls s' = sc_calls s @ numbered_calls 0 (int (length ports)) rs)"
proof -
  let ?s0 = "begin_scan (sw_start w) s"
  obtain s1 where ext: "external_results w host ports q ?s0 = (None, s1)"
    and fin: "finish_external_scan (sw_end w) (sc_results s1) False s1 = (opened, s')"
    using assms by (auto simp: scan_with_rust_def split: if_splits prod.splits option.splits)
  obtain raw s2 where scan: "rust_scan (sw_loads w) (sw_float w) (sw_rust w) (PStr host)
      (map PInt ports) (sq_timeout q) (sq_threads q) (record_rust_result w host (int (length ports))) ?s0 =
      (Inr raw, s2)"
    and len: "int (length (sc_results s1)) = int (length ports)"
    and s1: "(if sc_results s2 = [] then record_results w host (int (length ports)) raw s2 else (None, s2)) = (None, s1)"
    using ext by (auto simp: external_results_def Let_def split: prod.splits sum.splits if_splits option.splits)
  from rust_scan_facts [OF scan] obtain rs where rs: "raw = map scan_result_to_dict rs"
    "set (map (PInt \<circ> sr_port) rs) = set (map PInt ports)" "distinct (map sr_port rs)"
    "list_all (rust_record host) rs" "feed (record_rust_result w host (int (length ports))) raw ?s0 = Inr s2"
    using assms(2) by auto
  have wf: "list_all wf_scan_result rs" "list_all (\<lambda>r. sr_protocol r = ''tcp'' \<and>
      sr_state r \<in> {PS_OPEN, PS_CLOSED, PS_FILTERED}) rs"
    using rs(4) rust_record_state by (auto simp: list_all_iff rust_record_def)
  have "host \<noteq> []" using rust_scan_host [OF scan] assms(2) by simp
  from feed_recorded [OF this wf(1) _ rs(5) [unfolded rs(1)]] assms(4) obtain rs' where
    rs': "sc_results s2 = rs'" "list_all2 (recorded host) rs rs'"
    "sc_calls s2 = sc_calls s @ numbered_calls 0 (int (length ports)) rs'"
    by (auto simp: begin_scan_def)
  note m = recorded_map [OF rs'(2)]
  have "s1 = s2" using s1 rs' rs(1) by (cases rs') auto
  then have res: "sc_results s' = sort_key result_key rs'" and rest: "\<not> sc_is_scanning s'"
    "opened = get_open_ports s'" "sc_calls s' = sc_calls s2"
    using fin rs' by (auto simp: finish_external_scan_def get_open_ports_def finish_scan_def Let_def)
  have all: "list_all (\<lambda>r. wf_scan_result r \<and> sr_protocol r = ''tcp'' \<and> sr_target r = PStr host \<and>
      sr_state r \<in> {PS_OPEN, PS_CLOSED, PS_FILTERED}) rs'"
    by (rule recorded_all [OF rs'(2) wf(2)])
  have "PInt ` set (map sr_port rs) = PInt ` set ports" using rs(2) by (simp add: image_image)
  then have "set (map sr_port rs) = set ports" by (simp only: PInt_image_eq)
  then have ports: "set (map sr_port rs') = set ports" using m by simp
  have "sorted (map sr_port (sort_key result_key rs'))"
    using sorted_ports [of "sort_key result_key rs'"] all by (auto simp: list_all_iff)
  moreover have "distinct (map sr_port (sort_key result_key rs'))" using m rs(3) by simp
  moreover have "set (map sr_port (sort_key result_key rs')) = set ports" using ports by simp
  ultimately have "map sr_port (sort_key result_key rs') = ports"
    using get_ports_to_scan_sorted [OF assms(3)] by (intro sorted_distinct_set_unique) auto
  moreover have "mset rs' = mset (sc_results s')" by (simp add: res)
  ultimately show ?thesis using all rest rs'(3) by (auto simp: res list_all_iff)
qed

text \<open>
  Once the bridge has returned, every record of it has been stored by the callback, so that the
  checks that follow the bridge find one result per port.
\<close>

lemma feed_length:
  "feed (record_rust_result w host n) raws s = Inr s' \<Longrightarrow>
   length (sc_results s') = length (sc_results s) + length raws"
proof (induction raws arbitrary: s)
  case (Cons raw raws)
  then obtain s1 where "record_rust_result w host n raw s = Inr s1"
    "feed (record_rust_result w host n) raws s1 = Inr s'" by (auto simp: run)
  with Cons.IH [OF this(2)] show ?case
    by (auto simp: record_rust_result_def run record_external_result_Inr)
qed simp

lemma external_results_raises:
  assumes "external_results w host ports q s = (Some e, s1)" "distinct ports" "sc_results s = []"
  shows "fst (rust_scan (sw_loads w) (sw_float w) (sw_rust w) (PStr host) (map PInt ports)
    (sq_timeout q) (sq_threads q) (record_rust_result w host (int (length ports))) s) = Inl e"
proof (cases "rust_scan (sw_loads w) (sw_float w) (sw_rust w) (PStr host) (map PInt ports)
    (sq_timeout q) (sq_threads q) (record_rust_result w host (int (length ports))) s")
  case (Pair r s2)
  show ?thesis
  proof (cases r)
    case (Inl x)
    with assms(1) Pair show ?thesis by (simp add: external_results_def)
  next
    case (Inr raw)
    from rust_scan_facts [OF Pair [unfolded Inr]] obtain rs where rs: "raw = map scan_result_to_dict rs"
      "set (map (PInt \<circ> sr_port) rs) = set (map PInt ports)" "distinct (map sr_port rs)"
      "feed (record_rust_result w host (int (length ports))) raw s = Inr s2" by blast
    have "PInt ` set (map sr_port rs) = PInt ` set ports" using rs(2) by (simp add: image_image)
    then have "set (map sr_port rs) = set ports" by (simp only: PInt_image_eq)
    with rs(3) assms(2) have "length rs = length ports" by (metis distinct_card length_map)
    with feed_length [OF rs(4)] assms(3) have len: "length (sc_results s2) = length ports" "length raw = length ports"
      by (simp_all add: rs(1))
    then have "(if sc_results s2 = [] then record_results w host (int (length ports)) raw s2 else (None, s2)) = (None, s2)"
      by auto
    with assms(1) Pair Inr len show ?thesis by (simp add: external_results_def)
  qed
qed

section \<open>Outcomes\<close>

text \<open>What later phases may change of a result: its identity and its banner.\<close>

definition same_verdict :: "scan_result \<Rightarrow> scan_result \<Rightarrow> bool" where
  "same_verdict r r' \<longleftrightarrow> sr_port r' = sr_port r \<and> sr_protocol r' = sr_protocol r \<and>
     sr_state r' = sr_state r"

lemma same_verdict_map:
  "list_all2 same_verdict rs rs' \<Longrightarrow> map sr_port rs' = map sr_port rs \<and>
    map sr_state rs' = map sr_state rs \<and>
    map (\<lambda>r. (sr_port r, sr_state r)) rs' = map (\<lambda>r. (sr_port r, sr_state r)) rs"
  by (induction rule: list_all2_induct) (auto simp: same_verdict_def)

lemma attach_identities_ok:
  assumes "t \<noteq> []"
  shows "attach_identities t a rs = Inr rs' \<Longrightarrow> list_all wf_scan_result rs \<Longrightarrow>
    list_all2 same_verdict rs rs' \<and> list_all (\<lambda>r. wf_scan_result r \<and> sr_target r = PStr t) rs'"
proof (induction rs arbitrary: rs')
  case (Cons r rs)
  then obtain r1 rs1 where step: "rs' = r1 # rs1" "attach_identities t a rs = Inr rs1"
    "attach_target_identity (PStr t) (if truthy (sr_address r) then sr_address r else PStr a) r = Inr r1"
    by (auto simp: attach_identities_def run)
  with Cons attach_target_identity_ok [OF step(3) assms] show ?case
    by (auto simp: same_verdict_def)
qed (simp add: attach_identities_def)

definition set_banner_of :: "(int \<Rightarrow> pyval option) \<Rightarrow> scan_result \<Rightarrow> scan_result" where
  "set_banner_of b r = (case b (sr_port r) of None \<Rightarrow> r | Some v \<Rightarrow> r\<lparr>sr_banner := v\<rparr>)"

lemma set_banner_of_simps [simp]:
  "sr_port (set_banner_of b r) = sr_port r" "sr_state (set_banner_of b r) = sr_state r"
  "sr_protocol (set_banner_of b r) = sr_protocol r" "sr_target (set_banner_of b r) = sr_target r"
  "wf_scan_result (set_banner_of b r) = wf_scan_result r"
  by (auto simp: set_banner_of_def wf_scan_result_def wf_address_def split: option.splits)

lemma banners_by_port_dom:
  "banners_by_port bs p \<noteq> None \<longleftrightarrow> p \<in> nres_port ` set bs"
  by (force simp: banners_by_port_def map_of_eq_None_iff)

lemma apply_go_banners_facts:
  assumes "apply_go_banners w host rs = Inr rs'"
  shows "\<exists>b. rs' = map (set_banner_of b) rs \<and>
    (\<forall>p. b p \<noteq> None \<longrightarrow> (\<exists>r \<in> set rs. sr_state r = PS_OPEN \<and> sr_port r = p))"
proof (cases "filter (\<lambda>r. sr_state r = PS_OPEN) rs = []")
  case True
  moreover have "set_banner_of (\<lambda>p. None) = id" by (auto simp: set_banner_of_def)
  ultimately show ?thesis using assms
    by (intro exI [of _ "\<lambda>p. None"]) (simp add: apply_go_banners_def)
next
  case False
  let ?ports = "map sr_port (filter (\<lambda>r. sr_state r = PS_OPEN) rs)"
  obtain bs where bs: "go_banners (sw_loads w) (sw_go w) (PStr host) ?ports (PFloat (FFin 3)) = Inr bs"
    "rs' = map (set_banner_of (banners_by_port bs)) rs"
    using assms False by (auto simp: apply_go_banners_def Let_def run set_banner_of_def split: if_splits)
  have "nres_port ` set bs = set ?ports"
    using go_banners_facts [OF bs(1)] by (metis list.set_map set_remdups set_sort)
  then have "banners_by_port bs p \<noteq> None \<longleftrightarrow> p \<in> set ?ports" for p
    using banners_by_port_dom [of bs p] by simp
  then show ?thesis using bs(2) by (intro exI [of _ "banners_by_port bs"]) auto
qed

lemma apply_requested_banners_ok:
  assumes "apply_requested_banners w e host rs = Inr rs'"
  shows "list_all2 same_verdict rs rs' \<and>
    (list_all (\<lambda>r. wf_scan_result r \<and> sr_target r = t) rs \<longrightarrow>
     list_all (\<lambda>r. wf_scan_result r \<and> sr_target r = t) rs')"
proof -
  obtain b where "rs' = map (set_banner_of b) rs"
    using assms apply_go_banners_facts [of w host rs rs']
    by (auto simp: apply_requested_banners_def split: if_splits)
  then show ?thesis by (auto simp: same_verdict_def list_all_iff list_all2_conv_all_nth)
qed

lemma cancellable_Inr [run]: "cancellable c x = Inr y \<longleftrightarrow> \<not> c \<and> y = x"
  by (auto simp: cancellable_def)

text \<open>The report of \<open>rs\<close> was written to the path chosen for it.\<close>

definition report_written ::
    "run_world \<Rightarrow> scan_request \<Rightarrow> string \<Rightarrow> string \<Rightarrow> scan_result list \<Rightarrow> string \<Rightarrow> string \<Rightarrow> bool" where
  "report_written w q se be rs path report \<longleftrightarrow>
     rw_output w = Inr path \<and> rw_report w rs (sq_host q) path (sq_report_format q) se be = Inr report"

lemma report_phase_ok:
  assumes "report_phase w q host se be s = Inr out"
    "list_all (\<lambda>r. wf_scan_result r \<and> sr_target r = t) (sc_results s)"
  shows "\<exists>rs path report. list_all2 same_verdict (sc_results s) rs \<and>
    list_all (\<lambda>r. wf_scan_result r \<and> sr_target r = t) rs \<and>
    out = build_outcome q host se be (s\<lparr>sc_results := rs\<rparr>) path report \<and> report_written w q se be rs path report"
proof (cases "sq_banner_grab q")
  case True
  then obtain rs path report where "apply_requested_banners (rw_scan w) be host (sc_results s) = Inr rs"
    "out = build_outcome q host se be (s\<lparr>sc_results := rs\<rparr>) path report" "report_written w q se be rs path report"
    using assms(1) by (auto simp: report_phase_def report_written_def run)
  then show ?thesis using apply_requested_banners_ok assms(2) by blast
next
  case False
  then obtain path report where "out = build_outcome q host se be (s\<lparr>sc_results := sc_results s\<rparr>) path report"
    "report_written w q se be (sc_results s) path report"
    using assms(1) by (auto simp: report_phase_def report_written_def run)
  moreover have "list_all2 same_verdict (sc_results s) (sc_results s)"
    by (simp add: list_all2_conv_all_nth same_verdict_def)
  ultimately show ?thesis using assms(2) by blast
qed

definition events_of_kind :: "event_kind \<Rightarrow> orchestrator_event list \<Rightarrow> orchestrator_event list" where
  "events_of_kind k evs = filter (\<lambda>e. oe_kind e = k) evs"

lemma events_of_kind_append [simp]:
  "events_of_kind k (xs @ ys) = events_of_kind k xs @ events_of_kind k ys"
  by (simp add: events_of_kind_def)

lemma events_of_kind_simps [simp]:
  "events_of_kind k [] = []"
  "events_of_kind k (e # es) = (if oe_kind e = k then [e] else []) @ events_of_kind k es"
  by (simp_all add: events_of_kind_def)

lemma progress_events_simps:
  "progress_events [] = []"
  "progress_events ((p, r) # calls) =
     \<lparr>oe_kind = Progress, oe_progress = Some p, oe_result = Some r\<rparr> #
     (if sr_state r = PS_OPEN
      then [\<lparr>oe_kind = Open_port, oe_progress = Some p, oe_result = Some r\<rparr>] else []) @
     progress_events calls"
  by (simp_all add: progress_events_def)

lemma progress_events_reports [simp]: "events_of_kind Report (progress_events calls) = []"
  by (induction calls) (auto simp: progress_events_simps)

lemma progress_events_kinds:
  "map oe_result (events_of_kind Progress (progress_events calls)) = map Some (map snd calls)"
  "map oe_result (events_of_kind Open_port (progress_events calls)) =
     map Some (filter (\<lambda>r. sr_state r = PS_OPEN) (map snd calls))"
  "events_of_kind Run_cancelled (progress_events calls) = []"
  by (induction calls) (auto simp: progress_events_simps)

lemma three_states:
  "list_all (\<lambda>r. sr_state r \<in> {PS_OPEN, PS_CLOSED, PS_FILTERED}) rs \<Longrightarrow>
    state_count rs PS_OPEN + state_count rs PS_CLOSED + (state_count rs PS_FILTERED +
      state_count rs PS_OPEN_FILTERED + state_count rs PS_CLOSED_FILTERED) = length rs"
  by (induction rs) (auto simp: state_count_def)

lemma numbered_calls_snd: "map snd (numbered_calls k n rs) = rs"
  by (induction rs arbitrary: k) auto

text \<open>
  C20. When the Rust scan of an address returns, the scanner is idle and holds exactly one
  well-formed TCP result per requested port, in ascending order, open, closed or filtered and
  labelled with the address; the open ones are returned and each was announced once.
\<close>

theorem scan_with_rust_complete:
  assumes "scan_with_rust w host q s = (Inr opened, s')" and "strip host = host"
    and "get_ports_to_scan q = Inr ports" and "sc_callback s"
  shows "map sr_port (sc_results s') = ports \<and>
    list_all (\<lambda>r. wf_scan_result r \<and> sr_protocol r = ''tcp'' \<and> sr_target r = PStr host \<and>
      sr_state r \<in> {PS_OPEN, PS_CLOSED, PS_FILTERED}) (sc_results s') \<and>
    opened = get_open_ports s' \<and> \<not> sc_is_scanning s' \<and>
    (\<exists>rs. mset rs = mset (sc_results s') \<and>
      sc_calls s' = sc_calls s @ numbered_calls 0 (int (length ports)) rs)"
  using assms by (rule scan_with_rust_facts)

text \<open>
  C40. When the Rust scan of an address fails after it has started, the failure is what the
  bridge raised, never one of the checks that follow it, and, unless it is an interruption
  (\<open>KeyboardInterrupt\<close> or the end of the process), no partial result stays: the scanner is idle
  and empty.
\<close>

theorem scan_with_rust_failure:
  assumes "scan_with_rust w host q s = (Inl e, s')" and "rp_available (sw_rust w)"
    and "get_ports_to_scan q = Inr ports"
  shows "fst (rust_scan (sw_loads w) (sw_float w) (sw_rust w) (PStr host) (map PInt ports)
      (sq_timeout q) (sq_threads q) (record_rust_result w host (int (length ports))) (begin_scan (sw_start w) s)) = Inl e \<and>
    (e \<noteq> KeyboardInterrupt \<and> e \<noteq> Killed \<longrightarrow>
       sc_results s' = [] \<and> \<not> sc_is_scanning s' \<and> sc_end_time s' = Some (sw_end w))"
proof -
  obtain s1 where ext: "external_results w host ports q (begin_scan (sw_start w) s) = (Some e, s1)"
    using assms by (auto simp: scan_with_rust_def split: prod.splits option.splits)
  have "distinct ports" using get_ports_to_scan_sorted [OF assms(3)] by simp
  from external_results_raises [OF ext this] have "fst (rust_scan (sw_loads w) (sw_float w) (sw_rust w) (PStr host)
      (map PInt ports) (sq_timeout q) (sq_threads q) (record_rust_result w host (int (length ports)))
      (begin_scan (sw_start w) s)) = Inl e" by (simp add: begin_scan_def)
  moreover have "sc_results s' = [] \<and> \<not> sc_is_scanning s' \<and> sc_end_time s' = Some (sw_end w)"
    if "e \<noteq> KeyboardInterrupt \<and> e \<noteq> Killed"
    using assms ext that
    by (auto simp: scan_with_rust_def finish_external_scan_def is_exception_class_def Let_def
        finish_scan_def split: prod.splits option.splits)
  ultimately show ?thesis by blast
qed

text \<open>
  Banners are attached to open ports only, and nothing but the banner of a result changes.
\<close>

theorem banners_only_on_open_ports:
  assumes "apply_requested_banners w e host rs = Inr rs'" and "distinct (map sr_port rs)"
  shows "length rs' = length rs \<and> (\<forall>i < length rs. \<exists>b. rs' ! i = (rs ! i)\<lparr>sr_banner := b\<rparr> \<and>
    (sr_state (rs ! i) \<noteq> PS_OPEN \<longrightarrow> rs' ! i = rs ! i))"
proof -
  obtain b where b: "rs' = map (set_banner_of b) rs"
    "\<forall>p. b p \<noteq> None \<longrightarrow> (\<exists>r \<in> set rs. sr_state r = PS_OPEN \<and> sr_port r = p)"
    using assms(1) apply_go_banners_facts [of w host rs rs']
    by (auto simp: apply_requested_banners_def split: if_splits)
  have "b (sr_port (rs ! i)) = None" if "i < length rs" "sr_state (rs ! i) \<noteq> PS_OPEN" for i
  proof (rule ccontr)
    assume "b (sr_port (rs ! i)) \<noteq> None"
    then obtain r where "r \<in> set rs" "sr_state r = PS_OPEN" "sr_port r = sr_port (rs ! i)"
      using b(2) by blast
    with assms(2) that show False by (metis distinct_map inj_onD nth_mem)
  qed
  moreover have "\<exists>x. set_banner_of b r = r\<lparr>sr_banner := x\<rparr>" for r
    by (cases "b (sr_port r)") (auto simp: set_banner_of_def intro: exI [of _ "sr_banner r"])
  ultimately show ?thesis by (auto simp: b(1) set_banner_of_def)
qed

text \<open>
  C13. When the run of a resolved target returns, its outcome holds one result per requested
  port in order, under the name the user asked for, whose counts add up. The report of exactly
  these results, in the format asked for, was written to the path chosen for it, and the outcome
  names both. Every result was announced as progress exactly once, the open ones as open ports,
  and the run ends with its one \<open>REPORT\<close>, then \<open>COMPLETE\<close>, and is never announced as cancelled.
\<close>

theorem run_resolved_outcome:
  assumes "run_resolved w q host se be = (Inr out, events)" and "strip host = host"
    and "sq_host q \<noteq> []"
  shows "get_ports_to_scan q = Inr (map sr_port (so_results out)) \<and>
    list_all (\<lambda>r. wf_scan_result r \<and> sr_target r = PStr (sq_host q)) (so_results out) \<and>
    st_total_ports (so_statistics out) = length (so_results out) \<and>
    st_open_ports (so_statistics out) + st_closed_ports (so_statistics out) +
      st_filtered_ports (so_statistics out) = length (so_results out) \<and>
    (\<exists>announced. map oe_result (events_of_kind Progress events) = map Some announced \<and>
      map oe_result (events_of_kind Open_port events) =
        map Some (filter (\<lambda>r. sr_state r = PS_OPEN) announced) \<and>
      mset (map (\<lambda>r. (sr_port r, sr_state r)) announced) =
        mset (map (\<lambda>r. (sr_port r, sr_state r)) (so_results out))) \<and>
    rw_output w = Inr (so_output_path out) \<and>
    rw_report w (so_results out) (sq_host q) (so_output_path out) (sq_report_format q) se be = Inr (so_report out) \<and>
    so_target out = sq_host q \<and> so_resolved_host out = host \<and> so_report_format out = sq_report_format q \<and>
    (\<exists>before. events = before @ [plain_event Report, \<lparr>oe_kind = Complete, oe_progress = Some 100, oe_result = None\<rparr>] \<and>
       events_of_kind Report before = []) \<and>
    events_of_kind Run_cancelled events = []"
proof -
  obtain opened s1 where scan: "scan_with_rust (rw_scan w) host q (new_scanner True) = (Inr opened, s1)"
    using assms(1) by (auto simp: run_resolved_def Let_def leave_run_def run split: prod.splits sum.splits if_splits)
  obtain ports where ports: "get_ports_to_scan q = Inr ports"
    using scan by (auto simp: scan_with_rust_def split: if_splits sum.splits)
  from scan_with_rust_facts [OF scan assms(2) ports] obtain rs0 where s1:
    "map sr_port (sc_results s1) = ports" "list_all wf_scan_result (sc_results s1)"
    "list_all (\<lambda>r. sr_state r \<in> {PS_OPEN, PS_CLOSED, PS_FILTERED}) (sc_results s1)"
    "mset rs0 = mset (sc_results s1)" "sc_calls s1 = numbered_calls 0 (int (length ports)) rs0"
    by (auto simp: new_scanner_def list_all_iff)
  obtain rs1 where att: "attach_identities (sq_host q) host (sc_results s1) = Inr rs1"
    and rep: "report_phase w q host se be (s1\<lparr>sc_results := rs1\<rparr>) = Inr out"
    and events: "events = [plain_event Status, plain_event Status] @ progress_events (sc_calls s1) @
      (if sq_banner_grab q then [plain_event Status] else []) @
      [plain_event Report, \<lparr>oe_kind = Complete, oe_progress = Some 100, oe_result = None\<rparr>]"
    using assms(1) scan
    by (auto simp: run_resolved_def Let_def leave_run_def run split: sum.splits if_splits)
  note a = attach_identities_ok [OF assms(3) att s1(2)]
  from report_phase_ok [OF rep, of "PStr (sq_host q)"] a obtain rs path report where
    rs: "list_all2 same_verdict rs1 rs" "list_all (\<lambda>r. wf_scan_result r \<and> sr_target r = PStr (sq_host q)) rs"
    "out = build_outcome q host se be (s1\<lparr>sc_results := rs\<rparr>) path report" "report_written w q se be rs path report"
    by auto
  have maps: "map sr_port rs = ports" "map sr_state rs = map sr_state (sc_results s1)"
    using same_verdict_map [OF rs(1)] same_verdict_map [OF conjunct1 [OF a]] s1(1) by simp_all
  have verdicts: "map (\<lambda>r. (sr_port r, sr_state r)) rs = map (\<lambda>r. (sr_port r, sr_state r)) (sc_results s1)"
    using same_verdict_map [OF rs(1)] same_verdict_map [OF conjunct1 [OF a]] by simp
  have "set (map sr_state rs) \<subseteq> {PS_OPEN, PS_CLOSED, PS_FILTERED}"
    unfolding maps(2) using s1(3) by (auto simp: list_all_iff)
  then have "list_all (\<lambda>r. sr_state r \<in> {PS_OPEN, PS_CLOSED, PS_FILTERED}) rs"
    by (auto simp: list_all_iff)
  then have counts: "st_total_ports (so_statistics out) = length (so_results out)"
    "st_open_ports (so_statistics out) + st_closed_ports (so_statistics out) +
      st_filtered_ports (so_statistics out) = length (so_results out)"
    using three_states [of rs] by (simp_all add: rs(3) build_outcome_def get_statistics_def Let_def)
  have "map oe_result (events_of_kind Progress events) = map Some rs0"
    "map oe_result (events_of_kind Open_port events) = map Some (filter (\<lambda>r. sr_state r = PS_OPEN) rs0)"
    "events_of_kind Run_cancelled events = []"
    using numbered_calls_snd [of 0 "int (length ports)" rs0]
    by (simp_all add: events progress_events_kinds s1(5) plain_event_def del: map_map)
  moreover have "mset (map (\<lambda>r. (sr_port r, sr_state r)) rs0) = mset (map (\<lambda>r. (sr_port r, sr_state r)) rs)"
    unfolding verdicts by (simp add: s1(4))
  moreover have "\<exists>before. events = before @ [plain_event Report, \<lparr>oe_kind = Complete, oe_progress = Some 100, oe_result = None\<rparr>] \<and>
      events_of_kind Report before = []"
    by (intro exI [of _ "[plain_event Status, plain_event Status] @ progress_events (sc_calls s1) @
        (if sq_banner_grab q then [plain_event Status] else [])"]) (simp add: events plain_event_def)
  moreover have "rw_output w = Inr (so_output_path out)"
    "rw_report w (so_results out) (sq_host q) (so_output_path out) (sq_report_format q) se be = Inr (so_report out)"
    "so_target out = sq_host q" "so_resolved_host out = host" "so_report_format out = sq_report_format q"
    using rs(4) by (simp_all add: rs(3) build_outcome_def report_written_def)
  ultimately show ?thesis using counts rs(2) maps(1) ports
    by (simp add: rs(3) build_outcome_def)
qed

section \<open>A run on one port\<close>

definition one_port_world :: run_world where
  "one_port_world =
     \<lparr>rw_scan = \<lparr>sw_loads = sample_decoder, sw_float = (\<lambda>s. None), sw_service = (\<lambda>p. ''unknown''),
        sw_rust = sample_process\<lparr>rp_items := [Stdout_line ''b'']\<rparr>,
        sw_go = \<lparr>gp_available = True, gp_spawn_error = None, gp_exit = Go_exited 0 ''c'',
                 gp_events = None\<rparr>,
        sw_start = 0, sw_end = 1\<rparr>,
      rw_cancelled_after_scan = False, rw_cancelled_after_banners = False,
      rw_output = Inr ''reports/r.txt'', rw_report = (\<lambda>rs target path format scan_engine banner_engine. Inr path)\<rparr>"

definition one_port_request :: scan_request where
  "one_port_request =
     \<lparr>sq_host = ''host.example'', sq_ports = ''80'', sq_common_ports = False, sq_threads = PInt 10,
      sq_timeout = PInt 2, sq_engine = ''rust'', sq_banner_grab = True, sq_banner_engine = ''go'',
      sq_output = [], sq_report_dir = ''reports'', sq_report_format = ''text'',
      sq_profile = ''custom''\<rparr>"

lemma one_port_address: "strip ''10.0.0.1'' = ''10.0.0.1''" by code_simp

lemma one_port_ports: "get_ports_to_scan one_port_request = Inr [80]" by code_simp

lemma one_port_scan:
  "\<exists>opened s'. scan_with_rust (rw_scan one_port_world) ''10.0.0.1'' one_port_request (new_scanner True) =
    (Inr opened, s')"
proof -
  have "(case scan_with_rust (rw_scan one_port_world) ''10.0.0.1'' one_port_request (new_scanner True) of
    (Inr opened, s') \<Rightarrow> True | _ \<Rightarrow> False)" by code_simp
  then show ?thesis by (auto split: prod.splits sum.splits)
qed

lemma scan_with_rust_complete_witness:
  "\<exists>s' :: scanner. map sr_port (sc_results s') = [80] \<and> \<not> sc_is_scanning s'"
proof -
  from one_port_scan obtain opened s' where scan:
    "scan_with_rust (rw_scan one_port_world) ''10.0.0.1'' one_port_request (new_scanner True) =
      (Inr opened, s')" by blast
  have "sc_callback (new_scanner True)" by (simp add: new_scanner_def)
  from scan_with_rust_complete [OF scan one_port_address one_port_ports this] show ?thesis
    by (intro exI [of _ s']) simp
qed

lemma failed_scan:
  "\<exists>s'. scan_with_rust (rw_scan one_port_world\<lparr>sw_rust := sample_process\<rparr>) ''10.0.0.1''
    one_port_request (new_scanner True) = (Inl RuntimeError, s')"
proof -
  have "(case scan_with_rust (rw_scan one_port_world\<lparr>sw_rust := sample_process\<rparr>) ''10.0.0.1''
    one_port_request (new_scanner True) of (Inl e, s') \<Rightarrow> e = RuntimeError | _ \<Rightarrow> False)" by code_simp
  then show ?thesis by (auto split: prod.splits sum.splits)
qed

lemma scan_with_rust_failure_witness: "\<exists>s' :: scanner. sc_results s' = [] \<and> sc_end_time s' = Some 1"
proof -
  from failed_scan obtain s' where scan:
    "scan_with_rust (rw_scan one_port_world\<lparr>sw_rust := sample_process\<rparr>) ''10.0.0.1''
      one_port_request (new_scanner True) = (Inl RuntimeError, s')" by blast
  from scan_with_rust_failure [OF scan _ one_port_ports] show ?thesis
    by (auto simp: one_port_world_def sample_process_def)
qed

lemma one_port_outcome:
  "\<exists>out events. run_resolved one_port_world one_port_request ''10.0.0.1'' ''rust'' ''go'' = (Inr out, events)"
proof -
  have "(case run_resolved one_port_world one_port_request ''10.0.0.1'' ''rust'' ''go'' of
    (Inr out, events) \<Rightarrow> True | _ \<Rightarrow> False)" by code_simp
  then show ?thesis by (auto split: prod.splits sum.splits)
qed

lemma run_resolved_outcome_witness:
  "\<exists>out :: scan_outcome. map sr_port (so_results out) = [80] \<and> st_total_ports (so_statistics out) = 1"
proof -
  from one_port_outcome obtain out events where run:
    "run_resolved one_port_world one_port_request ''10.0.0.1'' ''rust'' ''go'' = (Inr out, events)" by blast
  have "sq_host one_port_request \<noteq> []" by (simp add: one_port_request_def)
  from run_resolved_outcome [OF run one_port_address this] one_port_ports have
    "map sr_port (so_results out) = [80]" "st_total_ports (so_statistics out) = length (so_results out)"
    by auto
  moreover from this have "length (so_results out) = 1" by (metis length_map length_Cons list.size(3) One_nat_def)
  ultimately show ?thesis by (intro exI [of _ out]) auto
qed

lemma open_banner:
  "\<exists>r r'. apply_requested_banners (rw_scan one_port_world) ''go'' ''10.0.0.1'' [r] = Inr [r'] \<and>
    sr_banner r' = PStr ''hi''"
proof -
  have "(case map_err (\<lambda>v. scan_result_from_dict (\<lambda>s. None) v)
      [sample_record 80 ''open'' ''connection_accepted'' ''HTTP''] of
    Inr rs \<Rightarrow> (case apply_requested_banners (rw_scan one_port_world) ''go'' ''10.0.0.1'' rs of
      Inr rs' \<Rightarrow> length rs = 1 \<and> map sr_banner rs' = [PStr ''hi''] | _ \<Rightarrow> False) | _ \<Rightarrow> False)" by code_simp
  then show ?thesis by (auto split: sum.splits simp: length_Suc_conv)
qed

lemma banners_only_on_open_ports_witness:
  "\<exists>(r :: scan_result) r' b. r' = r\<lparr>sr_banner := b\<rparr> \<and> sr_banner r' = PStr ''hi''"
proof -
  from open_banner obtain r r' where
    r: "apply_requested_banners (rw_scan one_port_world) ''go'' ''10.0.0.1'' [r] = Inr [r']"
    "sr_banner r' = PStr ''hi''" by blast
  from banners_only_on_open_ports [OF r(1)] r(2) show ?thesis by auto
qed

end
