(* ===== verification/Orchestrator_Batch.thy ===== *)
theory Orchestrator_Batch
  imports Orchestrator
begin

text \<open>
  \<open>ScanOrchestrator.run_many\<close> of \<open>src/orchestrator.py\<close>: a batch resolves its targets, divides the
  workers, reserves report names and gathers outcomes and failures while the targets run
  concurrently. The interleaving of the workers is the sequence of events that the coordinator
  sees.
\<close>

section \<open>Batches\<close>

record resolved_target =
  rt_target :: string
  rt_address :: string
  rt_source :: string

record scan_failure =
  sf_target :: string
  sf_resolved_host :: "string option"
  sf_phase :: string
  sf_error :: exc

fun add_resolved ::
  "parsed_target \<Rightarrow> target_identity list \<Rightarrow> (string \<times> string) set \<Rightarrow> resolved_target list \<Rightarrow>
     (string \<times> string) set \<times> resolved_target list" where
  "add_resolved p [] seen targets = (seen, targets)"
| "add_resolved p (identity # ids) seen targets =
     (let key = (address_family_value (ti_family identity), ti_address identity) in
      if key \<in> seen then add_resolved p ids seen targets
      else add_resolved p ids (insert key seen)
             (targets @ [\<lparr>rt_target = pt_value p, rt_address = ti_address identity,
                         rt_source = pt_source p\<rparr>]))"

fun resolve_batch_loop ::
  "name_service \<Rightarrow> parsed_target list \<Rightarrow> (string \<times> string) set \<Rightarrow> resolved_target list \<Rightarrow>
     scan_failure list \<Rightarrow> exc + resolved_target list \<times> scan_failure list" where
  "resolve_batch_loop names [] seen targets failures = Inr (targets, failures)"
| "resolve_batch_loop names (p # ps) seen targets failures =
     (case resolve_target names (Inl p) of
        Inl e \<Rightarrow>
          if e = TargetResolutionError
          then resolve_batch_loop names ps seen targets
                 (failures @ [\<lparr>sf_target = pt_value p, sf_resolved_host = None,
                              sf_phase = ''resolution'', sf_error = e\<rparr>])
          else Inl e
      | Inr ids \<Rightarrow>
          (case add_resolved p ids seen targets of
             (seen', targets') \<Rightarrow> resolve_batch_loop names ps seen' targets' failures))"

definition resolve_batch_targets ::
  "name_service \<Rightarrow> parsed_target list \<Rightarrow> exc + resolved_target list \<times> scan_failure list" where
  "resolve_batch_targets names ps = resolve_batch_loop names ps {} [] []"

text \<open>
  \<open>_batch_requests\<close>: names reserved for earlier targets count as taken. \<open>in_dir\<close> is the path of
  a name in the report directory, \<open>existing\<close> the names that are there.
\<close>

fun reserve_names ::
  "(string \<Rightarrow> string) \<Rightarrow> string list \<Rightarrow> string \<Rightarrow> string \<Rightarrow> scan_request \<Rightarrow> int \<Rightarrow>
     resolved_target list \<Rightarrow> string list \<Rightarrow> scan_request list" where
  "reserve_names in_dir existing timestamp extension q workers [] reserved = []"
| "reserve_names in_dir existing timestamp extension q workers (t # ts) reserved =
     (let stem = ''scan_report_'' @ safe_filename_component (rt_target t) @ ''_'' @
                 safe_filename_component (rt_address t) @ ''_'' @ timestamp;
          name = free_name stem extension (reserved @ existing)
      in q\<lparr>sq_host := rt_target t, sq_threads := PInt workers, sq_output := in_dir name\<rparr> #
         reserve_names in_dir existing timestamp extension q workers ts (name # reserved))"

definition batch_requests ::
  "(string \<Rightarrow> string) \<Rightarrow> string list \<Rightarrow> string \<Rightarrow> scan_request \<Rightarrow> resolved_target list \<Rightarrow> int \<Rightarrow>
     exc + scan_request list" where
  "batch_requests in_dir existing timestamp q targets workers =
     (if length targets > 1 \<and> sq_output q \<noteq> [] then Inl ValueError
      else if length targets \<le> 1
      then Inr (map (\<lambda>t. q\<lparr>sq_host := rt_target t, sq_threads := PInt workers\<rparr>) targets)
      else
        bindE (report_extension (sq_report_format q)) (\<lambda>extension.
          Inr (reserve_names in_dir existing timestamp extension q workers targets [])))"

record batch_statistics =
  bt_requested :: nat
  bt_resolved :: nat
  bt_completed :: nat
  bt_failed :: nat
  bt_total_ports :: nat
  bt_open_ports :: nat
  bt_closed_ports :: nat
  bt_filtered_ports :: nat
  bt_target_workers :: int
  bt_workers_per_target :: int
  bt_worker_budget :: int

definition batch_statistics_of ::
  "scan_outcome list \<Rightarrow> scan_failure list \<Rightarrow> nat \<Rightarrow> nat \<Rightarrow> int \<Rightarrow> int \<Rightarrow> batch_statistics" where
  "batch_statistics_of outcomes failures requested resolved workers per_target =
     \<lparr>bt_requested = requested, bt_resolved = resolved, bt_completed = length outcomes,
      bt_failed = length failures,
      bt_total_ports = sum_list (map (st_total_ports \<circ> so_statistics) outcomes),
      bt_open_ports = sum_list (map (st_open_ports \<circ> so_statistics) outcomes),
      bt_closed_ports = sum_list (map (st_closed_ports \<circ> so_statistics) outcomes),
      bt_filtered_ports = sum_list (map (st_filtered_ports \<circ> so_statistics) outcomes),
      bt_target_workers = workers, bt_workers_per_target = per_target,
      bt_worker_budget = workers * per_target\<rparr>"

record batch_request =
  bq_template :: scan_request
  bq_targets :: pyval
  bq_target_files :: "string list"
  bq_exclusions :: pyval
  bq_target_workers :: pyval
  bq_max_targets :: pyval

text \<open>What a batch depends on before its targets run.\<close>

record batch_world =
  bw_files :: file_reader
  bw_names :: name_service
  bw_rust_available :: bool
  bw_go_available :: bool
  bw_in_dir :: "string \<Rightarrow> string"
  bw_existing :: "string list"
  bw_timestamp :: string

record batch_plan =
  bp_parsed :: nat
  bp_targets :: "resolved_target list"
  bp_failures :: "scan_failure list"
  bp_target_workers :: int
  bp_workers_per_target :: int
  bp_requests :: "scan_request list"
  bp_scan_engine :: string
  bp_banner_engine :: string

definition check_target_workers :: "pyval \<Rightarrow> exc + int" where
  "check_target_workers v =
     (case v of PInt n \<Rightarrow> if n < 1 \<or> n > 32 then Inl ValueError else Inr n | _ \<Rightarrow> Inl ValueError)"

definition prepare_batch :: "batch_world \<Rightarrow> batch_request \<Rightarrow> exc + batch_plan" where
  "prepare_batch w bq =
     bindE (check_target_workers (bq_target_workers bq)) (\<lambda>target_workers.
     bindE (target_parser_init (bq_max_targets bq)) (\<lambda>max_targets.
     bindE (parse_targets (bw_files w) max_targets (bq_targets bq) (bq_target_files bq)
              (bq_exclusions bq)) (\<lambda>parsed.
       if parsed = [] then Inl TargetParseError else
     bindE (prepare_request (bw_rust_available w) (bw_go_available w) (bq_template bq))
       (\<lambda>(ports, scan_engine, banner_engine).
     bindE (resolve_batch_targets (bw_names w) parsed) (\<lambda>(targets, failures).
       if targets = []
       then Inr \<lparr>bp_parsed = length parsed, bp_targets = [], bp_failures = failures,
                 bp_target_workers = 0, bp_workers_per_target = 0, bp_requests = [],
                 bp_scan_engine = scan_engine, bp_banner_engine = banner_engine\<rparr>
       else
     bindE (check_threads (sq_threads (bq_template bq))) (\<lambda>threads.
       let workers = min (min target_workers (int (length targets))) threads;
           per_target = max 1 (threads div workers) in
     bindE (batch_requests (bw_in_dir w) (bw_existing w) (bw_timestamp w) (bq_template bq)
              targets per_target) (\<lambda>requests.
       Inr \<lparr>bp_parsed = length parsed, bp_targets = targets, bp_failures = failures,
            bp_target_workers = workers, bp_workers_per_target = per_target,
            bp_requests = requests, bp_scan_engine = scan_engine,
            bp_banner_engine = banner_engine\<rparr>)))))))"

record batch_event =
  be_kind :: event_kind
  be_progress :: "rat option"
  be_index :: "nat option"

text \<open>
  Percentages are exact; the outcome and the failure of a target are kept by its index.
  \<open>bs_announcing\<close> is the failure that the coordinator has recorded and not announced yet, with
  the progress it computed under \<open>progress_lock\<close>: the lock is free again when \<open>_emit\<close> waits for
  \<open>_event_lock\<close>, so that events of the workers may come first.
\<close>

record batch_state =
  bs_progress :: "rat list"
  bs_completed_before :: nat
  bs_outcomes :: "nat \<Rightarrow> scan_outcome option"
  bs_failures :: "nat \<Rightarrow> scan_failure option"
  bs_announcing :: "(rat \<times> nat) option"
  bs_events :: "batch_event list"

definition global_progress :: "batch_plan \<Rightarrow> batch_state \<Rightarrow> rat" where
  "global_progress plan st =
     (100 * of_nat (bs_completed_before st) + sum_list (bs_progress st)) /
     of_nat (length (bp_targets plan) + length (bp_failures plan))"

definition emit :: "event_kind \<Rightarrow> rat option \<Rightarrow> nat option \<Rightarrow> batch_state \<Rightarrow> batch_state" where
  "emit k p i st =
     st\<lparr>bs_events := bs_events st @ [\<lparr>be_kind = k, be_progress = p, be_index = i\<rparr>]\<rparr>"

fun announce_failures :: "batch_plan \<Rightarrow> scan_failure list \<Rightarrow> batch_state \<Rightarrow> batch_state" where
  "announce_failures plan [] st = st"
| "announce_failures plan (f # fs) st =
     (let st = st\<lparr>bs_completed_before := bs_completed_before st + 1\<rparr>
      in announce_failures plan fs
           (emit Target_failed (Some (global_progress plan st)) None st))"

definition batch_start :: "batch_plan \<Rightarrow> batch_state" where
  "batch_start plan =
     announce_failures plan (bp_failures plan)
       \<lparr>bs_progress = replicate (length (bp_targets plan)) 0, bs_completed_before = 0,
        bs_outcomes = (\<lambda>i. None), bs_failures = (\<lambda>i. None), bs_announcing = None, bs_events = []\<rparr>"

text \<open>
  What happens while the targets run, in the order in which it happens: a target is submitted,
  an event of a worker is forwarded, the future of a target is done, the coordinator announces
  the failure that it has recorded. The progress of a worker's event is computed and forwarded
  in one step, because \<open>_emit\<close> holds \<open>_event_lock\<close> around the callback of the target.
\<close>

datatype batch_input =
    Submitted nat
  | Emitted nat orchestrator_event
  | Finished nat "exc + scan_outcome"
  | Announced

definition target_event :: "batch_plan \<Rightarrow> nat \<Rightarrow> orchestrator_event \<Rightarrow> batch_state \<Rightarrow> batch_state" where
  "target_event plan i e st =
     (let progress = (case oe_progress e of
            None \<Rightarrow> bs_progress st
          | Some p \<Rightarrow> (bs_progress st)[i := max (bs_progress st ! i) (min 100 p)]);
          progress = (if oe_kind e = Complete then progress[i := 100] else progress);
          st = st\<lparr>bs_progress := progress\<rparr>;
          kind = (if oe_kind e = Complete then Target_complete else oe_kind e)
      in emit kind (map_option (\<lambda>_. global_progress plan st) (oe_progress e)) (Some i) st)"

definition target_done ::
  "batch_plan \<Rightarrow> nat \<Rightarrow> exc + scan_outcome \<Rightarrow> batch_state \<Rightarrow> exc + batch_state" where
  "target_done plan i result st =
     (case result of
        Inr outcome \<Rightarrow> Inr (st\<lparr>bs_outcomes := (bs_outcomes st)(i := Some outcome)\<rparr>)
      | Inl e \<Rightarrow>
          if e = ScanCancelledError \<or> \<not> is_exception_class e then Inl e
          else
            let target = bp_targets plan ! i;
                failure = \<lparr>sf_target = rt_target target, sf_resolved_host = Some (rt_address target),
                           sf_phase = ''scan'', sf_error = e\<rparr>;
                st = st\<lparr>bs_failures := (bs_failures st)(i := Some failure),
                        bs_progress := (bs_progress st)[i := 100]\<rparr>
            in Inr (st\<lparr>bs_announcing := Some (global_progress plan st, i)\<rparr>))"

definition announce :: "batch_state \<Rightarrow> batch_state" where
  "announce st =
     (case bs_announcing st of
        None \<Rightarrow> st
      | Some (p, i) \<Rightarrow> emit Target_failed (Some p) (Some i) (st\<lparr>bs_announcing := None\<rparr>))"

text \<open>
  After a cancellation the pool is drained: the workers that still run are waited for. The
  coordinator takes up nothing else before it has announced a failure.
\<close>

fun drain :: "batch_plan \<Rightarrow> batch_input list \<Rightarrow> batch_state \<Rightarrow> batch_state" where
  "drain plan [] st = st"
| "drain plan (Emitted i e # inputs) st = drain plan inputs (target_event plan i e st)"
| "drain plan (_ # inputs) st = drain plan inputs st"

fun batch_loop :: "batch_plan \<Rightarrow> batch_input list \<Rightarrow> batch_state \<Rightarrow> exc option \<times> batch_state" where
  "batch_loop plan [] st = (None, announce st)"
| "batch_loop plan (Submitted i # inputs) st =
     batch_loop plan inputs (emit Target_started None (Some i) (announce st))"
| "batch_loop plan (Emitted i e # inputs) st =
     batch_loop plan inputs (target_event plan i e st)"
| "batch_loop plan (Announced # inputs) st = batch_loop plan inputs (announce st)"
| "batch_loop plan (Finished i result # inputs) st =
     (case target_done plan i result (announce st) of
        Inl e \<Rightarrow> (Some e, drain plan inputs (announce st))
      | Inr st' \<Rightarrow> batch_loop plan inputs st')"

record batch_outcome =
  bo_outcomes :: "scan_outcome list"
  bo_failures :: "scan_failure list"
  bo_statistics :: batch_statistics

definition gather :: "batch_plan \<Rightarrow> batch_state \<Rightarrow> batch_outcome" where
  "gather plan st =
     (let n = length (bp_targets plan);
          outcomes = List.map_filter (bs_outcomes st) [0..<n];
          failures = bp_failures plan @ List.map_filter (bs_failures st) [0..<n]
      in \<lparr>bo_outcomes = outcomes, bo_failures = failures,
          bo_statistics = batch_statistics_of outcomes failures (bp_parsed plan) n
            (bp_target_workers plan) (bp_workers_per_target plan)\<rparr>)"

definition run_batch ::
  "batch_plan \<Rightarrow> batch_input list \<Rightarrow> (exc + batch_outcome) \<times> batch_event list" where
  "run_batch plan inputs =
     (if bp_targets plan = []
      then (Inr \<lparr>bo_outcomes = [], bo_failures = bp_failures plan,
                 bo_statistics = batch_statistics_of [] (bp_failures plan) (bp_parsed plan) 0 0 0\<rparr>,
            [\<lparr>be_kind = Batch_complete, be_progress = Some 100, be_index = None\<rparr>])
      else
        case batch_loop plan inputs (batch_start plan) of
          (Some e, st) \<Rightarrow> (Inl e, bs_events st)
        | (None, st) \<Rightarrow>
            (Inr (gather plan st), bs_events (emit Batch_complete (Some 100) None st)))"

definition run_many ::
  "batch_world \<Rightarrow> batch_request \<Rightarrow> batch_input list \<Rightarrow>
     (exc + batch_outcome) \<times> batch_event list" where
  "run_many w bq inputs =
     (case prepare_batch w bq of
        Inl e \<Rightarrow> (Inl e, [])
      | Inr plan \<Rightarrow> run_batch plan inputs)"

section \<open>Preparation\<close>

definition has_family :: "string \<Rightarrow> string \<Rightarrow> bool" where
  "has_family f s \<longleftrightarrow> (\<exists>a. ip_address s = Inr a \<and> f = address_family_value (family_of_ip a))"

lemma free_number_free: "numbered stem extension (free_number stem extension taken k) \<notin> set taken"
  by (induction stem extension taken k rule: free_number.induct) (subst (1) free_number.simps, simp)

lemma free_name_free: "free_name stem extension taken \<notin> set taken"
  using free_number_free by (simp add: free_name_def)

lemma reserve_names_ok:
  assumes "inj in_dir"
  shows "\<exists>names. map sq_output (reserve_names in_dir existing ts ext q n targets reserved) = map in_dir names \<and>
    distinct names \<and> set names \<inter> (set reserved \<union> set existing) = {}"
proof (induction targets arbitrary: reserved)
  case (Cons t targets)
  let ?stem = "''scan_report_'' @ safe_filename_component (rt_target t) @ ''_'' @
    safe_filename_component (rt_address t) @ ''_'' @ ts"
  let ?name = "free_name ?stem ext (reserved @ existing)"
  from Cons.IH [of "?name # reserved"] obtain names where
    "map sq_output (reserve_names in_dir existing ts ext q n targets (?name # reserved)) = map in_dir names"
    "distinct names" "set names \<inter> (set (?name # reserved) \<union> set existing) = {}" by blast
  moreover have "?name \<notin> set reserved \<union> set existing"
    using free_name_free [of ?stem ext "reserved @ existing"] by simp
  ultimately show ?case by (intro exI [of _ "?name # names"]) (auto simp: Let_def)
qed simp

lemma reserve_names_threads:
  "list_all (\<lambda>r. sq_threads r = PInt n) (reserve_names in_dir existing ts ext q n targets reserved)"
  "map sq_host (reserve_names in_dir existing ts ext q n targets reserved) = map rt_target targets"
  by (induction targets arbitrary: reserved) (auto simp: Let_def)

lemma batch_requests_ok:
  assumes "batch_requests in_dir existing ts q targets n = Inr reqs"
  shows "list_all (\<lambda>r. sq_threads r = PInt n) reqs" "map sq_host reqs = map rt_target targets"
    "inj in_dir \<Longrightarrow> 1 < length targets \<Longrightarrow> \<exists>names. map sq_output reqs = map in_dir names \<and>
      distinct names \<and> set names \<inter> set existing = {}"
proof -
  show "list_all (\<lambda>r. sq_threads r = PInt n) reqs" "map sq_host reqs = map rt_target targets"
    using assms reserve_names_threads
    by (auto simp: batch_requests_def run list_all_iff split: if_splits)
  assume "inj in_dir" "1 < length targets"
  then show "\<exists>names. map sq_output reqs = map in_dir names \<and> distinct names \<and> set names \<inter> set existing = {}"
    using assms reserve_names_ok [of in_dir existing ts _ q n targets "[]"]
    by (auto simp: batch_requests_def run split: if_splits)
qed

lemma check_threads_Inr [run]: "check_threads v = Inr n \<longleftrightarrow> v = PInt n \<and> 1 \<le> n \<and> n \<le> 500"
  by (cases v) (auto simp: check_threads_def)

lemma check_target_workers_Inr [run]:
  "check_target_workers v = Inr n \<longleftrightarrow> v = PInt n \<and> 1 \<le> n \<and> n \<le> 32"
  by (cases v) (auto simp: check_target_workers_def)

lemma prepare_batch_facts:
  assumes "prepare_batch w bq = Inr plan" "bp_targets plan \<noteq> []"
  shows "\<exists>tw threads. bq_target_workers bq = PInt tw \<and> 1 \<le> tw \<and> tw \<le> 32 \<and>
    sq_threads (bq_template bq) = PInt threads \<and> 1 \<le> threads \<and> threads \<le> 500 \<and>
    bp_target_workers plan = min (min tw (int (length (bp_targets plan)))) threads \<and>
    bp_workers_per_target plan = max 1 (threads div bp_target_workers plan) \<and>
    batch_requests (bw_in_dir w) (bw_existing w) (bw_timestamp w) (bq_template bq) (bp_targets plan)
      (bp_workers_per_target plan) = Inr (bp_requests plan)"
  using assms unfolding prepare_batch_def Let_def run
  by (auto simp: run split: if_splits prod.splits)

lemma divided_workers:
  fixes t n :: int
  assumes "1 \<le> t" "1 \<le> n" "n \<le> t"
  shows "n * max 1 (t div n) \<le> t"
proof -
  have "1 \<le> t div n" using assms by (simp add: pos_imp_zdiv_pos_iff int_one_le_iff_zero_less)
  moreover have "n * (t div n) \<le> t"
    using mult_div_mod_eq [of n t] pos_mod_sign [of n t] assms(2) by linarith
  ultimately show ?thesis by (simp add: max_def)
qed

text \<open>
  C22. The workers of a batch never exceed what the user allowed: at least one and at most 32
  targets run at once, each gets at least one worker, the budget of all of them stays within
  the requested threads, and every target is scanned with its share.
\<close>

theorem batch_worker_budget:
  assumes "prepare_batch w bq = Inr plan" and "bp_targets plan \<noteq> []"
  shows "1 \<le> bp_target_workers plan \<and> bp_target_workers plan \<le> 32 \<and>
    bp_target_workers plan \<le> int (length (bp_targets plan)) \<and> 1 \<le> bp_workers_per_target plan \<and>
    (\<exists>threads. sq_threads (bq_template bq) = PInt threads \<and>
      bp_target_workers plan * bp_workers_per_target plan \<le> threads \<and> threads \<le> 500) \<and>
    list_all (\<lambda>r. sq_threads r = PInt (bp_workers_per_target plan)) (bp_requests plan) \<and>
    map sq_host (bp_requests plan) = map rt_target (bp_targets plan)"
proof -
  from prepare_batch_facts [OF assms] obtain tw threads where
    tw: "1 \<le> tw" "tw \<le> 32" and threads: "sq_threads (bq_template bq) = PInt threads"
      "1 \<le> threads" "threads \<le> 500" and
    n: "bp_target_workers plan = min (min tw (int (length (bp_targets plan)))) threads"
      "bp_workers_per_target plan = max 1 (threads div bp_target_workers plan)" and
    reqs: "batch_requests (bw_in_dir w) (bw_existing w) (bw_timestamp w) (bq_template bq)
      (bp_targets plan) (bp_workers_per_target plan) = Inr (bp_requests plan)"
    by (elim exE conjE) (rule that)
  have "0 < length (bp_targets plan)" using assms(2) by simp
  then have "1 \<le> bp_target_workers plan" "bp_target_workers plan \<le> threads"
    using tw threads by (auto simp: n(1) Suc_le_eq)
  with divided_workers [OF threads(2)] have "bp_target_workers plan * bp_workers_per_target plan \<le> threads"
    by (simp add: n(2))
  then show ?thesis using batch_requests_ok(1,2) [OF reqs] threads tw \<open>1 \<le> bp_target_workers plan\<close>
    by (auto simp: n Suc_le_eq)
qed

lemma add_resolved_keys:
  assumes "list_all wf_identity ids" "distinct (map rt_address targets)"
    "\<forall>t\<in>set targets. \<forall>f. has_family f (rt_address t) \<longrightarrow> (f, rt_address t) \<in> seen"
    "add_resolved p ids seen targets = (seen', targets')"
  shows "distinct (map rt_address targets') \<and>
    (\<forall>t\<in>set targets'. \<forall>f. has_family f (rt_address t) \<longrightarrow> (f, rt_address t) \<in> seen')"
  using assms
proof (induction ids arbitrary: seen targets)
  case (Cons u ids)
  let ?key = "(address_family_value (ti_family u), ti_address u)"
  have u: "has_family (fst ?key) (ti_address u)" and only: "has_family f (ti_address u) \<Longrightarrow> f = fst ?key" for f
    using Cons.prems(1) by (auto dest!: wf_identityD simp: has_family_def)
  show ?case
  proof (cases "?key \<in> seen")
    case False
    with u Cons.prems(3) have fresh: "ti_address u \<notin> rt_address ` set targets" by fastforce
    show ?thesis
    proof (rule Cons.IH)
      show "add_resolved p ids (insert ?key seen)
        (targets @ [\<lparr>rt_target = pt_value p, rt_address = ti_address u, rt_source = pt_source p\<rparr>]) =
        (seen', targets')"
        using Cons.prems(4) False by (simp add: Let_def)
    qed (use Cons.prems(1-3) fresh only in auto)
  next
    case True
    then show ?thesis using Cons.prems by (intro Cons.IH) (simp_all add: Let_def)
  qed
qed simp

lemma resolve_batch_loop_distinct:
  "resolve_batch_loop names ps seen targets failures = Inr (targets', failures') \<Longrightarrow>
    distinct (map rt_address targets) \<Longrightarrow>
    \<forall>t\<in>set targets. \<forall>f. has_family f (rt_address t) \<longrightarrow> (f, rt_address t) \<in> seen \<Longrightarrow>
    distinct (map rt_address targets')"
proof (induction names ps seen targets failures rule: resolve_batch_loop.induct)
  case (2 names p ps seen targets failures)
  show ?case
  proof (cases "resolve_target names (Inl p)")
    case (Inl e)
    with 2 show ?thesis by (auto split: if_splits)
  next
    case (Inr ids)
    obtain seen1 targets1 where add: "add_resolved p ids seen targets = (seen1, targets1)" by fastforce
    from resolve_target_ok [OF Inr] have "list_all wf_identity ids" by simp
    from add_resolved_keys [OF this "2.prems"(2,3) add] "2.IH"(2) [OF Inr add [symmetric]] "2.prems"(1) Inr add
    show ?thesis by simp
  qed
qed simp

lemma prepare_batch_targets:
  assumes "prepare_batch w bq = Inr plan"
  shows "distinct (map rt_address (bp_targets plan))"
proof -
  have "distinct (map rt_address targets)"
    if "resolve_batch_targets (bw_names w) parsed = Inr (targets, failures)" for parsed targets failures
    using that resolve_batch_loop_distinct [of "bw_names w" parsed "{}" "[]" "[]" targets failures]
    by (simp add: resolve_batch_targets_def)
  then show ?thesis using assms unfolding prepare_batch_def Let_def run
    by (auto simp: run split: if_splits prod.splits)
qed

text \<open>
  C32. In a batch with more than one resolved target no address is scanned twice, no two targets
  write to the same report and no report that exists when the names are reserved is overwritten,
  provided that different names in the report directory are different paths. (A batch with a
  single resolved target keeps the output path of its template, which replaces a file that is
  there.)
\<close>

theorem batch_reports_distinct:
  assumes "prepare_batch w bq = Inr plan" and "1 < length (bp_targets plan)"
    and "inj (bw_in_dir w)"
  shows "distinct (map rt_address (bp_targets plan)) \<and> distinct (map sq_output (bp_requests plan)) \<and>
    set (map sq_output (bp_requests plan)) \<inter> bw_in_dir w ` set (bw_existing w) = {}"
proof -
  have "bp_targets plan \<noteq> []" using assms(2) by auto
  from prepare_batch_facts [OF assms(1) this] have reqs:
    "batch_requests (bw_in_dir w) (bw_existing w) (bw_timestamp w) (bq_template bq)
      (bp_targets plan) (bp_workers_per_target plan) = Inr (bp_requests plan)"
    by (elim exE conjE)
  from batch_requests_ok(3) [OF reqs assms(3,2)] obtain names where
    "map sq_output (bp_requests plan) = map (bw_in_dir w) names" "distinct names"
    "set names \<inter> set (bw_existing w) = {}" by blast
  then show ?thesis using assms(3) prepare_batch_targets [OF assms(1)]
    by (auto simp: distinct_map inj_def inj_on_def)
qed

section \<open>Outcomes of a batch\<close>

text \<open>The futures that were done, with their results, in the order the coordinator saw.\<close>

fun finished :: "batch_input list \<Rightarrow> (nat \<times> (exc + scan_outcome)) list" where
  "finished [] = []"
| "finished (Finished i r # inputs) = (i, r) # finished inputs"
| "finished (_ # inputs) = finished inputs"

definition outcome_of :: "(nat \<times> (exc + scan_outcome)) list \<Rightarrow> nat \<Rightarrow> scan_outcome option" where
  "outcome_of fs i = (case map_of fs i of Some (Inr out) \<Rightarrow> Some out | _ \<Rightarrow> None)"

definition target_failure :: "batch_plan \<Rightarrow> nat \<Rightarrow> exc \<Rightarrow> scan_failure" where
  "target_failure plan i e =
     \<lparr>sf_target = rt_target (bp_targets plan ! i),
      sf_resolved_host = Some (rt_address (bp_targets plan ! i)), sf_phase = ''scan'', sf_error = e\<rparr>"

definition failure_of ::
  "batch_plan \<Rightarrow> (nat \<times> (exc + scan_outcome)) list \<Rightarrow> nat \<Rightarrow> scan_failure option" where
  "failure_of plan fs i =
     (case map_of fs i of
        Some (Inl e) \<Rightarrow> Some (target_failure plan i e)
      | _ \<Rightarrow> None)"

lemma emit_simps [simp]:
  "bs_outcomes (emit k p i st) = bs_outcomes st" "bs_failures (emit k p i st) = bs_failures st"
  "bs_progress (emit k p i st) = bs_progress st"
  "bs_completed_before (emit k p i st) = bs_completed_before st"
  "bs_announcing (emit k p i st) = bs_announcing st"
  "bs_events (emit k p i st) = bs_events st @ [\<lparr>be_kind = k, be_progress = p, be_index = i\<rparr>]"
  by (simp_all add: emit_def)

lemma target_event_simps [simp]:
  "bs_outcomes (target_event plan i e st) = bs_outcomes st"
  "bs_failures (target_event plan i e st) = bs_failures st"
  "bs_completed_before (target_event plan i e st) = bs_completed_before st"
  by (simp_all add: target_event_def Let_def)

lemma announce_simps [simp]:
  "bs_outcomes (announce st) = bs_outcomes st"
  "bs_failures (announce st) = bs_failures st"
  "bs_progress (announce st) = bs_progress st"
  "bs_completed_before (announce st) = bs_completed_before st"
  "bs_announcing (announce st) = None"
  by (simp_all add: announce_def split: option.split prod.split)

lemma target_done_results:
  assumes "target_done plan i r st = Inr st'"
  shows "bs_outcomes st' = (case r of Inr out \<Rightarrow> (bs_outcomes st)(i \<mapsto> out) | Inl e \<Rightarrow> bs_outcomes st)"
    "bs_failures st' = (case r of Inr out \<Rightarrow> bs_failures st
      | Inl e \<Rightarrow> (bs_failures st)(i \<mapsto> target_failure plan i e))"
  using assms by (auto simp: target_done_def target_failure_def Let_def split: sum.splits if_splits)

lemma map_of_done:
  "outcome_of ((i, r) # fs) j = (if j = i then (case r of Inr out \<Rightarrow> Some out | Inl e \<Rightarrow> None)
     else outcome_of fs j)"
  "failure_of plan ((i, r) # fs) j =
     (if j = i then (case r of Inr out \<Rightarrow> None | Inl e \<Rightarrow> Some (target_failure plan i e))
      else failure_of plan fs j)"
  by (auto simp: outcome_of_def failure_of_def split: sum.splits)

lemma outcome_of_undone:
  assumes "i \<notin> fst ` set fs" shows "outcome_of fs i = None" "failure_of plan fs i = None"
proof -
  have "map_of fs i = None" using assms by (simp add: map_of_eq_None_iff)
  then show "outcome_of fs i = None" "failure_of plan fs i = None"
    by (simp_all add: outcome_of_def failure_of_def)
qed

lemma batch_loop_results:
  "batch_loop plan inputs st = (None, st') \<Longrightarrow> distinct (map fst (finished inputs)) \<Longrightarrow>
    (\<forall>i. bs_outcomes st' i =
       (if outcome_of (finished inputs) i = None then bs_outcomes st i
        else outcome_of (finished inputs) i)) \<and>
    (\<forall>i. bs_failures st' i =
       (if failure_of plan (finished inputs) i = None then bs_failures st i
        else failure_of plan (finished inputs) i))"
proof (induction plan inputs st rule: batch_loop.induct)
  case (1 plan st)
  from "1.prems"(1) have "st' = announce st" by simp
  then show ?case by (simp add: outcome_of_undone)
next
  case (5 plan i r inputs st)
  then obtain st1 where st1: "target_done plan i r (announce st) = Inr st1"
    "batch_loop plan inputs st1 = (None, st')"
    by (auto split: sum.splits)
  have "i \<notin> fst ` set (finished inputs)" using "5.prems"(2) by simp
  note undone = outcome_of_undone [OF this]
  note IH = "5.IH" [OF st1]
  from IH "5.prems"(2) target_done_results [OF st1(1)] undone show ?case
    by (cases r) (simp_all add: map_of_done)
qed (simp_all add: outcome_of_undone)

lemma announce_failures_simps [simp]:
  "bs_outcomes (announce_failures plan fs st) = bs_outcomes st"
  "bs_failures (announce_failures plan fs st) = bs_failures st"
  "bs_progress (announce_failures plan fs st) = bs_progress st"
  "bs_completed_before (announce_failures plan fs st) = bs_completed_before st + length fs"
  by (induction fs arbitrary: st) (simp_all add: Let_def)

lemma batch_loop_outcomes:
  assumes "batch_loop plan inputs (batch_start plan) = (None, st)" "distinct (map fst (finished inputs))"
  shows "bs_outcomes st = outcome_of (finished inputs)" "bs_failures st = failure_of plan (finished inputs)"
  using batch_loop_results [OF assms] by (auto simp: fun_eq_iff batch_start_def)

lemma run_batch_gather:
  assumes "run_batch plan inputs = (Inr out, events)" "bp_targets plan \<noteq> []"
    "distinct (map fst (finished inputs))"
  shows "bo_outcomes out = List.map_filter (outcome_of (finished inputs)) [0..<length (bp_targets plan)]"
    "bo_failures out = bp_failures plan @
       List.map_filter (failure_of plan (finished inputs)) [0..<length (bp_targets plan)]"
    "bo_statistics out = batch_statistics_of (bo_outcomes out) (bo_failures out) (bp_parsed plan)
       (length (bp_targets plan)) (bp_target_workers plan) (bp_workers_per_target plan)"
proof -
  obtain st where "batch_loop plan inputs (batch_start plan) = (None, st)" "out = gather plan st"
    using assms(1,2) by (auto simp: run_batch_def split: prod.splits option.splits)
  with batch_loop_outcomes [OF _ assms(3)] show
    "bo_outcomes out = List.map_filter (outcome_of (finished inputs)) [0..<length (bp_targets plan)]"
    "bo_failures out = bp_failures plan @
       List.map_filter (failure_of plan (finished inputs)) [0..<length (bp_targets plan)]"
    "bo_statistics out = batch_statistics_of (bo_outcomes out) (bo_failures out) (bp_parsed plan)
       (length (bp_targets plan)) (bp_target_workers plan) (bp_workers_per_target plan)"
    by (simp_all add: gather_def Let_def)
qed

lemma map_filter_partition:
  "(\<And>x. x \<in> set xs \<Longrightarrow> (f x = None) \<noteq> (g x = None)) \<Longrightarrow>
    length (List.map_filter f xs) + length (List.map_filter g xs) = length xs"
proof (induction xs)
  case (Cons x xs)
  then show ?case by (cases "f x"; cases "g x") (force simp: map_filter_simps)+
qed (simp add: map_filter_simps)

text \<open>
  C15. A batch that returns accounts for every resolved target exactly once: its outcome is
  kept if its run returned, a failure with its name and address otherwise, and the failure of
  one target never loses the outcome of another; completed and failed targets add up, and the
  port counts are the sums over the outcomes.
\<close>

theorem batch_accounts_for_targets:
  assumes "run_batch plan inputs = (Inr out, events)" and "bp_targets plan \<noteq> []"
    and "distinct (map fst (finished inputs))"
    and "set (map fst (finished inputs)) = {..<length (bp_targets plan)}"
  shows "length (bo_outcomes out) + length (bo_failures out) =
      length (bp_targets plan) + length (bp_failures plan) \<and>
    (\<forall>i o'. (i, Inr o') \<in> set (finished inputs) \<longrightarrow> o' \<in> set (bo_outcomes out)) \<and>
    (\<forall>i e. (i, Inl e) \<in> set (finished inputs) \<longrightarrow> target_failure plan i e \<in> set (bo_failures out)) \<and>
    bt_completed (bo_statistics out) = length (bo_outcomes out) \<and>
    bt_failed (bo_statistics out) = length (bo_failures out) \<and>
    bt_open_ports (bo_statistics out) =
      sum_list (map (\<lambda>x. st_open_ports (so_statistics x)) (bo_outcomes out))"
proof -
  note g = run_batch_gather [OF assms(1-3)]
  have mem: "map_of (finished inputs) i = Some r" if "(i, r) \<in> set (finished inputs)" for i r
    using assms(3) that by (rule map_of_is_SomeI)
  have idx: "i \<in> set [0..<length (bp_targets plan)]" if "(i, r) \<in> set (finished inputs)" for i r
  proof -
    from that have "i \<in> set (map fst (finished inputs))" by force
    then show ?thesis unfolding assms(4) by simp
  qed
  have part: "(outcome_of (finished inputs) i = None) \<noteq> (failure_of plan (finished inputs) i = None)"
    if "i \<in> set [0..<length (bp_targets plan)]" for i
  proof -
    from that have "i \<in> set (map fst (finished inputs))" unfolding assms(4) by simp
    then obtain r where "(i, r) \<in> set (finished inputs)" by auto
    from mem [OF this] show ?thesis by (simp add: outcome_of_def failure_of_def split: sum.split)
  qed
  have "length (bo_outcomes out) + length (bo_failures out) =
      length (bp_targets plan) + length (bp_failures plan)"
    using map_filter_partition [of "[0..<length (bp_targets plan)]" "outcome_of (finished inputs)"
        "failure_of plan (finished inputs)"] part by (simp add: g)
  moreover have "o' \<in> set (bo_outcomes out)" if "(i, Inr o') \<in> set (finished inputs)" for i o'
    using mem [OF that] idx [OF that] by (auto simp: g map_filter_def outcome_of_def intro!: image_eqI [of _ _ i])
  moreover have "target_failure plan i e \<in> set (bo_failures out)" if "(i, Inl e) \<in> set (finished inputs)" for i e
    using mem [OF that] idx [OF that] by (auto simp: g map_filter_def failure_of_def intro!: image_eqI [of _ _ i])
  ultimately show ?thesis by (auto simp: g(3) batch_statistics_of_def comp_def)
qed

lemma map_of_same_set:
  assumes "distinct (map fst xs)" "distinct (map fst ys)" "set xs = set ys"
  shows "map_of xs = map_of ys"
proof
  fix k
  have "map_of xs k = Some v \<longleftrightarrow> map_of ys k = Some v" for v
    using assms by (simp add: map_of_eq_Some_iff)
  then show "map_of xs k = map_of ys k" by (metis not_None_eq)
qed

text \<open>
  C21. The consolidated outcome of a batch does not depend on the order in which its targets
  finish nor on how their events interleave.
\<close>

theorem batch_outcome_deterministic:
  assumes "run_batch plan inputs = (Inr out, events)"
    and "run_batch plan inputs' = (Inr out', events')"
    and "distinct (map fst (finished inputs))" and "distinct (map fst (finished inputs'))"
    and "set (finished inputs) = set (finished inputs')"
  shows "out = out'"
proof (cases "bp_targets plan = []")
  case True
  then show ?thesis using assms(1,2) by (auto simp: run_batch_def)
next
  case False
  have "map_of (finished inputs) = map_of (finished inputs')"
    by (rule map_of_same_set [OF assms(3-5)])
  then have "outcome_of (finished inputs) = outcome_of (finished inputs')"
    "failure_of plan (finished inputs) = failure_of plan (finished inputs')"
    by (simp_all add: outcome_of_def failure_of_def fun_eq_iff)
  then show ?thesis
    using run_batch_gather [OF assms(1) False assms(3)] run_batch_gather [OF assms(2) False assms(4)]
    by simp
qed

section \<open>Progress\<close>


definition shown_progress :: "batch_event list \<Rightarrow> rat list" where
  "shown_progress events = List.map_filter be_progress events"


lemma shown_progress_simps [simp]:
  "shown_progress [] = []"
  "shown_progress (events @ [e]) =
    shown_progress events @ (case be_progress e of None \<Rightarrow> [] | Some p \<Rightarrow> [p])"
  by (simp_all add: shown_progress_def map_filter_def split: option.split)






text \<open>
  What is announced stays within 0 and 100. Apart from the failures of targets, which may come
  late, it stays below the current progress and never goes back.
\<close>

definition late_failure :: "batch_event \<Rightarrow> bool" where
  "late_failure e \<longleftrightarrow> be_kind e = Target_failed \<and> be_index e \<noteq> None"

definition in_time :: "batch_event list \<Rightarrow> rat list" where
  "in_time events = shown_progress (filter (\<lambda>e. \<not> late_failure e) events)"

lemma in_time_simps [simp]:
  "in_time [] = []"
  "in_time (events @ [e]) = in_time events @
     (if late_failure e then [] else case be_progress e of None \<Rightarrow> [] | Some p \<Rightarrow> [p])"
  by (simp_all add: in_time_def split: option.split)















text \<open>The progress announced does go back when a worker comes between.\<close>

theorem batch_progress_goes_back:
  assumes "bp_targets plan = [t, u]" "bp_failures plan = []"
  shows "shown_progress (snd (run_batch plan
     [Submitted 0, Submitted 1, Finished 1 (Inl RuntimeError),
      Emitted 0 \<lparr>oe_kind = Progress, oe_progress = Some 50, oe_result = None\<rparr>, Announced,
      Emitted 0 \<lparr>oe_kind = Complete, oe_progress = Some 100, oe_result = None\<rparr>,
      Finished 0 (Inr out)])) = [75, 50, 100, 100]"
  using assms
  by (simp add: run_batch_def batch_start_def target_done_def target_event_def announce_def emit_def
      is_exception_class_def global_progress_def shown_progress_def map_filter_def numeral_2_eq_2)

section \<open>A batch of two targets\<close>

definition two_targets :: batch_request where
  "two_targets =
     \<lparr>bq_template = one_port_request, bq_targets = PList [PStr ''10.0.0.1'', PStr ''10.0.0.2''],
      bq_target_files = [], bq_exclusions = PList [], bq_target_workers = PInt 4,
      bq_max_targets = PInt 8\<rparr>"

definition two_targets_world :: batch_world where
  "two_targets_world =
     \<lparr>bw_files = (\<lambda>p. (p, None)), bw_names = (\<lambda>n. None), bw_rust_available = True,
      bw_go_available = True, bw_in_dir = (\<lambda>n. ''reports/'' @ n),
      bw_existing = [''scan_report_10.0.0.1_10.0.0.1_20260101_000000.txt''],
      bw_timestamp = ''20260101_000000''\<rparr>"

lemma two_targets_prepared:
  "\<exists>plan. prepare_batch two_targets_world two_targets = Inr plan \<and>
     map rt_address (bp_targets plan) = [''10.0.0.1'', ''10.0.0.2''] \<and> bp_failures plan = []"
proof -
  have "(case prepare_batch two_targets_world two_targets of
    Inr plan \<Rightarrow> map rt_address (bp_targets plan) = [''10.0.0.1'', ''10.0.0.2''] \<and> bp_failures plan = []
    | _ \<Rightarrow> False)" by code_simp
  then show ?thesis by (auto split: sum.splits)
qed

lemma batch_worker_budget_witness:
  "\<exists>plan. prepare_batch two_targets_world two_targets = Inr plan \<and>
    bp_target_workers plan * bp_workers_per_target plan \<le> 10"
proof -
  from two_targets_prepared obtain plan where plan: "prepare_batch two_targets_world two_targets = Inr plan"
    "bp_targets plan \<noteq> []" by fastforce
  from batch_worker_budget [OF plan] plan(1) show ?thesis
    by (intro exI [of _ plan]) (auto simp: two_targets_def one_port_request_def)
qed

lemma batch_reports_distinct_witness:
  "\<exists>plan. prepare_batch two_targets_world two_targets = Inr plan \<and>
    distinct (map sq_output (bp_requests plan))"
proof -
  from two_targets_prepared obtain plan where plan: "prepare_batch two_targets_world two_targets = Inr plan"
    "map rt_address (bp_targets plan) = [''10.0.0.1'', ''10.0.0.2'']"
    by (elim exE conjE) (rule that)
  from arg_cong [OF plan(2), of length] have two: "1 < length (bp_targets plan)" by simp
  have "inj (bw_in_dir two_targets_world)" by (simp add: two_targets_world_def inj_def)
  from batch_reports_distinct [OF plan(1) two this] plan(1) show ?thesis by blast
qed

definition two_inputs :: "scan_outcome \<Rightarrow> batch_input list" where
  "two_inputs out = [Submitted 0, Submitted 1, Finished 1 (Inl RuntimeError),
     Emitted 0 (plain_event Status), Finished 0 (Inr out)]"

definition two_inputs_reversed :: "scan_outcome \<Rightarrow> batch_input list" where
  "two_inputs_reversed out = [Submitted 0, Finished 0 (Inr out), Submitted 1, Finished 1 (Inl RuntimeError)]"

lemma two_inputs_run:
  assumes "bp_targets plan \<noteq> []"
  shows "\<exists>o1 ev1. run_batch plan (two_inputs out) = (Inr o1, ev1)"
    "\<exists>o1 ev1. run_batch plan (two_inputs_reversed out) = (Inr o1, ev1)"
  using assms by (simp_all add: run_batch_def two_inputs_def two_inputs_reversed_def target_done_def
      Let_def is_exception_class_def)

lemma batch_accounts_for_targets_witness:
  "\<exists>(plan :: batch_plan) (out :: batch_outcome). bp_targets plan \<noteq> [] \<and> length (bo_outcomes out) + length (bo_failures out) = 2 \<and>
     bt_failed (bo_statistics out) = length (bo_failures out)"
proof -
  from two_targets_prepared obtain plan :: batch_plan where plan: "map rt_address (bp_targets plan) = [''10.0.0.1'', ''10.0.0.2'']"
    "bp_failures plan = []" by (elim exE conjE) (rule that)
  from arg_cong [OF plan(1), of length] have two: "length (bp_targets plan) = 2" by simp
  then have ne: "bp_targets plan \<noteq> []" by auto
  from one_port_outcome obtain out :: scan_outcome where True by blast
  from two_inputs_run(1) [OF ne, of out] obtain o1 ev1 where
    run: "run_batch plan (two_inputs out) = (Inr o1, ev1)" by blast
  have "distinct (map fst (finished (two_inputs out)))"
    "set (map fst (finished (two_inputs out))) = {..<length (bp_targets plan)}"
    by (auto simp: two_inputs_def two)
  from batch_accounts_for_targets [OF run ne this] two plan(2) ne show ?thesis
    by (intro exI [of _ plan] exI [of _ o1]) auto
qed

lemma batch_outcome_deterministic_witness:
  "\<exists>plan out o1 ev1 ev2. run_batch plan (two_inputs out) = (Inr o1, ev1) \<and>
     run_batch plan (two_inputs_reversed out) = (Inr o1, ev2)"
proof -
  from two_targets_prepared obtain plan :: batch_plan where "bp_targets plan \<noteq> []" by fastforce
  note run = two_inputs_run [OF this]
  obtain out :: scan_outcome where True by blast
  from run obtain o1 ev1 o2 ev2 where r: "run_batch plan (two_inputs out) = (Inr o1, ev1)"
    "run_batch plan (two_inputs_reversed out) = (Inr o2, ev2)" by metis
  from batch_outcome_deterministic [OF r] have "o1 = o2"
    by (simp add: two_inputs_def two_inputs_reversed_def insert_commute)
  with r show ?thesis by blast
qed


end
