(* ===== verification/Session_Batch.thy ===== *)
theory Session_Batch
  imports Session_Runner
begin

text \<open>
  \<open>src/session_batch.py\<close>: sessions with many endpoints over the generational store. The workers
  share the store: every change of an endpoint loads the checkpoint, replaces that endpoint and
  confirms the result under one lock, so a run is an interleaving of such changes. The schedule
  says which worker moves next and which finished futures the coordinator collects. Events have
  no subscriber; the branch for a v2 store and an interruption of the coordinator's own thread
  are left out.
\<close>

section \<open>The store of batches\<close>

definition require_batch_plan :: plan_scope where
  "require_batch_plan p =
     (if length (sp_requested_targets p) < 1 \<or> length (sp_resolved_targets p) < 1
      then Inl MultiTargetSessionScopeError
      else if sp_target_workers p < 1 \<or> int (length (sp_resolved_targets p)) < sp_target_workers p
      then Inl MultiTargetSessionScopeError
      else if sp_output p \<noteq> None \<and> length (sp_resolved_targets p) \<noteq> 1
      then Inl MultiTargetSessionScopeError
      else Inr ())"

definition batch_persist ::
    "session_env \<Rightarrow> session_checkpoint \<Rightarrow> (store_state, store_pointer) action" where
  "batch_persist = persist require_batch_plan"

definition batch_load :: "session_env \<Rightarrow> (store_state, session_checkpoint) action" where
  "batch_load = load_checkpoint require_batch_plan"

text \<open>
  The memory of the process: the store, the clock and what is seen of the cancellation event of
  the user, and whether the event is known to be set. An event that is set stays set.
\<close>

record batch_memory =
  bm_runner :: runner_state
  bm_event :: bool

type_synonym 'a batch_action = "(batch_memory, 'a) action"

definition on_runner :: "'a runner_action \<Rightarrow> 'a batch_action" where
  "on_runner m = (\<lambda>\<sigma>. case m (bm_runner \<sigma>) of (r, \<tau>) \<Rightarrow> (r, \<sigma>\<lparr>bm_runner := \<tau>\<rparr>))"

definition is_set :: "bool batch_action" where
  "is_set = (\<lambda>\<sigma>.
     if bm_event \<sigma> then (Inr True, \<sigma>)
     else case rn_cancel (bm_runner \<sigma>) of
            [] \<Rightarrow> (Inr False, \<sigma>)
          | c # cs \<Rightarrow>
              (Inr c, \<sigma>\<lparr>bm_runner := (bm_runner \<sigma>)\<lparr>rn_cancel := cs\<rparr>, bm_event := c\<rparr>))"

definition raise_if_set :: "unit batch_action" where
  "raise_if_set =
     thenS is_set (\<lambda>c. if c then pureS (Inl ScanCancelledError) else pureS (Inr ()))"

definition load_latest :: "runner_env \<Rightarrow> session_checkpoint batch_action" where
  "load_latest re = on_runner (on_store (batch_load (re_session re)))"

definition confirm :: "runner_env \<Rightarrow> session_checkpoint \<Rightarrow> session_checkpoint batch_action" where
  "confirm re s =
     thenS (on_runner (on_store (batch_persist (re_session re) s))) (\<lambda>_. pureS (Inr s))"

definition read_clock :: "runner_env \<Rightarrow> string batch_action" where
  "read_clock re = on_runner (clock re)"

section \<open>Building the next checkpoint\<close>

definition batch_checkpoint ::
    "session_env \<Rightarrow> pyval \<Rightarrow> scan_plan \<Rightarrow> session_status \<Rightarrow> endpoint_progress list \<Rightarrow> string \<Rightarrow> string
     \<Rightarrow> int \<Rightarrow> string option \<Rightarrow> exc + session_checkpoint" where
  "batch_checkpoint env sid plan status endpoints created updated sequence last_error =
     session_checkpoint_init env sid (Inl plan) (PStr (session_status_value status))
       (Inl endpoints) (PStr created) (PStr updated) (PInt sequence) (str_or_none last_error)
       (PInt 1)"

definition advance_session ::
    "runner_env \<Rightarrow> session_checkpoint \<Rightarrow> session_status \<Rightarrow> endpoint_progress list \<Rightarrow> string option
     \<Rightarrow> session_checkpoint batch_action" where
  "advance_session re s status endpoints last_error =
     thenS (read_clock re) (\<lambda>now.
     thenS (pureS (batch_checkpoint (re_session re) (PStr (sk_session_id s)) (sk_plan s) status
       endpoints (sk_created_at s) now (sk_sequence s + 1) last_error)) (confirm re))"

definition replace_global ::
    "runner_env \<Rightarrow> session_checkpoint \<Rightarrow> session_status \<Rightarrow> string option
     \<Rightarrow> session_checkpoint batch_action" where
  "replace_global re s status last_error = advance_session re s status (sk_endpoints s) last_error"

definition create_batch ::
    "runner_env \<Rightarrow> scan_plan \<Rightarrow> string \<Rightarrow> session_checkpoint batch_action" where
  "create_batch re plan identifier =
     thenS (pureS (require_batch_plan plan)) (\<lambda>_.
     thenS (\<lambda>\<sigma>. (if has_checkpoint (rn_store (bm_runner \<sigma>)) then Inl SessionPersistenceError
                 else Inr (), \<sigma>)) (\<lambda>_.
     thenS (read_clock re) (\<lambda>now.
     thenS (pureS (map_err (\<lambda>t. make_progress (re_session re) t [] (sp_ports plan) [] None)
       (sp_resolved_targets plan))) (\<lambda>es.
     thenS (pureS (batch_checkpoint (re_session re) (PStr identifier) plan SS_CREATED es now now 0
       None)) (confirm re)))))"

definition batch_to_running ::
    "runner_env \<Rightarrow> session_checkpoint \<Rightarrow> session_checkpoint batch_action" where
  "batch_to_running re s =
     thenS (pureS (map_err (\<lambda>e. make_progress (re_session re) (ep_identity e)
       (ep_completed_results e) (ep_pending_ports e) (ep_completed_banner_ports e) None)
       (sk_endpoints s))) (\<lambda>es.
       advance_session re s SS_RUNNING es None)"

section \<open>Changing one endpoint\<close>

definition same_endpoint :: "target_identity \<Rightarrow> endpoint_progress \<Rightarrow> bool" where
  "same_endpoint t e \<longleftrightarrow> endpoint_key (ep_identity e) = endpoint_key t"

definition get_endpoint :: "session_checkpoint \<Rightarrow> target_identity \<Rightarrow> exc + endpoint_progress" where
  "get_endpoint s t =
     (case find (same_endpoint t) (sk_endpoints s) of
        None \<Rightarrow> Inl SessionExecutionError
      | Some e \<Rightarrow> Inr e)"

definition change_endpoint ::
    "target_identity \<Rightarrow> (endpoint_progress \<Rightarrow> exc + endpoint_progress) \<Rightarrow> endpoint_progress list
     \<Rightarrow> exc + endpoint_progress list" where
  "change_endpoint t mutation es =
     bindE (map_err (\<lambda>e. if same_endpoint t e then mutation e else Inr e) es) (\<lambda>es'.
       if list_ex (same_endpoint t) es then Inr es' else Inl SessionExecutionError)"

definition mutate_endpoint ::
    "runner_env \<Rightarrow> target_identity \<Rightarrow> (endpoint_progress \<Rightarrow> exc + endpoint_progress)
     \<Rightarrow> session_checkpoint batch_action" where
  "mutate_endpoint re t mutation =
     thenS (load_latest re) (\<lambda>latest.
     thenS (pureS (change_endpoint t mutation (sk_endpoints latest))) (\<lambda>es.
       advance_session re latest SS_RUNNING es None))"

definition add_result ::
    "session_env \<Rightarrow> int list \<Rightarrow> scan_result \<Rightarrow> endpoint_progress \<Rightarrow> exc + endpoint_progress" where
  "add_result env seen r e =
     (if sr_port r \<notin> set (ep_pending_ports e) then Inl SessionExecutionError
      else if sr_port r \<in> set seen then Inl SessionExecutionError
      else make_progress env (ep_identity e) (ep_completed_results e @ [r])
             [p \<leftarrow> ep_pending_ports e. p \<noteq> sr_port r] (ep_completed_banner_ports e) None)"

definition add_banner ::
    "session_env \<Rightarrow> int \<Rightarrow> native_banner_result \<Rightarrow> endpoint_progress \<Rightarrow> exc + endpoint_progress" where
  "add_banner env port b e =
     make_progress env (ep_identity e) (map (set_banner port (banner_value b)) (ep_completed_results e))
       (ep_pending_ports e) (ep_completed_banner_ports e @ [port]) None"

definition add_error :: "session_env \<Rightarrow> string \<Rightarrow> endpoint_progress \<Rightarrow> exc + endpoint_progress" where
  "add_error env reason e =
     make_progress env (ep_identity e) (ep_completed_results e) (ep_pending_ports e)
       (ep_completed_banner_ports e) (Some reason)"

definition mark_endpoint_error ::
    "runner_env \<Rightarrow> target_identity \<Rightarrow> string \<Rightarrow> session_checkpoint batch_action" where
  "mark_endpoint_error re t reason = mutate_endpoint re t (add_error (re_session re) reason)"

section \<open>Workers\<close>

text \<open>
  Where a worker stands: not begun, receiving results until its scan ends, about to verify, with
  ports left for banners, done with the exception of its future.
\<close>

datatype worker_phase =
    Fresh
  | Scanning "raw_result list" "exc option" "int list"
  | Verifying
  | Grabbing "int list" int
  | Done "exc option"

definition is_done :: "worker_phase \<Rightarrow> bool" where
  "is_done ph = (case ph of Done _ \<Rightarrow> True | _ \<Rightarrow> False)"

definition begin_scan_of :: "executor \<Rightarrow> int \<Rightarrow> target_identity \<Rightarrow> scan_plan \<Rightarrow> endpoint_progress \<Rightarrow> worker_phase" where
  "begin_scan_of ex workers t plan e =
     (let pending = ep_pending_ports e
      in if pending = [] then Verifying
         else case ex_scan ex t pending (sp_timeout_ms plan) (min workers (int (length pending))) of
                (raws, ending) \<Rightarrow> Scanning raws ending (ep_completed_ports e))"

definition start_endpoint ::
    "runner_env \<Rightarrow> executor \<Rightarrow> int \<Rightarrow> target_identity \<Rightarrow> worker_phase batch_action" where
  "start_endpoint re ex workers t =
     thenS raise_if_set (\<lambda>_.
     thenS (load_latest re) (\<lambda>_.
     thenS (load_latest re) (\<lambda>s.
     thenS (pureS (get_endpoint s t)) (\<lambda>e.
       pureS (Inr (begin_scan_of ex workers t (sk_plan s) e))))))"

definition record_port ::
    "runner_env \<Rightarrow> target_identity \<Rightarrow> raw_result \<Rightarrow> int list \<Rightarrow> int list batch_action" where
  "record_port re t raw seen =
     thenS raise_if_set (\<lambda>_.
     thenS (pureS (canonical_result (re_session re) raw t)) (\<lambda>r.
     thenS (mutate_endpoint re t (add_result (re_session re) seen r)) (\<lambda>_.
       pureS (Inr (sr_port r # seen)))))"

definition verify_endpoint :: "runner_env \<Rightarrow> target_identity \<Rightarrow> worker_phase batch_action" where
  "verify_endpoint re t =
     thenS (load_latest re) (\<lambda>s.
     thenS (pureS (get_endpoint s t)) (\<lambda>e.
       if ep_pending_ports e \<noteq> [] then pureS (Inl SessionExecutionError)
       else pureS (Inr (Grabbing
              (if sp_banner_grab (sk_plan s) then pending_banner_ports e else [])
              (sp_timeout_ms (sk_plan s))))))"

definition grab_endpoint_banner ::
    "runner_env \<Rightarrow> executor \<Rightarrow> target_identity \<Rightarrow> int \<Rightarrow> int \<Rightarrow> session_checkpoint batch_action" where
  "grab_endpoint_banner re ex t timeout port =
     thenS raise_if_set (\<lambda>_.
     thenS (pureS (ex_banner ex t port timeout)) (\<lambda>raw.
     thenS (pureS (native_banner_result_from_dict (PDict raw))) (\<lambda>b.
       if nres_target b \<noteq> ti_address t \<or> nres_port b \<noteq> port
       then pureS (Inl SessionExecutionError)
       else mutate_endpoint re t (add_banner (re_session re) port b))))"

fun execute_endpoint ::
    "runner_env \<Rightarrow> executor \<Rightarrow> int \<Rightarrow> target_identity \<Rightarrow> worker_phase \<Rightarrow> worker_phase batch_action" where
  "execute_endpoint re ex workers t Fresh = start_endpoint re ex workers t"
| "execute_endpoint re ex workers t (Scanning (raw # raws) ending seen) =
     thenS (record_port re t raw seen) (\<lambda>seen'. pureS (Inr (Scanning raws ending seen')))"
| "execute_endpoint re ex workers t (Scanning [] ending seen) =
     thenS (pureS (ended ending)) (\<lambda>_. pureS (Inr Verifying))"
| "execute_endpoint re ex workers t Verifying = verify_endpoint re t"
| "execute_endpoint re ex workers t (Grabbing (p # ps) timeout) =
     thenS (grab_endpoint_banner re ex t timeout p) (\<lambda>_. pureS (Inr (Grabbing ps timeout)))"
| "execute_endpoint re ex workers t (Grabbing [] timeout) =
     thenS (load_latest re) (\<lambda>_. pureS (Inr (Done None)))"
| "execute_endpoint re ex workers t (Done x) = pureS (Inr (Done x))"

text \<open>An exception of a worker ends its future; the end of the process ends everything.\<close>

definition worker_step ::
    "runner_env \<Rightarrow> executor \<Rightarrow> int \<Rightarrow> target_identity \<Rightarrow> worker_phase \<Rightarrow> worker_phase batch_action" where
  "worker_step re ex workers t ph = (\<lambda>\<sigma>.
     case execute_endpoint re ex workers t ph \<sigma> of
       (Inl e, \<tau>) \<Rightarrow> (if e = Killed then Inl Killed else Inr (Done (Some e)), \<tau>)
     | (Inr ph', \<tau>) \<Rightarrow> (Inr ph', \<tau>))"

section \<open>The coordinator\<close>

text \<open>
  \<open>At_head\<close> is the head of the loop, \<open>In_wait\<close> the call of \<open>wait\<close>, \<open>Collecting\<close> the futures that
  were done and are not handled yet, \<open>Leaving\<close> the shutdown of the pool with the exception that
  is on its way.
\<close>

datatype control = At_head | In_wait | Collecting "nat list" | Leaving "exc option"

record batch_job =
  bj_identities :: "target_identity list"
  bj_executor :: "target_identity \<Rightarrow> executor"
  bj_slots :: nat
  bj_workers :: int

record batch_run =
  bu_memory :: batch_memory
  bu_queue :: "nat list"
  bu_active :: "nat list"
  bu_phase :: "nat \<Rightarrow> worker_phase"
  bu_cancelled :: bool
  bu_control :: control

datatype batch_move = Worker nat | Coordinator "nat list"

fun submit ::
    "nat \<Rightarrow> nat list \<Rightarrow> nat list \<Rightarrow> batch_memory \<Rightarrow> nat list \<times> nat list \<times> batch_memory" where
  "submit slots [] active \<sigma> = ([], active, \<sigma>)"
| "submit slots (i # queue) active \<sigma> =
     (if length active < slots
      then (case is_set \<sigma> of
              (Inr False, \<tau>) \<Rightarrow> submit slots queue (active @ [i]) \<tau>
            | (_, \<tau>) \<Rightarrow> (i # queue, active, \<tau>))
      else (i # queue, active, \<sigma>))"

definition loop_head :: "batch_job \<Rightarrow> batch_run \<Rightarrow> batch_run" where
  "loop_head job u =
     (if bu_queue u = [] \<and> bu_active u = [] then u\<lparr>bu_control := Leaving None\<rparr>
      else case raise_if_set (bu_memory u) of
             (Inl _, \<sigma>) \<Rightarrow> u\<lparr>bu_memory := \<sigma>, bu_cancelled := True, bu_control := Leaving None\<rparr>
           | (Inr _, \<sigma>) \<Rightarrow>
               (case submit (bj_slots job) (bu_queue u) (bu_active u) \<sigma> of
                  (queue, active, \<tau>) \<Rightarrow>
                    u\<lparr>bu_memory := \<tau>, bu_queue := queue, bu_active := active,
                      bu_control := if active = [] then Leaving None else In_wait\<rparr>))"

definition cancel_pool :: "batch_run \<Rightarrow> batch_run" where
  "cancel_pool u = u\<lparr>bu_cancelled := True, bu_memory := (bu_memory u)\<lparr>bm_event := True\<rparr>\<rparr>"

definition collect ::
    "runner_env \<Rightarrow> batch_job \<Rightarrow> nat \<Rightarrow> nat list \<Rightarrow> batch_run \<Rightarrow> exc option \<times> batch_run" where
  "collect re job i rest u =
     (let u = u\<lparr>bu_active := remove1 i (bu_active u), bu_control := Collecting rest\<rparr>
      in case bu_phase u i of
           Done (Some e) \<Rightarrow>
             if e = ScanCancelledError then (None, cancel_pool u)
             else (case mark_endpoint_error re (bj_identities job ! i) (normalize_error re e)
                          (bu_memory u) of
                     (Inr _, \<sigma>) \<Rightarrow> (None, u\<lparr>bu_memory := \<sigma>\<rparr>)
                   | (Inl x, \<sigma>) \<Rightarrow>
                       let u = u\<lparr>bu_memory := \<sigma>\<rparr>
                       in if x = Killed then (Some Killed, u)
                          else if x = ScanCancelledError
                          then (None, (cancel_pool u)\<lparr>bu_control := Leaving None\<rparr>)
                          else (None, u\<lparr>bu_control := Leaving (Some x)\<rparr>))
         | _ \<Rightarrow> (None, u))"

definition collectable :: "batch_run \<Rightarrow> nat list \<Rightarrow> bool" where
  "collectable u done \<longleftrightarrow>
     done \<noteq> [] \<and> distinct done \<and>
     list_all (\<lambda>i. i \<in> set (bu_active u) \<and> is_done (bu_phase u i)) done"

definition coordinator_step ::
    "runner_env \<Rightarrow> batch_job \<Rightarrow> nat list \<Rightarrow> batch_run \<Rightarrow> exc option \<times> batch_run" where
  "coordinator_step re job done u =
     (case bu_control u of
        At_head \<Rightarrow> (None, loop_head job u)
      | In_wait \<Rightarrow>
          (None, if collectable u done then u\<lparr>bu_control := Collecting done\<rparr> else u)
      | Collecting [] \<Rightarrow>
          (None, u\<lparr>bu_control := if bu_cancelled u then Leaving None else At_head\<rparr>)
      | Collecting (i # rest) \<Rightarrow> collect re job i rest u
      | Leaving x \<Rightarrow> (None, u))"

definition run_worker ::
    "runner_env \<Rightarrow> batch_job \<Rightarrow> nat \<Rightarrow> batch_run \<Rightarrow> exc option \<times> batch_run" where
  "run_worker re job i u =
     (if i \<in> set (bu_active u)
      then let t = bj_identities job ! i
           in case worker_step re (bj_executor job t) (bj_workers job) t (bu_phase u i)
                     (bu_memory u) of
                (Inl e, \<sigma>) \<Rightarrow> (Some e, u\<lparr>bu_memory := \<sigma>\<rparr>)
              | (Inr ph, \<sigma>) \<Rightarrow>
                  (None, u\<lparr>bu_memory := \<sigma>, bu_phase := (bu_phase u)(i := ph)\<rparr>)
      else (None, u))"

fun coordinate ::
    "runner_env \<Rightarrow> batch_job \<Rightarrow> batch_move list \<Rightarrow> batch_run \<Rightarrow> exc option \<times> batch_run" where
  "coordinate re job [] u = (None, u)"
| "coordinate re job (mv # moves) u =
     (case (case mv of Worker i \<Rightarrow> run_worker re job i u
            | Coordinator done \<Rightarrow> coordinator_step re job done u) of
        (Some e, u') \<Rightarrow> (Some e, u')
      | (None, u') \<Rightarrow> coordinate re job moves u')"

text \<open>The pool is shut down: futures that have not begun are dropped when the event is set.\<close>

definition settled :: "batch_run \<Rightarrow> bool" where
  "settled u \<longleftrightarrow>
     (case bu_control u of
        Leaving _ \<Rightarrow>
          list_all (\<lambda>i. is_done (bu_phase u i) \<or> (bm_event (bu_memory u) \<and> bu_phase u i = Fresh))
            (bu_active u)
      | _ \<Rightarrow> False)"

section \<open>Ending a session\<close>

definition endpoint_needs_work :: "scan_plan \<Rightarrow> endpoint_progress \<Rightarrow> bool" where
  "endpoint_needs_work p e \<longleftrightarrow>
     ep_pending_ports e \<noteq> [] \<or> ep_error e \<noteq> None \<or>
     (sp_banner_grab p \<and> set (ep_completed_banner_ports e) \<noteq> set (ep_open_ports e))"

definition endpoint_errors :: "session_checkpoint \<Rightarrow> string list" where
  "endpoint_errors s = List.map_filter ep_error (sk_endpoints s)"

definition pending_message :: "target_identity \<Rightarrow> string" where
  "pending_message t =
     ''La ejecuci'' @ [CHR 0xF3] @ ''n termin'' @ [CHR 0xF3] @ '' con trabajo pendiente para '' @
     ti_requested t @ '' ('' @ ti_address t @ '').''"

definition normalize_message :: "string \<Rightarrow> string \<Rightarrow> string" where
  "normalize_message message cls =
     (let s = strip message; text = (if s = [] then cls else s)
      in take 2048 (filter (\<lambda>c. c \<noteq> CHR 0x00) text))"

fun mark_unfinished :: "runner_env \<Rightarrow> target_identity list \<Rightarrow> unit batch_action" where
  "mark_unfinished re [] = pureS (Inr ())"
| "mark_unfinished re (t # ts) =
     thenS (mark_endpoint_error re t (normalize_message (pending_message t) ''str'')) (\<lambda>_. mark_unfinished re ts)"

definition fail_session ::
    "runner_env \<Rightarrow> session_checkpoint \<Rightarrow> session_checkpoint batch_action" where
  "fail_session re s =
     replace_global re s SS_FAILED (Some (take 2048 (join_with ''; '' (endpoint_errors s))))"

definition finalize_batch :: "runner_env \<Rightarrow> session_checkpoint batch_action" where
  "finalize_batch re =
     thenS (load_latest re) (\<lambda>s.
       if endpoint_errors s \<noteq> [] then fail_session re s
       else
         thenS (mark_unfinished re (map ep_identity
           (filter (endpoint_needs_work (sk_plan s)) (sk_endpoints s)))) (\<lambda>_.
         thenS (load_latest re) (\<lambda>s'.
           if endpoint_errors s' \<noteq> [] then fail_session re s'
           else replace_global re s' SS_COMPLETED None)))"

definition cancel_session :: "runner_env \<Rightarrow> string \<Rightarrow> session_checkpoint \<Rightarrow> 'a batch_action" where
  "cancel_session re reason s =
     thenS (replace_global re s SS_CANCELLED (Some reason)) (\<lambda>_. pureS (Inl ScanCancelledError))"

section \<open>Resuming\<close>

definition check_batch_expected ::
    "session_env \<Rightarrow> session_checkpoint \<Rightarrow> scan_plan option \<Rightarrow> exc + unit" where
  "check_batch_expected env s expected =
     bindE (require_batch_plan (sk_plan s)) (\<lambda>_.
       case expected of
         None \<Rightarrow> Inr ()
       | Some p \<Rightarrow>
           bindE (require_batch_plan p) (\<lambda>_.
             if fingerprint env (sk_plan s) \<noteq> fingerprint env p
             then Inl SessionCheckpointCompatibilityError else Inr ()))"

definition batch_job_of ::
    "(target_identity \<Rightarrow> executor) \<Rightarrow> scan_plan \<Rightarrow> target_identity list \<Rightarrow> batch_job" where
  "batch_job_of factory p ts =
     (let slots = min (min (sp_target_workers p) (int (length ts))) (sp_threads p)
      in \<lparr>bj_identities = ts, bj_executor = factory, bj_slots = nat slots,
          bj_workers = max 1 (sp_threads p div slots)\<rparr>)"

definition batch_run_start :: "batch_job \<Rightarrow> batch_memory \<Rightarrow> batch_run" where
  "batch_run_start job \<sigma> =
     \<lparr>bu_memory = \<sigma>, bu_queue = [0..<length (bj_identities job)], bu_active = [],
      bu_phase = (\<lambda>_. Fresh), bu_cancelled = False, bu_control = At_head\<rparr>"

text \<open>
  What follows the pool. The value is \<open>None\<close> while the schedule has not brought the run to its
  end.
\<close>

definition after_pool ::
    "runner_env \<Rightarrow> batch_run \<Rightarrow> session_checkpoint option batch_action" where
  "after_pool re u =
     (if \<not> settled u then pureS (Inr None)
      else case bu_control u of
             Leaving (Some e) \<Rightarrow> pureS (Inl e)
           | _ \<Rightarrow>
               thenS (if bu_cancelled u then pureS (Inr True) else is_set) (\<lambda>c.
                 if c then thenS (load_latest re) (cancel_session re ''cancelled_by_user'')
                 else thenS (finalize_batch re) (\<lambda>s. pureS (Inr (Some s)))))"

definition run_endpoints ::
    "runner_env \<Rightarrow> (target_identity \<Rightarrow> executor) \<Rightarrow> batch_move list \<Rightarrow> session_checkpoint
     \<Rightarrow> session_checkpoint option batch_action" where
  "run_endpoints re factory moves s =
     (let ts = map ep_identity (filter (endpoint_needs_work (sk_plan s)) (sk_endpoints s));
          job = batch_job_of factory (sk_plan s) ts
      in if ts = [] then thenS (finalize_batch re) (\<lambda>t. pureS (Inr (Some t)))
         else (\<lambda>\<sigma>. case coordinate re job moves (batch_run_start job \<sigma>) of
                 (Some e, u) \<Rightarrow> (Inl e, bu_memory u)
               | (None, u) \<Rightarrow> after_pool re u (bu_memory u)))"

definition resume_batch ::
    "runner_env \<Rightarrow> (target_identity \<Rightarrow> executor) \<Rightarrow> scan_plan option \<Rightarrow> batch_move list
     \<Rightarrow> session_checkpoint option batch_action" where
  "resume_batch re factory expected moves =
     thenS (load_latest re) (\<lambda>s.
     thenS (pureS (check_batch_expected (re_session re) s expected)) (\<lambda>_.
       if sk_status s = SS_COMPLETED then pureS (Inr (Some s))
       else
         thenS (\<lambda>\<sigma>. is_set (\<sigma>\<lparr>bm_event := False\<rparr>)) (\<lambda>c.
           if c then cancel_session re ''cancelled_before_execution'' s
           else
             thenS (batch_to_running re s) (run_endpoints re factory moves))))"

definition run_batch_session ::
    "runner_env \<Rightarrow> (target_identity \<Rightarrow> executor) \<Rightarrow> scan_plan \<Rightarrow> string \<Rightarrow> batch_move list
     \<Rightarrow> session_checkpoint option batch_action" where
  "run_batch_session re factory plan identifier moves =
     thenS (create_batch re plan identifier) (\<lambda>_. resume_batch re factory (Some plan) moves)"

section \<open>Confirmed checkpoints of a batch\<close>

definition batch_extends :: "session_checkpoint \<Rightarrow> session_checkpoint \<Rightarrow> bool" where
  "batch_extends s s' \<longleftrightarrow>
     sk_session_id s' = sk_session_id s \<and> sk_plan s' = sk_plan s \<and>
     sk_created_at s' = sk_created_at s \<and> sk_sequence s \<le> sk_sequence s' \<and>
     list_all2 progress_extends (sk_endpoints s) (sk_endpoints s')"

lemma batch_extends_refl [simp]: "batch_extends s s"
  by (simp add: batch_extends_def list_all2_same)

lemma batch_extends_trans: "batch_extends s t \<Longrightarrow> batch_extends t u \<Longrightarrow> batch_extends s u"
  unfolding batch_extends_def using list_all2_trans [of progress_extends progress_extends progress_extends]
    progress_extends_trans by (metis (no_types, lifting) order_trans)

text \<open>The store holds a checkpoint, with a property.\<close>

definition holding ::
    "runner_env \<Rightarrow> (session_checkpoint \<Rightarrow> bool) \<Rightarrow> session_checkpoint \<Rightarrow> batch_memory \<Rightarrow> bool" where
  "holding re I s \<sigma> \<longleftrightarrow>
     confirmed require_batch_plan (re_session re) (st_dir (rn_store (bm_runner \<sigma>))) s \<and> I s"

definition holds_some :: "runner_env \<Rightarrow> (session_checkpoint \<Rightarrow> bool) \<Rightarrow> batch_memory \<Rightarrow> bool" where
  "holds_some re I \<sigma> \<longleftrightarrow> (\<exists>s. holding re I s \<sigma>)"

definition next_version :: "runner_env \<Rightarrow> session_checkpoint \<Rightarrow> session_checkpoint \<Rightarrow> bool" where
  "next_version re s s' \<longleftrightarrow>
     good_checkpoint require_batch_plan (re_session re) s \<and>
     good_checkpoint require_batch_plan (re_session re) s' \<and>
     sk_session_id s' = sk_session_id s \<and> sk_plan s' = sk_plan s \<and>
     sk_created_at s' = sk_created_at s \<and> sk_sequence s' = sk_sequence s + 1"

lemma holds_someI: "holding re I s \<sigma> \<Longrightarrow> holds_some re I \<sigma>"
  by (auto simp: holds_some_def)

lemma holds_some_mono: "holds_some re I \<sigma> \<Longrightarrow> (\<And>s. I s \<Longrightarrow> K s) \<Longrightarrow> holds_some re K \<sigma>"
  by (auto simp: holds_some_def holding_def)

lemma accepted_good:
  assumes "env_ok env" "confirmed scope env d s"
  shows "good_checkpoint scope env s"
proof -
  from assms(2) obtain p cb mb where c: "check_generation scope env p cb mb = Inr s"
    by (auto simp: confirmed_def)
  then obtain m where "decode_documents env cb mb = Inr (s, m)" and r: "scope (sk_plan s) = Inr ()"
    by (auto simp: check_generation_def run integrity_def)
  then obtain v where "session_checkpoint_from_dict env v = Inr s"
    by (auto simp: decode_documents_def run checkpoint_from_json_def)
  with assms(1) r show ?thesis
    by (auto simp: good_checkpoint_def env_ok_def intro: checkpoint_accepted_wf)
qed

lemma holding_good:
  "env_ok (re_session re) \<Longrightarrow> holding re I s \<sigma> \<Longrightarrow> good_checkpoint require_batch_plan (re_session re) s"
  by (auto simp: holding_def intro: accepted_good)

lemma batch_checkpoint_Inr:
  assumes "batch_checkpoint env (PStr (sk_session_id s)) (sk_plan s) st es (sk_created_at s) now n err = Inr s'"
    "good_checkpoint require_batch_plan env s" "list_all wf_progress es"
  shows "good_checkpoint require_batch_plan env s' \<and> sk_session_id s' = sk_session_id s \<and>
    sk_plan s' = sk_plan s \<and> sk_created_at s' = sk_created_at s \<and> sk_sequence s' = n \<and>
    sk_status s' = st \<and> sk_endpoints s' = es"
proof -
  have g: "wf_plan (sk_plan s)" "canonical_uuid (sk_session_id s)"
    "wf_timestamp env (sk_created_at s)" "iso_ok env" "env_ok env"
    "require_batch_plan (sk_plan s) = Inr ()"
    using assms(2) by (simp_all add: good_checkpoint_def wf_checkpoint_def env_ok_def)
  have w: "wf_checkpoint env s'"
    using session_checkpoint_init_ok [OF g(4) assms(1) [unfolded batch_checkpoint_def]] g(1) assms(3)
    by (simp add: list_all_iff)
  have "sk_session_id s' = sk_session_id s \<and> sk_plan s' = sk_plan s \<and>
      sk_created_at s' = sk_created_at s \<and> sk_sequence s' = n \<and> sk_status s' = st \<and>
      sk_endpoints s' = es"
    using assms(1) g(2,3) unfolding batch_checkpoint_def session_checkpoint_init_def
    by (simp only: bindE_Inr check_that_Inr)
      (auto simp: coerce_plan_def coerce_endpoints_def wf_timestamp_def require_int_Inr)
  with w g show ?thesis by (simp add: good_checkpoint_def)
qed

section \<open>Triples of the shared store\<close>

lemma on_runner_run: "on_runner m \<sigma> = (r, \<sigma>') \<longleftrightarrow>
    (\<exists>\<tau>. m (bm_runner \<sigma>) = (r, \<tau>) \<and> \<sigma>' = \<sigma>\<lparr>bm_runner := \<tau>\<rparr>)"
  by (auto simp: on_runner_def split: prod.splits)

lemma on_store_run: "on_store m \<sigma> = (r, \<sigma>') \<longleftrightarrow>
    (\<exists>\<tau>. m (rn_store \<sigma>) = (r, \<tau>) \<and> \<sigma>' = \<sigma>\<lparr>rn_store := \<tau>\<rparr>)"
  by (auto simp: on_store_def split: prod.splits)

lemma batch_triple_load:
  "triple (holds_some re I) (load_latest re) (holding re I) (holds_some re I)"
proof (rule tripleI)
  fix \<sigma> r \<sigma>'
  assume "holds_some re I \<sigma>" "load_latest re \<sigma> = (r, \<sigma>')"
  then obtain s \<tau> where s: "holding re I s \<sigma>"
    and l: "load_checkpoint require_batch_plan (re_session re) (rn_store (bm_runner \<sigma>)) = (r, \<tau>)"
      "rn_store (bm_runner \<sigma>') = \<tau>"
    by (auto simp: holds_some_def load_latest_def batch_load_def on_runner_run on_store_run)
  from load_checkpoint_run [OF l(1)] have d: "st_dir \<tau> = st_dir (rn_store (bm_runner \<sigma>))"
    "\<And>t. r = Inr t \<Longrightarrow> confirmed require_batch_plan (re_session re) (st_dir (rn_store (bm_runner \<sigma>))) t"
    by auto
  show "case r of Inl e \<Rightarrow> holds_some re I \<sigma>' | Inr t \<Rightarrow> holding re I t \<sigma>'"
  proof (cases r)
    case (Inl e)
    with s d l show ?thesis by (auto simp: holds_some_def holding_def)
  next
    case (Inr t)
    with d(2) s have "t = s" by (auto simp: holding_def intro: confirmed_unique)
    with Inr s d l show ?thesis by (simp add: holding_def)
  qed
qed

lemma batch_triple_is_set [triple_rules]: "triple (holding re I s) is_set (\<lambda>_. holding re I s) E"
  by (auto simp: triple_def is_set_def holding_def split: list.splits)

lemma batch_triple_set [triple_rules]:
  "triple (holds_some re I) raise_if_set (\<lambda>_. holds_some re I) (holds_some re I)"
  by (auto simp: triple_def raise_if_set_def is_set_def holding_def holds_some_def thenS_run pureS_def
      split: list.splits if_splits)

lemma batch_triple_clock: "triple (holding re I s) (read_clock re) (\<lambda>_. holding re I s) E"
  by (auto simp: triple_def read_clock_def clock_def holding_def on_runner_run)

lemma batch_triple_confirm:
  assumes "next_version re s s'" "I s \<Longrightarrow> J s' \<and> K s \<and> K s'"
  shows "triple (holding re I s) (confirm re s') (\<lambda>t \<sigma>. t = s' \<and> holding re J s' \<sigma>) (holds_some re K)"
proof (rule tripleI)
  fix \<sigma> r \<sigma>'
  assume \<sigma>: "holding re I s \<sigma>" and run: "confirm re s' \<sigma> = (r, \<sigma>')"
  obtain q \<tau> where p: "persist require_batch_plan (re_session re) s' (rn_store (bm_runner \<sigma>)) = (q, \<tau>)"
    by (meson surj_pair)
  from run p have r: "rn_store (bm_runner \<sigma>') = \<tau>" "r = bindE q (\<lambda>_. Inr s')"
    by (auto simp: confirm_def thenS_run batch_persist_def on_runner_run on_store_run)
  have g: "good_checkpoint require_batch_plan (re_session re) s'" using assms(1) by (simp add: next_version_def)
  from \<sigma> have h: "confirmed require_batch_plan (re_session re) (st_dir (rn_store (bm_runner \<sigma>))) s" "I s"
    by (simp_all add: holding_def)
  from v1.put_atomic [OF g p h(1)] v1.put_holds [OF TrueI g] p assms(2) [OF h(2)]
  show "case r of Inl e \<Rightarrow> holds_some re K \<sigma>' | Inr t \<Rightarrow> t = s' \<and> holding re J s' \<sigma>'"
    by (cases q) (auto simp: r holds_some_def holding_def)
qed

lemma batch_triple_advance:
  assumes "env_ok (re_session re)" "list_all wf_progress es"
    and "\<And>s'. next_version re s s' \<Longrightarrow> sk_endpoints s' = es \<Longrightarrow> sk_status s' = st \<Longrightarrow> I s \<Longrightarrow> J s' \<and> K s'"
    and "I s \<Longrightarrow> K s"
  shows "triple (holding re I s) (advance_session re s st es err) (holding re J) (holds_some re K)"
  unfolding advance_session_def
proof (rule triple_then [OF batch_triple_clock])
  fix now
  let ?mk = "batch_checkpoint (re_session re) (PStr (sk_session_id s)) (sk_plan s) st es
    (sk_created_at s) now (sk_sequence s + 1) err"
  show "triple (holding re I s) (thenS (pureS ?mk) (confirm re)) (holding re J) (holds_some re K)"
  proof (rule triple_then)
    show "triple (holding re I s) (pureS ?mk) (\<lambda>s' \<sigma>. holding re I s \<sigma> \<and> next_version re s s' \<and>
        sk_endpoints s' = es \<and> sk_status s' = st) (holds_some re K)"
    proof (rule triple_pure)
      fix \<sigma> s' assume h: "holding re I s \<sigma>" "?mk = Inr s'"
      from batch_checkpoint_Inr [OF h(2) holding_good [OF assms(1) h(1)] assms(2)] h
        holding_good [OF assms(1) h(1)]
      show "holding re I s \<sigma> \<and> next_version re s s' \<and> sk_endpoints s' = es \<and> sk_status s' = st"
        by (simp add: next_version_def)
    next
      show "holds_some re K \<sigma>" if "holding re I s \<sigma>" for \<sigma>
        using that assms(4) by (auto simp: holds_some_def holding_def)
    qed
    show "triple (\<lambda>\<sigma>. holding re I s \<sigma> \<and> next_version re s s' \<and> sk_endpoints s' = es \<and> sk_status s' = st)
        (confirm re s') (holding re J) (holds_some re K)" for s'
    proof (rule triple_assume [where A = "next_version re s s' \<and> sk_endpoints s' = es \<and> sk_status s' = st"])
      assume a: "next_version re s s' \<and> sk_endpoints s' = es \<and> sk_status s' = st"
      with assms(3,4) have "I s \<Longrightarrow> J s' \<and> K s \<and> K s'" by blast
      from batch_triple_confirm [where I = I and J = J and K = K, OF a [THEN conjunct1] this]
      show "triple (\<lambda>\<sigma>. holding re I s \<sigma> \<and> next_version re s s' \<and> sk_endpoints s' = es \<and> sk_status s' = st)
        (confirm re s') (holding re J) (holds_some re K)"
        by (rule triple_weaken) auto
    qed simp
  qed
qed

section \<open>Changes of one endpoint\<close>

text \<open>A change of one endpoint leaves the others alone.\<close>

definition changes_only ::
    "target_identity \<Rightarrow> (endpoint_progress \<Rightarrow> exc + endpoint_progress) \<Rightarrow> endpoint_progress list
     \<Rightarrow> endpoint_progress list \<Rightarrow> bool" where
  "changes_only t mutation =
     list_all2 (\<lambda>e e'. if same_endpoint t e then mutation e = Inr e' else e' = e)"

lemma change_endpoint_Inr:
  "change_endpoint t mutation es = Inr es' \<Longrightarrow> changes_only t mutation es es'"
  unfolding change_endpoint_def changes_only_def
  by (auto simp: run dest!: map_err_list_all2 split: if_splits elim!: list_all2_mono)

definition sound_mutation :: "(endpoint_progress \<Rightarrow> exc + endpoint_progress) \<Rightarrow> bool" where
  "sound_mutation mutation \<longleftrightarrow>
     (\<forall>e e'. wf_progress e \<longrightarrow> mutation e = Inr e' \<longrightarrow> wf_progress e' \<and> progress_extends e e')"

lemma changes_only_extends:
  assumes "changes_only t mutation es es'" "sound_mutation mutation" "list_all wf_progress es"
  shows "list_all wf_progress es' \<and> list_all2 progress_extends es es'"
  using assms unfolding changes_only_def
  by (induction rule: list_all2_induct) (auto simp: sound_mutation_def split: if_splits)

lemma batch_triple_mutate:
  assumes "env_ok (re_session re)" "sound_mutation mutation" "\<And>s. I s \<Longrightarrow> K s"
    and "\<And>s s'. next_version re s s' \<Longrightarrow> changes_only t mutation (sk_endpoints s) (sk_endpoints s') \<Longrightarrow>
      batch_extends s s' \<Longrightarrow> I s \<Longrightarrow> J s' \<and> K s'"
  shows "triple (holds_some re I) (mutate_endpoint re t mutation) (holding re J) (holds_some re K)"
proof -
  have load: "triple (holds_some re I) (load_latest re) (holding re I) (holds_some re K)"
    by (rule triple_weaken [OF batch_triple_load [of re I]]) (auto intro: holds_some_mono assms(3))
  show ?thesis
    unfolding mutate_endpoint_def
  proof (rule triple_then [OF load], rule triple_then)
    fix s :: session_checkpoint
    let ?c = "change_endpoint t mutation (sk_endpoints s)"
    show "triple (holding re I s) (pureS ?c) (\<lambda>es \<sigma>. holding re I s \<sigma> \<and> ?c = Inr es) (holds_some re K)"
      by (rule triple_pure) (auto simp: holds_some_def holding_def intro: assms(3))
    show "triple (\<lambda>\<sigma>. holding re I s \<sigma> \<and> ?c = Inr es) (advance_session re s SS_RUNNING es None)
        (holding re J) (holds_some re K)" for es
    proof (rule triple_assume [where A = "?c = Inr es \<and> good_checkpoint require_batch_plan (re_session re) s"])
      show "?c = Inr es \<and> good_checkpoint require_batch_plan (re_session re) s"
        if "holding re I s \<sigma> \<and> ?c = Inr es" for \<sigma>
        using that holding_good [OF assms(1)] by blast
    next
      assume "?c = Inr es \<and> good_checkpoint require_batch_plan (re_session re) s"
      then have c: "?c = Inr es" and "list_all wf_progress (sk_endpoints s)"
        by (auto simp: good_checkpoint_def wf_checkpoint_def)
      note ch = changes_only_extends [OF change_endpoint_Inr [OF c] assms(2) this(2)]
      have "triple (holding re I s) (advance_session re s SS_RUNNING es None) (holding re J) (holds_some re K)"
      proof (rule batch_triple_advance [OF assms(1)])
        fix s' assume n: "next_version re s s'" "sk_endpoints s' = es" "I s"
        have "batch_extends s s'" using n(1,2) ch by (simp add: batch_extends_def next_version_def)
        with assms(4) n change_endpoint_Inr [OF c] show "J s' \<and> K s'" by simp
      qed (use ch assms(3) in auto)
      then show "triple (\<lambda>\<sigma>. holding re I s \<sigma> \<and> ?c = Inr es)
          (advance_session re s SS_RUNNING es None) (holding re J) (holds_some re K)"
        by (rule triple_weaken) auto
    qed
  qed
qed

section \<open>The mutations of the code\<close>

lemma make_progress_error:
  "make_progress env t rs pend bp err = Inr e' \<Longrightarrow> err = None \<longleftrightarrow> ep_error e' = None"
  unfolding make_progress_def endpoint_progress_init_def Let_def
  by (simp only: bindE_Inr check_that_Inr) (auto simp: require_optional_string_def run split: option.splits if_splits)

lemma sound_add_result: "sound_mutation (add_result env seen r)"
  unfolding sound_mutation_def
proof (intro allI impI)
  fix e e' assume "wf_progress e" "add_result env seen r e = Inr e'"
  then show "wf_progress e' \<and> progress_extends e e'"
    by (intro make_progress_keeps) (auto simp: add_result_def split: if_splits)
qed

lemma sound_add_error: "sound_mutation (add_error env reason)"
  unfolding sound_mutation_def
proof (intro allI impI)
  fix e e' assume "wf_progress e" "add_error env reason e = Inr e'"
  then show "wf_progress e' \<and> progress_extends e e'"
    by (intro make_progress_keeps) (auto simp: add_error_def)
qed

lemma open_results_sort: "set (open_results (sort_key f rs)) = set (open_results rs)"
  by (simp add: open_results_def)

lemma add_banner_Inr:
  assumes "add_banner env port b e = Inr e'" "wf_progress e"
  shows "wf_progress e' \<and> progress_extends e e' \<and> ep_error e' = None \<and>
    set (ep_pending_ports e') = set (ep_pending_ports e) \<and>
    set (ep_completed_banner_ports e') = insert port (set (ep_completed_banner_ports e)) \<and>
    set (ep_open_ports e') = set (ep_open_ports e)"
proof -
  let ?rs = "map (set_banner port (banner_value b)) (ep_completed_results e)"
  have m: "make_progress env (ep_identity e) ?rs (ep_pending_ports e)
      (ep_completed_banner_ports e @ [port]) None = Inr e'"
    using assms(1) by (simp add: add_banner_def)
  have w: "wf_session_identity (ep_identity e)" using assms(2) by (simp add: wf_progress_def)
  note mk = make_progress_Inr [OF m w]
  from mk(5) obtain qs where qs:
    "map_err (\<lambda>r. canonicalize_port_result env (scan_result_to_dict r) (ep_identity e)) ?rs = Inr qs"
    "ep_completed_results e' = sort_key session_result_key qs" by blast
  have "list_all2 (\<lambda>r q. q = set_banner port (banner_value b) r) (ep_completed_results e) qs"
    using map_err_list_all2 [OF qs(1)] assms(2) canonicalize_banner [OF w _ set_banner_kept]
    by (auto simp: list_all2_map1 list_all2_conv_all_nth wf_progress_def list_all_iff)
  then have "qs = ?rs" by (simp add: list_all2_conv_all_nth list_eq_iff_nth_eq)
  then have "set (ep_open_ports e') = set (ep_open_ports e)"
    using arg_cong [OF open_ports_set_banner, of set]
    by (simp add: ep_open_ports_def qs(2) open_results_sort)
  moreover have "progress_extends e e'"
    using set_banner_carried [OF make_progress_new_banner [OF m w]]
    by (intro make_progress_extends [OF m assms(2)]) auto
  ultimately show ?thesis using mk make_progress_error [OF m] by auto
qed

lemma sound_add_banner: "sound_mutation (add_banner env port b)"
  unfolding sound_mutation_def using add_banner_Inr by blast

section \<open>What is known of each endpoint\<close>

text \<open>
  \<open>Q i\<close> holds of the endpoint of the i-th identity of the job, and the endpoints that are not in
  the job are complete.
\<close>

definition endpoints_ok ::
    "target_identity list \<Rightarrow> session_checkpoint \<Rightarrow> (nat \<Rightarrow> scan_plan \<Rightarrow> endpoint_progress \<Rightarrow> bool)
     \<Rightarrow> session_checkpoint \<Rightarrow> bool" where
  "endpoints_ok ts s0 Q s \<longleftrightarrow>
     batch_extends s0 s \<and>
     (\<forall>i < length ts. \<forall>e \<in> set (sk_endpoints s). same_endpoint (ts ! i) e \<longrightarrow> Q i (sk_plan s) e) \<and>
     (\<forall>e \<in> set (sk_endpoints s). (\<forall>t \<in> set ts. \<not> same_endpoint t e) \<longrightarrow> completed_rule (sk_plan s) e)"

abbreviation any_progress :: "scan_plan \<Rightarrow> endpoint_progress \<Rightarrow> bool" where
  "any_progress \<equiv> \<lambda>_ _. True"

lemma endpoints_ok_mono:
  "endpoints_ok ts s0 Q s \<Longrightarrow> (\<And>i p e. i < length ts \<Longrightarrow> Q i p e \<Longrightarrow> Q' i p e) \<Longrightarrow> endpoints_ok ts s0 Q' s"
  by (auto simp: endpoints_ok_def)

lemma endpoints_ok_at:
  assumes "endpoints_ok ts s0 (Q(i := F)) s"
    "\<And>e. e \<in> set (sk_endpoints s) \<Longrightarrow> F (sk_plan s) e \<Longrightarrow> G (sk_plan s) e"
  shows "endpoints_ok ts s0 (Q(i := G)) s"
  unfolding endpoints_ok_def
proof (intro conjI allI ballI impI)
  fix j e assume "j < length ts" "e \<in> set (sk_endpoints s)" "same_endpoint (ts ! j) e"
  with assms show "(Q(i := G)) j (sk_plan s) e" by (cases "j = i") (auto simp: endpoints_ok_def)
qed (use assms(1) in \<open>auto simp: endpoints_ok_def\<close>)

lemma changes_only_mem:
  assumes "changes_only t mutation es es'" "e' \<in> set es'"
  shows "\<exists>e \<in> set es. if same_endpoint t e then mutation e = Inr e' else e' = e"
proof -
  from assms(2) obtain k where "k < length es'" "es' ! k = e'" by (auto simp: in_set_conv_nth)
  with assms(1) show ?thesis by (intro bexI [of _ "es ! k"]) (auto simp: changes_only_def list_all2_conv_all_nth)
qed

lemma same_endpoint_extends: "progress_extends e e' \<Longrightarrow> same_endpoint t e' \<longleftrightarrow> same_endpoint t e"
  by (simp add: progress_extends_def same_endpoint_def)

lemma triple_mutate_ok:
  assumes "env_ok (re_session re)" "sound_mutation mutation" "i < length ts"
    "distinct (map endpoint_key ts)"
    and Q': "\<And>p e e'. wf_progress e \<Longrightarrow> Q i p e \<Longrightarrow> mutation e = Inr e' \<Longrightarrow> Q' p e'"
  shows "triple (holds_some re (endpoints_ok ts s0 Q)) (mutate_endpoint re (ts ! i) mutation)
    (holding re (endpoints_ok ts s0 (Q(i := Q')))) (holds_some re (endpoints_ok ts s0 (Q(i := any_progress))))"
proof (rule batch_triple_mutate [OF assms(1,2)])
  show "endpoints_ok ts s0 (Q(i := any_progress)) s" if "endpoints_ok ts s0 Q s" for s
    using that by (rule endpoints_ok_mono) auto
next
  fix s s' assume n: "next_version re s s'" and x: "batch_extends s s'" and ok: "endpoints_ok ts s0 Q s"
    and c: "changes_only (ts ! i) mutation (sk_endpoints s) (sk_endpoints s')"
  have w: "wf_progress e" if "e \<in> set (sk_endpoints s)" for e
    using n that by (auto simp: next_version_def good_checkpoint_def wf_checkpoint_def list_all_iff)
  have p: "sk_plan s' = sk_plan s" using n by (simp add: next_version_def)
  have x': "batch_extends s0 s'" using ok x batch_extends_trans by (auto simp: endpoints_ok_def)
  have other: "\<not> same_endpoint (ts ! i) e" if "same_endpoint (ts ! j) e" "j \<noteq> i" "j < length ts" for j e
    using that assms(3,4) by (auto simp: same_endpoint_def distinct_conv_nth)
  have old: "\<exists>e \<in> set (sk_endpoints s). wf_progress e \<and> progress_extends e e' \<and>
      (if same_endpoint (ts ! i) e then mutation e = Inr e' else e' = e)" if "e' \<in> set (sk_endpoints s')" for e'
    using changes_only_mem [OF c that] w assms(2) by (fastforce simp: sound_mutation_def split: if_splits)
  have "endpoints_ok ts s0 (Q(i := Q')) s'"
    unfolding endpoints_ok_def
  proof (intro conjI allI ballI impI)
    fix j e' assume j: "j < length ts" "e' \<in> set (sk_endpoints s')" "same_endpoint (ts ! j) e'"
    from old [OF j(2)] obtain e where e: "e \<in> set (sk_endpoints s)" "wf_progress e" "progress_extends e e'"
      "if same_endpoint (ts ! i) e then mutation e = Inr e' else e' = e" by blast
    have "same_endpoint (ts ! j) e" using j(3) same_endpoint_extends [OF e(3)] by simp
    moreover have "Q j (sk_plan s) e" using ok j(1) e(1) calculation by (simp add: endpoints_ok_def)
    ultimately show "(Q(i := Q')) j (sk_plan s') e'"
      using e other [of j e] j(1) Q' by (cases "j = i") (auto simp: p)
  next
    fix e' assume e': "e' \<in> set (sk_endpoints s')" "\<forall>t \<in> set ts. \<not> same_endpoint t e'"
    from old [OF e'(1)] obtain e where e: "e \<in> set (sk_endpoints s)" "progress_extends e e'"
      "if same_endpoint (ts ! i) e then mutation e = Inr e' else e' = e" by blast
    have "\<forall>t \<in> set ts. \<not> same_endpoint t e" using e'(2) same_endpoint_extends [OF e(2)] by blast
    with e ok assms(3) show "completed_rule (sk_plan s') e'" by (auto simp: endpoints_ok_def p)
  qed (rule x')
  moreover from this have "endpoints_ok ts s0 (Q(i := any_progress)) s'"
    by (rule endpoints_ok_mono) (auto split: if_splits)
  ultimately show "endpoints_ok ts s0 (Q(i := Q')) s' \<and> endpoints_ok ts s0 (Q(i := any_progress)) s'" ..
qed

end
