(* ===== verification/Session_Pool.thy ===== *)
theory Session_Pool
  imports Session_Batch
begin

text \<open>
  The pool of workers of \<open>src/session_batch.py\<close>. What is known of every endpoint while its worker
  stands at a phase is kept by each move of a worker and of the coordinator, hence by every
  interleaving of them; the end of the pool and of the session follow from it.
\<close>

section \<open>Workers\<close>

definition phase_fact :: "worker_phase \<Rightarrow> scan_plan \<Rightarrow> endpoint_progress \<Rightarrow> bool" where
  "phase_fact ph p e \<longleftrightarrow>
     (case ph of
        Done (Some _) \<Rightarrow> True
      | Done None \<Rightarrow> completed_rule p e
      | Grabbing ps _ \<Rightarrow> ep_error e = None \<and> ep_pending_ports e = [] \<and>
          (sp_banner_grab p \<longrightarrow> set (ep_open_ports e) \<subseteq> set (ep_completed_banner_ports e) \<union> set ps)
      | _ \<Rightarrow> ep_error e = None)"

lemma phase_fact_simps [simp]:
  "phase_fact (Done (Some x)) p e"
  "phase_fact (Done None) p e \<longleftrightarrow> completed_rule p e"
  "phase_fact (Grabbing ps n) p e \<longleftrightarrow> ep_error e = None \<and> ep_pending_ports e = [] \<and>
     (sp_banner_grab p \<longrightarrow> set (ep_open_ports e) \<subseteq> set (ep_completed_banner_ports e) \<union> set ps)"
  "phase_fact Fresh p e \<longleftrightarrow> ep_error e = None" "phase_fact Verifying p e \<longleftrightarrow> ep_error e = None"
  "phase_fact (Scanning raws ending seen) p e \<longleftrightarrow> ep_error e = None"
  by (simp_all add: phase_fact_def)

text \<open>Readings of one endpoint.\<close>

lemma triple_read_ok:
  assumes "env_ok (re_session re)" "i < length ts"
    and f: "\<And>s e ph. good_checkpoint require_batch_plan (re_session re) s \<Longrightarrow> wf_progress e \<Longrightarrow>
      Q i (sk_plan s) e \<Longrightarrow> f s e = Inr ph \<Longrightarrow> phase_fact ph (sk_plan s) e"
  shows "triple (holds_some re (endpoints_ok ts s0 Q))
    (thenS (load_latest re) (\<lambda>s. thenS (pureS (get_endpoint s (ts ! i))) (\<lambda>e. pureS (f s e))))
    (\<lambda>ph. holds_some re (endpoints_ok ts s0 (Q(i := phase_fact ph))))
    (holds_some re (endpoints_ok ts s0 (Q(i := any_progress))))"
proof (rule triple_then)
  let ?E = "holds_some re (endpoints_ok ts s0 (Q(i := any_progress)))"
  have weak0: "endpoints_ok ts s0 Q s \<Longrightarrow> endpoints_ok ts s0 (Q(i := any_progress)) s" for s
    by (erule endpoints_ok_mono) auto
  have weak: "?E \<sigma>" if "holding re (endpoints_ok ts s0 Q) s \<sigma>" for s \<sigma>
    by (rule holds_some_mono [OF holds_someI [OF that]]) (rule weak0)
  show "triple (holds_some re (endpoints_ok ts s0 Q)) (load_latest re) (holding re (endpoints_ok ts s0 Q)) ?E"
    by (rule triple_weaken [OF batch_triple_load [of re "endpoints_ok ts s0 Q"]])
      (auto elim: holds_some_mono weak0)
  fix s :: session_checkpoint
  show "triple (holding re (endpoints_ok ts s0 Q) s)
      (thenS (pureS (get_endpoint s (ts ! i))) (\<lambda>e. pureS (f s e)))
      (\<lambda>ph. holds_some re (endpoints_ok ts s0 (Q(i := phase_fact ph)))) ?E"
  proof (rule triple_then)
    show "triple (holding re (endpoints_ok ts s0 Q) s) (pureS (get_endpoint s (ts ! i)))
      (\<lambda>e \<sigma>. holding re (endpoints_ok ts s0 Q) s \<sigma> \<and> get_endpoint s (ts ! i) = Inr e) ?E"
      by (rule triple_pure) (auto intro: weak)
    show "triple (\<lambda>\<sigma>. holding re (endpoints_ok ts s0 Q) s \<sigma> \<and> get_endpoint s (ts ! i) = Inr e) (pureS (f s e))
      (\<lambda>ph. holds_some re (endpoints_ok ts s0 (Q(i := phase_fact ph)))) ?E" for e
    proof (rule triple_pure)
      fix \<sigma> ph assume h: "holding re (endpoints_ok ts s0 Q) s \<sigma> \<and> get_endpoint s (ts ! i) = Inr e" "f s e = Inr ph"
      then have g: "good_checkpoint require_batch_plan (re_session re) s"
        using holding_good [OF assms(1)] by blast
      then have w: "wf_checkpoint (re_session re) s" by (simp add: good_checkpoint_def)
      from h have e: "e \<in> set (sk_endpoints s)" "same_endpoint (ts ! i) e"
        by (auto simp: get_endpoint_def find_Some_iff split: option.splits)
      have ok: "endpoints_ok ts s0 Q s" using h by (simp add: holding_def)
      have only: "e' = e" if "e' \<in> set (sk_endpoints s)" "same_endpoint (ts ! i) e'" for e'
        using checkpoint_endpoints_distinct [OF w] that e
        by (simp add: same_endpoint_def distinct_map inj_on_def)
      have "phase_fact ph (sk_plan s) e"
        using f [OF g _ _ h(2)] ok e w assms(2)
        by (auto simp: endpoints_ok_def wf_checkpoint_def list_all_iff)
      then have "endpoints_ok ts s0 (Q(i := phase_fact ph)) s"
        using ok only by (auto simp: endpoints_ok_def)
      with h show "holds_some re (endpoints_ok ts s0 (Q(i := phase_fact ph))) \<sigma>"
        by (auto simp: holds_some_def holding_def)
    qed (auto intro: weak)
  qed
qed

lemma triple_keep_ok [triple_rules]:
  assumes "\<And>s. I s \<Longrightarrow> K s"
  shows "triple (holds_some re I) (pureS v) (\<lambda>_. holds_some re I) (holds_some re K)"
  by (rule triple_pure) (auto elim: holds_some_mono assms)

lemma triple_set_ok:
  assumes "\<And>s. I s \<Longrightarrow> K s"
  shows "triple (holds_some re I) raise_if_set (\<lambda>_. holds_some re I) (holds_some re K)"
  by (rule triple_weaken [OF batch_triple_set [of re I]]) (auto elim: holds_some_mono assms)

lemma triple_load_ok:
  assumes "\<And>s. I s \<Longrightarrow> K s"
  shows "triple (holds_some re I) (load_latest re) (\<lambda>_. holds_some re I) (holds_some re K)"
  by (rule triple_weaken [OF batch_triple_load [of re I]]) (auto elim: holds_some_mono assms holds_someI)

lemma thenS_pure_fun: "thenS (pureS (Inr x)) f = f x" "thenS (pureS (Inl e)) f = pureS (Inl e)"
  by (simp_all add: thenS_def pureS_def)

lemma triple_execute:
  assumes "env_ok (re_session re)" "i < length ts" "distinct (map endpoint_key ts)"
  shows "triple (holds_some re (endpoints_ok ts s0 (Q(i := phase_fact ph))))
    (execute_endpoint re ex workers (ts ! i) ph)
    (\<lambda>ph'. holds_some re (endpoints_ok ts s0 (Q(i := phase_fact ph'))))
    (holds_some re (endpoints_ok ts s0 (Q(i := any_progress))))"
    (is "triple ?P _ ?R ?E")
proof -
  have weak: "endpoints_ok ts s0 (Q(i := phase_fact ph)) s \<Longrightarrow> endpoints_ok ts s0 (Q(i := any_progress)) s" for s
    by (erule endpoints_ok_mono) auto
  have keep: "triple ?P (pureS v) (\<lambda>_. ?P) ?E" for v :: "exc + 'b"
    by (rule triple_keep_ok) (rule weak)
  have set_ok: "triple ?P raise_if_set (\<lambda>_. ?P) ?E" by (rule triple_set_ok) (rule weak)
  have load: "triple ?P (load_latest re) (\<lambda>_. ?P) ?E" by (rule triple_load_ok) (rule weak)
  note mutate = triple_mutate_ok [where Q = "Q(i := phase_fact ph)", OF assms(1) _ assms(2,3), simplified]
    and read = triple_read_ok [where Q = "Q(i := phase_fact ph)", OF assms(1,2), simplified]
  have raise: "triple ?P (pureS (Inl e)) ?R ?E" for e
    by (rule triple_raise) (auto elim: holds_some_mono weak)
  have ret: "triple ?P (pureS (Inr ph')) ?R ?E"
    if "\<And>s. endpoints_ok ts s0 (Q(i := phase_fact ph)) s \<Longrightarrow> endpoints_ok ts s0 (Q(i := phase_fact ph')) s" for ph'
    by (rule triple_pure) (auto elim: holds_some_mono that weak)
  show ?thesis
  proof (cases ph)
    case Fresh
    have "triple ?P (thenS (load_latest re) (\<lambda>s. thenS (pureS (get_endpoint s (ts ! i)))
        (\<lambda>e. pureS (Inr (begin_scan_of ex workers (ts ! i) (sk_plan s) e))))) ?R ?E"
      by (rule read) (auto simp: Fresh begin_scan_of_def Let_def split: if_splits prod.splits)
    then show ?thesis
      unfolding Fresh execute_endpoint.simps start_endpoint_def
      by - (rule triple_then [OF set_ok [unfolded Fresh]], rule triple_then [OF load [unfolded Fresh]],
        simp add: Fresh)
  next
    case (Scanning raws ending seen)
    show ?thesis
    proof (cases raws)
      case Nil
      have "triple ?P (thenS (pureS (ended ending)) (\<lambda>_. pureS (Inr Verifying))) ?R ?E"
        by (intro triple_then [OF keep] ret) (auto simp: Scanning elim: endpoints_ok_mono split: if_splits)
      then show ?thesis by (simp add: Scanning Nil)
    next
      case (Cons raw rest)
      have "triple ?P (thenS (mutate_endpoint re (ts ! i) (add_result (re_session re) seen r))
          (\<lambda>_. pureS (Inr (Scanning rest ending (sr_port r # seen))))) ?R ?E" for r
      proof (rule triple_then)
        show "triple ?P (mutate_endpoint re (ts ! i) (add_result (re_session re) seen r))
            (holding re (endpoints_ok ts s0 (Q(i := \<lambda>p e. ep_error e = None)))) ?E"
        proof (rule mutate [OF sound_add_result])
          fix p e e' assume "wf_progress e" "add_result (re_session re) seen r e = Inr e'"
          then show "ep_error e' = None"
            by (auto simp: add_result_def split: if_splits dest: make_progress_error)
        qed
        show "triple (holding re (endpoints_ok ts s0 (Q(i := \<lambda>p e. ep_error e = None))) s)
            (pureS (Inr (Scanning rest ending (sr_port r # seen)))) ?R ?E" for s
          by (rule triple_pure) (auto elim!: holds_some_mono [OF holds_someI] endpoints_ok_mono split: if_splits)
      qed
      then show ?thesis
        unfolding Scanning Cons execute_endpoint.simps record_port_def thenS_assoc
        by (intro triple_then [OF set_ok [unfolded Scanning Cons]] triple_then [OF keep [unfolded Scanning Cons]])
          (simp add: Scanning Cons thenS_pure_fun)
    qed
  next
    case Verifying
    have "triple ?P (thenS (load_latest re) (\<lambda>s. thenS (pureS (get_endpoint s (ts ! i)))
        (\<lambda>e. pureS (if ep_pending_ports e \<noteq> [] then Inl SessionExecutionError
          else Inr (Grabbing (if sp_banner_grab (sk_plan s) then pending_banner_ports e else [])
            (sp_timeout_ms (sk_plan s))))))) ?R ?E"
      by (rule read) (auto simp: Verifying pending_banner_ports_def split: if_splits)
    then show ?thesis
      by (simp add: Verifying verify_endpoint_def if_distrib [of pureS] cong: if_cong)
  next
    case (Grabbing ps n)
    show ?thesis
    proof (cases ps)
      case Nil
      let ?I = "endpoints_ok ts s0 (Q(i := phase_fact ph))"
      have "triple ?P (thenS (load_latest re) (\<lambda>_. pureS (Inr (Done None)))) ?R ?E"
      proof (rule triple_then)
        show "triple ?P (load_latest re) (holding re ?I) ?E"
          by (rule triple_weaken [OF batch_triple_load [of re ?I]]) (auto elim: holds_some_mono weak)
        show "triple (holding re ?I s) (pureS (Inr (Done None))) ?R ?E" for s
        proof (rule triple_pure)
          fix \<sigma> ph' assume h: "holding re ?I s \<sigma>" "Inr (Done None) = (Inr ph' :: exc + worker_phase)"
          have "list_all wf_progress (sk_endpoints s)"
            using holding_good [OF assms(1) h(1)] by (simp add: good_checkpoint_def wf_checkpoint_def)
          then have banners: "set (ep_completed_banner_ports e) \<subseteq> set (ep_open_ports e)"
            if "e \<in> set (sk_endpoints s)" for e
            using that by (simp add: wf_progress_def list_all_iff)
          have "?I s" using h(1) by (simp add: holding_def)
          then have "endpoints_ok ts s0 (Q(i := phase_fact (Done None))) s"
            by (rule endpoints_ok_at) (use banners in \<open>auto simp: Grabbing Nil completed_rule_def\<close>)
          with h show "?R ph' \<sigma>" by (auto simp: holds_some_def holding_def)
        next
          show "?E \<sigma>" if "holding re ?I s \<sigma>" for \<sigma>
            by (rule holds_some_mono [OF holds_someI [OF that]]) (rule weak)
        qed
      qed
      then show ?thesis by (simp add: Grabbing Nil)
    next
      case (Cons port rest)
      have "triple ?P (thenS (mutate_endpoint re (ts ! i) (add_banner (re_session re) port b))
          (\<lambda>_. pureS (Inr (Grabbing rest n)))) ?R ?E" for b
      proof (rule triple_then)
        show "triple ?P (mutate_endpoint re (ts ! i) (add_banner (re_session re) port b))
            (holding re (endpoints_ok ts s0 (Q(i := phase_fact (Grabbing rest n))))) ?E"
          by (rule mutate [OF sound_add_banner]) (auto simp: Grabbing Cons dest!: add_banner_Inr)
        show "triple (holding re (endpoints_ok ts s0 (Q(i := phase_fact (Grabbing rest n)))) s)
            (pureS (Inr (Grabbing rest n))) ?R ?E" for s
          by (rule triple_pure) (auto elim!: holds_some_mono [OF holds_someI] endpoints_ok_mono split: if_splits)
      qed
      then show ?thesis
        unfolding Grabbing Cons execute_endpoint.simps grab_endpoint_banner_def thenS_assoc
        by (intro triple_then [OF set_ok [unfolded Grabbing Cons]] triple_then [OF keep [unfolded Grabbing Cons]])
          (simp add: Grabbing Cons thenS_pure_fun raise [unfolded Grabbing Cons])
    qed
  next
    case (Done x)
    have "triple ?P (pureS (Inr (Done x))) ?R ?E" by (rule ret) (simp add: Done)
    then show ?thesis by (simp add: Done)
  qed
qed

section \<open>The pool\<close>

definition event_kept :: "'a batch_action \<Rightarrow> bool" where
  "event_kept m \<longleftrightarrow> (\<forall>\<sigma> r \<tau>. m \<sigma> = (r, \<tau>) \<longrightarrow> bm_event \<sigma> \<longrightarrow> bm_event \<tau>)"

named_theorems event_intros \<open>steps that never clear the event\<close>

lemma event_kept_then [event_intros]: "event_kept m \<Longrightarrow> (\<And>x. event_kept (f x)) \<Longrightarrow> event_kept (thenS m f)"
  unfolding event_kept_def thenS_run by blast

lemma event_kept_pure [event_intros]: "event_kept (pureS x)" by (simp add: event_kept_def)

lemma event_kept_runner [event_intros]: "event_kept (on_runner m)"
  by (auto simp: event_kept_def on_runner_run)

lemma event_kept_set [event_intros]: "event_kept is_set" by (auto simp: event_kept_def is_set_def)

lemma event_kept_if [event_intros]: "event_kept m \<Longrightarrow> event_kept n \<Longrightarrow> event_kept (if b then m else n)"
  by simp

lemma event_kept_steps [event_intros]:
  "event_kept raise_if_set" "event_kept (load_latest re)" "event_kept (confirm re s)"
  "event_kept (read_clock re)"
  unfolding raise_if_set_def load_latest_def confirm_def read_clock_def by (intro event_intros)+

lemma event_kept_mutate [event_intros]: "event_kept (mutate_endpoint re t mutation)"
  unfolding mutate_endpoint_def advance_session_def by (intro event_intros)

lemma event_kept_execute: "event_kept (execute_endpoint re ex workers t ph)"
  by (induction re ex workers t ph rule: execute_endpoint.induct)
    (unfold execute_endpoint.simps start_endpoint_def record_port_def verify_endpoint_def
      grab_endpoint_banner_def, (intro event_intros)+)

lemma is_set_run:
  "\<exists>c \<tau>. is_set \<sigma> = (Inr c, \<tau>) \<and> (bm_event \<sigma> \<longrightarrow> bm_event \<tau>) \<and>
    rn_store (bm_runner \<tau>) = rn_store (bm_runner \<sigma>) \<and> (bm_event \<tau> \<longleftrightarrow> c)"
  by (cases "bm_event \<sigma>"; cases "rn_cancel (bm_runner \<sigma>)") (auto simp: is_set_def)

text \<open>What \<open>submit\<close> moves from the queue to the pool.\<close>

lemma submit_keeps:
  "submit slots queue active \<sigma> = (queue', active', \<tau>) \<Longrightarrow>
    set (queue' @ active') = set (queue @ active) \<and>
    (distinct (queue @ active) \<longrightarrow> distinct (queue' @ active')) \<and> set active \<subseteq> set active' \<and>
    set queue' \<subseteq> set queue \<and> (bm_event \<sigma> \<longrightarrow> bm_event \<tau>) \<and>
    rn_store (bm_runner \<tau>) = rn_store (bm_runner \<sigma>) \<and>
    (0 < slots \<and> active' = [] \<longrightarrow> queue' = [] \<or> bm_event \<tau>)"
proof (induction slots queue active \<sigma> rule: submit.induct)
  case (2 slots i queue active \<sigma>)
  from is_set_run [of \<sigma>] obtain c \<upsilon> where s: "is_set \<sigma> = (Inr c, \<upsilon>)"
    and k: "bm_event \<sigma> \<longrightarrow> bm_event \<upsilon>" "rn_store (bm_runner \<upsilon>) = rn_store (bm_runner \<sigma>)" "bm_event \<upsilon> \<longleftrightarrow> c"
    by blast
  show ?case
  proof (cases "length active < slots \<and> \<not> c")
    case True
    with "2.prems" s have "submit slots queue (active @ [i]) \<upsilon> = (queue', active', \<tau>)" by simp
    from "2.IH" [OF _ s [symmetric]] this True k show ?thesis by auto
  next
    case False
    with "2.prems" s k show ?thesis by (auto split: if_splits bool.splits)
  qed
qed simp

text \<open>
  The queue, the pool and the loop fit together: who has left the pool is done, who waits has
  not begun, and the loop is left when nothing remains or the run is cancelled.
\<close>

definition run_shape :: "batch_job \<Rightarrow> batch_run \<Rightarrow> bool" where
  "run_shape job u \<longleftrightarrow>
     distinct (bu_queue u @ bu_active u) \<and>
     set (bu_queue u @ bu_active u) \<subseteq> {..<length (bj_identities job)} \<and>
     (\<forall>i \<in> set (bu_queue u). bu_phase u i = Fresh) \<and>
     (\<forall>i < length (bj_identities job). i \<notin> set (bu_queue u @ bu_active u) \<longrightarrow> is_done (bu_phase u i)) \<and>
     (case bu_control u of
        Collecting rest \<Rightarrow> distinct rest \<and> set rest \<subseteq> set (bu_active u) \<and>
          (\<forall>i \<in> set rest. is_done (bu_phase u i))
      | Leaving None \<Rightarrow> bu_cancelled u \<or> bm_event (bu_memory u) \<or> (bu_queue u = [] \<and> bu_active u = [])
      | _ \<Rightarrow> True)"

definition endpoint_known :: "batch_run \<Rightarrow> nat \<Rightarrow> scan_plan \<Rightarrow> endpoint_progress \<Rightarrow> bool" where
  "endpoint_known u i p e \<longleftrightarrow>
     phase_fact (bu_phase u i) p e \<and>
     (i \<in> set (bu_queue u) \<or> i \<in> set (bu_active u) \<or> bu_phase u i = Done None \<or> ep_error e \<noteq> None \<or>
      bu_cancelled u \<or> (\<exists>x. bu_control u = Leaving (Some x)))"

definition pool_inv :: "runner_env \<Rightarrow> batch_job \<Rightarrow> session_checkpoint \<Rightarrow> batch_run \<Rightarrow> bool" where
  "pool_inv re job s0 u \<longleftrightarrow>
     run_shape job u \<and>
     holds_some re (endpoints_ok (bj_identities job) s0 (endpoint_known u)) (bu_memory u)"

lemma pool_inv_keeps: "pool_inv re job s0 u \<Longrightarrow> holds_some re (batch_extends s0) (bu_memory u)"
  unfolding pool_inv_def by (auto elim!: holds_some_mono simp: endpoints_ok_def)

lemma done_step: "is_done ph \<Longrightarrow> worker_step re ex workers t ph \<sigma> = (r, \<tau>) \<Longrightarrow> r = Inr ph \<and> \<tau> = \<sigma>"
  by (cases ph) (auto simp: is_done_def worker_step_def pureS_def)

definition step_ok :: "runner_env \<Rightarrow> batch_job \<Rightarrow> session_checkpoint \<Rightarrow> exc option \<times> batch_run \<Rightarrow> bool" where
  "step_ok re job s0 y \<longleftrightarrow>
     (case y of
        (None, u) \<Rightarrow> pool_inv re job s0 u
      | (Some _, u) \<Rightarrow> holds_some re (batch_extends s0) (bu_memory u))"

lemma worker_inv:
  assumes "env_ok (re_session re)" "distinct (map endpoint_key (bj_identities job))" "pool_inv re job s0 u"
  shows "step_ok re job s0 (run_worker re job i u)"
proof (cases "i \<in> set (bu_active u)")
  case True
  let ?ts = "bj_identities job" and ?ex = "bj_executor job (bj_identities job ! i)"
  have shape: "run_shape job u" using assms(3) by (simp add: pool_inv_def)
  then have i: "i < length ?ts" "i \<notin> set (bu_queue u)" using True by (auto simp: run_shape_def)
  obtain x \<tau> where x: "execute_endpoint re ?ex (bj_workers job) (?ts ! i) (bu_phase u i) (bu_memory u) = (x, \<tau>)"
    by (meson surj_pair)
  let ?K = "endpoint_known u"
  have "holds_some re (endpoints_ok ?ts s0 (?K(i := phase_fact (bu_phase u i)))) (bu_memory u)"
    using assms(3) unfolding pool_inv_def
    by (auto elim!: holds_some_mono endpoints_ok_mono simp: endpoint_known_def)
  from tripleD [OF triple_execute [OF assms(1) i(1) assms(2)] this x]
  have out: "case x of Inl e \<Rightarrow> holds_some re (endpoints_ok ?ts s0 (?K(i := any_progress))) \<tau>
    | Inr ph' \<Rightarrow> holds_some re (endpoints_ok ?ts s0 (?K(i := phase_fact ph'))) \<tau>" .
  have event: "bm_event (bu_memory u) \<longrightarrow> bm_event \<tau>"
    using event_kept_execute x by (auto simp: event_kept_def)
  have go: "pool_inv re job s0 (u\<lparr>bu_memory := \<tau>, bu_phase := (bu_phase u)(i := ph)\<rparr>)"
    if "holds_some re (endpoints_ok ?ts s0 (?K(i := phase_fact ph))) \<tau>"
      "is_done (bu_phase u i) \<Longrightarrow> is_done ph" for ph
  proof -
    have "run_shape job (u\<lparr>bu_memory := \<tau>, bu_phase := (bu_phase u)(i := ph)\<rparr>)"
      using shape True i event that(2)
      by (auto simp: run_shape_def split: control.splits option.splits)
    moreover have "holds_some re (endpoints_ok ?ts s0
        (endpoint_known (u\<lparr>bu_memory := \<tau>, bu_phase := (bu_phase u)(i := ph)\<rparr>))) \<tau>"
      using that(1) True
      by (auto elim!: holds_some_mono endpoints_ok_mono simp: endpoint_known_def split: if_splits)
    ultimately show ?thesis by (simp add: pool_inv_def)
  qed
  show ?thesis
  proof (cases x)
    case (Inr ph')
    have "is_done ph'" if "is_done (bu_phase u i)"
    proof -
      from that obtain y where "bu_phase u i = Done y" by (cases "bu_phase u i") (auto simp: is_done_def)
      with x Inr have "ph' = Done y" by (simp add: pureS_def)
      then show ?thesis by (simp add: is_done_def)
    qed
    with go [of ph'] out Inr x True show ?thesis by (simp add: step_ok_def run_worker_def worker_step_def Let_def)
  next
    case (Inl e)
    have "holds_some re (endpoints_ok ?ts s0 (?K(i := phase_fact (Done (Some e))))) \<tau>"
      using out Inl by (auto elim!: holds_some_mono endpoints_ok_mono split: if_splits)
    from go [OF this] have "e \<noteq> Killed \<Longrightarrow> ?thesis"
      using x True Inl by (simp add: step_ok_def run_worker_def worker_step_def Let_def is_done_def)
    moreover have "e = Killed \<Longrightarrow> ?thesis"
      using x True Inl out
      by (auto simp: step_ok_def run_worker_def worker_step_def Let_def endpoints_ok_def elim!: holds_some_mono)
    ultimately show ?thesis by blast
  qed
qed (use assms(3) in \<open>simp add: run_worker_def step_ok_def\<close>)

lemma raise_if_set_run:
  "\<exists>x \<tau>. raise_if_set \<sigma> = (x, \<tau>) \<and> (bm_event \<sigma> \<longrightarrow> bm_event \<tau>) \<and>
    rn_store (bm_runner \<tau>) = rn_store (bm_runner \<sigma>) \<and> (bm_event \<tau> \<longleftrightarrow> (\<exists>e. x = Inl e))"
  using is_set_run [of \<sigma>] by (auto simp: raise_if_set_def pureS_def)

lemma holds_some_store:
  "rn_store (bm_runner \<tau>) = rn_store (bm_runner \<sigma>) \<Longrightarrow> holds_some re I \<tau> \<longleftrightarrow> holds_some re I \<sigma>"
  by (simp add: holds_some_def holding_def)

lemma loop_head_inv:
  assumes "pool_inv re job s0 u" "bu_control u = At_head" "0 < bj_slots job"
  shows "pool_inv re job s0 (loop_head job u)"
proof (cases "bu_queue u = [] \<and> bu_active u = []")
  case True
  with assms show ?thesis
    by (auto simp: pool_inv_def run_shape_def loop_head_def endpoint_known_def
        elim!: holds_some_mono endpoints_ok_mono)
next
  case False
  from raise_if_set_run [of "bu_memory u"] obtain x \<sigma> where x: "raise_if_set (bu_memory u) = (x, \<sigma>)"
    "bm_event (bu_memory u) \<longrightarrow> bm_event \<sigma>" "rn_store (bm_runner \<sigma>) = rn_store (bm_runner (bu_memory u))"
    "bm_event \<sigma> \<longleftrightarrow> (\<exists>e. x = Inl e)" by blast
  have h: "holds_some re (endpoints_ok (bj_identities job) s0 (endpoint_known u)) (bu_memory u)"
    and shape: "run_shape job u" using assms(1) by (simp_all add: pool_inv_def)
  show ?thesis
  proof (cases x)
    case (Inl e)
    have "run_shape job (loop_head job u)"
      using shape False Inl x by (auto simp: loop_head_def run_shape_def)
    moreover have "holds_some re (endpoints_ok (bj_identities job) s0 (endpoint_known (loop_head job u)))
        (bu_memory (loop_head job u))"
      using h False Inl x holds_some_store [OF x(3)]
      by (auto simp: loop_head_def endpoint_known_def elim!: holds_some_mono endpoints_ok_mono)
    ultimately show ?thesis by (simp add: pool_inv_def)
  next
    case (Inr y)
    obtain queue active \<tau> where s: "submit (bj_slots job) (bu_queue u) (bu_active u) \<sigma> = (queue, active, \<tau>)"
      by (metis prod_cases3)
    note k = submit_keeps [OF s]
    have u: "loop_head job u = u\<lparr>bu_memory := \<tau>, bu_queue := queue, bu_active := active,
        bu_control := if active = [] then Leaving None else In_wait\<rparr>"
      using False Inr x s by (auto simp: loop_head_def)
    have "run_shape job (loop_head job u)"
      using shape k assms(3) unfolding u run_shape_def by (auto split: if_splits)
    moreover have kq: "i \<in> set queue \<or> i \<in> set active \<longleftrightarrow> i \<in> set (bu_queue u) \<or> i \<in> set (bu_active u)" for i
      using k by (metis Un_iff set_append)
    have "endpoint_known (loop_head job u) i p e" if "endpoint_known u i p e" for i p e
      using that kq [of i] assms(2) by (auto simp: u endpoint_known_def)
    then have "endpoints_ok (bj_identities job) s0 (endpoint_known u) s \<Longrightarrow>
        endpoints_ok (bj_identities job) s0 (endpoint_known (loop_head job u)) s" for s
      by (auto elim!: endpoints_ok_mono)
    then have "holds_some re (endpoints_ok (bj_identities job) s0 (endpoint_known (loop_head job u))) \<tau>"
      using h holds_some_store [of \<tau> "bu_memory u"] k x(3) by (auto elim!: holds_some_mono)
    ultimately show ?thesis by (simp add: pool_inv_def u)
  qed
qed

lemma triple_mark:
  assumes "env_ok (re_session re)" "i < length ts" "distinct (map endpoint_key ts)"
  shows "triple (holds_some re (endpoints_ok ts s0 (Q(i := any_progress))))
    (mark_endpoint_error re (ts ! i) reason)
    (holding re (endpoints_ok ts s0 (Q(i := \<lambda>p e. ep_error e \<noteq> None))))
    (holds_some re (endpoints_ok ts s0 (Q(i := any_progress))))"
proof -
  have "triple (holds_some re (endpoints_ok ts s0 (Q(i := any_progress))))
    (mark_endpoint_error re (ts ! i) reason)
    (holding re (endpoints_ok ts s0 ((Q(i := any_progress))(i := \<lambda>p e. ep_error e \<noteq> None))))
    (holds_some re (endpoints_ok ts s0 ((Q(i := any_progress))(i := any_progress))))"
    unfolding mark_endpoint_error_def
    by (rule triple_mutate_ok [OF assms(1) sound_add_error assms(2,3)])
      (auto simp: add_error_def dest: make_progress_error)
  then show ?thesis by simp
qed

lemma collect_inv:
  assumes "env_ok (re_session re)" "distinct (map endpoint_key (bj_identities job))" "pool_inv re job s0 u"
    "bu_control u = Collecting (i # rest)"
  shows "step_ok re job s0 (collect re job i rest u)"
proof -
  let ?ts = "bj_identities job" and ?v = "u\<lparr>bu_active := remove1 i (bu_active u), bu_control := Collecting rest\<rparr>"
  have shape: "run_shape job u" and h: "holds_some re (endpoints_ok ?ts s0 (endpoint_known u)) (bu_memory u)"
    using assms(3) by (simp_all add: pool_inv_def)
  then have i: "i \<in> set (bu_active u)" "i < length ?ts" "is_done (bu_phase u i)" "i \<notin> set (bu_queue u)"
    using assms(4) by (auto simp: run_shape_def)
  have shape': "run_shape job ?v" using shape assms(4) i by (auto simp: run_shape_def)
  obtain x where x: "bu_phase u i = Done x" using i(3) by (cases "bu_phase u i") (auto simp: is_done_def)
  have others: "endpoint_known ?v j p e" if "endpoint_known u j p e" "j \<noteq> i" for j p e
    using that assms(4) by (auto simp: endpoint_known_def)
  consider "x = None" | "x = Some ScanCancelledError" | e where "x = Some e" "e \<noteq> ScanCancelledError"
    by (cases x) auto
  then show ?thesis
  proof cases
    case 1
    have "endpoint_known ?v j p e" if "endpoint_known u j p e" for j p e
    proof (cases "j = i")
      case True
      with that x 1 show ?thesis by (simp add: endpoint_known_def)
    qed (rule others [OF that])
    then have "pool_inv re job s0 ?v"
      using shape' h unfolding pool_inv_def by (auto elim!: holds_some_mono endpoints_ok_mono)
    with x 1 show ?thesis by (simp add: collect_def Let_def step_ok_def)
  next
    case 2
    have "endpoint_known (cancel_pool ?v) j p e" if "endpoint_known u j p e" for j p e
      using that by (simp add: endpoint_known_def cancel_pool_def)
    moreover have "run_shape job (cancel_pool ?v)"
      using shape' by (auto simp: cancel_pool_def run_shape_def)
    ultimately have "pool_inv re job s0 (cancel_pool ?v)"
      using h holds_some_store [of "bu_memory (cancel_pool ?v)" "bu_memory u"] unfolding pool_inv_def
      by (auto simp: cancel_pool_def elim!: holds_some_mono endpoints_ok_mono)
    with x 2 show ?thesis by (simp add: collect_def Let_def step_ok_def)
  next
    case 3
    let ?K = "endpoint_known ?v"
    obtain r \<tau> where r: "mark_endpoint_error re (?ts ! i) (normalize_error re e) (bu_memory u) = (r, \<tau>)"
      by (meson surj_pair)
    have "holds_some re (endpoints_ok ?ts s0 (?K(i := any_progress))) (bu_memory u)"
      using h others by (auto elim!: holds_some_mono endpoints_ok_mono)
    moreover have "triple (holds_some re (endpoints_ok ?ts s0 (?K(i := any_progress))))
        (mark_endpoint_error re (?ts ! i) (normalize_error re e))
        (holding re (endpoints_ok ?ts s0 (?K(i := \<lambda>p e. ep_error e \<noteq> None))))
        (holds_some re (endpoints_ok ?ts s0 (?K(i := any_progress))))"
      by (rule triple_mark [OF assms(1) i(2) assms(2)])
    ultimately have out: "case r of
        Inl _ \<Rightarrow> holds_some re (endpoints_ok ?ts s0 (?K(i := any_progress))) \<tau>
      | Inr t \<Rightarrow> holding re (endpoints_ok ?ts s0 (?K(i := \<lambda>p e. ep_error e \<noteq> None))) t \<tau>"
      using r by (blast dest: tripleD)
    have event: "bm_event (bu_memory u) \<longrightarrow> bm_event \<tau>"
      using event_kept_mutate r by (auto simp: event_kept_def mark_endpoint_error_def)
    have shape_t: "run_shape job (?v\<lparr>bu_memory := \<tau>\<rparr>)"
      using shape' by (simp add: run_shape_def)
    show ?thesis
    proof (cases r)
      case (Inr t)
      have "holds_some re (endpoints_ok ?ts s0 (endpoint_known (?v\<lparr>bu_memory := \<tau>\<rparr>))) \<tau>"
        using out Inr x 3
        by (auto simp: endpoint_known_def elim!: holds_some_mono [OF holds_someI] endpoints_ok_mono split: if_splits)
      with shape_t x 3 r Inr show ?thesis by (simp add: collect_def Let_def step_ok_def pool_inv_def)
    next
      case (Inl y)
      have fail: "holds_some re (endpoints_ok ?ts s0 (?K(i := any_progress))) \<tau>" using out Inl by simp
      then have ext: "holds_some re (batch_extends s0) \<tau>"
        by (auto simp: endpoints_ok_def elim!: holds_some_mono)
      have "pool_inv re job s0 (?v\<lparr>bu_memory := \<tau>, bu_control := Leaving (Some y)\<rparr>)"
        using fail shape' x 3 unfolding pool_inv_def
        by (auto simp: run_shape_def endpoint_known_def elim!: holds_some_mono endpoints_ok_mono split: if_splits)
      moreover have "pool_inv re job s0 ((cancel_pool (?v\<lparr>bu_memory := \<tau>\<rparr>))\<lparr>bu_control := Leaving None\<rparr>)"
        using fail shape' x 3 holds_some_store [of "\<tau>\<lparr>bm_event := True\<rparr>" \<tau>] unfolding pool_inv_def
        by (auto simp: run_shape_def endpoint_known_def cancel_pool_def elim!: holds_some_mono endpoints_ok_mono
            split: if_splits)
      ultimately show ?thesis using ext x 3 r Inl by (simp add: collect_def Let_def step_ok_def)
    qed
  qed
qed

lemma coordinator_inv:
  assumes "env_ok (re_session re)" "distinct (map endpoint_key (bj_identities job))" "pool_inv re job s0 u"
    "0 < bj_slots job"
  shows "step_ok re job s0 (coordinator_step re job done u)"
proof (cases "bu_control u")
  case At_head
  with loop_head_inv [OF assms(3) _ assms(4)] show ?thesis by (simp add: coordinator_step_def step_ok_def)
next
  case In_wait
  have "pool_inv re job s0 (u\<lparr>bu_control := Collecting done\<rparr>)" if "collectable u done"
    using assms(3) that In_wait unfolding pool_inv_def
    by (auto simp: run_shape_def endpoint_known_def collectable_def list_all_iff
        elim!: holds_some_mono endpoints_ok_mono)
  with In_wait assms(3) show ?thesis by (simp add: coordinator_step_def step_ok_def)
next
  case (Collecting todo)
  show ?thesis
  proof (cases todo)
    case Nil
    have "pool_inv re job s0 (u\<lparr>bu_control := if bu_cancelled u then Leaving None else At_head\<rparr>)"
      using assms(3) Collecting unfolding pool_inv_def
      by (auto simp: run_shape_def endpoint_known_def elim!: holds_some_mono endpoints_ok_mono)
    with Collecting Nil show ?thesis by (simp add: coordinator_step_def step_ok_def)
  next
    case (Cons i rest)
    with collect_inv [OF assms(1-3)] Collecting show ?thesis by (simp add: coordinator_step_def)
  qed
next
  case (Leaving x)
  with assms(3) show ?thesis by (simp add: coordinator_step_def step_ok_def)
qed

lemma coordinate_inv:
  assumes "env_ok (re_session re)" "distinct (map endpoint_key (bj_identities job))" "0 < bj_slots job"
  shows "pool_inv re job s0 u \<Longrightarrow> step_ok re job s0 (coordinate re job moves u)"
proof (induction moves arbitrary: u)
  case Nil
  then show ?case by (simp add: step_ok_def)
next
  case (Cons mv moves)
  let ?step = "case mv of Worker i \<Rightarrow> run_worker re job i u | Coordinator done \<Rightarrow> coordinator_step re job done u"
  have "step_ok re job s0 ?step"
    using worker_inv [OF assms(1,2) Cons.prems] coordinator_inv [OF assms(1,2) Cons.prems assms(3)]
    by (simp split: batch_move.split)
  moreover obtain x v where "?step = (x, v)" by fastforce
  ultimately show ?case using Cons.IH [of v] by (cases x) (simp_all add: step_ok_def)
qed

section \<open>The end of a session\<close>

definition all_accounted :: "session_checkpoint \<Rightarrow> bool" where
  "all_accounted s \<longleftrightarrow>
     (\<forall>e \<in> set (sk_endpoints s). ep_error e = None \<longrightarrow> completed_rule (sk_plan s) e)"

definition ended_as :: "session_checkpoint \<Rightarrow> bool" where
  "ended_as s \<longleftrightarrow>
     (if endpoint_errors s = [] then sk_status s = SS_COMPLETED else sk_status s = SS_FAILED)"

lemma triple_replace_global:
  assumes "env_ok (re_session re)" "I s \<Longrightarrow> K s"
    and "\<And>s'. next_version re s s' \<Longrightarrow> sk_endpoints s' = sk_endpoints s \<Longrightarrow> sk_status s' = st \<Longrightarrow> I s \<Longrightarrow>
      J s' \<and> K s'"
  shows "triple (holding re I s) (replace_global re s st err) (holding re J) (holds_some re K)"
proof (rule triple_assume [where A = "list_all wf_progress (sk_endpoints s)"])
  show "list_all wf_progress (sk_endpoints s)" if "holding re I s \<sigma>" for \<sigma>
    using holding_good [OF assms(1) that] by (simp add: good_checkpoint_def wf_checkpoint_def)
  show "triple (holding re I s) (replace_global re s st err) (holding re J) (holds_some re K)"
    if "list_all wf_progress (sk_endpoints s)"
    unfolding replace_global_def using that assms by (intro batch_triple_advance) auto
qed

lemma next_extends:
  "next_version re s s' \<Longrightarrow> sk_endpoints s' = sk_endpoints s \<Longrightarrow> batch_extends s s'"
  by (simp add: batch_extends_def next_version_def list_all2_same)

lemma next_extends0:
  "next_version re s s' \<Longrightarrow> sk_endpoints s' = sk_endpoints s \<Longrightarrow> batch_extends s0 s \<Longrightarrow> batch_extends s0 s'"
  by (blast intro: batch_extends_trans next_extends)

lemma next_ended:
  assumes "next_version re s s'" "sk_endpoints s' = sk_endpoints s" "all_accounted s"
    "sk_status s' = (if endpoint_errors s = [] then SS_COMPLETED else SS_FAILED)"
  shows "all_accounted s' \<and> ended_as s'"
proof -
  have "endpoint_errors s' = endpoint_errors s" using assms(2) by (simp add: endpoint_errors_def)
  with assms show ?thesis by (simp add: all_accounted_def ended_as_def next_version_def)
qed

lemma endpoint_errors_empty: "endpoint_errors s = [] \<longleftrightarrow> (\<forall>e \<in> set (sk_endpoints s). ep_error e = None)"
  by (auto simp: endpoint_errors_def map_filter_def filter_empty_conv)

lemma triple_finalize:
  assumes "env_ok (re_session re)"
  shows "triple (holds_some re (\<lambda>s. batch_extends s0 s \<and> all_accounted s)) (finalize_batch re)
    (holding re (\<lambda>s. batch_extends s0 s \<and> all_accounted s \<and> ended_as s))
    (holds_some re (batch_extends s0))"
proof -
  let ?I = "\<lambda>s. batch_extends s0 s \<and> all_accounted s" and ?E = "holds_some re (batch_extends s0)"
  let ?J = "holding re (\<lambda>s. batch_extends s0 s \<and> all_accounted s \<and> ended_as s)"
  have load: "triple (holds_some re ?I) (load_latest re) (holding re ?I) ?E"
    by (rule triple_weaken [OF batch_triple_load [of re ?I]]) (auto elim: holds_some_mono)
  have last: "triple (holding re ?I s)
      (if endpoint_errors s \<noteq> [] then fail_session re s else replace_global re s SS_COMPLETED None) ?J ?E" for s
  proof (rule triple_if)
    assume errors: "endpoint_errors s \<noteq> []"
    show "triple (holding re ?I s) (fail_session re s) ?J ?E"
      unfolding fail_session_def
    proof (rule triple_replace_global [OF assms])
      fix s' assume "next_version re s s'" "sk_endpoints s' = sk_endpoints s" "sk_status s' = SS_FAILED" "?I s"
      with errors next_ended [of re s s'] next_extends0 [of re s s' s0]
      show "(batch_extends s0 s' \<and> all_accounted s' \<and> ended_as s') \<and> batch_extends s0 s'" by simp
    qed simp
  next
    assume errors: "\<not> endpoint_errors s \<noteq> []"
    show "triple (holding re ?I s) (replace_global re s SS_COMPLETED None) ?J ?E"
    proof (rule triple_replace_global [OF assms])
      fix s' assume "next_version re s s'" "sk_endpoints s' = sk_endpoints s" "sk_status s' = SS_COMPLETED" "?I s"
      with errors next_ended [of re s s'] next_extends0 [of re s s' s0]
      show "(batch_extends s0 s' \<and> all_accounted s' \<and> ended_as s') \<and> batch_extends s0 s'" by simp
    qed simp
  qed
  have first: "triple (holding re ?I s)
      (if endpoint_errors s \<noteq> [] then fail_session re s
       else thenS (mark_unfinished re (map ep_identity
           (filter (endpoint_needs_work (sk_plan s)) (sk_endpoints s)))) (\<lambda>_.
         thenS (load_latest re) (\<lambda>s'.
           if endpoint_errors s' \<noteq> [] then fail_session re s'
           else replace_global re s' SS_COMPLETED None))) ?J ?E" for s
  proof (cases "endpoint_errors s = []")
    case True
    have weak: "triple (holding re ?I s) (load_latest re) (holding re ?I) ?E"
      by (rule triple_weaken [OF load]) (auto intro: holds_someI)
    show ?thesis
    proof (rule triple_assume [where A = "filter (endpoint_needs_work (sk_plan s)) (sk_endpoints s) = []"])
      show "filter (endpoint_needs_work (sk_plan s)) (sk_endpoints s) = []" if "holding re ?I s \<sigma>" for \<sigma>
        using that True endpoint_errors_empty [of s]
        by (auto simp: holding_def all_accounted_def completed_rule_def endpoint_needs_work_def filter_empty_conv)
      assume "filter (endpoint_needs_work (sk_plan s)) (sk_endpoints s) = []"
      then show "triple (holding re ?I s)
      (if endpoint_errors s \<noteq> [] then fail_session re s
       else thenS (mark_unfinished re (map ep_identity
           (filter (endpoint_needs_work (sk_plan s)) (sk_endpoints s)))) (\<lambda>_.
         thenS (load_latest re) (\<lambda>s'.
           if endpoint_errors s' \<noteq> [] then fail_session re s'
           else replace_global re s' SS_COMPLETED None))) ?J ?E"
        using True triple_then [OF weak last] by (simp add: thenS_pure_fun)
    qed
  next
    case False
    then show ?thesis using last [of s] by simp
  qed
  show ?thesis unfolding finalize_batch_def by (rule triple_then [OF load first])
qed

lemma triple_cancel_session:
  assumes "env_ok (re_session re)"
  shows "triple (holding re (batch_extends s0) s) (cancel_session re reason s) Q (holds_some re (batch_extends s0))"
  unfolding cancel_session_def
proof (rule triple_then)
  show "triple (holding re (batch_extends s0) s) (replace_global re s SS_CANCELLED (Some reason))
      (holding re (batch_extends s0)) (holds_some re (batch_extends s0))"
    by (rule triple_replace_global [OF assms]) (auto intro: next_extends0)
  show "triple (holding re (batch_extends s0) s') (pureS (Inl ScanCancelledError)) Q
      (holds_some re (batch_extends s0))" for s'
    by (rule triple_raise) (rule holds_someI)
qed

section \<open>Resuming a batch\<close>

definition returned_ok ::
    "runner_env \<Rightarrow> session_checkpoint \<Rightarrow> session_checkpoint option \<Rightarrow> batch_memory \<Rightarrow> bool" where
  "returned_ok re s0 x \<sigma> \<longleftrightarrow>
     (case x of
        None \<Rightarrow> holds_some re (batch_extends s0) \<sigma>
      | Some t \<Rightarrow> holding re (\<lambda>s. batch_extends s0 s \<and> all_accounted s \<and> ended_as s) t \<sigma>)"

lemma pool_accounts:
  assumes "pool_inv re job s0 u" "bu_control u = Leaving None" "\<not> bu_cancelled u" "\<not> bm_event (bu_memory u)"
  shows "holds_some re (\<lambda>s. batch_extends s0 s \<and> all_accounted s) (bu_memory u)"
proof -
  let ?ts = "bj_identities job"
  have e: "bu_queue u = []" "bu_active u = []" using assms by (simp_all add: pool_inv_def run_shape_def)
  have "batch_extends s0 s \<and> all_accounted s" if ok: "endpoints_ok ?ts s0 (endpoint_known u) s" for s
  proof -
    have "completed_rule (sk_plan s) e" if "e \<in> set (sk_endpoints s)" "ep_error e = None" for e
    proof (cases "\<exists>i < length ?ts. same_endpoint (?ts ! i) e")
      case True
      then obtain i where i: "i < length ?ts" "same_endpoint (?ts ! i) e" by blast
      with ok that(1) have "endpoint_known u i (sk_plan s) e" by (simp add: endpoints_ok_def)
      with that(2) e assms(2,3) show ?thesis by (auto simp: endpoint_known_def)
    next
      case False
      then have "\<forall>t \<in> set ?ts. \<not> same_endpoint t e" by (metis in_set_conv_nth)
      with ok that(1) show ?thesis by (simp add: endpoints_ok_def)
    qed
    with ok show ?thesis by (simp add: all_accounted_def endpoints_ok_def)
  qed
  with assms(1) show ?thesis by (auto simp: pool_inv_def elim!: holds_some_mono)
qed

lemma after_pool_ok:
  assumes "env_ok (re_session re)" "pool_inv re job s0 u" "after_pool re u (bu_memory u) = (r, \<sigma>')"
  shows "case r of Inl e \<Rightarrow> holds_some re (batch_extends s0) \<sigma>' | Inr x \<Rightarrow> returned_ok re s0 x \<sigma>'"
proof -
  let ?E = "holds_some re (batch_extends s0)"
  have keeps: "?E (bu_memory u)" by (rule pool_inv_keeps [OF assms(2)])
  have cancel: "triple ?E (thenS (load_latest re) (cancel_session re ''cancelled_by_user'')) (returned_ok re s0) ?E"
    by (rule triple_then [OF batch_triple_load triple_cancel_session [OF assms(1)]])
  have final: "triple (holds_some re (\<lambda>s. batch_extends s0 s \<and> all_accounted s))
      (thenS (finalize_batch re) (\<lambda>s. pureS (Inr (Some s)))) (returned_ok re s0) ?E"
    by (rule triple_then [OF triple_finalize [OF assms(1)]], rule triple_pure)
      (auto simp: returned_ok_def elim: holds_some_mono dest: holds_someI)
  consider "\<not> settled u" | e where "settled u" "bu_control u = Leaving (Some e)"
    | "settled u" "bu_control u = Leaving None"
    by (cases "settled u"; cases "bu_control u") (auto simp: settled_def split: option.splits)
  then show ?thesis
  proof cases
    case 1
    with assms(3) keeps show ?thesis by (auto simp: after_pool_def returned_ok_def)
  next
    case 2
    with assms(3) keeps show ?thesis by (auto simp: after_pool_def)
  next
    case 3
    from is_set_run [of "bu_memory u"] obtain c \<tau> where c: "is_set (bu_memory u) = (Inr c, \<tau>)"
      "bm_event (bu_memory u) \<longrightarrow> bm_event \<tau>" "rn_store (bm_runner \<tau>) = rn_store (bm_runner (bu_memory u))"
      "bm_event \<tau> \<longleftrightarrow> c" by blast
    show ?thesis
    proof (cases "bu_cancelled u \<or> c")
      case True
      then obtain \<upsilon> where "thenS (load_latest re) (cancel_session re ''cancelled_by_user'') \<upsilon> = (r, \<sigma>')" "?E \<upsilon>"
        using assms(3) 3 c keeps holds_some_store [OF c(3)]
        by (cases "bu_cancelled u") (auto simp: after_pool_def)
      from tripleD [OF cancel this(2,1)] show ?thesis .
    next
      case False
      then have "thenS (finalize_batch re) (\<lambda>s. pureS (Inr (Some s))) \<tau> = (r, \<sigma>')"
        using assms(3) 3 c by (simp add: after_pool_def)
      moreover have "holds_some re (\<lambda>s. batch_extends s0 s \<and> all_accounted s) \<tau>"
        using pool_accounts [OF assms(2) 3(2)] False c holds_some_store [OF c(3)] by simp
      ultimately show ?thesis by (blast dest: tripleD [OF final])
    qed
  qed
qed

definition clean_start :: "session_checkpoint \<Rightarrow> session_checkpoint \<Rightarrow> bool" where
  "clean_start s0 s \<longleftrightarrow> batch_extends s0 s \<and> (\<forall>e \<in> set (sk_endpoints s). ep_error e = None)"

lemma pool_start_inv:
  fixes factory :: "target_identity \<Rightarrow> executor"
  assumes "env_ok (re_session re)" "holding re (clean_start s0) s \<sigma>"
    "ts = map ep_identity (filter (endpoint_needs_work (sk_plan s)) (sk_endpoints s))" "ts \<noteq> []"
  defines "job \<equiv> batch_job_of factory (sk_plan s) ts"
  shows "pool_inv re job s0 (batch_run_start job \<sigma>)" "distinct (map endpoint_key (bj_identities job))"
    "0 < bj_slots job"
proof -
  have g: "wf_checkpoint (re_session re) s"
    using holding_good [OF assms(1,2)] by (simp add: good_checkpoint_def)
  then have p: "1 \<le> sp_target_workers (sk_plan s)" "1 \<le> sp_threads (sk_plan s)"
    by (simp_all add: wf_checkpoint_def wf_plan_def)
  show "distinct (map endpoint_key (bj_identities job))"
    using distinct_map_filter [OF checkpoint_endpoints_distinct [OF g]]
    by (simp add: job_def batch_job_of_def Let_def assms(3) comp_def)
  have "0 < length ts" using assms(4) by simp
  then show "0 < bj_slots job" using p by (simp add: job_def batch_job_of_def Let_def)
  have needs: "completed_rule (sk_plan s) e"
    if "e \<in> set (sk_endpoints s)" "\<forall>t \<in> set ts. \<not> same_endpoint t e" for e
  proof -
    have "\<not> endpoint_needs_work (sk_plan s) e"
    proof
      assume "endpoint_needs_work (sk_plan s) e"
      with that(1) have "ep_identity e \<in> set ts" by (auto simp: assms(3))
      with that(2) show False by (auto simp: same_endpoint_def)
    qed
    then show ?thesis by (simp add: endpoint_needs_work_def completed_rule_def)
  qed
  have "endpoints_ok ts s0 (endpoint_known (batch_run_start job \<sigma>)) s"
    using assms(2) needs
    by (auto simp: endpoints_ok_def endpoint_known_def batch_run_start_def holding_def clean_start_def
        job_def batch_job_of_def Let_def)
  moreover have "run_shape job (batch_run_start job \<sigma>)"
    by (auto simp: run_shape_def batch_run_start_def)
  ultimately show "pool_inv re job s0 (batch_run_start job \<sigma>)"
    using assms(2) by (auto simp: pool_inv_def holds_some_def holding_def batch_run_start_def
        job_def batch_job_of_def Let_def)
qed

lemma clean_accounts:
  assumes "clean_start s0 s" "filter (endpoint_needs_work (sk_plan s)) (sk_endpoints s) = []"
  shows "batch_extends s0 s \<and> all_accounted s"
  using assms by (auto simp: clean_start_def all_accounted_def endpoint_needs_work_def completed_rule_def
      filter_empty_conv)

lemma triple_finish_some:
  assumes "env_ok (re_session re)"
  shows "triple (holds_some re (\<lambda>s. batch_extends s0 s \<and> all_accounted s))
    (thenS (finalize_batch re) (\<lambda>s. pureS (Inr (Some s)))) (returned_ok re s0) (holds_some re (batch_extends s0))"
  by (rule triple_then [OF triple_finalize [OF assms]], rule triple_pure)
    (auto simp: returned_ok_def elim: holds_some_mono dest: holds_someI)

lemma triple_run_endpoints:
  assumes "env_ok (re_session re)"
  shows "triple (holding re (clean_start s0) s) (run_endpoints re factory moves s)
    (returned_ok re s0) (holds_some re (batch_extends s0))"
proof (rule tripleI)
  fix \<sigma> r \<sigma>'
  assume h: "holding re (clean_start s0) s \<sigma>" and run: "run_endpoints re factory moves s \<sigma> = (r, \<sigma>')"
  let ?fs = "filter (endpoint_needs_work (sk_plan s)) (sk_endpoints s)"
  let ?job = "batch_job_of factory (sk_plan s) (map ep_identity ?fs)"
  show "case r of Inl e \<Rightarrow> holds_some re (batch_extends s0) \<sigma>' | Inr x \<Rightarrow> returned_ok re s0 x \<sigma>'"
  proof (cases "?fs = []")
    case True
    with h have "holds_some re (\<lambda>s. batch_extends s0 s \<and> all_accounted s) \<sigma>"
      using clean_accounts by (auto simp: holds_some_def holding_def)
    moreover have "thenS (finalize_batch re) (\<lambda>s. pureS (Inr (Some s))) \<sigma> = (r, \<sigma>')"
      using run True by (simp add: run_endpoints_def)
    ultimately show ?thesis by (rule tripleD [OF triple_finish_some [OF assms]])
  next
    case False
    note start = pool_start_inv [OF assms h refl, where factory = factory]
    obtain x u where c: "coordinate re ?job moves (batch_run_start ?job \<sigma>) = (x, u)" by fastforce
    have ok: "step_ok re ?job s0 (x, u)"
      using coordinate_inv [OF assms start(2,3,1), of moves] False c by simp
    show ?thesis
    proof (cases x)
      case None
      with run False c ok after_pool_ok [OF assms, of ?job s0 u r \<sigma>'] show ?thesis
        by (simp add: run_endpoints_def Let_def step_ok_def)
    next
      case (Some e)
      with run False c ok show ?thesis by (auto simp: run_endpoints_def Let_def step_ok_def)
    qed
  qed
qed

lemma triple_batch_running:
  assumes "env_ok (re_session re)"
  shows "triple (holding re (batch_extends s0) s) (batch_to_running re s) (holding re (clean_start s0))
    (holds_some re (batch_extends s0))"
  unfolding batch_to_running_def
proof (rule triple_then)
  let ?mk = "map_err (\<lambda>e. make_progress (re_session re) (ep_identity e) (ep_completed_results e)
    (ep_pending_ports e) (ep_completed_banner_ports e) None) (sk_endpoints s)"
  show "triple (holding re (batch_extends s0) s) (pureS ?mk)
      (\<lambda>es \<sigma>. holding re (batch_extends s0) s \<sigma> \<and> ?mk = Inr es) (holds_some re (batch_extends s0))"
    by (rule triple_pure) (auto intro: holds_someI)
  show "triple (\<lambda>\<sigma>. holding re (batch_extends s0) s \<sigma> \<and> ?mk = Inr es) (advance_session re s SS_RUNNING es None)
      (holding re (clean_start s0)) (holds_some re (batch_extends s0))" for es
  proof (rule triple_assume [where A = "?mk = Inr es \<and> list_all wf_progress (sk_endpoints s)"])
    show "?mk = Inr es \<and> list_all wf_progress (sk_endpoints s)"
      if "holding re (batch_extends s0) s \<sigma> \<and> ?mk = Inr es" for \<sigma>
      using that holding_good [OF assms] by (auto simp: good_checkpoint_def wf_checkpoint_def)
  next
    assume a: "?mk = Inr es \<and> list_all wf_progress (sk_endpoints s)"
    then have "list_all2 (\<lambda>e e'. make_progress (re_session re) (ep_identity e) (ep_completed_results e)
        (ep_pending_ports e) (ep_completed_banner_ports e) None = Inr e') (sk_endpoints s) es"
      by (simp add: map_err_list_all2)
    with a have l: "list_all2 (\<lambda>e e'. wf_progress e' \<and> progress_extends e e' \<and> ep_error e' = None)
        (sk_endpoints s) es"
      using make_progress_keeps make_progress_error
      by (fastforce simp: list_all2_conv_all_nth list_all_length)
    have "triple (holding re (batch_extends s0) s) (advance_session re s SS_RUNNING es None)
      (holding re (clean_start s0)) (holds_some re (batch_extends s0))"
    proof (rule batch_triple_advance [OF assms])
      show "list_all wf_progress es" using l by (simp add: list_all2_conv_all_nth list_all_length)
      fix s' assume n: "next_version re s s'" "sk_endpoints s' = es" "batch_extends s0 s"
      have "batch_extends s s'"
        using n(1,2) l by (auto simp: batch_extends_def next_version_def elim: list_all2_mono)
      with n(2,3) l batch_extends_trans show "clean_start s0 s' \<and> batch_extends s0 s'"
        by (auto simp: clean_start_def list_all2_conv_all_nth in_set_conv_nth)
    qed
    then show "triple (\<lambda>\<sigma>. holding re (batch_extends s0) s \<sigma> \<and> ?mk = Inr es)
        (advance_session re s SS_RUNNING es None)
        (holding re (clean_start s0)) (holds_some re (batch_extends s0))"
      by (rule triple_weaken) auto
  qed
qed

lemma triple_resume_batch:
  assumes "env_ok (re_session re)"
  shows "triple (holds_some re (batch_extends s0)) (resume_batch re factory expected moves)
    (returned_ok re s0) (holds_some re (batch_extends s0))"
proof -
  let ?E = "holds_some re (batch_extends s0)"
  have look: "triple (holding re (batch_extends s0) s) (\<lambda>\<sigma>. is_set (\<sigma>\<lparr>bm_event := False\<rparr>))
      (\<lambda>_. holding re (batch_extends s0) s) ?E" for s
    by (auto simp: triple_def is_set_def holding_def split: list.splits)
  have complete: "triple (holding re (batch_extends s0) s) (pureS (Inr (Some s))) (returned_ok re s0) ?E"
    if c: "sk_status s = SS_COMPLETED" for s
  proof (rule triple_pure)
    fix \<sigma> x assume h: "holding re (batch_extends s0) s \<sigma>" "(Inr (Some s) :: exc + session_checkpoint option) = Inr x"
    have "list_all (completed_rule (sk_plan s)) (sk_endpoints s)"
      using holding_good [OF assms h(1)] c by (simp add: good_checkpoint_def wf_checkpoint_def status_rules_def)
    then have "all_accounted s" "endpoint_errors s = []"
      by (auto simp: all_accounted_def endpoint_errors_empty list_all_iff completed_rule_def)
    with h c show "returned_ok re s0 x \<sigma>" by (auto simp: returned_ok_def holding_def ended_as_def)
  qed (rule holds_someI)
  have keep: "triple (holding re (batch_extends s0) s) (pureS v) (\<lambda>_. holding re (batch_extends s0) s) ?E"
    for s and v :: "exc + unit"
    by (rule triple_pure) (auto intro: holds_someI)
  show ?thesis
    unfolding resume_batch_def
    by (rule triple_then [OF batch_triple_load], rule triple_then [OF keep], rule triple_if, erule complete,
        rule triple_then [OF look], rule triple_if, rule triple_cancel_session [OF assms],
        rule triple_then [OF triple_batch_running [OF assms] triple_run_endpoints [OF assms]])
qed

lemma sample_batch_good: "good_checkpoint require_batch_plan sample_env sample_checkpoint"
proof -
  have "require_batch_plan (sk_plan sample_checkpoint) = Inr ()" by code_simp
  then show ?thesis using sample_good by (simp add: good_checkpoint_def)
qed

lemma sample_batch_confirmed: "\<exists>d. confirmed require_batch_plan sample_env d sample_checkpoint"
proof -
  have "persist require_batch_plan sample_env sample_checkpoint \<lparr>st_dir = \<lambda>_. None, st_io = []\<rparr> =
      (Inr (pointer_of sample_env sample_checkpoint),
       snd (persist require_batch_plan sample_env sample_checkpoint \<lparr>st_dir = \<lambda>_. None, st_io = []\<rparr>))"
    using persist_healthy [OF sample_batch_good sample_free] by simp
  from v1.put_holds [OF TrueI sample_batch_good this] show ?thesis by blast
qed

section \<open>Properties\<close>

lemma pool_inv_rebase:
  assumes "pool_inv re job s0 u" "confirmed require_batch_plan (re_session re) (st_dir (rn_store (bm_runner (bu_memory u)))) s"
  shows "pool_inv re job s u" "batch_extends s0 s"
proof -
  from assms have ok: "endpoints_ok (bj_identities job) s0 (endpoint_known u) s"
    by (auto simp: pool_inv_def holds_some_def holding_def dest: confirmed_unique)
  then show "batch_extends s0 s" by (simp add: endpoints_ok_def)
  from ok have "endpoints_ok (bj_identities job) s (endpoint_known u) s" by (simp add: endpoints_ok_def)
  with assms show "pool_inv re job s u" by (auto simp: pool_inv_def holds_some_def holding_def)
qed

text \<open>
  C5. No update is lost. At any moment of any interleaving of the workers of a batch, whatever
  the store does and wherever the process dies, the store holds a checkpoint, and every later
  one keeps, for every endpoint, each completed result exactly as it is, banner included, except
  that it may set the banner of a port whose banner had not been completed yet and has been
  since; completed banners stay completed.
\<close>

theorem batch_no_lost_updates:
  assumes "env_ok (re_session re)"
    and "confirmed require_batch_plan (re_session re) (st_dir (rn_store (bm_runner \<sigma>))) s"
    and "\<forall>e \<in> set (sk_endpoints s). ep_error e = None"
    and "job = batch_job_of factory (sk_plan s)
      (map ep_identity (filter (endpoint_needs_work (sk_plan s)) (sk_endpoints s)))"
    and "bj_identities job \<noteq> []"
    and "coordinate re job moves (batch_run_start job \<sigma>) = (None, u)"
    and "coordinate re job moves' u = (x, u')"
  shows "\<exists>s1 s2. batch_extends s s1 \<and> batch_extends s1 s2 \<and>
    confirmed require_batch_plan (re_session re) (st_dir (rn_store (bm_runner (bu_memory u)))) s1 \<and>
    confirmed require_batch_plan (re_session re) (st_dir (rn_store (bm_runner (bu_memory u')))) s2"
proof -
  have h: "holding re (clean_start s) s \<sigma>" using assms(2,3) by (simp add: holding_def clean_start_def)
  have "map ep_identity (filter (endpoint_needs_work (sk_plan s)) (sk_endpoints s)) \<noteq> []"
    using assms(4,5) by (auto simp: batch_job_of_def Let_def)
  note start = pool_start_inv [OF assms(1) h refl this, of factory, folded assms(4)]
  have inv: "pool_inv re job s u"
    using coordinate_inv [OF assms(1) start(2,3,1), of moves] assms(6) by (simp add: step_ok_def)
  then obtain s1 where s1: "confirmed require_batch_plan (re_session re) (st_dir (rn_store (bm_runner (bu_memory u)))) s1"
    by (auto simp: pool_inv_def holds_some_def holding_def)
  note r = pool_inv_rebase [OF inv s1]
  have "holds_some re (batch_extends s1) (bu_memory u')"
    using coordinate_inv [OF assms(1) start(2,3) r(1), of moves'] assms(7) pool_inv_keeps
    by (cases x) (auto simp: step_ok_def)
  with s1 r(2) show ?thesis by (auto simp: holds_some_def holding_def)
qed

definition batch_memory_of :: "directory \<Rightarrow> io_outcome list \<Rightarrow> bool list \<Rightarrow> batch_memory" where
  "batch_memory_of d io cancel =
     \<lparr>bm_runner = \<lparr>rn_store = \<lparr>st_dir = d, st_io = io\<rparr>, rn_now = 1, rn_cancel = cancel\<rparr>, bm_event = False\<rparr>"

theorem batch_no_lost_updates_witness:
  "\<exists>d. \<forall>io cancel moves. \<exists>s2.
     batch_extends sample_checkpoint s2 \<and>
     confirmed require_batch_plan sample_env (st_dir (rn_store (bm_runner (bu_memory (snd
       (coordinate sample_runner (batch_job_of (\<lambda>_. sample_executor) sample_plan [sample_identity]) moves
         (batch_run_start (batch_job_of (\<lambda>_. sample_executor) sample_plan [sample_identity])
           (batch_memory_of d io cancel)))))))) s2"
proof -
  from sample_batch_confirmed obtain d where d: "confirmed require_batch_plan sample_env d sample_checkpoint" ..
  define job where "job = batch_job_of (\<lambda>_. sample_executor) sample_plan [sample_identity]"
  have work: "map ep_identity (filter (endpoint_needs_work (sk_plan sample_checkpoint))
      (sk_endpoints sample_checkpoint)) = [sample_identity]" by code_simp
  have plan: "sk_plan sample_checkpoint = sample_plan" by (simp add: sample_checkpoint_def)
  have clean: "\<forall>e \<in> set (sk_endpoints sample_checkpoint). ep_error e = None" by code_simp
  have ids: "bj_identities job \<noteq> []" by (simp add: job_def batch_job_of_def Let_def)
  have "\<exists>s2. batch_extends sample_checkpoint s2 \<and>
     confirmed require_batch_plan sample_env (st_dir (rn_store (bm_runner (bu_memory (snd
       (coordinate sample_runner job moves (batch_run_start job (batch_memory_of d io cancel)))))))) s2"
    for io cancel moves
  proof -
    let ?\<sigma> = "batch_memory_of d io cancel"
    obtain x u where c: "coordinate sample_runner job moves (batch_run_start job ?\<sigma>) = (x, u)" by fastforce
    have "confirmed require_batch_plan (re_session sample_runner) (st_dir (rn_store (bm_runner ?\<sigma>))) sample_checkpoint"
      using d by (simp add: sample_runner_def batch_memory_of_def)
    moreover have "job = batch_job_of (\<lambda>_. sample_executor) (sk_plan sample_checkpoint)
        (map ep_identity (filter (endpoint_needs_work (sk_plan sample_checkpoint)) (sk_endpoints sample_checkpoint)))"
      unfolding work unfolding plan job_def ..
    ultimately obtain s1 s2 where "batch_extends sample_checkpoint s1" "batch_extends s1 s2"
      "confirmed require_batch_plan (re_session sample_runner) (st_dir (rn_store (bm_runner (bu_memory u)))) s2"
      using batch_no_lost_updates [OF sample_runner_ok _ clean _ ids _ c, of ?\<sigma> "\<lambda>_. sample_executor" "[]"]
      by auto
    then show ?thesis unfolding c using batch_extends_trans by (auto simp: sample_runner_def)
  qed
  then show ?thesis unfolding job_def by blast
qed

text \<open>
  C9. Resuming a batch accounts for every endpoint. Under any schedule, cancellation, error of
  the store and end of the process the store afterwards holds a checkpoint that keeps all
  confirmed work; when the run returns, what it returns is that checkpoint, every endpoint is
  complete or carries its error, whatever happened to the others, and the session is completed
  exactly when no endpoint failed, and failed otherwise.
\<close>

theorem resume_batch_accounts:
  assumes "env_ok (re_session re)"
    and "confirmed require_batch_plan (re_session re) (st_dir (rn_store (bm_runner \<sigma>))) s0"
    and "resume_batch re factory expected moves \<sigma> = (r, \<sigma>')"
  shows "\<exists>s. confirmed require_batch_plan (re_session re) (st_dir (rn_store (bm_runner \<sigma>'))) s \<and>
    batch_extends s0 s \<and>
    (\<forall>t. r = Inr (Some t) \<longrightarrow> t = s \<and>
      (\<forall>e \<in> set (sk_endpoints t). ep_error e = None \<longrightarrow>
         ep_pending_ports e = [] \<and> set (ep_completed_ports e) = set (sp_ports (sk_plan s0)) \<and>
         (sp_banner_grab (sk_plan s0) \<longrightarrow> set (ep_completed_banner_ports e) = set (ep_open_ports e))) \<and>
      sk_status t = (if \<forall>e \<in> set (sk_endpoints t). ep_error e = None then SS_COMPLETED else SS_FAILED))"
proof -
  have "holds_some re (batch_extends s0) \<sigma>" using assms(2) by (auto simp: holds_some_def holding_def)
  from tripleD [OF triple_resume_batch [OF assms(1)] this assms(3)]
  have out: "case r of Inl e \<Rightarrow> holds_some re (batch_extends s0) \<sigma>' | Inr x \<Rightarrow> returned_ok re s0 x \<sigma>'" .
  show ?thesis
  proof (cases "\<exists>t. r = Inr (Some t)")
    case False
    with out have "holds_some re (batch_extends s0) \<sigma>'"
      by (auto simp: returned_ok_def split: sum.splits option.splits)
    with False show ?thesis by (auto simp: holds_some_def holding_def)
  next
    case True
    with out obtain t where t: "r = Inr (Some t)"
      "holding re (\<lambda>s. batch_extends s0 s \<and> all_accounted s \<and> ended_as s) t \<sigma>'"
      by (auto simp: returned_ok_def)
    then have k: "confirmed require_batch_plan (re_session re) (st_dir (rn_store (bm_runner \<sigma>'))) t"
      "batch_extends s0 t" "all_accounted t" "ended_as t" by (simp_all add: holding_def)
    have "list_all (ports_accounted (sk_plan t)) (sk_endpoints t)" "sk_plan t = sk_plan s0"
      using holding_good [OF assms(1) t(2)] k(2)
      by (simp_all add: good_checkpoint_def wf_checkpoint_def batch_extends_def)
    with k show ?thesis
      by (auto simp: t(1) all_accounted_def completed_rule_def ports_accounted_def list_all_iff ended_as_def
          endpoint_errors_empty)
  qed
qed

theorem resume_batch_accounts_witness:
  "\<exists>d. \<forall>io cancel factory moves. \<exists>s.
     confirmed require_batch_plan sample_env (st_dir (rn_store (bm_runner (snd
       (resume_batch sample_runner factory None moves (batch_memory_of d io cancel)))))) s \<and>
     batch_extends sample_checkpoint s"
proof -
  from sample_batch_confirmed obtain d where d: "confirmed require_batch_plan sample_env d sample_checkpoint" ..
  have "\<exists>s. confirmed require_batch_plan sample_env (st_dir (rn_store (bm_runner (snd
       (resume_batch sample_runner factory None moves (batch_memory_of d io cancel)))))) s \<and>
     batch_extends sample_checkpoint s" for io cancel factory moves
  proof -
    let ?\<sigma> = "batch_memory_of d io cancel"
    obtain r \<sigma>' where r: "resume_batch sample_runner factory None moves ?\<sigma> = (r, \<sigma>')" by (meson surj_pair)
    have "confirmed require_batch_plan (re_session sample_runner) (st_dir (rn_store (bm_runner ?\<sigma>))) sample_checkpoint"
      using d by (simp add: sample_runner_def batch_memory_of_def)
    from resume_batch_accounts [OF sample_runner_ok this r]
    show ?thesis unfolding r snd_conv by (auto simp: sample_runner_def)
  qed
  then show ?thesis by blast
qed

end
