(* ===== verification/Session_Database.thy ===== *)
theory Session_Database
  imports Checkpoint_Store
begin

text \<open>
  \<open>src/session_store_v2.py\<close>: the transactional store of sessions over SQLite. A table is the list
  of its rows in the order of insertion; the column \<open>session_id\<close> is left out, since the only row
  of \<open>session_state\<close> is never replaced and every other row refers to it, and so are the columns
  that only record the clock of the machine. What SQLite and the file system may do to an
  operation is a list of outcomes: each connection, each \<open>BEGIN\<close>, \<open>COMMIT\<close>, reading and
  protection of the files consumes one.
\<close>

section \<open>Tables\<close>

record session_row =
  sw_session_id :: string
  sw_plan_json :: string
  sw_plan_fingerprint :: string
  sw_status :: string
  sw_created_at :: string
  sw_updated_at :: string
  sw_sequence :: int
  sw_last_error :: "string option"
  sw_checkpoint_sha256 :: "string option"
  sw_state_digest :: string

record endpoint_row =
  ew_endpoint_id :: int
  ew_requested :: string
  ew_address :: string
  ew_family :: string
  ew_canonical_name :: pyval
  ew_source :: pyval
  ew_error :: "string option"

record result_row =
  rw_endpoint_id :: int
  rw_protocol :: string
  rw_port :: int
  rw_json :: string
  rw_sha256 :: string

record history_row =
  yw_sequence :: int
  yw_status :: string
  yw_state_digest :: string

record event_row =
  vw_sequence :: int
  vw_type :: string
  vw_json :: string
  vw_sha256 :: string

record database =
  db_state :: "session_row option"
  db_endpoints :: "endpoint_row list"
  db_results :: "result_row list"
  db_banners :: "(int \<times> int) list"
  db_history :: "history_row list"
  db_events :: "event_row list"

definition empty_database :: database where
  "empty_database =
     \<lparr>db_state = None, db_endpoints = [], db_results = [], db_banners = [], db_history = [],
      db_events = []\<rparr>"

section \<open>Transactions\<close>

text \<open>
  The program may end at any outcome; at a \<open>COMMIT\<close> the flag says whether the transaction had
  become durable.
\<close>

datatype tx_outcome = Tx_ok | Tx_error | Tx_kill bool

record v2_state =
  v2_db :: database
  v2_cache :: "scan_plan option"
  v2_io :: "tx_outcome list"

type_synonym 'a v2_action = "(v2_state, 'a) action"

definition next_tx :: "v2_state \<Rightarrow> tx_outcome \<times> v2_state" where
  "next_tx \<sigma> = (case v2_io \<sigma> of [] \<Rightarrow> (Tx_ok, \<sigma>) | t # ts \<Rightarrow> (t, \<sigma>\<lparr>v2_io := ts\<rparr>))"

definition tx_point :: "exc \<Rightarrow> unit v2_action" where
  "tx_point e = (\<lambda>\<sigma>.
     case next_tx \<sigma> of
       (Tx_ok, \<tau>) \<Rightarrow> (Inr (), \<tau>)
     | (Tx_error, \<tau>) \<Rightarrow> (Inl e, \<tau>)
     | (Tx_kill _, \<tau>) \<Rightarrow> (Inl Killed, \<tau>))"

text \<open>\<open>finally: connection.close(); self._protect_sqlite_files()\<close>.\<close>

definition protecting :: "'a v2_action \<Rightarrow> 'a v2_action" where
  "protecting m = (\<lambda>\<sigma>.
     case m \<sigma> of
       (r, \<tau>) \<Rightarrow>
         if r = Inl Killed then (r, \<tau>)
         else (case tx_point SessionStoreV2Error \<tau> of
                 (Inl e, \<tau>') \<Rightarrow> (Inl e, \<tau>')
               | (Inr _, \<tau>') \<Rightarrow> (r, \<tau>')))"

definition commit_tx :: "database \<Rightarrow> 'a \<Rightarrow> 'a v2_action" where
  "commit_tx old x = (\<lambda>\<sigma>.
     case next_tx \<sigma> of
       (Tx_ok, \<tau>) \<Rightarrow> (Inr x, \<tau>)
     | (Tx_error, \<tau>) \<Rightarrow> (Inl SessionStoreV2Error, \<tau>\<lparr>v2_db := old\<rparr>)
     | (Tx_kill True, \<tau>) \<Rightarrow> (Inl Killed, \<tau>)
     | (Tx_kill False, \<tau>) \<Rightarrow> (Inl Killed, \<tau>\<lparr>v2_db := old\<rparr>))"

definition caught_write :: "exc \<Rightarrow> exc" where
  "caught_write e =
     (if e \<in> {DatabaseError, SessionContractError, FileNotFoundError, OSError} then SessionStoreV2Error else e)"

definition caught_read :: "exc \<Rightarrow> exc" where
  "caught_read e =
     (if e = SessionContractError then SessionCheckpointCompatibilityError
      else if e = DatabaseError then SessionStoreV2IntegrityError else e)"

text \<open>An exception inside the transaction rolls the tables back; the cache of the object stays.\<close>

definition transaction :: "'a v2_action \<Rightarrow> 'a v2_action" where
  "transaction body =
     thenS (tx_point DatabaseError) (\<lambda>_. protecting (\<lambda>\<sigma>.
       case thenS (tx_point DatabaseError) (\<lambda>_. body) \<sigma> of
         (Inl e, \<tau>) \<Rightarrow> (Inl (caught_write e), \<tau>\<lparr>v2_db := v2_db \<sigma>\<rparr>)
       | (Inr x, \<tau>) \<Rightarrow> commit_tx (v2_db \<sigma>) x \<tau>))"

definition reading :: "'a v2_action \<Rightarrow> 'a v2_action" where
  "reading body =
     thenS (tx_point DatabaseError) (\<lambda>_. protecting (\<lambda>\<sigma>.
       case thenS (tx_point DatabaseError) (\<lambda>_. body) \<sigma> of
         (Inl e, \<tau>) \<Rightarrow> (Inl (caught_read e), \<tau>)
       | (Inr x, \<tau>) \<Rightarrow> (Inr x, \<tau>)))"

definition on_tables :: "(database \<Rightarrow> exc + database \<times> 'a) \<Rightarrow> 'a v2_action" where
  "on_tables f = (\<lambda>\<sigma>.
     case f (v2_db \<sigma>) of
       Inl e \<Rightarrow> (Inl e, \<sigma>)
     | Inr (db, x) \<Rightarrow> (Inr x, \<sigma>\<lparr>v2_db := db\<rparr>))"

definition has_session :: "bool v2_action" where
  "has_session =
     thenS (tx_point DatabaseError) (\<lambda>_.
     thenS (tx_point SessionStoreV2IntegrityError) (\<lambda>_ \<sigma>.
       (Inr (db_state (v2_db \<sigma>) \<noteq> None), \<sigma>)))"

section \<open>Plans and digests\<close>

definition v2_sha :: "session_env \<Rightarrow> string \<Rightarrow> string" where
  "v2_sha env document = env_sha256 env (env_encode env document)"

definition cache_plan :: "scan_plan \<Rightarrow> unit v2_action" where
  "cache_plan p = (\<lambda>\<sigma>. (Inr (), \<sigma>\<lparr>v2_cache := Some p\<rparr>))"

definition plan_from_state :: "plan_scope \<Rightarrow> session_env \<Rightarrow> session_row \<Rightarrow> scan_plan v2_action" where
  "plan_from_state scope env row = (\<lambda>\<sigma>.
     if (case v2_cache \<sigma> of None \<Rightarrow> False | Some p \<Rightarrow> fingerprint env p = sw_plan_fingerprint row)
     then (Inr (the (v2_cache \<sigma>)), \<sigma>)
     else
       thenS (pureS (scan_plan_from_json env (sw_plan_json row))) (\<lambda>p.
       thenS (pureS (scope p)) (\<lambda>_.
         if fingerprint env p \<noteq> sw_plan_fingerprint row
         then pureS (Inl SessionStoreV2IntegrityError)
         else thenS (cache_plan p) (\<lambda>_. pureS (Inr p)))) \<sigma>)"

definition state_digest ::
    "session_env \<Rightarrow> string \<Rightarrow> string \<Rightarrow> int \<Rightarrow> string \<Rightarrow> string \<Rightarrow> string list \<Rightarrow> int option
     \<Rightarrow> exc + string" where
  "state_digest env previous session_id sequence status updated_at digests banner_port =
     bindE (deterministic_json env (obj
       [(''banner_port'', case banner_port of None \<Rightarrow> PNone | Some p \<Rightarrow> PInt p),
        (''previous'', PStr previous),
        (''result_digests'', PList (map PStr digests)),
        (''sequence'', PInt sequence),
        (''session_id'', PStr session_id),
        (''status'', PStr status),
        (''updated_at'', PStr updated_at)])) (\<lambda>document. Inr (v2_sha env document))"

text \<open>SQLite refuses to bind an integer of more than 64 bits.\<close>

definition bind_int :: "int \<Rightarrow> exc + unit" where
  "bind_int n = (if - (2 ^ 63) \<le> n \<and> n < 2 ^ 63 then Inr () else Inl OverflowError)"

section \<open>Statements\<close>

definition same_event :: "int \<Rightarrow> string \<Rightarrow> event_row \<Rightarrow> bool" where
  "same_event sequence type w \<longleftrightarrow> vw_sequence w = sequence \<and> vw_type w = type"

text \<open>\<open>INSERT ... ON CONFLICT DO UPDATE\<close>.\<close>

definition upsert :: "('r \<Rightarrow> bool) \<Rightarrow> 'r \<Rightarrow> 'r list \<Rightarrow> 'r list" where
  "upsert same row rows =
     (if list_ex same rows then map (\<lambda>w. if same w then row else w) rows else rows @ [row])"

definition insert_event ::
    "session_env \<Rightarrow> int \<Rightarrow> string \<Rightarrow> pyval \<Rightarrow> database \<Rightarrow> exc + database" where
  "insert_event env sequence type payload db =
     bindE (deterministic_json env payload) (\<lambda>document.
       Inr (db\<lparr>db_events := upsert (same_event sequence type)
         \<lparr>vw_sequence = sequence, vw_type = type, vw_json = document, vw_sha256 = v2_sha env document\<rparr>
         (db_events db)\<rparr>))"

definition same_generation :: "int \<Rightarrow> history_row \<Rightarrow> bool" where
  "same_generation sequence w \<longleftrightarrow> yw_sequence w = sequence"

definition endpoint_row_key :: "endpoint_row \<Rightarrow> string \<times> string \<times> string" where
  "endpoint_row_key w = (ew_requested w, ew_address w, ew_family w)"

definition new_endpoint_row :: "int \<Rightarrow> endpoint_progress \<Rightarrow> endpoint_row" where
  "new_endpoint_row i e =
     (let t = ep_identity e
      in \<lparr>ew_endpoint_id = i, ew_requested = ti_requested t, ew_address = ti_address t,
          ew_family = address_family_value (ti_family t), ew_canonical_name = ti_canonical_name t,
          ew_source = ti_source t, ew_error = ep_error e\<rparr>)"

text \<open>A new row takes the next identifier; the rows of a session are never deleted.\<close>

fun insert_endpoints :: "endpoint_progress list \<Rightarrow> endpoint_row list \<Rightarrow> exc + endpoint_row list" where
  "insert_endpoints [] rows = Inr rows"
| "insert_endpoints (e # es) rows =
     (let row = new_endpoint_row (int (length rows) + 1) e
      in if endpoint_row_key row \<in> set (map endpoint_row_key rows) then Inl DatabaseError
         else insert_endpoints es (rows @ [row]))"

definition results_of :: "database \<Rightarrow> int \<Rightarrow> result_row list" where
  "results_of db i = [w \<leftarrow> db_results db. rw_endpoint_id w = i]"

definition banners_of :: "database \<Rightarrow> int \<Rightarrow> int list" where
  "banners_of db i = map snd [w \<leftarrow> db_banners db. fst w = i]"

definition row_key :: "result_row \<Rightarrow> string \<times> int" where
  "row_key w = (rw_protocol w, rw_port w)"

definition same_result :: "int \<Rightarrow> string \<times> int \<Rightarrow> result_row \<Rightarrow> bool" where
  "same_result i k w \<longleftrightarrow> rw_endpoint_id w = i \<and> row_key w = k"

definition new_result_row :: "session_env \<Rightarrow> int \<Rightarrow> scan_result \<Rightarrow> exc + result_row" where
  "new_result_row env i r =
     bindE (deterministic_json env (scan_result_to_dict r)) (\<lambda>document.
       Inr \<lparr>rw_endpoint_id = i, rw_protocol = sr_protocol r, rw_port = sr_port r, rw_json = document,
            rw_sha256 = v2_sha env document\<rparr>)"

section \<open>\<open>persist\<close>\<close>

record store_commit =
  cm_session_id :: string
  cm_sequence :: int
  cm_plan_fingerprint :: string
  cm_checkpoint_sha256 :: "string option"
  cm_completed_ports :: int
  cm_total_ports :: int
  cm_status :: string

definition checkpoint_commit :: "session_env \<Rightarrow> string \<Rightarrow> session_checkpoint \<Rightarrow> store_commit" where
  "checkpoint_commit env sha s =
     \<lparr>cm_session_id = sk_session_id s, cm_sequence = sk_sequence s,
      cm_plan_fingerprint = fingerprint env (sk_plan s), cm_checkpoint_sha256 = Some sha,
      cm_completed_ports = count_completed s,
      cm_total_ports = int (length (sp_ports (sk_plan s)) * length (sk_endpoints s)),
      cm_status = session_status_value (sk_status s)\<rparr>"

definition insert_session ::
    "session_env \<Rightarrow> string \<Rightarrow> session_checkpoint \<Rightarrow> database \<Rightarrow> exc + database" where
  "insert_session env sha s db =
     bindE (scan_plan_to_json env (sk_plan s)) (\<lambda>plan_json.
     bindE (bind_int (sk_sequence s)) (\<lambda>_.
     bindE (insert_endpoints (sk_endpoints s) (db_endpoints db)) (\<lambda>rows.
       Inr (db\<lparr>db_state := Some
         \<lparr>sw_session_id = sk_session_id s, sw_plan_json = plan_json,
          sw_plan_fingerprint = fingerprint env (sk_plan s),
          sw_status = session_status_value (sk_status s), sw_created_at = sk_created_at s,
          sw_updated_at = sk_updated_at s, sw_sequence = sk_sequence s,
          sw_last_error = sk_last_error s, sw_checkpoint_sha256 = Some sha,
          sw_state_digest = sha\<rparr>, db_endpoints := rows\<rparr>))))"

text \<open>Whether the checkpoint is the one that is confirmed already.\<close>

definition check_transition ::
    "session_env \<Rightarrow> string \<Rightarrow> session_checkpoint \<Rightarrow> session_row \<Rightarrow> exc + bool" where
  "check_transition env sha s row =
     (if sw_session_id row \<noteq> sk_session_id s then Inl SessionStoreV2Error
      else if sw_plan_fingerprint row \<noteq> fingerprint env (sk_plan s) then Inl SessionStoreV2Error
      else if sk_sequence s < sw_sequence row then Inl SessionStoreV2Error
      else if sk_sequence s > sw_sequence row + 1 then Inl SessionStoreV2Error
      else if sk_sequence s = sw_sequence row
      then if sw_checkpoint_sha256 row \<noteq> Some sha then Inl SessionStoreV2Error else Inr True
      else Inr False)"

fun write_results ::
    "session_env \<Rightarrow> int \<Rightarrow> result_row list \<Rightarrow> scan_result list \<Rightarrow> result_row list
     \<Rightarrow> exc + result_row list" where
  "write_results env i existing [] rows = Inr rows"
| "write_results env i existing (r # rs) rows =
     bindE (new_result_row env i r) (\<lambda>row.
       if list_ex (\<lambda>w. row_key w = row_key row \<and> rw_sha256 w = rw_sha256 row) existing
       then write_results env i existing rs rows
       else write_results env i existing rs (upsert (same_result i (row_key row)) row rows))"

definition write_endpoint ::
    "session_env \<Rightarrow> endpoint_progress \<Rightarrow> database \<Rightarrow> exc + database" where
  "write_endpoint env e db =
     (case find (\<lambda>w. endpoint_row_key w = endpoint_key (ep_identity e)) (db_endpoints db) of
        None \<Rightarrow> Inl SessionStoreV2IntegrityError
      | Some w \<Rightarrow>
          let i = ew_endpoint_id w
          in bindE (write_results env i (results_of db i) (ep_completed_results e) (db_results db))
               (\<lambda>rows.
               if \<not> set (map row_key (results_of db i)) \<subseteq>
                    set (map session_result_key (ep_completed_results e))
               then Inl SessionStoreV2Error
               else if \<not> set (banners_of db i) \<subseteq> set (ep_completed_banner_ports e)
               then Inl SessionStoreV2Error
               else Inr (db\<lparr>db_results := rows,
                 db_banners := db_banners db @
                   map (Pair i) [p \<leftarrow> ep_completed_banner_ports e. p \<notin> set (banners_of db i)],
                 db_endpoints := map (\<lambda>w. if ew_endpoint_id w = i then w\<lparr>ew_error := ep_error e\<rparr> else w)
                   (db_endpoints db)\<rparr>)))"

fun write_endpoints :: "session_env \<Rightarrow> endpoint_progress list \<Rightarrow> database \<Rightarrow> exc + database" where
  "write_endpoints env [] db = Inr db"
| "write_endpoints env (e # es) db = bindE (write_endpoint env e db) (write_endpoints env es)"

definition update_state ::
    "string \<Rightarrow> string \<Rightarrow> int \<Rightarrow> string option \<Rightarrow> string option \<Rightarrow> string \<Rightarrow> database \<Rightarrow> database" where
  "update_state status updated_at sequence last_error sha digest db =
     db\<lparr>db_state := map_option (\<lambda>row. row\<lparr>sw_status := status, sw_updated_at := updated_at,
       sw_sequence := sequence, sw_last_error := last_error, sw_checkpoint_sha256 := sha,
       sw_state_digest := digest\<rparr>) (db_state db)\<rparr>"

definition confirm_checkpoint ::
    "session_env \<Rightarrow> string \<Rightarrow> session_checkpoint \<Rightarrow> database \<Rightarrow> exc + database" where
  "confirm_checkpoint env sha s db =
     (if length (db_endpoints db) \<noteq> length (sk_endpoints s) then Inl SessionStoreV2IntegrityError
      else
        bindE (write_endpoints env (sk_endpoints s) db) (\<lambda>db.
        bindE (bind_int (sk_sequence s)) (\<lambda>_.
        let db = update_state (session_status_value (sk_status s)) (sk_updated_at s) (sk_sequence s)
              (sk_last_error s) (Some sha) sha db;
            db = db\<lparr>db_history := upsert (same_generation (sk_sequence s))
              \<lparr>yw_sequence = sk_sequence s, yw_status = session_status_value (sk_status s),
               yw_state_digest = sha\<rparr> (db_history db)\<rparr>
        in insert_event env (sk_sequence s) ''checkpoint_confirmed'' (obj
             [(''checkpoint_sha256'', PStr sha),
              (''completed_ports'', PInt (count_completed s)),
              (''status'', PStr (session_status_value (sk_status s)))]) db)))"

text \<open>The transaction says whether the checkpoint was confirmed before it.\<close>

definition persist_tables ::
    "session_env \<Rightarrow> string \<Rightarrow> session_checkpoint \<Rightarrow> database \<Rightarrow> exc + database \<times> bool" where
  "persist_tables env sha s db =
     (case db_state db of
        None \<Rightarrow>
          bindE (insert_session env sha s db) (\<lambda>db.
          bindE (confirm_checkpoint env sha s db) (\<lambda>db. Inr (db, False)))
      | Some row \<Rightarrow>
          bindE (check_transition env sha s row) (\<lambda>same.
            if same then Inr (db, True)
            else bindE (confirm_checkpoint env sha s db) (\<lambda>db. Inr (db, False))))"

section \<open>\<open>load\<close>\<close>

definition read_result :: "session_env \<Rightarrow> result_row \<Rightarrow> exc + (pyval \<times> pyval) list" where
  "read_result env w =
     (if v2_sha env (rw_json w) \<noteq> rw_sha256 w then Inl SessionStoreV2IntegrityError
      else case json_loads (env_float env) (rw_json w) of
             Some (PDict d) \<Rightarrow> Inr d
           | _ \<Rightarrow> Inl SessionStoreV2IntegrityError)"

definition result_port :: "(pyval \<times> pyval) list \<Rightarrow> exc + int" where
  "result_port d = bindE (dict_at d ''port'') py_int"

definition read_endpoint ::
    "session_env \<Rightarrow> scan_plan \<Rightarrow> database \<Rightarrow> endpoint_row \<Rightarrow> exc + endpoint_progress" where
  "read_endpoint env p db w =
     bindE (map_err (read_result env) (sort_key row_key (results_of db (ew_endpoint_id w)))) (\<lambda>ds.
     bindE (map_err result_port ds) (\<lambda>completed.
       endpoint_progress_init env
         (Inr (obj [(''requested'', PStr (ew_requested w)), (''address'', PStr (ew_address w)),
           (''family'', PStr (ew_family w)), (''canonical_name'', ew_canonical_name w),
           (''source'', ew_source w)]))
         (PList (map PDict ds))
         (PList (map PInt [q \<leftarrow> sp_ports p. q \<notin> set completed]))
         (PList (map PInt (sort (banners_of db (ew_endpoint_id w)))))
         (str_or_none (ew_error w)) (PInt 1)))"

definition read_checkpoint ::
    "session_env \<Rightarrow> scan_plan \<Rightarrow> session_row \<Rightarrow> database \<Rightarrow> exc + session_checkpoint" where
  "read_checkpoint env p row db =
     bindE (map_err (read_endpoint env p db) (db_endpoints db)) (\<lambda>es.
       case find (same_generation (sw_sequence row)) (db_history db) of
         None \<Rightarrow> Inl SessionStoreV2IntegrityError
       | Some h \<Rightarrow>
           if yw_state_digest h \<noteq> sw_state_digest row then Inl SessionStoreV2IntegrityError
           else
             bindE (session_checkpoint_init env (PStr (sw_session_id row)) (Inl p)
               (PStr (sw_status row)) (Inl es) (PStr (sw_created_at row)) (PStr (sw_updated_at row))
               (PInt (sw_sequence row)) (str_or_none (sw_last_error row)) (PInt 1)) (\<lambda>s.
             bindE (checkpoint_to_json env s) (\<lambda>document.
               if sw_checkpoint_sha256 row \<noteq> None \<and>
                  sw_checkpoint_sha256 row \<noteq> Some (v2_sha env document)
               then Inl SessionStoreV2IntegrityError else Inr s)))"

definition v2_load :: "plan_scope \<Rightarrow> session_env \<Rightarrow> session_checkpoint v2_action" where
  "v2_load scope env = reading (\<lambda>\<sigma>.
     case db_state (v2_db \<sigma>) of
       None \<Rightarrow> (Inl SessionCheckpointNotFoundError, \<sigma>)
     | Some row \<Rightarrow>
         thenS (plan_from_state scope env row) (\<lambda>p \<sigma>.
           (read_checkpoint env p row (v2_db \<sigma>), \<sigma>)) \<sigma>)"

definition v2_persist ::
    "plan_scope \<Rightarrow> session_env \<Rightarrow> session_checkpoint \<Rightarrow> store_commit v2_action" where
  "v2_persist scope env s =
     thenS (pureS (scope (sk_plan s))) (\<lambda>_.
     thenS (cache_plan (sk_plan s)) (\<lambda>_.
     thenS (pureS (checkpoint_to_json env s)) (\<lambda>document.
     let sha = v2_sha env document in
     thenS (tx_point SessionStoreV2Error) (\<lambda>_.
     thenS (transaction (on_tables (persist_tables env sha s))) (\<lambda>same.
       if same then pureS (Inr (checkpoint_commit env sha s))
       else
         thenS (v2_load scope env) (\<lambda>t.
         thenS (pureS (checkpoint_to_json env t)) (\<lambda>document'.
           if document' \<noteq> document then pureS (Inl SessionStoreV2IntegrityError)
           else pureS (Inr (checkpoint_commit env sha s)))))))))"

section \<open>Incremental commits\<close>

datatype durability = Strict | Balanced

definition result_batch_size :: "durability \<Rightarrow> nat" where
  "result_batch_size profile = (case profile of Strict \<Rightarrow> 1 | Balanced \<Rightarrow> 128)"

definition utc_instant :: "session_env \<Rightarrow> exc \<Rightarrow> string \<Rightarrow> exc + int" where
  "utc_instant env err text =
     (if \<not> ends_with ''Z'' text then Inl err
      else case env_iso_read env (butlast text @ ''+00:00'') of
             None \<Rightarrow> Inl err
           | Some (offset, instant) \<Rightarrow> if offset \<noteq> Some 0 then Inl err else Inr instant)"

definition validated_utc_timestamp :: "session_env \<Rightarrow> string \<Rightarrow> string \<Rightarrow> exc + string" where
  "validated_utc_timestamp env text previous =
     bindE (utc_instant env SessionStoreV2Error text) (\<lambda>parsed.
     bindE (utc_instant env SessionStoreV2IntegrityError previous) (\<lambda>earlier.
       if parsed < earlier then Inl SessionStoreV2Error else Inr text))"

text \<open>What both incremental operations check before they look for the endpoint.\<close>

definition open_state :: "session_env \<Rightarrow> string \<Rightarrow> database \<Rightarrow> exc + session_row" where
  "open_state env updated_at db =
     (case db_state db of
        None \<Rightarrow> Inl SessionCheckpointNotFoundError
      | Some row \<Rightarrow>
          bindE (coerce_enum session_statuses session_status_value (PStr (sw_status row))) (\<lambda>status.
            if is_terminal status then Inl SessionStoreV2Error
            else bindE (validated_utc_timestamp env updated_at (sw_updated_at row)) (\<lambda>_. Inr row)))"

definition find_endpoint :: "target_identity \<Rightarrow> database \<Rightarrow> exc + endpoint_row" where
  "find_endpoint t db =
     (case find (\<lambda>w. endpoint_row_key w = endpoint_key t) (db_endpoints db) of
        None \<Rightarrow> Inl SessionStoreV2Error
      | Some w \<Rightarrow> Inr w)"

fun insert_results ::
    "session_env \<Rightarrow> int list \<Rightarrow> target_identity \<Rightarrow> int \<Rightarrow> pyval list \<Rightarrow> (string \<times> int) list
     \<Rightarrow> result_row list \<Rightarrow> exc + result_row list \<times> string list" where
  "insert_results env allowed t i [] seen rows = Inr (rows, [])"
| "insert_results env allowed t i (v # vs) seen rows =
     bindE (canonicalize_port_result env v t) (\<lambda>r.
       if session_result_key r \<in> set seen then Inl SessionStoreV2Error
       else if sr_port r \<notin> set allowed then Inl SessionStoreV2Error
       else
         bindE (new_result_row env i r) (\<lambda>row.
           if list_ex (same_result i (row_key row)) rows then Inl SessionStoreV2Error
           else
             bindE (insert_results env allowed t i vs (session_result_key r # seen) (rows @ [row]))
               (\<lambda>(rows, digests). Inr (rows, rw_sha256 row # digests))))"

definition insert_history :: "history_row \<Rightarrow> database \<Rightarrow> exc + database" where
  "insert_history h db =
     (if list_ex (same_generation (yw_sequence h)) (db_history db) then Inl DatabaseError
      else Inr (db\<lparr>db_history := db_history db @ [h]\<rparr>))"

text \<open>The end of both: the new state, its place in the history and its event.\<close>

definition advance_state ::
    "session_env \<Rightarrow> session_row \<Rightarrow> string \<Rightarrow> int \<Rightarrow> string option \<Rightarrow> string list \<Rightarrow> int option
     \<Rightarrow> string \<Rightarrow> (string \<Rightarrow> int \<Rightarrow> pyval) \<Rightarrow> database \<Rightarrow> exc + database \<times> int" where
  "advance_state env row updated_at sequence last_error digests banner_port type payload db =
     bindE (state_digest env (sw_state_digest row) (sw_session_id row) sequence ''running'' updated_at
       digests banner_port) (\<lambda>digest.
     bindE (bind_int sequence) (\<lambda>_.
     bindE (insert_history \<lparr>yw_sequence = sequence, yw_status = ''running'', yw_state_digest = digest\<rparr>
       (update_state ''running'' updated_at sequence last_error None digest db)) (\<lambda>db.
     let completed = int (length (db_results db)) in
     bindE (insert_event env sequence type (payload digest completed) db) (\<lambda>db.
       Inr (db, completed)))))"

definition incremental_commit ::
    "session_row \<Rightarrow> scan_plan \<Rightarrow> int \<Rightarrow> int \<Rightarrow> store_commit" where
  "incremental_commit row p sequence completed =
     \<lparr>cm_session_id = sw_session_id row, cm_sequence = sequence,
      cm_plan_fingerprint = sw_plan_fingerprint row, cm_checkpoint_sha256 = None,
      cm_completed_ports = completed,
      cm_total_ports = int (length (sp_ports p) * length (sp_resolved_targets p)),
      cm_status = ''running''\<rparr>"

definition append_tables ::
    "session_env \<Rightarrow> scan_plan \<Rightarrow> target_identity \<Rightarrow> pyval list \<Rightarrow> string \<Rightarrow> string option
     \<Rightarrow> session_row \<Rightarrow> database \<Rightarrow> exc + database \<times> store_commit" where
  "append_tables env p t batch updated_at last_error row db =
     bindE (find_endpoint t db) (\<lambda>w.
     bindE (insert_results env (sp_ports p) t (ew_endpoint_id w) batch [] (db_results db))
       (\<lambda>(rows, digests).
     let sequence = sw_sequence row + int (length batch) in
     bindE (advance_state env row updated_at sequence last_error digests None
       ''result_batch_confirmed'' (\<lambda>digest completed. obj
         [(''completed_ports'', PInt completed), (''result_count'', PInt (int (length batch))),
          (''state_digest'', PStr digest)]) (db\<lparr>db_results := rows\<rparr>)) (\<lambda>(db, completed).
       Inr (db, incremental_commit row p sequence completed))))"

definition append_results ::
    "plan_scope \<Rightarrow> session_env \<Rightarrow> durability \<Rightarrow> target_identity \<Rightarrow> pyval list \<Rightarrow> string \<Rightarrow> string
     \<Rightarrow> string option \<Rightarrow> store_commit v2_action" where
  "append_results scope env profile t batch updated_at status last_error =
     (if batch = [] then pureS (Inl SessionStoreV2Error)
      else if length batch > result_batch_size profile then pureS (Inl SessionStoreV2Error)
      else
        thenS (pureS (map_err (deterministic_json env) batch)) (\<lambda>_.
        thenS (tx_point SessionStoreV2Error) (\<lambda>_.
          transaction (\<lambda>\<sigma>.
            thenS (pureS (open_state env updated_at (v2_db \<sigma>))) (\<lambda>row.
              if status \<noteq> ''running'' then pureS (Inl SessionStoreV2Error)
              else
                thenS (plan_from_state scope env row) (\<lambda>p.
                  on_tables (append_tables env p t batch updated_at last_error row))) \<sigma>))))"

definition set_banner_field :: "string option \<Rightarrow> (pyval \<times> pyval) list \<Rightarrow> (pyval \<times> pyval) list" where
  "set_banner_field banner d =
     upsert (\<lambda>(k, _). k = PStr ''banner'')
       (PStr ''banner'', if banner = Some [] then PNone else str_or_none banner) d"

definition confirmed_row :: "int \<Rightarrow> int \<Rightarrow> database \<Rightarrow> exc + result_row" where
  "confirmed_row i port db =
     (case find (same_result i (''tcp'', port)) (db_results db) of
        None \<Rightarrow> Inl SessionStoreV2Error
      | Some w \<Rightarrow> Inr w)"

definition payload_of :: "session_env \<Rightarrow> result_row \<Rightarrow> exc + (pyval \<times> pyval) list" where
  "payload_of env w =
     (case json_loads (env_float env) (rw_json w) of
        None \<Rightarrow> Inl SessionStoreV2Error
      | Some v \<Rightarrow> (case v of PDict d \<Rightarrow> Inr d | _ \<Rightarrow> Inl TypeError))"

definition replace_row :: "int \<Rightarrow> int \<Rightarrow> result_row \<Rightarrow> result_row \<Rightarrow> result_row" where
  "replace_row i port new w =
     (if same_result i (''tcp'', port) w then w\<lparr>rw_json := rw_json new, rw_sha256 := rw_sha256 new\<rparr>
      else w)"

definition complete_tables ::
    "session_env \<Rightarrow> scan_plan \<Rightarrow> target_identity \<Rightarrow> int \<Rightarrow> string option \<Rightarrow> string \<Rightarrow> session_row
     \<Rightarrow> database \<Rightarrow> exc + database \<times> store_commit" where
  "complete_tables env p t port banner updated_at row db =
     bindE (find_endpoint t db) (\<lambda>w.
     bindE (confirmed_row (ew_endpoint_id w) port db) (\<lambda>old.
     bindE (payload_of env old) (\<lambda>d.
     bindE (canonicalize_port_result env (PDict (set_banner_field banner d)) t) (\<lambda>r.
     bindE (new_result_row env (ew_endpoint_id w) r) (\<lambda>new.
       if port \<in> set (banners_of db (ew_endpoint_id w)) then Inl SessionStoreV2Error
       else
         bindE (advance_state env row updated_at (sw_sequence row + 1) None [rw_sha256 new]
           (Some port) ''banner_confirmed'' (\<lambda>digest completed. obj
             [(''completed_ports'', PInt completed), (''port'', PInt port),
              (''result_sha256'', PStr (rw_sha256 new))])
           (db\<lparr>db_results := map (replace_row (ew_endpoint_id w) port new) (db_results db),
               db_banners := db_banners db @ [(ew_endpoint_id w, port)]\<rparr>)) (\<lambda>(db, completed).
           Inr (db, incremental_commit row p (sw_sequence row + 1) completed)))))))"

definition complete_banner ::
    "plan_scope \<Rightarrow> session_env \<Rightarrow> target_identity \<Rightarrow> int \<Rightarrow> string option \<Rightarrow> string
     \<Rightarrow> store_commit v2_action" where
  "complete_banner scope env t port banner updated_at =
     thenS (tx_point SessionStoreV2Error) (\<lambda>_.
       transaction (\<lambda>\<sigma>.
         thenS (pureS (open_state env updated_at (v2_db \<sigma>))) (\<lambda>row.
         thenS (plan_from_state scope env row) (\<lambda>p.
           on_tables (complete_tables env p t port banner updated_at row))) \<sigma>))"

end
