(* ===== verification/Session_Tables.thy ===== *)
theory Session_Tables
  imports Session_Database
begin

text \<open>
  What the tables of the transactional store hold, and that its operations keep it: the tables
  represent one checkpoint, reading them gives exactly that checkpoint back, and each
  transaction either leaves them alone or makes them represent the next one.
\<close>

section \<open>Rows with distinct keys\<close>

lemma upsert_set: "set (upsert same row rows) = {w \<in> set rows. \<not> same w} \<union> {row}"
  by (auto simp: upsert_def list_ex_iff)

lemma upsert_distinct:
  assumes "distinct (map key rows)" "\<And>w. same w \<longleftrightarrow> key w = key row"
  shows "distinct (map key (upsert same row rows))"
proof (cases "list_ex same rows")
  case True
  have "map key (map (\<lambda>w. if same w then row else w) rows) = map key rows"
    by (simp add: assms(2))
  with True assms(1) show ?thesis by (simp add: upsert_def del: map_map)
next
  case False
  with assms show ?thesis by (auto simp: upsert_def list_ex_iff)
qed

text \<open>The rows that hold a sorted list, read in the order of their keys.\<close>

lemma rows_in_order:
  assumes "set rows = f ` set xs" "distinct (map k rows)" "sorted (map (k \<circ> f) xs)"
    "distinct (map (k \<circ> f) xs)"
  shows "sort_key k rows = map f xs"
proof (rule map_sorted_distinct_set_unique [of k])
  show "set (sort_key k rows) = set (map f xs)" using assms(1) by simp
  then show "inj_on k (set (sort_key k rows) \<union> set (map f xs))"
    using assms(2) by (simp add: distinct_map)
  show "sorted (map k (sort_key k rows))" "sorted (map k (map f xs))"
    using assms(3) by simp_all
  show "distinct (map k (sort_key k rows))" using assms(2) by (metis distinct_map_sort_key)
  show "distinct (map k (map f xs))" using assms(4) by simp
qed

lemma sort_set_eq: "distinct xs \<Longrightarrow> set xs = set ys \<Longrightarrow> sorted ys \<Longrightarrow> distinct ys \<Longrightarrow> sort xs = ys"
  by (intro sorted_distinct_set_unique) simp_all

section \<open>What the tables hold\<close>

definition result_text :: "session_env \<Rightarrow> scan_result \<Rightarrow> string" where
  "result_text env r = json_text (env_repr env) (scan_result_to_dict r)"

definition checkpoint_text_of :: "session_env \<Rightarrow> session_checkpoint \<Rightarrow> string" where
  "checkpoint_text_of env s = json_text (env_repr env) (session_checkpoint_to_dict s)"

definition row_of :: "session_env \<Rightarrow> int \<Rightarrow> scan_result \<Rightarrow> result_row" where
  "row_of env i r =
     \<lparr>rw_endpoint_id = i, rw_protocol = sr_protocol r, rw_port = sr_port r,
      rw_json = result_text env r, rw_sha256 = v2_sha env (result_text env r)\<rparr>"

lemma row_of_simps [simp]: "rw_endpoint_id (row_of env i r) = i" "row_key (row_of env i r) = session_result_key r"
  "rw_json (row_of env i r) = result_text env r" "rw_sha256 (row_of env i r) = v2_sha env (result_text env r)"
  by (simp_all add: row_of_def row_key_def session_result_key_def)

definition full_key :: "result_row \<Rightarrow> int \<times> string \<times> int" where
  "full_key w = (rw_endpoint_id w, row_key w)"

definition tables_ok :: "database \<Rightarrow> bool" where
  "tables_ok db \<longleftrightarrow>
     distinct (map full_key (db_results db)) \<and> distinct (db_banners db) \<and>
     distinct (map ew_endpoint_id (db_endpoints db)) \<and>
     rw_endpoint_id ` set (db_results db) \<subseteq> ew_endpoint_id ` set (db_endpoints db)"

definition endpoint_holds ::
    "session_env \<Rightarrow> database \<Rightarrow> endpoint_row \<Rightarrow> endpoint_progress \<Rightarrow> bool" where
  "endpoint_holds env db w e \<longleftrightarrow>
     w = new_endpoint_row (ew_endpoint_id w) e \<and>
     set (results_of db (ew_endpoint_id w)) = row_of env (ew_endpoint_id w) ` set (ep_completed_results e) \<and>
     set (banners_of db (ew_endpoint_id w)) = set (ep_completed_banner_ports e)"

text \<open>The texts of the session, on which the digest has to be injective.\<close>

definition texts_of :: "session_env \<Rightarrow> session_checkpoint \<Rightarrow> string set" where
  "texts_of env s =
     insert (checkpoint_text_of env s)
       (\<Union>e \<in> set (sk_endpoints s). result_text env ` set (ep_completed_results e))"

definition in_plan_order :: "session_checkpoint \<Rightarrow> bool" where
  "in_plan_order s \<longleftrightarrow> map ep_identity (sk_endpoints s) = sp_resolved_targets (sk_plan s)"

text \<open>What a checkpoint needs to be stored, beside the digests of its texts.\<close>

definition v2_shape ::
    "plan_scope \<Rightarrow> session_env \<Rightarrow> scan_plan \<Rightarrow> string \<Rightarrow> session_checkpoint \<Rightarrow> bool" where
  "v2_shape scope env p created s \<longleftrightarrow>
     good_checkpoint scope env s \<and> sk_plan s = p \<and> sk_created_at s = created \<and> in_plan_order s"

definition good_v2 ::
    "plan_scope \<Rightarrow> session_env \<Rightarrow> scan_plan \<Rightarrow> string \<Rightarrow> string set \<Rightarrow> session_checkpoint \<Rightarrow> bool" where
  "good_v2 scope env p created D s \<longleftrightarrow>
     good_checkpoint scope env s \<and> sk_plan s = p \<and> sk_created_at s = created \<and> in_plan_order s \<and>
     texts_of env s \<subseteq> D \<and> inj_on (v2_sha env) D"

definition row_holds :: "session_env \<Rightarrow> session_row \<Rightarrow> session_checkpoint \<Rightarrow> bool" where
  "row_holds env row s \<longleftrightarrow>
     sw_session_id row = sk_session_id s \<and>
     sw_plan_json row = json_text (env_repr env) (scan_plan_to_dict (sk_plan s)) \<and>
     sw_plan_fingerprint row = fingerprint env (sk_plan s) \<and>
     sw_status row = session_status_value (sk_status s) \<and>
     sw_created_at row = sk_created_at s \<and> sw_updated_at row = sk_updated_at s \<and>
     sw_sequence row = sk_sequence s \<and> sw_last_error row = sk_last_error s \<and>
     (sw_checkpoint_sha256 row = None \<or>
      sw_checkpoint_sha256 row = Some (v2_sha env (checkpoint_text_of env s)))"

definition history_ok :: "database \<Rightarrow> session_row \<Rightarrow> bool" where
  "history_ok db row \<longleftrightarrow>
     (\<exists>h. find (same_generation (sw_sequence row)) (db_history db) = Some h \<and>
        yw_state_digest h = sw_state_digest row) \<and>
     (\<forall>h \<in> set (db_history db). yw_sequence h \<le> sw_sequence row)"

definition endpoints_hold :: "session_env \<Rightarrow> database \<Rightarrow> session_checkpoint \<Rightarrow> bool" where
  "endpoints_hold env db s \<longleftrightarrow>
     tables_ok db \<and> list_all2 (endpoint_holds env db) (db_endpoints db) (sk_endpoints s)"

definition stored :: "session_env \<Rightarrow> database \<Rightarrow> session_checkpoint \<Rightarrow> bool" where
  "stored env db s \<longleftrightarrow>
     (\<exists>row. db_state db = Some row \<and> row_holds env row s \<and> history_ok db row) \<and>
     endpoints_hold env db s"

section \<open>Reading back\<close>

lemma scan_result_dict_get:
  assumes "scan_result_to_dict r = PDict d"
  shows "dict_get d ''port'' = Some (PInt (sr_port r))"
  by (simp add: dict_get_of_obj [OF assms [unfolded scan_result_to_dict_def]])

lemma read_row:
  assumes "env_ok env" "wf_port_result t r"
  shows "\<exists>d. read_result env (row_of env i r) = Inr d \<and> PDict d = scan_result_to_dict r \<and>
    result_port d = Inr (sr_port r)"
proof -
  have "repr_ok (env_float env) (env_repr env)" using assms(1) by (simp add: env_ok_def)
  from json_loads_text [OF this json_port_result [OF assms(2)], of "[]"]
  have "json_loads (env_float env) (result_text env r) = Some (scan_result_to_dict r)"
    by (simp add: result_text_def)
  moreover obtain d where "scan_result_to_dict r = PDict d" by (simp add: scan_result_to_dict_def obj_def)
  ultimately show ?thesis
    using scan_result_dict_get by (auto simp: read_result_def result_port_def dict_at_def)
qed

lemma normalize_identity_row:
  assumes "wf_session_identity t"
  shows "normalize_target_identity (Inr (obj [(''requested'', PStr (ti_requested t)),
    (''address'', PStr (ti_address t)), (''family'', PStr (address_family_value (ti_family t))),
    (''canonical_name'', ti_canonical_name t), (''source'', ti_source t)])) = Inr t"
proof -
  from assms have w: "wf_identity t" "sess_string 255 (ti_requested t)"
    "opt_name (ti_canonical_name t)" "opt_name (ti_source t)"
    by (simp_all add: wf_session_identity_def)
  obtain cn src where o: "require_optional_string (ti_canonical_name t) = Inr cn"
    "str_or_none cn = ti_canonical_name t"
    "require_optional_string (ti_source t) = Inr src" "str_or_none src = ti_source t"
    using opt_name_id [OF w(3)] opt_name_id [OF w(4)] by blast
  have "target_identity_init (PStr (ti_requested t)) (PStr (ti_address t))
      (PStr (address_family_value (ti_family t))) (ti_canonical_name t) (ti_source t) = Inr t"
    using wf_identityD [OF w(1)] by (auto simp: target_identity_init_def check_nonblank_def)
  with o w(2) show ?thesis
    by (simp add: normalize_target_identity_def identity_payload_def obj_def require_fields_def
        has_fields_def only_fields_def dict_keys_def dict_at_def dict_get_or_def)
qed

lemma distinct_row_keys:
  assumes "tables_ok db" shows "distinct (map row_key (results_of db i))"
proof -
  have "distinct (map full_key (results_of db i))"
    using assms by (simp add: tables_ok_def results_of_def distinct_map_filter)
  then show ?thesis
    by (auto simp: distinct_map results_of_def inj_on_def full_key_def)
qed

lemma banners_of_mem: "q \<in> set (banners_of db i) \<longleftrightarrow> (i, q) \<in> set (db_banners db)"
  by (force simp: banners_of_def)

lemma distinct_banners_of: "tables_ok db \<Longrightarrow> distinct (banners_of db i)"
  by (auto simp: tables_ok_def banners_of_def distinct_map inj_on_def prod_eq_iff)

lemma read_rows:
  assumes "env_ok env" "list_all (wf_port_result t) rs"
  shows "\<exists>ds. map_err (read_result env) (map (row_of env i) rs) = Inr ds \<and>
    map PDict ds = map scan_result_to_dict rs \<and> map_err result_port ds = Inr (map sr_port rs)"
  using assms(2)
proof (induction rs)
  case (Cons r rs)
  then obtain ds where "map_err (read_result env) (map (row_of env i) rs) = Inr ds"
    "map PDict ds = map scan_result_to_dict rs" "map_err result_port ds = Inr (map sr_port rs)" by auto
  moreover from Cons.prems obtain d where "read_result env (row_of env i r) = Inr d"
    "PDict d = scan_result_to_dict r" "result_port d = Inr (sr_port r)"
    using read_row [OF assms(1), of t r i] by auto
  ultimately show ?case by (intro exI [of _ "d # ds"]) simp
qed simp

lemma pending_of_plan:
  assumes "wf_plan p" "wf_progress e" "ports_accounted p e"
  shows "[q \<leftarrow> sp_ports p. q \<notin> set (ep_completed_ports e)] = ep_pending_ports e"
proof -
  have "sorted (sp_ports p)" "distinct (sp_ports p)" "sorted (ep_pending_ports e)" "distinct (ep_pending_ports e)"
    using assms by (simp_all add: wf_plan_def wf_progress_def port_list_def)
  moreover have "set [q \<leftarrow> sp_ports p. q \<notin> set (ep_completed_ports e)] = set (ep_pending_ports e)"
    using assms by (auto simp: wf_progress_def ports_accounted_def)
  ultimately show ?thesis by (intro sorted_distinct_set_unique) (simp_all add: sorted_wrt_filter)
qed

lemma read_endpoint_holds:
  assumes "env_ok env" "tables_ok db" "endpoint_holds env db w e" "wf_progress e" "wf_plan p" "ports_accounted p e"
  shows "read_endpoint env p db w = Inr e"
proof -
  let ?i = "ew_endpoint_id w"
  have w: "wf_session_identity (ep_identity e)" "list_all (wf_port_result (ep_identity e)) (ep_completed_results e)"
    "sorted (map session_result_key (ep_completed_results e))"
    "distinct (map session_result_key (ep_completed_results e))" "port_list (ep_completed_banner_ports e)"
    using assms(4) by (simp_all add: wf_progress_def)
  have h: "w = new_endpoint_row ?i e" "set (results_of db ?i) = row_of env ?i ` set (ep_completed_results e)"
    "set (banners_of db ?i) = set (ep_completed_banner_ports e)"
    using assms(3) by (simp_all add: endpoint_holds_def)
  have rows: "sort_key row_key (results_of db ?i) = map (row_of env ?i) (ep_completed_results e)"
    using w(3,4) by (intro rows_in_order [OF h(2) distinct_row_keys [OF assms(2)]]) (simp_all add: comp_def)
  have ban: "sort (banners_of db ?i) = ep_completed_banner_ports e"
    using w(5) h(3) distinct_banners_of [OF assms(2)] by (intro sort_set_eq) (simp_all add: port_list_def)
  obtain ds where ds: "map_err (read_result env) (map (row_of env ?i) (ep_completed_results e)) = Inr ds"
    "map PDict ds = map scan_result_to_dict (ep_completed_results e)"
    "map_err result_port ds = Inr (ep_completed_ports e)"
    using read_rows [OF assms(1) w(2)] by (auto simp: ep_completed_ports_def)
  have cols: "ew_requested w = ti_requested (ep_identity e)" "ew_address w = ti_address (ep_identity e)"
    "ew_family w = address_family_value (ti_family (ep_identity e))"
    "ew_canonical_name w = ti_canonical_name (ep_identity e)" "ew_source w = ti_source (ep_identity e)"
    "ew_error w = ep_error e"
    by (subst h(1), simp add: new_endpoint_row_def Let_def)+
  show ?thesis
    unfolding read_endpoint_def rows ban
    using endpoint_progress_init_id [OF assms(4) normalize_identity_row [OF w(1)]]
      pending_of_plan [OF assms(5,4,6)]
    by (simp add: ds cols)
qed

lemma checkpoint_to_json_of: "wf_checkpoint env s \<Longrightarrow> checkpoint_to_json env s = Inr (checkpoint_text_of env s)"
  using json_value_finite [OF json_checkpoint]
  by (simp add: checkpoint_to_json_def deterministic_json_def checkpoint_text_of_def)

lemma read_checkpoint_stored:
  assumes "good_checkpoint scope env s" "stored env db s" "db_state db = Some row"
  shows "read_checkpoint env (sk_plan s) row db = Inr s"
proof -
  have g: "env_ok env" "wf_checkpoint env s" using assms(1) by (simp_all add: good_checkpoint_def)
  have r: "row_holds env row s" "history_ok db row" "tables_ok db"
    "list_all2 (endpoint_holds env db) (db_endpoints db) (sk_endpoints s)"
    using assms(2,3) by (auto simp: stored_def endpoints_hold_def)
  have "list_all2 (\<lambda>w e. read_endpoint env (sk_plan s) db w = Inr e) (db_endpoints db) (sk_endpoints s)"
    using r(4) g by (auto simp: list_all2_conv_all_nth wf_checkpoint_def list_all_length
        intro!: read_endpoint_holds [OF _ r(3)])
  then have "map_err (read_endpoint env (sk_plan s) db) (db_endpoints db) = Inr (sk_endpoints s)"
    by (simp add: map_err_list_all2_iff)
  moreover have "session_checkpoint_init env (PStr (sk_session_id s)) (Inl (sk_plan s))
      (PStr (session_status_value (sk_status s))) (Inl (sk_endpoints s)) (PStr (sk_created_at s))
      (PStr (sk_updated_at s)) (PInt (sk_sequence s)) (str_or_none (sk_last_error s)) (PInt 1) = Inr s"
    by (rule session_checkpoint_init_id [OF g(2)]) (simp_all add: coerce_plan_def coerce_endpoints_def)
  ultimately show ?thesis
    using r(1,2) checkpoint_to_json_of [OF g(2)]
    by (auto simp: read_checkpoint_def row_holds_def history_ok_def)
qed

section \<open>Writing an endpoint\<close>

lemma new_row_ok: "wf_port_result t r \<Longrightarrow> new_result_row env i r = Inr (row_of env i r)"
  using json_value_finite [OF json_port_result]
  by (simp add: new_result_row_def deterministic_json_def row_of_def result_text_def)

text \<open>Replacing the rows of one more key.\<close>

lemma replace_kept:
  "x \<in> R \<Longrightarrow> P x \<Longrightarrow> k x = a \<Longrightarrow> a \<notin> K \<Longrightarrow> (\<And>w. w \<in> R \<Longrightarrow> P w \<Longrightarrow> k w = a \<Longrightarrow> w = x) \<Longrightarrow>
   {w \<in> R. P w \<longrightarrow> k w \<notin> K} \<union> N = {w \<in> R. P w \<longrightarrow> k w \<notin> insert a K} \<union> insert x N"
  by blast

lemma replace_added:
  "P x \<Longrightarrow> k x = a \<Longrightarrow> a \<notin> K \<Longrightarrow>
   {w \<in> {w \<in> R. \<not> (P w \<and> k w = a)} \<union> {x}. P w \<longrightarrow> k w \<notin> K} \<union> N =
   {w \<in> R. P w \<longrightarrow> k w \<notin> insert a K} \<union> insert x N"
  by blast

lemma write_results_ok:
  assumes "distinct (map full_key rows)" "distinct (map session_result_key rs)"
    "list_all (wf_port_result t) rs"
    "\<forall>r \<in> set rs. \<forall>w \<in> set existing. row_key w = session_result_key r \<and>
       rw_sha256 w = v2_sha env (result_text env r) \<longrightarrow> row_of env i r \<in> set rows"
  shows "\<exists>rows'. write_results env i existing rs rows = Inr rows' \<and> distinct (map full_key rows') \<and>
    set rows' = {w \<in> set rows. rw_endpoint_id w = i \<longrightarrow> row_key w \<notin> session_result_key ` set rs} \<union>
      row_of env i ` set rs"
  using assms
proof (induction rs arbitrary: rows)
  case Nil
  then show ?case by auto
next
  case (Cons r rs)
  let ?new = "row_of env i r"
  have new: "new_result_row env i r = Inr ?new" using Cons.prems(3) new_row_ok [of t r] by simp
  have inj: "w = ?new" if "?new \<in> set rows" "w \<in> set rows" "rw_endpoint_id w = i" "row_key w = session_result_key r" for w
    using Cons.prems(1) that by (auto simp: distinct_map inj_on_def full_key_def)
  show ?case
  proof (cases "list_ex (\<lambda>w. row_key w = row_key ?new \<and> rw_sha256 w = rw_sha256 ?new) existing")
    case True
    with Cons.prems(4) have mem: "?new \<in> set rows" by (auto simp: list_ex_iff)
    from Cons.IH [OF Cons.prems(1)] Cons.prems(2-4) obtain rows' where
      r: "write_results env i existing rs rows = Inr rows'" "distinct (map full_key rows')"
      "set rows' = {w \<in> set rows. rw_endpoint_id w = i \<longrightarrow> row_key w \<notin> session_result_key ` set rs} \<union>
        row_of env i ` set rs" by auto
    have nk: "session_result_key r \<notin> session_result_key ` set rs" using Cons.prems(2) by auto
    have "{w \<in> set rows. rw_endpoint_id w = i \<longrightarrow> row_key w \<notin> session_result_key ` set rs} \<union> row_of env i ` set rs =
      {w \<in> set rows. rw_endpoint_id w = i \<longrightarrow> row_key w \<notin> session_result_key ` set (r # rs)} \<union> row_of env i ` set (r # rs)"
      unfolding list.set image_insert
      by (rule replace_kept [of ?new "set rows" "\<lambda>w. rw_endpoint_id w = i" row_key, OF mem _ _ nk inj [OF mem]]) simp_all
    then show ?thesis unfolding r(3) [symmetric] using True r(1,2) by (intro exI [of _ rows']) (simp add: new)
  next
    case False
    let ?rows = "upsert (same_result i (session_result_key r)) ?new rows"
    have d: "distinct (map full_key ?rows)"
      by (rule upsert_distinct [OF Cons.prems(1)]) (auto simp: same_result_def full_key_def)
    have set: "set ?rows = {w \<in> set rows. \<not> same_result i (session_result_key r) w} \<union> {?new}" by (rule upsert_set)
    have "\<forall>r' \<in> set rs. \<forall>w \<in> set existing. row_key w = session_result_key r' \<and>
       rw_sha256 w = v2_sha env (result_text env r') \<longrightarrow> row_of env i r' \<in> set ?rows"
      using Cons.prems(2,4) by (auto simp: set same_result_def dest: sym [of "session_result_key r"])
        (metis image_eqI)+
    from Cons.IH [OF d _ _ this] Cons.prems(2,3) obtain rows' where
      r: "write_results env i existing rs ?rows = Inr rows'" "distinct (map full_key rows')"
      "set rows' = {w \<in> set ?rows. rw_endpoint_id w = i \<longrightarrow> row_key w \<notin> session_result_key ` set rs} \<union>
        row_of env i ` set rs" by auto
    have nk: "session_result_key r \<notin> session_result_key ` set rs" using Cons.prems(2) by auto
    have "{w \<in> set ?rows. rw_endpoint_id w = i \<longrightarrow> row_key w \<notin> session_result_key ` set rs} \<union> row_of env i ` set rs =
      {w \<in> set rows. rw_endpoint_id w = i \<longrightarrow> row_key w \<notin> session_result_key ` set (r # rs)} \<union> row_of env i ` set (r # rs)"
      unfolding list.set image_insert set same_result_def
      by (rule replace_added [of "\<lambda>w. rw_endpoint_id w = i" ?new row_key, OF _ _ nk]) simp_all
    then show ?thesis unfolding r(3) [symmetric] using False r(1,2) by (intro exI [of _ rows']) (simp add: new)
  qed
qed

definition keeps :: "endpoint_progress \<Rightarrow> endpoint_progress \<Rightarrow> bool" where
  "keeps e0 e \<longleftrightarrow>
     session_result_key ` set (ep_completed_results e0) \<subseteq> session_result_key ` set (ep_completed_results e) \<and>
     set (ep_completed_banner_ports e0) \<subseteq> set (ep_completed_banner_ports e)"

text \<open>No result of the one has the digest of a different result of the other.\<close>

definition no_collision :: "session_env \<Rightarrow> endpoint_progress \<Rightarrow> endpoint_progress \<Rightarrow> bool" where
  "no_collision env e0 e \<longleftrightarrow>
     (\<forall>r0 \<in> set (ep_completed_results e0). \<forall>r \<in> set (ep_completed_results e).
        session_result_key r0 = session_result_key r \<longrightarrow>
       v2_sha env (result_text env r0) = v2_sha env (result_text env r) \<longrightarrow> result_text env r0 = result_text env r)"

definition set_error :: "int \<Rightarrow> string option \<Rightarrow> endpoint_row \<Rightarrow> endpoint_row" where
  "set_error i err w = (if ew_endpoint_id w = i then w\<lparr>ew_error := err\<rparr> else w)"

lemma set_error_simps [simp]: "ew_endpoint_id (set_error i err w) = ew_endpoint_id w"
  "endpoint_row_key (set_error i err w) = endpoint_row_key w"
  by (simp_all add: set_error_def endpoint_row_key_def)

definition endpoint_written ::
    "session_env \<Rightarrow> int \<Rightarrow> endpoint_progress \<Rightarrow> database \<Rightarrow> database \<Rightarrow> bool" where
  "endpoint_written env i e db db' \<longleftrightarrow>
     db_state db' = db_state db \<and> db_history db' = db_history db \<and> tables_ok db' \<and>
     db_endpoints db' = map (set_error i (ep_error e)) (db_endpoints db) \<and>
     set (results_of db' i) = row_of env i ` set (ep_completed_results e) \<and>
     set (banners_of db' i) = set (ep_completed_banner_ports e) \<and>
     (\<forall>j. j \<noteq> i \<longrightarrow> set (results_of db' j) = set (results_of db j) \<and>
        set (banners_of db' j) = set (banners_of db j))"

lemma write_endpoint_ok:
  assumes t: "tables_ok db" and h: "endpoint_holds env db w e0" "w \<in> set (db_endpoints db)"
    and f: "find (\<lambda>w. endpoint_row_key w = endpoint_key (ep_identity e)) (db_endpoints db) = Some w"
    and p: "wf_progress e" and c: "no_collision env e0 e"
  shows "keeps e0 e \<Longrightarrow> \<exists>db'. write_endpoint env e db = Inr db'"
    and "write_endpoint env e db = Inr db' \<Longrightarrow> keeps e0 e \<and> endpoint_written env (ew_endpoint_id w) e db db'"
proof -
  let ?i = "ew_endpoint_id w" and ?rs = "ep_completed_results e"
  have h': "set (results_of db ?i) = row_of env ?i ` set (ep_completed_results e0)"
    "set (banners_of db ?i) = set (ep_completed_banner_ports e0)"
    using h(1) by (simp_all add: endpoint_holds_def)
  have p': "distinct (map session_result_key ?rs)" "list_all (wf_port_result (ep_identity e)) ?rs"
    "distinct (ep_completed_banner_ports e)"
    using p by (simp_all add: wf_progress_def port_list_def)
  have same: "row_of env ?i r \<in> set (db_results db)"
    if "r \<in> set ?rs" "x \<in> set (results_of db ?i)" "row_key x = session_result_key r"
      "rw_sha256 x = v2_sha env (result_text env r)" for r x
  proof -
    from that(2) h'(1) obtain r0 where r0: "r0 \<in> set (ep_completed_results e0)" "x = row_of env ?i r0" by auto
    with that(3) have "session_result_key r0 = session_result_key r" by simp
    with r0 that c have "result_text env r0 = result_text env r" by (auto simp: no_collision_def)
    with that(3) r0 have "x = row_of env ?i r" by (simp add: row_of_def session_result_key_def row_key_def)
    with that(2) show ?thesis by (auto simp: results_of_def)
  qed
  from t have d: "distinct (map full_key (db_results db))" by (simp add: tables_ok_def)
  from write_results_ok [OF d p'(1,2), of "results_of db ?i" env ?i] same obtain rows where
    rows: "write_results env ?i (results_of db ?i) ?rs (db_results db) = Inr rows"
    "distinct (map full_key rows)"
    "set rows = {x \<in> set (db_results db). rw_endpoint_id x = ?i \<longrightarrow> row_key x \<notin> session_result_key ` set ?rs} \<union>
      row_of env ?i ` set ?rs" by auto
  let ?db = "db\<lparr>db_results := rows, db_banners := db_banners db @
      map (Pair ?i) [q \<leftarrow> ep_completed_banner_ports e. q \<notin> set (banners_of db ?i)],
    db_endpoints := map (set_error ?i (ep_error e)) (db_endpoints db)\<rparr>"
  have keep: "set (map row_key (results_of db ?i)) \<subseteq> set (map session_result_key ?rs) \<and>
      set (banners_of db ?i) \<subseteq> set (ep_completed_banner_ports e) \<longleftrightarrow> keeps e0 e"
    by (simp add: h' keeps_def image_image)
  have run: "write_endpoint env e db = (if keeps e0 e then Inr ?db else Inl SessionStoreV2Error)"
    using keep by (auto simp: write_endpoint_def f rows(1) Let_def set_error_def [abs_def])
  then show "keeps e0 e \<Longrightarrow> \<exists>db'. write_endpoint env e db = Inr db'" by simp
  assume w: "write_endpoint env e db = Inr db'"
  with run have k: "keeps e0 e" and db': "db' = ?db" by (auto split: if_splits)
  have "distinct (db_banners ?db)"
    using t p'(3) by (auto simp: tables_ok_def distinct_map banners_of_mem inj_on_def)
  moreover have "rw_endpoint_id ` set rows \<subseteq> ew_endpoint_id ` set (db_endpoints db)"
    using rows(3) t h(2) by (auto simp: tables_ok_def)
  ultimately have ok: "tables_ok ?db"
    using rows(2) t by (simp add: tables_ok_def comp_def image_image)
  have b: "set (banners_of ?db j) = (if j = ?i then set (ep_completed_banner_ports e) else set (banners_of db j))" for j
    using k h'(2) by (intro set_eqI) (auto simp: banners_of_mem keeps_def set_eq_iff)
  have kk: "session_result_key ` set (ep_completed_results e0) \<subseteq> session_result_key ` set ?rs"
    using k by (simp add: keeps_def)
  have "set (results_of ?db ?i) = row_of env ?i ` set ?rs"
  proof -
    have "row_key x \<in> session_result_key ` set ?rs" if "x \<in> set (results_of db ?i)" for x
      using that h'(1) kk by auto
    then show ?thesis using rows(3) by (auto simp: results_of_def)
  qed
  moreover have "set (results_of ?db j) = set (results_of db j)" if "j \<noteq> ?i" for j
    using that rows(3) by (auto simp: results_of_def)
  ultimately show "keeps e0 e \<and> endpoint_written env ?i e db db'"
    unfolding db' endpoint_written_def using k ok b by simp
qed

lemma new_endpoint_row_id [simp]: "ew_endpoint_id (new_endpoint_row i e) = i"
  by (simp add: new_endpoint_row_def Let_def)

lemma endpoint_holds_key: "endpoint_holds env db w e \<Longrightarrow> endpoint_row_key w = endpoint_key (ep_identity e)"
  by (metis (no_types, lifting) endpoint_holds_def endpoint_row_key_def endpoint_key_def new_endpoint_row_def
      endpoint_row.select_convs(2-4))

lemma endpoint_written_other:
  assumes "endpoint_written env i e db db'" "endpoint_holds env db w f" "ew_endpoint_id w \<noteq> i"
  shows "endpoint_holds env db' w f"
  using assms by (simp add: endpoint_written_def endpoint_holds_def)

lemma endpoint_written_this:
  assumes "endpoint_written env i e db db'" "endpoint_holds env db w f" "ew_endpoint_id w = i"
    "ep_identity e = ep_identity f"
  shows "endpoint_holds env db' (set_error i (ep_error e) w) e"
proof -
  have w: "w = new_endpoint_row i f" using assms(2,3) by (simp add: endpoint_holds_def)
  have "set_error i (ep_error e) w = new_endpoint_row i e"
    by (subst w) (simp add: new_endpoint_row_def Let_def assms(4) set_error_def)
  then show ?thesis using assms(1,3) by (simp add: endpoint_written_def endpoint_holds_def)
qed

definition replaceable :: "session_env \<Rightarrow> endpoint_progress \<Rightarrow> endpoint_progress \<Rightarrow> bool" where
  "replaceable env e0 e \<longleftrightarrow>
     ep_identity e = ep_identity e0 \<and> wf_progress e \<and> no_collision env e0 e"

definition same_session_tables :: "database \<Rightarrow> database \<Rightarrow> bool" where
  "same_session_tables db db' \<longleftrightarrow> db_state db' = db_state db \<and> db_history db' = db_history db"

text \<open>The loop over the endpoints, those before the current one being written already.\<close>

lemma write_endpoints_ok:
  assumes "tables_ok db" "distinct (map endpoint_row_key (db_endpoints db))"
    "db_endpoints db = ws1 @ ws2" "list_all2 (endpoint_holds env db) ws1 es1"
    "list_all2 (endpoint_holds env db) ws2 es0" "list_all2 (replaceable env) es0 es"
  shows "(list_all2 keeps es0 es \<longrightarrow> (\<exists>db'. write_endpoints env es db = Inr db')) \<and>
    (\<forall>db'. write_endpoints env es db = Inr db' \<longrightarrow>
       list_all2 keeps es0 es \<and> same_session_tables db db' \<and> tables_ok db' \<and>
       list_all2 (endpoint_holds env db') (db_endpoints db') (es1 @ es))"
  using assms
proof (induction es arbitrary: db ws1 ws2 es1 es0)
  case Nil
  then show ?case by (auto simp: same_session_tables_def)
next
  case (Cons e es)
  from Cons.prems(6) obtain e0 es0' where e0: "es0 = e0 # es0'" "replaceable env e0 e"
    "list_all2 (replaceable env) es0' es" by (auto simp: list_all2_Cons2)
  with Cons.prems(5) obtain w ws2' where w: "ws2 = w # ws2'" "endpoint_holds env db w e0"
    "list_all2 (endpoint_holds env db) ws2' es0'" by (auto simp: list_all2_Cons2)
  let ?i = "ew_endpoint_id w"
  have r: "ep_identity e = ep_identity e0" "wf_progress e" "no_collision env e0 e"
    using e0(2) by (simp_all add: replaceable_def)
  have key: "endpoint_row_key w = endpoint_key (ep_identity e)"
    using endpoint_holds_key [OF w(2)] r(1) by simp
  have mem: "w \<in> set (db_endpoints db)" using Cons.prems(3) w(1) by simp
  have f: "find (\<lambda>w. endpoint_row_key w = endpoint_key (ep_identity e)) (db_endpoints db) = Some w"
  proof -
    have "\<forall>x \<in> set ws1. endpoint_row_key x \<noteq> endpoint_row_key w"
      using Cons.prems(2,3) w(1) by (metis (mono_tags, lifting) append_Cons distinct_append distinct.simps(2)
        Int_iff empty_iff image_eqI list.set_intros(1) list.set_map map_append list.simps(9))
    then have "find (\<lambda>w. endpoint_row_key w = endpoint_key (ep_identity e)) ws1 = None"
      by (auto simp: find_None_iff key)
    then show ?thesis by (simp add: Cons.prems(3) w(1) find_append key)
  qed
  note wr = write_endpoint_ok [OF Cons.prems(1) w(2) mem f r(2,3)]
  have next1: "(list_all2 keeps es0' es \<longrightarrow> (\<exists>db'. write_endpoints env es db1 = Inr db')) \<and>
    (\<forall>db'. write_endpoints env es db1 = Inr db' \<longrightarrow>
       list_all2 keeps es0' es \<and> same_session_tables db1 db' \<and> tables_ok db' \<and>
       list_all2 (endpoint_holds env db') (db_endpoints db') ((es1 @ [e]) @ es))"
    if "endpoint_written env ?i e db db1" for db1
  proof -
    have ids: "distinct (map ew_endpoint_id (ws1 @ w # ws2'))"
      using Cons.prems(1,3) w(1) by (simp add: tables_ok_def)
    have other: "ew_endpoint_id x \<noteq> ?i" if "x \<in> set ws1 \<union> set ws2'" for x
    proof -
      have "ew_endpoint_id x \<in> ew_endpoint_id ` set ws1 \<union> ew_endpoint_id ` set ws2'" using that by blast
      moreover have "?i \<notin> ew_endpoint_id ` set ws1 \<union> ew_endpoint_id ` set ws2'" using ids by simp
      ultimately show ?thesis by metis
    qed
    then have un: "set_error ?i (ep_error e) x = x" if "x \<in> set ws1 \<union> set ws2'" for x
      using that by (simp add: set_error_def)
    have eps: "db_endpoints db1 = (ws1 @ [set_error ?i (ep_error e) w]) @ ws2'"
      using that un by (simp add: endpoint_written_def Cons.prems(3) w(1) map_idI)
    have l1: "list_all2 (endpoint_holds env db1) ws1 es1" "list_all2 (endpoint_holds env db1) ws2' es0'"
      using Cons.prems(4) w(3) other
      by (auto intro: endpoint_written_other [OF that] elim!: list.rel_mono_strong)
    have "list_all2 (endpoint_holds env db1) (ws1 @ [set_error ?i (ep_error e) w]) (es1 @ [e])"
      using l1(1) endpoint_written_this [OF that w(2) refl r(1)] by (simp add: list_all2_appendI)
    moreover have "distinct (map endpoint_row_key (db_endpoints db1))"
      using that Cons.prems(2) by (simp add: endpoint_written_def comp_def)
    moreover have "tables_ok db1" using that by (simp add: endpoint_written_def)
    ultimately show ?thesis using Cons.IH [OF _ _ eps _ l1(2) e0(3)] by blast
  qed
  show ?case
  proof (intro conjI impI allI)
    assume k: "list_all2 keeps es0 (e # es)"
    with e0(1) wr(1) obtain db1 where db1: "write_endpoint env e db = Inr db1" by auto
    with wr(2) next1 k e0(1) show "\<exists>db'. write_endpoints env (e # es) db = Inr db'" by auto
  next
    fix db' assume "write_endpoints env (e # es) db = Inr db'"
    then obtain db1 where db1: "write_endpoint env e db = Inr db1" "write_endpoints env es db1 = Inr db'"
      by (auto simp: run)
    with wr(2) have w1: "keeps e0 e" "endpoint_written env ?i e db db1" by auto
    with next1 db1(2) have n: "list_all2 keeps es0' es" "same_session_tables db1 db'" "tables_ok db'"
      "list_all2 (endpoint_holds env db') (db_endpoints db') ((es1 @ [e]) @ es)" by auto
    then show "list_all2 keeps es0 (e # es)" "tables_ok db'"
      "list_all2 (endpoint_holds env db') (db_endpoints db') (es1 @ e # es)"
      "same_session_tables db db'"
      using w1 by (auto simp: e0(1) same_session_tables_def endpoint_written_def)
  qed
qed

section \<open>Confirming a checkpoint\<close>

lemma find_upsert: "same row \<Longrightarrow> find same (upsert same row rows) = Some row"
proof -
  assume s: "same row"
  have "list_ex same rows \<Longrightarrow> find same (map (\<lambda>w. if same w then row else w) rows) = Some row"
    by (induction rows) (auto simp: s)
  moreover have "\<not> list_ex same rows \<Longrightarrow> find same rows = None" by (auto simp: find_None_iff list_ex_iff)
  ultimately show ?thesis by (simp add: upsert_def find_append s)
qed

lemma good_v2_shape: "good_v2 scope env p c D s \<Longrightarrow> v2_shape scope env p c s"
  by (simp add: good_v2_def v2_shape_def)

lemma v2_shape_endpoints:
  assumes "v2_shape scope env p c s"
  shows "wf_checkpoint env s" "env_ok env" "wf_plan p"
    "list_all wf_progress (sk_endpoints s)"
    "distinct (map (\<lambda>e. endpoint_key (ep_identity e)) (sk_endpoints s))"
    "map ep_identity (sk_endpoints s) = sp_resolved_targets p" "scope p = Inr ()"
  using assms checkpoint_endpoints_distinct [of env s]
  by (auto simp: v2_shape_def good_checkpoint_def wf_checkpoint_def in_plan_order_def)

lemmas good_v2_endpoints = v2_shape_endpoints [OF good_v2_shape]

lemma good_no_collision:
  assumes "good_v2 scope env p c D s0" "good_v2 scope env p c D s" "e0 \<in> set (sk_endpoints s0)" "e \<in> set (sk_endpoints s)"
  shows "no_collision env e0 e"
  unfolding no_collision_def
proof (intro ballI impI)
  fix r0 r assume r: "r0 \<in> set (ep_completed_results e0)" "r \<in> set (ep_completed_results e)"
    and "v2_sha env (result_text env r0) = v2_sha env (result_text env r)"
  moreover have "result_text env r0 \<in> D" "result_text env r \<in> D"
    using assms r by (auto simp: good_v2_def texts_of_def)
  ultimately show "result_text env r0 = result_text env r"
    using assms(1) by (auto simp: good_v2_def inj_on_def)
qed

definition event_added :: "session_env \<Rightarrow> int \<Rightarrow> string \<Rightarrow> pyval \<Rightarrow> database \<Rightarrow> database" where
  "event_added env n ty payload db =
     (case insert_event env n ty payload db of Inr db' \<Rightarrow> db' | Inl _ \<Rightarrow> db)"

lemma event_ok: "json_finite payload \<Longrightarrow> insert_event env n ty payload db = Inr (event_added env n ty payload db)"
  by (simp add: event_added_def insert_event_def deterministic_json_def)

lemma event_added_simps [simp]:
  "db_state (event_added env n ty payload db) = db_state db"
  "db_endpoints (event_added env n ty payload db) = db_endpoints db"
  "db_results (event_added env n ty payload db) = db_results db"
  "db_banners (event_added env n ty payload db) = db_banners db"
  "db_history (event_added env n ty payload db) = db_history db"
  by (simp_all add: event_added_def insert_event_def bindE_def split: sum.splits)

lemma endpoints_hold_cong:
  assumes "db_endpoints db' = db_endpoints db" "db_results db' = db_results db" "db_banners db' = db_banners db"
  shows "endpoints_hold env db' s = endpoints_hold env db s"
  using assms by (simp add: endpoints_hold_def tables_ok_def endpoint_holds_def [abs_def] results_of_def banners_of_def)

lemma confirm_ok:
  assumes g: "v2_shape scope env p c s" and t: "tables_ok db"
    and h: "list_all2 (endpoint_holds env db) (db_endpoints db) es0"
    and i: "map ep_identity es0 = map ep_identity (sk_endpoints s)"
    and nc: "\<forall>e0 \<in> set es0. \<forall>e \<in> set (sk_endpoints s). no_collision env e0 e"
    and st: "db_state db = Some row" "sw_session_id row = sk_session_id s"
      "sw_plan_json row = json_text (env_repr env) (scan_plan_to_dict p)"
      "sw_plan_fingerprint row = fingerprint env p" "sw_created_at row = c"
    and hi: "\<forall>h \<in> set (db_history db). yw_sequence h \<le> sk_sequence s"
  shows "list_all2 keeps es0 (sk_endpoints s) \<Longrightarrow> sk_sequence s < 2 ^ 63 \<Longrightarrow>
      \<exists>db'. confirm_checkpoint env (v2_sha env (checkpoint_text_of env s)) s db = Inr db'"
    and "confirm_checkpoint env (v2_sha env (checkpoint_text_of env s)) s db = Inr db' \<Longrightarrow>
      list_all2 keeps es0 (sk_endpoints s) \<and> stored env db' s"
proof -
  let ?sha = "v2_sha env (checkpoint_text_of env s)"
  note gs = v2_shape_endpoints [OF g]
  have len: "length (db_endpoints db) = length (sk_endpoints s)"
    using list_all2_lengthD [OF h] map_eq_imp_length_eq [OF i] by simp
  have "map endpoint_row_key (db_endpoints db) = map (\<lambda>e. endpoint_key (ep_identity e)) es0"
    using h endpoint_holds_key by (induction rule: list_all2_induct) auto
  also have "\<dots> = map (\<lambda>e. endpoint_key (ep_identity e)) (sk_endpoints s)"
    using arg_cong [OF i, of "map endpoint_key"] by (simp add: comp_def)
  finally have keys: "distinct (map endpoint_row_key (db_endpoints db))" using gs(5) by simp
  have rep: "list_all2 (replaceable env) es0 (sk_endpoints s)"
    using i nc gs(4) unfolding list_all2_conv_all_nth replaceable_def
    by (metis list_all_length map_eq_imp_length_eq nth_map nth_mem)
  note w = write_endpoints_ok [OF t keys, of "[]" "db_endpoints db" env "[]", simplified, OF h rep]
  have pay: "json_finite (obj [(''checkpoint_sha256'', PStr ?sha), (''completed_ports'', PInt (count_completed s)),
      (''status'', PStr (session_status_value (sk_status s)))])" by (simp add: obj_def)
  have seq: "0 \<le> sk_sequence s" using gs(1) by (simp add: wf_checkpoint_def)
  show "\<exists>db'. confirm_checkpoint env ?sha s db = Inr db'"
    if k: "list_all2 keeps es0 (sk_endpoints s)" and n: "sk_sequence s < 2 ^ 63"
  proof -
    from w k obtain db1 where "write_endpoints env (sk_endpoints s) db = Inr db1" by blast
    with n seq show ?thesis by (simp add: confirm_checkpoint_def len Let_def bind_int_def event_ok [OF pay])
  qed
  assume "confirm_checkpoint env ?sha s db = Inr db'"
  then obtain db1 where db1: "write_endpoints env (sk_endpoints s) db = Inr db1"
    and fields: "db_state db' = map_option (\<lambda>row. row\<lparr>sw_status := session_status_value (sk_status s),
        sw_updated_at := sk_updated_at s, sw_sequence := sk_sequence s, sw_last_error := sk_last_error s,
        sw_checkpoint_sha256 := Some ?sha, sw_state_digest := ?sha\<rparr>) (db_state db1)"
      "db_history db' = upsert (same_generation (sk_sequence s))
        \<lparr>yw_sequence = sk_sequence s, yw_status = session_status_value (sk_status s), yw_state_digest = ?sha\<rparr>
        (db_history db1)"
      "db_endpoints db' = db_endpoints db1" "db_results db' = db_results db1" "db_banners db' = db_banners db1"
    by (auto simp: confirm_checkpoint_def Let_def run update_state_def event_ok [OF pay] split: if_splits)
  with w have k: "list_all2 keeps es0 (sk_endpoints s)" "same_session_tables db db1" "tables_ok db1"
    "list_all2 (endpoint_holds env db1) (db_endpoints db1) (sk_endpoints s)" by auto
  let ?row = "row\<lparr>sw_status := session_status_value (sk_status s), sw_updated_at := sk_updated_at s,
    sw_sequence := sk_sequence s, sw_last_error := sk_last_error s, sw_checkpoint_sha256 := Some ?sha,
    sw_state_digest := ?sha\<rparr>"
  let ?h = "\<lparr>yw_sequence = sk_sequence s, yw_status = session_status_value (sk_status s), yw_state_digest = ?sha\<rparr>"
  have "db_state db' = Some ?row" using fields(1) st(1) k(2) by (simp add: same_session_tables_def)
  moreover have "row_holds env ?row s"
    using st g by (simp add: row_holds_def v2_shape_def)
  moreover have "history_ok db' ?row"
    using hi k(2) find_upsert [of "same_generation (sk_sequence s)" ?h "db_history db1"]
    by (auto simp: history_ok_def fields(2) same_session_tables_def upsert_set same_generation_def)
  moreover have "endpoints_hold env db' s"
    using k(3,4) endpoints_hold_cong [OF fields(3-5)] by (simp add: endpoints_hold_def)
  ultimately show "list_all2 keeps es0 (sk_endpoints s) \<and> stored env db' s"
    using k(1) by (simp add: stored_def)
qed

section \<open>The first checkpoint\<close>

lemma insert_endpoints_ok:
  assumes "distinct (map endpoint_row_key rows @ map (\<lambda>e. endpoint_key (ep_identity e)) es)"
    "map ew_endpoint_id rows = map int [1..<Suc (length rows)]"
  shows "\<exists>ws. insert_endpoints es rows = Inr (rows @ ws) \<and>
    map ew_endpoint_id (rows @ ws) = map int [1..<Suc (length (rows @ ws))] \<and>
    list_all2 (\<lambda>w e. w = new_endpoint_row (ew_endpoint_id w) e) ws es"
  using assms
proof (induction es arbitrary: rows)
  case Nil
  then show ?case by simp
next
  case (Cons e es)
  let ?row = "new_endpoint_row (int (length rows) + 1) e"
  have key: "endpoint_row_key ?row = endpoint_key (ep_identity e)"
    by (simp add: new_endpoint_row_def Let_def endpoint_row_key_def endpoint_key_def)
  have "map ew_endpoint_id (rows @ [?row]) = map int [1..<Suc (length (rows @ [?row]))]"
    using Cons.prems(2) by simp
  from Cons.IH [OF _ this] Cons.prems(1) key obtain ws where
    "insert_endpoints es (rows @ [?row]) = Inr ((rows @ [?row]) @ ws)"
    "map ew_endpoint_id ((rows @ [?row]) @ ws) = map int [1..<Suc (length ((rows @ [?row]) @ ws))]"
    "list_all2 (\<lambda>w e. w = new_endpoint_row (ew_endpoint_id w) e) ws es" by auto
  with Cons.prems(1) key show ?case
    by (intro exI [of _ "?row # ws"]) (auto simp: Let_def)
qed

definition blank :: "endpoint_progress \<Rightarrow> endpoint_progress" where
  "blank e = e\<lparr>ep_completed_results := [], ep_completed_banner_ports := []\<rparr>"

lemma blank_simps [simp]: "ep_identity (blank e) = ep_identity e" "ep_error (blank e) = ep_error e"
  "ep_completed_results (blank e) = []" "ep_completed_banner_ports (blank e) = []"
  by (simp_all add: blank_def)

lemma persist_first:
  assumes g: "v2_shape scope env p c s"
  shows "sk_sequence s < 2 ^ 63 \<Longrightarrow>
      \<exists>db'. persist_tables env (v2_sha env (checkpoint_text_of env s)) s empty_database = Inr (db', False)"
    and "persist_tables env (v2_sha env (checkpoint_text_of env s)) s empty_database = Inr (db', same) \<Longrightarrow>
      stored env db' s \<and> \<not> same"
proof -
  let ?sha = "v2_sha env (checkpoint_text_of env s)" and ?es = "sk_endpoints s"
  note gs = v2_shape_endpoints [OF g]
  have plan: "scan_plan_to_json env (sk_plan s) = Inr (json_text (env_repr env) (scan_plan_to_dict p))"
    using json_value_finite [OF json_scan_plan [OF gs(3)]] g
    by (simp add: scan_plan_to_json_def deterministic_json_def v2_shape_def)
  obtain ws where ws: "insert_endpoints ?es [] = Inr ws" "map ew_endpoint_id ws = map int [1..<Suc (length ws)]"
    "list_all2 (\<lambda>w e. w = new_endpoint_row (ew_endpoint_id w) e) ws ?es"
    using insert_endpoints_ok [of "[]" ?es] gs(5) by auto
  let ?row = "\<lparr>sw_session_id = sk_session_id s, sw_plan_json = json_text (env_repr env) (scan_plan_to_dict p),
    sw_plan_fingerprint = fingerprint env (sk_plan s), sw_status = session_status_value (sk_status s),
    sw_created_at = sk_created_at s, sw_updated_at = sk_updated_at s, sw_sequence = sk_sequence s,
    sw_last_error = sk_last_error s, sw_checkpoint_sha256 = Some ?sha, sw_state_digest = ?sha\<rparr>"
  let ?db = "empty_database\<lparr>db_state := Some ?row, db_endpoints := ws\<rparr>"
  have ins: "insert_session env ?sha s empty_database = (if sk_sequence s < 2 ^ 63 then Inr ?db else Inl OverflowError)"
    using gs(1) ws(1) plan by (simp add: insert_session_def bind_int_def wf_checkpoint_def empty_database_def)
  have t: "tables_ok ?db" using ws(2) by (simp add: tables_ok_def empty_database_def distinct_map)
  have l: "list_all2 (endpoint_holds env ?db) (db_endpoints ?db) (map blank ?es)"
    using ws(3) unfolding list_all2_map2
    by (auto simp: endpoint_holds_def results_of_def banners_of_def empty_database_def new_endpoint_row_def
        elim!: list_all2_mono)
  have i: "map ep_identity (map blank ?es) = map ep_identity ?es" by simp
  have nc: "\<forall>e0 \<in> set (map blank ?es). \<forall>e \<in> set ?es. no_collision env e0 e" by (simp add: no_collision_def)
  have hi: "\<forall>h \<in> set (db_history ?db). yw_sequence h \<le> sk_sequence s" by (simp add: empty_database_def)
  note c = confirm_ok [OF g t l i nc, of ?row, simplified]
  have pc: "sk_plan s = p" "sk_created_at s = c" using g by (simp_all add: v2_shape_def)
  have k: "list_all2 keeps (map blank ?es) ?es" by (simp add: list_all2_map1 list_all2_same keeps_def)
  have run: "persist_tables env ?sha s empty_database =
      bindE (insert_session env ?sha s empty_database) (\<lambda>db. bindE (confirm_checkpoint env ?sha s db) (\<lambda>db. Inr (db, False)))"
    by (simp add: persist_tables_def empty_database_def)
  show "\<exists>db'. persist_tables env ?sha s empty_database = Inr (db', False)" if "sk_sequence s < 2 ^ 63"
    using c(1) k hi that pc by (auto simp: run ins)
  show "stored env db' s \<and> \<not> same" if "persist_tables env ?sha s empty_database = Inr (db', same)"
    using that c(2) hi pc by (auto simp: run ins bindE_Inr split: if_splits)
qed

section \<open>The next checkpoint\<close>

definition v2_follows :: "session_checkpoint \<Rightarrow> session_checkpoint \<Rightarrow> bool" where
  "v2_follows j k \<longleftrightarrow>
     k = j \<or>
     sk_session_id k = sk_session_id j \<and> sk_sequence k = sk_sequence j + 1 \<and>
     list_all2 keeps (sk_endpoints j) (sk_endpoints k)"

lemma checkpoint_text_inj:
  assumes "env_ok env" "wf_checkpoint env s" "wf_checkpoint env t" "checkpoint_text_of env s = checkpoint_text_of env t"
  shows "s = t"
  using checkpoint_bytes_inj [OF assms(1-3)] assms(4)
  by (simp add: checkpoint_bytes_def file_bytes_def checkpoint_text_of_def)

lemma persist_next_ok:
  assumes j: "good_v2 scope env p c D j" "stored env db j" and g: "good_v2 scope env p c D s"
  shows "v2_follows j s \<Longrightarrow> s \<noteq> j \<Longrightarrow> sk_sequence s < 2 ^ 63 \<Longrightarrow>
      \<exists>db'. persist_tables env (v2_sha env (checkpoint_text_of env s)) s db = Inr (db', False)"
    and "persist_tables env (v2_sha env (checkpoint_text_of env s)) s db = Inr (db', same) \<Longrightarrow>
      stored env db' s \<and> v2_follows j s"
proof -
  let ?sha = "v2_sha env (checkpoint_text_of env s)"
  from j(2) obtain row where row: "db_state db = Some row" "row_holds env row j" "history_ok db row"
    and e: "tables_ok db" "list_all2 (endpoint_holds env db) (db_endpoints db) (sk_endpoints j)"
    by (auto simp: stored_def endpoints_hold_def)
  have pj: "sk_plan j = p" "sk_created_at j = c" "sk_plan s = p"
    using j(1) g by (simp_all add: good_v2_def)
  have i: "map ep_identity (sk_endpoints j) = map ep_identity (sk_endpoints s)"
    using good_v2_endpoints(6) [OF j(1)] good_v2_endpoints(6) [OF g] by simp
  have nc: "\<forall>e0 \<in> set (sk_endpoints j). \<forall>e \<in> set (sk_endpoints s). no_collision env e0 e"
    using good_no_collision [OF j(1) g] by blast
  have cr: "(sk_session_id s = sk_session_id j \<Longrightarrow> sk_sequence s = sk_sequence j + 1 \<Longrightarrow>
      list_all2 keeps (sk_endpoints j) (sk_endpoints s) \<Longrightarrow> sk_sequence s < 2 ^ 63 \<Longrightarrow>
      \<exists>db'. confirm_checkpoint env ?sha s db = Inr db')"
    "(sk_session_id s = sk_session_id j \<Longrightarrow> sk_sequence s = sk_sequence j + 1 \<Longrightarrow>
      confirm_checkpoint env ?sha s db = Inr db' \<Longrightarrow> list_all2 keeps (sk_endpoints j) (sk_endpoints s) \<and> stored env db' s)" for db'
    using confirm_ok [OF good_v2_shape [OF g] e i nc row(1)] row(2,3) pj by (fastforce simp: row_holds_def history_ok_def)+
  have run: "persist_tables env ?sha s db =
      (if sk_session_id j \<noteq> sk_session_id s then Inl SessionStoreV2Error
       else if sk_sequence s < sk_sequence j then Inl SessionStoreV2Error
       else if sk_sequence s > sk_sequence j + 1 then Inl SessionStoreV2Error
       else if sk_sequence s = sk_sequence j
       then if sw_checkpoint_sha256 row \<noteq> Some ?sha then Inl SessionStoreV2Error else Inr (db, True)
       else bindE (confirm_checkpoint env ?sha s db) (\<lambda>db. Inr (db, False)))"
    using row(1,2) pj by (simp add: persist_tables_def check_transition_def row_holds_def)
  show "\<exists>db'. persist_tables env ?sha s db = Inr (db', False)"
    if "v2_follows j s" "s \<noteq> j" "sk_sequence s < 2 ^ 63"
    using that cr(1) by (auto simp: run v2_follows_def)
  show "stored env db' s \<and> v2_follows j s" if r: "persist_tables env ?sha s db = Inr (db', same)"
  proof (cases "sk_sequence s = sk_sequence j")
    case True
    with r have "sw_checkpoint_sha256 row = Some ?sha" "db' = db" by (auto simp: run split: if_splits)
    with row(2) have "v2_sha env (checkpoint_text_of env j) = ?sha" by (auto simp: row_holds_def)
    moreover have "checkpoint_text_of env j \<in> D" "checkpoint_text_of env s \<in> D"
      using j(1) g by (auto simp: good_v2_def texts_of_def)
    ultimately have "checkpoint_text_of env j = checkpoint_text_of env s"
      using g by (auto simp: good_v2_def inj_on_def)
    then have "j = s"
      using good_v2_endpoints(1,2) [OF j(1)] good_v2_endpoints(1) [OF g] by (intro checkpoint_text_inj)
    with j(2) \<open>db' = db\<close> show ?thesis by (simp add: v2_follows_def)
  next
    case False
    with r cr(2) show ?thesis by (auto simp: run v2_follows_def bindE_Inr split: if_splits)
  qed
qed

section \<open>Transactions\<close>

lemma next_tx_keeps: "next_tx \<sigma> = (x, \<tau>) \<Longrightarrow> v2_db \<tau> = v2_db \<sigma> \<and> v2_cache \<tau> = v2_cache \<sigma>"
  by (auto simp: next_tx_def split: list.splits)

lemma tx_point_keeps: "tx_point e \<sigma> = (r, \<tau>) \<Longrightarrow> v2_db \<tau> = v2_db \<sigma> \<and> v2_cache \<tau> = v2_cache \<sigma>"
  by (auto simp: tx_point_def split: prod.splits tx_outcome.splits dest: next_tx_keeps)

lemma protecting_run:
  assumes "protecting m \<sigma> = (r, \<sigma>')"
  shows "\<exists>r0 \<tau>. m \<sigma> = (r0, \<tau>) \<and> v2_db \<sigma>' = v2_db \<tau> \<and> v2_cache \<sigma>' = v2_cache \<tau> \<and> (\<forall>x. r = Inr x \<longrightarrow> r0 = Inr x)"
  using assms by (auto simp: protecting_def split: prod.splits sum.splits if_splits dest!: tx_point_keeps)

lemma commit_tx_run:
  assumes "commit_tx old x \<sigma> = (r, \<sigma>')"
  shows "v2_cache \<sigma>' = v2_cache \<sigma>" "v2_db \<sigma>' = v2_db \<sigma> \<or> v2_db \<sigma>' = old \<and> (\<forall>y. r \<noteq> Inr y)"
    "r = Inr y \<Longrightarrow> y = x \<and> v2_db \<sigma>' = v2_db \<sigma>"
  using assms
  by (auto simp: commit_tx_def split: prod.splits tx_outcome.splits bool.splits dest!: next_tx_keeps)

text \<open>
  A transaction that returns has run its body on the tables and made the result durable; one
  that does not has left the tables as they were, or was stopped after its commit.
\<close>

lemma transaction_run:
  assumes "transaction body \<sigma> = (r, \<sigma>')"
  obtains (before) "v2_db \<sigma>' = v2_db \<sigma>" "v2_cache \<sigma>' = v2_cache \<sigma>" "\<forall>x. r \<noteq> Inr x"
  | (undone) \<tau> r0 \<tau>' where "v2_db \<tau> = v2_db \<sigma>" "v2_cache \<tau> = v2_cache \<sigma>" "body \<tau> = (r0, \<tau>')"
      "v2_db \<sigma>' = v2_db \<sigma>" "v2_cache \<sigma>' = v2_cache \<tau>'" "\<forall>x. r \<noteq> Inr x"
  | (through) \<tau> x \<tau>' where "v2_db \<tau> = v2_db \<sigma>" "v2_cache \<tau> = v2_cache \<sigma>" "body \<tau> = (Inr x, \<tau>')"
      "v2_db \<sigma>' = v2_db \<tau>'" "v2_cache \<sigma>' = v2_cache \<tau>'" "\<forall>y. r = Inr y \<longrightarrow> y = x"
proof -
  from assms consider e where "tx_point DatabaseError \<sigma> = (Inl e, \<sigma>')" "r = Inl e"
    | \<tau>1 where "tx_point DatabaseError \<sigma> = (Inr (), \<tau>1)"
        "protecting (\<lambda>\<sigma>. case thenS (tx_point DatabaseError) (\<lambda>_. body) \<sigma> of
          (Inl e, \<tau>) \<Rightarrow> (Inl (caught_write e), \<tau>\<lparr>v2_db := v2_db \<sigma>\<rparr>)
        | (Inr x, \<tau>) \<Rightarrow> commit_tx (v2_db \<sigma>) x \<tau>) \<tau>1 = (r, \<sigma>')"
    by (auto simp: transaction_def thenS_run)
  then show thesis
  proof cases
    case 1
    with tx_point_keeps [OF 1(1)] show ?thesis by (intro before) auto
  next
    case 2
    note k1 = tx_point_keeps [OF 2(1)]
    from protecting_run [OF 2(2)] obtain r1 \<tau>2 where
      in1: "(case thenS (tx_point DatabaseError) (\<lambda>_. body) \<tau>1 of
          (Inl e, \<tau>) \<Rightarrow> (Inl (caught_write e), \<tau>\<lparr>v2_db := v2_db \<tau>1\<rparr>)
        | (Inr x, \<tau>) \<Rightarrow> commit_tx (v2_db \<tau>1) x \<tau>) = (r1, \<tau>2)"
      and p: "v2_db \<sigma>' = v2_db \<tau>2" "v2_cache \<sigma>' = v2_cache \<tau>2" "\<forall>x. r = Inr x \<longrightarrow> r1 = Inr x" by auto
    show ?thesis
    proof (cases "tx_point DatabaseError \<tau>1")
      case (Pair b \<tau>3)
      note k3 = tx_point_keeps [OF Pair]
      show ?thesis
      proof (cases b)
        case (Inl e)
        with in1 Pair p k1 show ?thesis using k3
          by (intro before) (auto simp: thenS_def)
      next
        case (Inr u)
        obtain r2 \<tau>4 where body: "body \<tau>3 = (r2, \<tau>4)" by fastforce
        show ?thesis
        proof (cases r2)
          case (Inl e)
          with in1 Pair Inr body p k1 k3 show ?thesis
            by (intro undone [of \<tau>3 r2 \<tau>4]) (auto simp: thenS_def)
        next
          case r2: (Inr x)
          with in1 Pair Inr body have c: "commit_tx (v2_db \<tau>1) x \<tau>4 = (r1, \<tau>2)"
            by (simp add: thenS_def)
          from commit_tx_run(2) [OF c] show ?thesis
          proof
            assume "v2_db \<tau>2 = v2_db \<tau>4"
            with commit_tx_run(1,3) [OF c] p k1 k3 body r2 show ?thesis
              by (intro through [of \<tau>3 x \<tau>4]) auto
          next
            assume "v2_db \<tau>2 = v2_db \<tau>1 \<and> (\<forall>y. r1 \<noteq> Inr y)"
            with commit_tx_run(1) [OF c] p k1 k3 body show ?thesis
              by (intro undone [of \<tau>3 r2 \<tau>4]) auto
          qed
        qed
      qed
    qed
  qed
qed

lemma reading_run:
  assumes "reading body \<sigma> = (r, \<sigma>')"
  obtains (before) "v2_db \<sigma>' = v2_db \<sigma>" "v2_cache \<sigma>' = v2_cache \<sigma>" "\<forall>x. r \<noteq> Inr x"
  | (through) \<tau> r0 \<tau>' where "v2_db \<tau> = v2_db \<sigma>" "v2_cache \<tau> = v2_cache \<sigma>" "body \<tau> = (r0, \<tau>')"
      "v2_db \<sigma>' = v2_db \<tau>'" "v2_cache \<sigma>' = v2_cache \<tau>'" "\<forall>y. r = Inr y \<longrightarrow> r0 = Inr y"
proof -
  from assms consider e where "tx_point DatabaseError \<sigma> = (Inl e, \<sigma>')" "r = Inl e"
    | \<tau>1 where "tx_point DatabaseError \<sigma> = (Inr (), \<tau>1)"
        "protecting (\<lambda>\<sigma>. case thenS (tx_point DatabaseError) (\<lambda>_. body) \<sigma> of
          (Inl e, \<tau>) \<Rightarrow> (Inl (caught_read e), \<tau>) | (Inr x, \<tau>) \<Rightarrow> (Inr x, \<tau>)) \<tau>1 = (r, \<sigma>')"
    by (auto simp: reading_def thenS_run)
  then show thesis
  proof cases
    case 1
    with tx_point_keeps [OF 1(1)] show ?thesis by (intro before) auto
  next
    case 2
    note k1 = tx_point_keeps [OF 2(1)]
    from protecting_run [OF 2(2)] obtain r1 \<tau>2 where
      in1: "(case thenS (tx_point DatabaseError) (\<lambda>_. body) \<tau>1 of
          (Inl e, \<tau>) \<Rightarrow> (Inl (caught_read e), \<tau>) | (Inr x, \<tau>) \<Rightarrow> (Inr x, \<tau>)) = (r1, \<tau>2)"
      and p: "v2_db \<sigma>' = v2_db \<tau>2" "v2_cache \<sigma>' = v2_cache \<tau>2" "\<forall>x. r = Inr x \<longrightarrow> r1 = Inr x" by auto
    obtain b \<tau>3 where pt: "tx_point DatabaseError \<tau>1 = (b, \<tau>3)" by fastforce
    note k3 = tx_point_keeps [OF pt]
    obtain r2 \<tau>4 where body: "body \<tau>3 = (r2, \<tau>4)" by fastforce
    show ?thesis
    proof (cases b)
      case (Inl e)
      with in1 pt p k1 k3 show ?thesis by (intro before) (auto simp: thenS_def)
    next
      case (Inr u)
      with in1 pt p k1 k3 body show ?thesis
        by (intro through [of \<tau>3 r2 \<tau>4]) (auto simp: thenS_def split: sum.splits)
    qed
  qed
qed

section \<open>The store as a whole\<close>

definition v2_at :: "plan_scope \<Rightarrow> session_env \<Rightarrow> v2_state \<Rightarrow> session_checkpoint \<Rightarrow> bool" where
  "v2_at scope env \<sigma> s \<longleftrightarrow>
     good_checkpoint scope env s \<and> in_plan_order s \<and> stored env (v2_db \<sigma>) s \<and>
     (v2_cache \<sigma> = None \<or> v2_cache \<sigma> = Some (sk_plan s))"

lemma v2_at_cong:
  "v2_at scope env \<sigma> s \<Longrightarrow> v2_db \<tau> = v2_db \<sigma> \<Longrightarrow> v2_cache \<tau> = v2_cache \<sigma> \<or> v2_cache \<tau> = Some (sk_plan s) \<Longrightarrow>
   v2_at scope env \<tau> s"
  by (auto simp: v2_at_def)

definition v2_holds ::
    "plan_scope \<Rightarrow> session_env \<Rightarrow> scan_plan \<Rightarrow> string \<Rightarrow> string set \<Rightarrow> v2_state \<Rightarrow> session_checkpoint \<Rightarrow> bool" where
  "v2_holds scope env p c D \<sigma> s \<longleftrightarrow>
     good_v2 scope env p c D s \<and> stored env (v2_db \<sigma>) s \<and> (v2_cache \<sigma> = None \<or> v2_cache \<sigma> = Some p)"

lemma v2_holds_iff: "v2_holds scope env p c D \<sigma> s \<longleftrightarrow> good_v2 scope env p c D s \<and> v2_at scope env \<sigma> s"
  by (auto simp: v2_holds_def v2_at_def good_v2_def)

definition v2_usable ::
    "plan_scope \<Rightarrow> session_env \<Rightarrow> scan_plan \<Rightarrow> string \<Rightarrow> string set \<Rightarrow> v2_state \<Rightarrow> bool" where
  "v2_usable scope env p c D \<sigma> \<longleftrightarrow> v2_db \<sigma> = empty_database \<or> (\<exists>s. v2_holds scope env p c D \<sigma> s)"

lemma plan_from_state_ok:
  assumes "good_checkpoint scope env s" "sk_plan s = p" "row_holds env row s" "v2_cache \<sigma> = None \<or> v2_cache \<sigma> = Some p"
  shows "plan_from_state scope env row \<sigma> = (Inr p, \<sigma>\<lparr>v2_cache := Some p\<rparr>)"
proof (cases "v2_cache \<sigma>")
  case None
  have gs: "env_ok env" "wf_plan p" "scope p = Inr ()"
    using assms(1,2) by (auto simp: good_checkpoint_def wf_checkpoint_def)
  have "repr_ok (env_float env) (env_repr env)" using gs(1) by (simp add: env_ok_def)
  from json_loads_text [OF this json_scan_plan [OF gs(2)], of "[]"]
  have "json_loads (env_float env) (json_text (env_repr env) (scan_plan_to_dict p)) = Some (scan_plan_to_dict p)"
    by simp
  moreover obtain d where "scan_plan_to_dict p = PDict d" by (simp add: scan_plan_to_dict_def obj_def)
  ultimately have "scan_plan_from_json env (json_text (env_repr env) (scan_plan_to_dict p)) = Inr p"
    using plan.roundtrip [OF gs(2)] by (simp add: scan_plan_from_json_def strict_json_loads_def)
  with assms None gs(3) show ?thesis
    by (simp add: plan_from_state_def row_holds_def cache_plan_def thenS_def pureS_def)
next
  case (Some q)
  with assms show ?thesis by (auto simp: plan_from_state_def row_holds_def)
qed

lemma v2_load_run:
  assumes "v2_load scope env \<sigma> = (r, \<sigma>')" "v2_at scope env \<sigma> s"
  shows "v2_at scope env \<sigma>' s" "r = Inr k \<Longrightarrow> k = s" "v2_db \<sigma>' = v2_db \<sigma>"
proof -
  let ?p = "sk_plan s"
  from assms(2) have h: "good_checkpoint scope env s" "stored env (v2_db \<sigma>) s" "v2_cache \<sigma> = None \<or> v2_cache \<sigma> = Some ?p"
    "in_plan_order s" by (simp_all add: v2_at_def)
  then obtain row where row: "db_state (v2_db \<sigma>) = Some row" "row_holds env row s" by (auto simp: stored_def)
  have body: "(case db_state (v2_db \<tau>) of
       None \<Rightarrow> (Inl SessionCheckpointNotFoundError, \<tau>)
     | Some row \<Rightarrow> thenS (plan_from_state scope env row) (\<lambda>p \<sigma>. (read_checkpoint env p row (v2_db \<sigma>), \<sigma>)) \<tau>) =
     (Inr s, \<tau>\<lparr>v2_cache := Some ?p\<rparr>)" if "v2_db \<tau> = v2_db \<sigma>" "v2_cache \<tau> = v2_cache \<sigma>" for \<tau>
    using that h(3) plan_from_state_ok [OF h(1) refl row(2), of \<tau>] read_checkpoint_stored [OF h(1,2) row(1)]
    by (simp add: row(1) thenS_def)
  from assms(1) [unfolded v2_load_def]
  show "v2_at scope env \<sigma>' s" "r = Inr k \<Longrightarrow> k = s" "v2_db \<sigma>' = v2_db \<sigma>"
    by (rule reading_run; use h body in \<open>auto simp: v2_at_def\<close>)+
qed

end
