(* ===== verification/Session_Store_V2.thy ===== *)
theory Session_Store_V2
  imports Session_Tables
begin

text \<open>
  \<open>src/session_store_v2.py\<close> as a store: \<open>persist\<close> and \<open>load\<close> meet the contract that the store of
  generations meets, under every outcome of their transactions.
\<close>

lemma on_tables_run: "on_tables f \<sigma> = (r, \<tau>) \<longleftrightarrow>
    (case f (v2_db \<sigma>) of Inl e \<Rightarrow> r = Inl e \<and> \<tau> = \<sigma> | Inr (db, x) \<Rightarrow> r = Inr x \<and> \<tau> = \<sigma>\<lparr>v2_db := db\<rparr>)"
  by (auto simp: on_tables_def split: sum.splits prod.splits)

lemma v2_persist_run:
  assumes g: "v2_shape scope env p c s" and run: "v2_persist scope env s \<sigma> = (r, \<sigma>')"
    and ok: "\<And>db' same. persist_tables env (v2_sha env (checkpoint_text_of env s)) s (v2_db \<sigma>) = Inr (db', same) \<Longrightarrow>
      stored env db' s"
  shows "(v2_db \<sigma>' = v2_db \<sigma> \<and> v2_cache \<sigma>' = Some p \<and> (\<forall>x. r \<noteq> Inr x)) \<or>
    (\<exists>db' same. persist_tables env (v2_sha env (checkpoint_text_of env s)) s (v2_db \<sigma>) = Inr (db', same) \<and>
       v2_at scope env \<sigma>' s)"
proof -
  let ?sha = "v2_sha env (checkpoint_text_of env s)"
  let ?tail = "\<lambda>same. if same then pureS (Inr (checkpoint_commit env ?sha s))
       else thenS (v2_load scope env) (\<lambda>t. thenS (pureS (checkpoint_to_json env t)) (\<lambda>document'.
           if document' \<noteq> checkpoint_text_of env s then pureS (Inl SessionStoreV2IntegrityError)
           else pureS (Inr (checkpoint_commit env ?sha s))))"
  note gs = v2_shape_endpoints [OF g]
  have pl: "sk_plan s = p" using g by (simp add: v2_shape_def)
  have "thenS (tx_point SessionStoreV2Error) (\<lambda>_.
      thenS (transaction (on_tables (persist_tables env ?sha s))) ?tail) (\<sigma>\<lparr>v2_cache := Some p\<rparr>) = (r, \<sigma>')"
    using run checkpoint_to_json_of [OF gs(1)] gs(7) pl
    by (simp add: v2_persist_def thenS_def pureS_def cache_plan_def Let_def)
  then consider e where "tx_point SessionStoreV2Error (\<sigma>\<lparr>v2_cache := Some p\<rparr>) = (Inl e, \<sigma>')" "r = Inl e"
    | \<tau> u e where "tx_point SessionStoreV2Error (\<sigma>\<lparr>v2_cache := Some p\<rparr>) = (Inr u, \<tau>)"
        "transaction (on_tables (persist_tables env ?sha s)) \<tau> = (Inl e, \<sigma>')" "r = Inl e"
    | \<tau> u same \<tau>' where "tx_point SessionStoreV2Error (\<sigma>\<lparr>v2_cache := Some p\<rparr>) = (Inr u, \<tau>)"
        "transaction (on_tables (persist_tables env ?sha s)) \<tau> = (Inr same, \<tau>')" "?tail same \<tau>' = (r, \<sigma>')"
    unfolding thenS_run by blast
  then show ?thesis
  proof cases
    case 1
    with tx_point_keeps [OF 1(1)] show ?thesis by simp
  next
    case 2
    note k = tx_point_keeps [OF 2(1)]
    from 2(2) show ?thesis
    proof (rule transaction_run)
      fix \<tau>1 r0 \<tau>2
      assume "v2_cache \<tau>1 = v2_cache \<tau>" "on_tables (persist_tables env ?sha s) \<tau>1 = (r0, \<tau>2)"
        "v2_db \<sigma>' = v2_db \<tau>" "v2_cache \<sigma>' = v2_cache \<tau>2"
      with k 2(3) show ?thesis by (auto simp: on_tables_run split: sum.splits prod.splits)
    next
      fix \<tau>1 x \<tau>2
      assume "v2_db \<tau>1 = v2_db \<tau>" "v2_cache \<tau>1 = v2_cache \<tau>" "v2_db \<sigma>' = v2_db \<tau>2" "v2_cache \<sigma>' = v2_cache \<tau>2"
        "on_tables (persist_tables env ?sha s) \<tau>1 = (Inr x, \<tau>2)"
      with k 2(3) g ok show ?thesis by (auto simp: on_tables_run v2_at_def v2_shape_def split: sum.splits prod.splits)
    qed (use k 2(3) in simp)
  next
    case 3
    note k = tx_point_keeps [OF 3(1)]
    from 3(2) have "\<exists>db' same. persist_tables env ?sha s (v2_db \<sigma>) = Inr (db', same) \<and> v2_at scope env \<tau>' s"
    proof (rule transaction_run)
      fix \<tau>1 x \<tau>2
      assume "v2_db \<tau>1 = v2_db \<tau>" "v2_cache \<tau>1 = v2_cache \<tau>" "v2_db \<tau>' = v2_db \<tau>2" "v2_cache \<tau>' = v2_cache \<tau>2"
        "on_tables (persist_tables env ?sha s) \<tau>1 = (Inr x, \<tau>2)"
      with k g ok show ?thesis by (auto simp: on_tables_run v2_at_def v2_shape_def split: sum.splits prod.splits)
    qed auto
    then obtain db' same' where h: "persist_tables env ?sha s (v2_db \<sigma>) = Inr (db', same')"
      "v2_at scope env \<tau>' s" by blast
    have "v2_at scope env \<sigma>' s"
    proof (cases same)
      case True
      with 3(3) h(2) show ?thesis by simp
    next
      case False
      with 3(3) obtain r1 \<tau>1 where l: "v2_load scope env \<tau>' = (r1, \<tau>1)" "\<sigma>' = \<tau>1"
        by (auto simp: thenS_def pureS_def split: prod.splits sum.splits if_splits)
      from v2_load_run(1) [OF l(1) h(2)] l(2) show ?thesis by simp
    qed
    with h(1) show ?thesis by blast
  qed
qed

lemma v2_persist_atomic:
  assumes "good_v2 scope env p c D s" "v2_persist scope env s \<sigma> = (r, \<sigma>')" "v2_holds scope env p c D \<sigma> j"
  shows "(v2_holds scope env p c D \<sigma>' j \<and> (\<forall>x. r \<noteq> Inr x)) \<or> (v2_holds scope env p c D \<sigma>' s \<and> v2_follows j s)"
proof -
  from assms(3) have j: "good_v2 scope env p c D j" "stored env (v2_db \<sigma>) j" by (simp_all add: v2_holds_def)
  note n = persist_next_ok(2) [OF j assms(1)]
  have "(v2_db \<sigma>' = v2_db \<sigma> \<and> v2_cache \<sigma>' = Some p \<and> (\<forall>x. r \<noteq> Inr x)) \<or>
      (\<exists>db' same. persist_tables env (v2_sha env (checkpoint_text_of env s)) s (v2_db \<sigma>) = Inr (db', same) \<and>
        v2_at scope env \<sigma>' s)"
    by (rule v2_persist_run [OF good_v2_shape [OF assms(1)] assms(2)]) (rule n [THEN conjunct1])
  moreover have "sk_plan s = p" using assms(1) by (simp add: good_v2_def)
  ultimately show ?thesis using n j assms(1) by (auto simp: v2_holds_def v2_at_def)
qed

lemma v2_persist_empty:
  assumes "good_v2 scope env p c D s" "v2_persist scope env s \<sigma> = (r, \<sigma>')" "v2_db \<sigma> = empty_database"
  shows "(v2_db \<sigma>' = empty_database \<and> (\<forall>x. r \<noteq> Inr x)) \<or> v2_holds scope env p c D \<sigma>' s"
  using v2_persist_run [OF good_v2_shape [OF assms(1)] assms(2)] persist_first(2) [OF good_v2_shape [OF assms(1)]] assms(1,3)
  by (fastforce simp: v2_holds_iff)

text \<open>Two checkpoints that the same tables represent are equal.\<close>

lemma v2_holds_unique:
  assumes "v2_holds scope env p c D \<sigma> j" "v2_holds scope env p c D \<sigma> k"
  shows "j = k"
proof -
  from assms have "good_checkpoint scope env j" "good_checkpoint scope env k" "sk_plan j = sk_plan k"
    "stored env (v2_db \<sigma>) j" "stored env (v2_db \<sigma>) k"
    by (simp_all add: v2_holds_def good_v2_def)
  moreover then obtain row where "db_state (v2_db \<sigma>) = Some row" by (auto simp: stored_def)
  ultimately have "(Inr j :: exc + session_checkpoint) = Inr k"
    using read_checkpoint_stored by metis
  then show ?thesis by simp
qed

interpretation v2: atomic_store "v2_usable scope env p c D" "v2_holds scope env p c D" "v2_load scope env"
    "v2_persist scope env" "good_v2 scope env p c D" v2_follows for scope env p c D
proof
  show "v2_holds scope env p c D \<sigma> j \<Longrightarrow> v2_usable scope env p c D \<sigma>" for \<sigma> j
    by (auto simp: v2_usable_def)
  show "v2_holds scope env p c D \<sigma> j \<Longrightarrow> v2_holds scope env p c D \<sigma> k \<Longrightarrow> j = k" for \<sigma> j k
    by (rule v2_holds_unique)
  show "v2_holds scope env p c D \<sigma> k \<Longrightarrow> v2_load scope env \<sigma> = (g, \<sigma>') \<Longrightarrow> v2_holds scope env p c D \<sigma>' k" for \<sigma> g \<sigma>' k
    unfolding v2_holds_iff using v2_load_run(1) by blast
  show "good_v2 scope env p c D k \<Longrightarrow> v2_persist scope env k \<sigma> = (r, \<sigma>') \<Longrightarrow> v2_holds scope env p c D \<sigma> j \<Longrightarrow>
      (v2_holds scope env p c D \<sigma>' j \<and> (\<forall>x. r \<noteq> Inr x)) \<or> (v2_holds scope env p c D \<sigma>' k \<and> v2_follows j k)"
    for k \<sigma> r \<sigma>' j
    by (rule v2_persist_atomic)
  show "v2_holds scope env p c D \<sigma>' k"
    if "v2_usable scope env p c D \<sigma>" "good_v2 scope env p c D k" "v2_persist scope env k \<sigma> = (Inr x, \<sigma>')" for \<sigma> k x \<sigma>'
    using that v2_persist_atomic [OF that(2,3)] v2_persist_empty [OF that(2,3)] by (auto simp: v2_usable_def)
  show "v2_holds scope env p c D \<sigma> k" if u: "v2_usable scope env p c D \<sigma>" and l: "v2_load scope env \<sigma> = (Inr k, \<sigma>')" for \<sigma> k \<sigma>'
  proof (cases "v2_db \<sigma> = empty_database")
    case True
    from l [unfolded v2_load_def] have False
      by (rule reading_run) (use True in \<open>auto simp: empty_database_def\<close>)
    then show ?thesis ..
  next
    case False
    with u obtain s where s: "v2_holds scope env p c D \<sigma> s" by (auto simp: v2_usable_def)
    then have "v2_at scope env \<sigma> s" by (simp add: v2_holds_iff)
    from v2_load_run(2) [OF l this] s show ?thesis by simp
  qed
qed

section \<open>Operations that meet no error\<close>

lemma tx_point_healthy [simp]: "v2_io \<sigma> = [] \<Longrightarrow> tx_point e \<sigma> = (Inr (), \<sigma>)"
  by (simp add: tx_point_def next_tx_def)

lemma reading_healthy: "v2_io \<sigma> = [] \<Longrightarrow> body \<sigma> = (Inr x, \<tau>) \<Longrightarrow> v2_io \<tau> = [] \<Longrightarrow> reading body \<sigma> = (Inr x, \<tau>)"
  by (simp add: reading_def protecting_def thenS_def)

lemma transaction_healthy:
  "v2_io \<sigma> = [] \<Longrightarrow> body \<sigma> = (Inr x, \<tau>) \<Longrightarrow> v2_io \<tau> = [] \<Longrightarrow> transaction body \<sigma> = (Inr x, \<tau>)"
  by (simp add: transaction_def protecting_def thenS_def commit_tx_def next_tx_def)

lemma v2_load_healthy:
  assumes "good_checkpoint scope env s" "stored env (v2_db \<sigma>) s" "v2_io \<sigma> = []"
    "v2_cache \<sigma> = None \<or> v2_cache \<sigma> = Some (sk_plan s)"
  shows "v2_load scope env \<sigma> = (Inr s, \<sigma>\<lparr>v2_cache := Some (sk_plan s)\<rparr>)"
proof -
  from assms(2) obtain row where row: "db_state (v2_db \<sigma>) = Some row" "row_holds env row s" by (auto simp: stored_def)
  show ?thesis
    unfolding v2_load_def
    using assms plan_from_state_ok [OF assms(1) refl row(2) assms(4)] read_checkpoint_stored [OF assms(1,2) row(1)]
    by (intro reading_healthy) (simp_all add: row(1) thenS_def)
qed

lemma v2_persist_healthy:
  assumes g: "good_v2 scope env p c D s" and io: "v2_io \<sigma> = []" and n: "sk_sequence s < 2 ^ 63"
    and from1: "v2_db \<sigma> = empty_database \<or> (\<exists>j. good_v2 scope env p c D j \<and> stored env (v2_db \<sigma>) j \<and> v2_follows j s \<and> s \<noteq> j)"
  shows "\<exists>\<sigma>'. v2_persist scope env s \<sigma> =
    (Inr (checkpoint_commit env (v2_sha env (checkpoint_text_of env s)) s), \<sigma>')"
proof -
  let ?sha = "v2_sha env (checkpoint_text_of env s)"
  note gs = good_v2_endpoints [OF g]
  have gc: "good_checkpoint scope env s" "sk_plan s = p" using g by (simp_all add: good_v2_def)
  have "\<exists>db'. persist_tables env ?sha s (v2_db \<sigma>) = Inr (db', False) \<and> stored env db' s"
    using from1 persist_first [OF good_v2_shape [OF g]] persist_next_ok [OF _ _ g] n by metis
  then obtain db' where db': "persist_tables env ?sha s (v2_db \<sigma>) = Inr (db', False)" "stored env db' s" by blast
  let ?\<tau> = "\<sigma>\<lparr>v2_cache := Some p, v2_db := db'\<rparr>"
  have "transaction (on_tables (persist_tables env ?sha s)) (\<sigma>\<lparr>v2_cache := Some p\<rparr>) = (Inr False, ?\<tau>)"
    by (rule transaction_healthy) (simp_all add: io on_tables_def db'(1))
  moreover have "v2_load scope env ?\<tau> = (Inr s, ?\<tau>)"
    using v2_load_healthy [OF gc(1), of ?\<tau>] db'(2) io gc(2) by simp
  ultimately show ?thesis
    using io checkpoint_to_json_of [OF gs(1)] gs(7) gc(2)
    by (simp add: v2_persist_def thenS_def pureS_def cache_plan_def Let_def)
qed

section \<open>The contract of the store\<close>

text \<open>
  C3. The transactional store keeps the contract of the store of generations. A client persists
  a sequence of checkpoints of one session, under any script of errors of SQLite and of the
  file system and points where the process dies. Afterwards the tables represent the first
  checkpoint or one of those persisted before the run stopped, no step of the way drops a
  result or a banner that was confirmed, and the last one is represented when nothing failed.
  A later load without errors returns exactly that checkpoint. The digest has to tell the texts
  of the session apart.
\<close>

theorem v2_persist_crash_consistent:
  assumes "\<forall>k \<in> set ks. good_v2 scope env p c D k" "v2_holds scope env p c D \<sigma> j"
    "put_all (v2_persist scope env) ks \<sigma> = (r, \<sigma>')"
  shows "\<exists>n \<le> length ks. v2_holds scope env p c D \<sigma>' ((j # ks) ! n) \<and>
    (r = Inr () \<longrightarrow> n = length ks) \<and>
    (\<forall>i < n. v2_follows ((j # ks) ! i) ((j # ks) ! Suc i)) \<and>
    fst (v2_load scope env (\<sigma>'\<lparr>v2_io := []\<rparr>)) = Inr ((j # ks) ! n)"
proof -
  from v2.put_all_prefix [OF assms(1,3,2)] obtain n where
    n: "n \<le> length ks" "v2_holds scope env p c D \<sigma>' ((j # ks) ! n)" "r = Inr () \<longrightarrow> n = length ks"
      "\<forall>i < n. v2_follows ((j # ks) ! i) ((j # ks) ! Suc i)" by blast
  then have "fst (v2_load scope env (\<sigma>'\<lparr>v2_io := []\<rparr>)) = Inr ((j # ks) ! n)"
    using v2_load_healthy [of scope env "(j # ks) ! n" "\<sigma>'\<lparr>v2_io := []\<rparr>"]
    by (auto simp: v2_holds_def good_v2_def)
  with n show ?thesis by blast
qed

text \<open>A checkpoint whose open port still waits for its banner.\<close>

definition sample_bare :: session_checkpoint where
  "sample_bare = sample_checkpoint\<lparr>sk_endpoints := [sample_progress\<lparr>ep_completed_banner_ports := []\<rparr>]\<rparr>"

text \<open>A digest that tells the texts of the samples apart.\<close>

definition sample_digest :: "string \<Rightarrow> string" where
  "sample_digest s = replicate 64
     (if s = checkpoint_text_of sample_env sample_checkpoint then CHR ''1''
      else if s = checkpoint_text_of sample_env sample_later then CHR ''2''
      else if s = checkpoint_text_of sample_env sample_bare then CHR ''4'' else CHR ''3'')"

definition sample_v2_env :: session_env where
  "sample_v2_env = sample_env\<lparr>env_sha256 := sample_digest\<rparr>"

lemma sample_v2_env_simps [simp]: "env_iso_read sample_v2_env = env_iso_read sample_env"
  "env_iso_write sample_v2_env = env_iso_write sample_env" "env_repr sample_v2_env = env_repr sample_env"
  "env_float sample_v2_env = env_float sample_env" "env_encode sample_v2_env = env_encode sample_env"
  "env_decode sample_v2_env = env_decode sample_env" "env_sha256 sample_v2_env = sample_digest"
  by (simp_all add: sample_v2_env_def)

lemma sample_v2_iso: "normalize_timestamp sample_v2_env = normalize_timestamp sample_env"
  "parse_timestamp sample_v2_env = parse_timestamp sample_env"
  unfolding normalize_timestamp_def [abs_def] parse_timestamp_def [abs_def] sample_v2_env_simps by (rule refl)+

lemma sample_v2_wf: "wf_checkpoint sample_v2_env = wf_checkpoint sample_env"
  by (simp add: fun_eq_iff wf_checkpoint_def wf_timestamp_def times_ordered_def sample_v2_iso)

lemma sample_v2_env_ok: "env_ok sample_v2_env"
proof -
  have "is_lower_hex CHR ''1'' \<and> is_lower_hex CHR ''2'' \<and> is_lower_hex CHR ''3'' \<and> is_lower_hex CHR ''4''" by code_simp
  then have "sha_ok sample_v2_env"
    by (simp add: sha_ok_def sample_digest_def is_sha256_hex_def list_all_iff)
  moreover have "iso_ok sample_v2_env = iso_ok sample_env" "utf8_ok sample_v2_env = utf8_ok sample_env"
    unfolding iso_ok_def utf8_ok_def sample_v2_env_simps by (rule refl)+
  ultimately show ?thesis using sample_env_ok by (simp add: env_ok_def)
qed

text \<open>The text of a result is never that of a checkpoint.\<close>

lemma checkpoint_not_result:
  assumes "env_ok env" "wf_checkpoint env s" "wf_port_result t r"
  shows "checkpoint_text_of env s \<noteq> result_text env r"
proof
  assume e: "checkpoint_text_of env s = result_text env r"
  have repr: "repr_ok (env_float env) (env_repr env)" using assms(1) by (simp add: env_ok_def)
  note l = json_loads_text [OF repr json_checkpoint [OF assms(2)], of "[]", unfolded append_Nil2]
    json_loads_text [OF repr json_port_result [OF assms(3)], of "[]", unfolded append_Nil2]
  have "json_loads (env_float env) (checkpoint_text_of env s) = Some (session_checkpoint_to_dict s)"
    "json_loads (env_float env) (result_text env r) = Some (scan_result_to_dict r)"
    unfolding checkpoint_text_of_def result_text_def by (rule l, simp)+
  with e have "session_checkpoint_to_dict s = scan_result_to_dict r" by (metis option.inject)
  then have "(case session_checkpoint_to_dict s of PDict d \<Rightarrow> length d | _ \<Rightarrow> 0) =
      (case scan_result_to_dict r of PDict d \<Rightarrow> length d | _ \<Rightarrow> 0)" by (rule arg_cong)
  then show False unfolding session_checkpoint_to_dict_def scan_result_to_dict_def obj_def
    by simp
qed

definition sample_texts :: "string set" where
  "sample_texts = texts_of sample_v2_env sample_checkpoint \<union> texts_of sample_v2_env sample_later"

lemma sample_v2_encode: "env_encode sample_env s = s"
  by (simp add: sample_env_def)

lemma sample_bare_wf: "wf_checkpoint sample_v2_env sample_bare"
proof -
  have "session_checkpoint_from_dict sample_env (session_checkpoint_to_dict sample_bare) = Inr sample_bare" by code_simp
  then show ?thesis unfolding sample_v2_wf by (rule checkpoint_accepted_wf [OF sample_iso_ok])
qed

lemma sample_good_v2:
  "good_v2 require_single_target_plan sample_v2_env sample_plan (sk_created_at sample_checkpoint) sample_texts sample_checkpoint"
  "good_v2 require_single_target_plan sample_v2_env sample_plan (sk_created_at sample_checkpoint) sample_texts sample_later"
proof -
  have "good_checkpoint require_single_target_plan sample_v2_env s"
    if "good_checkpoint require_single_target_plan sample_env s" for s
    using that sample_v2_env_ok by (simp add: good_checkpoint_def sample_v2_wf)
  note good = this [OF sample_good] this [OF sample_later_good]
  let ?a = "checkpoint_text_of sample_v2_env sample_checkpoint"
    and ?b = "checkpoint_text_of sample_v2_env sample_later" and ?r = "result_text sample_v2_env sample_result"
  have t: "sample_texts = {?a, ?b, ?r}"
    by (auto simp: sample_texts_def texts_of_def sample_later_def sample_checkpoint_def sample_progress_def)
  have wf: "wf_checkpoint sample_v2_env sample_checkpoint" "wf_checkpoint sample_v2_env sample_later"
    using good by (simp_all add: good_checkpoint_def)
  then have "wf_port_result sample_identity sample_result"
    by (simp add: wf_checkpoint_def sample_checkpoint_def sample_progress_def wf_progress_def)
  note checkpoint_not_result [OF sample_v2_env_ok wf(1) this] checkpoint_not_result [OF sample_v2_env_ok wf(2) this]
  moreover have "?a \<noteq> ?b"
    using checkpoint_text_inj [OF sample_v2_env_ok wf] by (auto simp: sample_later_def sample_checkpoint_def)
  moreover have "?r \<noteq> checkpoint_text_of sample_v2_env sample_bare"
    using checkpoint_not_result [OF sample_v2_env_ok sample_bare_wf \<open>wf_port_result sample_identity sample_result\<close>] by simp
  moreover have "checkpoint_text_of sample_env s = checkpoint_text_of sample_v2_env s" for s
    by (simp add: checkpoint_text_of_def)
  ultimately have "v2_sha sample_v2_env ?a = replicate 64 CHR ''1''" "v2_sha sample_v2_env ?b = replicate 64 CHR ''2''"
    "v2_sha sample_v2_env ?r = replicate 64 CHR ''3''"
    using sample_v2_encode by (auto simp: v2_sha_def sample_digest_def)
  then have "inj_on (v2_sha sample_v2_env) sample_texts" by (auto simp: t inj_on_def replicate_eq_replicate)
  moreover have "sk_plan sample_checkpoint = sample_plan" "sk_plan sample_later = sample_plan"
    "sk_created_at sample_later = sk_created_at sample_checkpoint"
    "in_plan_order sample_checkpoint" "in_plan_order sample_later"
    by (simp_all add: sample_later_def sample_checkpoint_def in_plan_order_def sample_plan_def sample_progress_def)
  ultimately show "good_v2 require_single_target_plan sample_v2_env sample_plan (sk_created_at sample_checkpoint) sample_texts sample_checkpoint"
    "good_v2 require_single_target_plan sample_v2_env sample_plan (sk_created_at sample_checkpoint) sample_texts sample_later"
    using good by (auto simp: good_v2_def sample_texts_def)
qed

definition empty_v2 :: "tx_outcome list \<Rightarrow> v2_state" where
  "empty_v2 io = \<lparr>v2_db = empty_database, v2_cache = None, v2_io = io\<rparr>"

lemma sample_v2_held:
  "\<exists>db. \<forall>io. v2_holds require_single_target_plan sample_v2_env sample_plan (sk_created_at sample_checkpoint)
     sample_texts \<lparr>v2_db = db, v2_cache = None, v2_io = io\<rparr> sample_checkpoint"
proof -
  have "sk_sequence sample_checkpoint < 2 ^ 63" by (simp add: sample_checkpoint_def)
  from persist_first(1) [OF good_v2_shape [OF sample_good_v2(1)] this] persist_first(2) [OF good_v2_shape [OF sample_good_v2(1)]] sample_good_v2(1)
  show ?thesis by (auto simp: v2_holds_def)
qed

lemma sample_bare_good_v2:
  "good_v2 require_single_target_plan sample_v2_env sample_plan (sk_created_at sample_bare)
     (texts_of sample_v2_env sample_bare) sample_bare"
proof -
  note wf = sample_bare_wf
  have "require_single_target_plan sample_plan = Inr ()" by code_simp
  with wf have good: "good_checkpoint require_single_target_plan sample_v2_env sample_bare"
    by (simp add: good_checkpoint_def sample_v2_env_ok sample_bare_def sample_checkpoint_def)
  let ?a = "checkpoint_text_of sample_v2_env sample_bare" and ?r = "result_text sample_v2_env sample_result"
  have t: "texts_of sample_v2_env sample_bare = {?a, ?r}"
    by (auto simp: texts_of_def sample_bare_def sample_progress_def)
  have r: "wf_port_result sample_identity sample_result"
    using wf by (simp add: wf_checkpoint_def sample_bare_def sample_progress_def wf_progress_def)
  have "wf_checkpoint sample_v2_env sample_checkpoint" "wf_checkpoint sample_v2_env sample_later"
    using sample_good_v2 by (simp_all add: good_v2_def good_checkpoint_def)
  note differ = checkpoint_not_result [OF sample_v2_env_ok this(1) r] checkpoint_not_result [OF sample_v2_env_ok this(2) r]
    checkpoint_not_result [OF sample_v2_env_ok wf r]
  have same: "checkpoint_text_of sample_env s = checkpoint_text_of sample_v2_env s" for s
    by (simp add: checkpoint_text_of_def)
  have "v2_sha sample_v2_env ?r = replicate 64 CHR ''3''" "v2_sha sample_v2_env ?a \<noteq> replicate 64 CHR ''3''"
    using differ by (auto simp: v2_sha_def sample_digest_def sample_v2_encode same)
  with differ(3) have "inj_on (v2_sha sample_v2_env) {?a, ?r}" by (auto simp: inj_on_def)
  then have inj: "inj_on (v2_sha sample_v2_env) (texts_of sample_v2_env sample_bare)" by (simp only: t)
  have "sk_plan sample_bare = sample_plan" "in_plan_order sample_bare"
    by (simp_all add: sample_bare_def sample_checkpoint_def in_plan_order_def sample_plan_def sample_progress_def)
  with good inj show ?thesis by (simp add: good_v2_def)
qed

lemma sample_bare_held:
  "\<exists>db. \<forall>io. v2_holds require_single_target_plan sample_v2_env sample_plan (sk_created_at sample_bare)
     (texts_of sample_v2_env sample_bare) \<lparr>v2_db = db, v2_cache = None, v2_io = io\<rparr> sample_bare"
proof -
  have "sk_sequence sample_bare < 2 ^ 63" by (simp add: sample_bare_def sample_checkpoint_def)
  from persist_first(1) [OF good_v2_shape [OF sample_bare_good_v2] this] persist_first(2) [OF good_v2_shape [OF sample_bare_good_v2]] sample_bare_good_v2
  show ?thesis by (auto simp: v2_holds_def)
qed

theorem v2_persist_crash_consistent_witness:
  "\<exists>db. \<forall>io. \<exists>s \<in> {sample_checkpoint, sample_later}.
     fst (v2_load require_single_target_plan sample_v2_env
       ((snd (put_all (v2_persist require_single_target_plan sample_v2_env) [sample_later]
         \<lparr>v2_db = db, v2_cache = None, v2_io = io\<rparr>))\<lparr>v2_io := []\<rparr>)) = Inr s"
proof -
  from sample_v2_held obtain db where db: "\<forall>io. v2_holds require_single_target_plan sample_v2_env sample_plan
     (sk_created_at sample_checkpoint) sample_texts \<lparr>v2_db = db, v2_cache = None, v2_io = io\<rparr> sample_checkpoint" ..
  have "\<exists>s \<in> {sample_checkpoint, sample_later}.
     fst (v2_load require_single_target_plan sample_v2_env
       ((snd (put_all (v2_persist require_single_target_plan sample_v2_env) [sample_later]
         \<lparr>v2_db = db, v2_cache = None, v2_io = io\<rparr>))\<lparr>v2_io := []\<rparr>)) = Inr s" for io
  proof -
    obtain r \<sigma>' where r: "put_all (v2_persist require_single_target_plan sample_v2_env) [sample_later]
        \<lparr>v2_db = db, v2_cache = None, v2_io = io\<rparr> = (r, \<sigma>')" by fastforce
    have "\<forall>k \<in> set [sample_later]. good_v2 require_single_target_plan sample_v2_env sample_plan
        (sk_created_at sample_checkpoint) sample_texts k" using sample_good_v2(2) by simp
    from v2_persist_crash_consistent [OF this db [rule_format] r] obtain n where
      "n \<le> 1" "fst (v2_load require_single_target_plan sample_v2_env (\<sigma>'\<lparr>v2_io := []\<rparr>)) = Inr ([sample_checkpoint, sample_later] ! n)"
      by (elim exE conjE) simp
    then show ?thesis unfolding r snd_conv by (cases n) auto
  qed
  then show ?thesis by blast
qed

end
