(* ===== verification/Session_Increments.thy ===== *)
theory Session_Increments
  imports Session_Store_V2 Session_Runner
begin

text \<open>
  The incremental commits of \<open>src/session_store_v2.py\<close>, \<open>append_results\<close> and \<open>complete_banner\<close>,
  against the checkpoint they stand for: what the tables hold after one is the checkpoint with
  the results, or the banner, at their endpoint.
\<close>

section \<open>Where a store stands\<close>

lemma v2_holds_at: "v2_holds scope env p c D \<sigma> s \<Longrightarrow> v2_at scope env \<sigma> s"
  by (auto simp: v2_holds_def v2_at_def good_v2_def)

lemma v2_at_load:
  assumes "v2_at scope env \<sigma> s"
  shows "fst (v2_load scope env (\<sigma>\<lparr>v2_io := []\<rparr>)) = Inr s"
  using assms v2_load_healthy [of scope env s "\<sigma>\<lparr>v2_io := []\<rparr>"] by (auto simp: v2_at_def)

section \<open>Instants\<close>

lemma wf_timestamp_utc:
  assumes "iso_ok env" "wf_timestamp env s"
  shows "\<exists>t. parse_timestamp env s = Inr t \<and> (\<forall>err. utc_instant env err s = Inr t)"
proof -
  from assms(2) have n: "normalize_timestamp env (PStr s) = Inr s" by (simp add: wf_timestamp_def)
  then obtain u t where u: "env_iso_read env u = Some (Some 0, t)"
    "s = replace_all ''+00:00'' ''Z'' (env_iso_write env t)"
    by (auto simp: normalize_timestamp_def run Let_def split: option.splits if_splits)
  from assms(1) [unfolded iso_ok_def, rule_format, OF u(1)] obtain body where
    b: "env_iso_write env t = body @ ''+00:00''"
    "\<forall>c \<in> set body. c \<noteq> CHR ''Z'' \<and> c \<noteq> CHR ''+'' \<and> \<not> is_space c \<and> c \<noteq> CHR 0x00"
    "env_iso_read env (env_iso_write env t) = Some (Some 0, t)" by (elim exE conjE)
  from b(2) have no: "CHR ''+'' \<notin> set body" "CHR ''Z'' \<notin> set body" by auto
  have s: "s = body @ ''Z''"
    using replace_all_skip [OF no(1)] by (simp add: u(2) b(1) starts_with_def)
  have "replace_all ''Z'' ''+00:00'' s = body @ ''+00:00''"
    using replace_all_skip [OF no(2)] by (simp add: s starts_with_def)
  then show ?thesis using b(1,3)
    by (simp add: parse_timestamp_def utc_instant_def s ends_with_def starts_with_def)
qed

lemma open_state_ok:
  assumes "iso_ok env" "wf_timestamp env now" "row_holds env row s" "wf_checkpoint env s"
    "db_state db = Some row" "open_state env now db = Inr row'"
  shows "row' = row" "\<not> is_terminal (sk_status s)" "times_ordered env (sk_created_at s) now"
proof -
  have ua: "sw_updated_at row = sk_updated_at s" "sw_status row = session_status_value (sk_status s)"
    using assms(3) by (simp_all add: row_holds_def)
  have wt: "wf_timestamp env (sk_updated_at s)" "times_ordered env (sk_created_at s) (sk_updated_at s)"
    using assms(4) by (simp_all add: wf_checkpoint_def)
  obtain t0 where t0: "parse_timestamp env (sk_updated_at s) = Inr t0" "\<And>err. utc_instant env err (sk_updated_at s) = Inr t0"
    using wf_timestamp_utc [OF assms(1) wt(1)] by blast
  obtain t1 where t1: "parse_timestamp env now = Inr t1" "\<And>err. utc_instant env err now = Inr t1"
    using wf_timestamp_utc [OF assms(1,2)] by blast
  from assms(6) have o: "row' = row" "\<not> is_terminal (sk_status s)" "\<not> t1 < t0"
    by (auto simp: open_state_def assms(5) ua run validated_utc_timestamp_def t0 t1 split: if_splits)
  then show "row' = row" "\<not> is_terminal (sk_status s)" by blast+
  show "times_ordered env (sk_created_at s) now"
    using wt(2) t0(1) t1(1) o(3) by (auto simp: times_ordered_def)
qed

section \<open>The end of an incremental commit\<close>

lemma json_finite_strings: "list_all json_finite (map PStr xs)" by (simp add: list_all_iff)

lemma advance_state_ok:
  assumes "advance_state env row now n err ds bp ty payload db = Inr (db', completed)"
    "db_state db = Some row" "history_ok db row" "sw_sequence row < n" "\<And>d k. json_finite (payload d k)"
  shows "\<exists>row'. db_state db' = Some row' \<and>
      row' = row\<lparr>sw_status := ''running'', sw_updated_at := now, sw_sequence := n, sw_last_error := err,
        sw_checkpoint_sha256 := None, sw_state_digest := sw_state_digest row'\<rparr> \<and> history_ok db' row'"
    "db_endpoints db' = db_endpoints db" "db_results db' = db_results db" "db_banners db' = db_banners db"
    "completed = int (length (db_results db))"
proof -
  from assms(1) obtain digest where
    h: "\<not> list_ex (same_generation n) (db_history db)"
    and f: "db_state db' = Some (row\<lparr>sw_status := ''running'', sw_updated_at := now, sw_sequence := n,
        sw_last_error := err, sw_checkpoint_sha256 := None, sw_state_digest := digest\<rparr>)"
      "db_history db' = db_history db @ [\<lparr>yw_sequence = n, yw_status = ''running'', yw_state_digest = digest\<rparr>]"
      "db_endpoints db' = db_endpoints db" "db_results db' = db_results db" "db_banners db' = db_banners db"
      "completed = int (length (db_results db))"
    using assms(2,5)
    by (auto simp: advance_state_def run Let_def insert_history_def update_state_def event_ok split: if_splits)
  have "find (same_generation n) (db_history db) = None" using h by (auto simp: find_None_iff list_ex_iff)
  with f(1,2) assms(3,4) show "\<exists>row'. db_state db' = Some row' \<and>
      row' = row\<lparr>sw_status := ''running'', sw_updated_at := now, sw_sequence := n, sw_last_error := err,
        sw_checkpoint_sha256 := None, sw_state_digest := sw_state_digest row'\<rparr> \<and> history_ok db' row'"
    by (fastforce simp: history_ok_def find_append same_generation_def)
qed (use assms in \<open>auto simp: advance_state_def run Let_def insert_history_def update_state_def event_ok split: if_splits\<close>)

section \<open>One endpoint of the tables\<close>

lemma list_all2_right: "list_all2 P xs ys \<Longrightarrow> y \<in> set ys \<Longrightarrow> \<exists>x \<in> set xs. P x y"
  by (induction rule: list_all2_induct) auto

lemma endpoints_hold_keys:
  "list_all2 (endpoint_holds env db) ws es \<Longrightarrow>
   map endpoint_row_key ws = map (\<lambda>e. endpoint_key (ep_identity e)) es"
  by (induction rule: list_all2_induct) (auto simp: endpoint_holds_key)

lemma endpoint_row_for:
  assumes "endpoints_hold env db s" "wf_checkpoint env s" "e \<in> set (sk_endpoints s)"
    "endpoint_key (ep_identity e) = endpoint_key t" "r \<in> set (db_endpoints db)" "endpoint_row_key r = endpoint_key t"
  shows "endpoint_holds env db r e"
proof -
  have l: "list_all2 (endpoint_holds env db) (db_endpoints db) (sk_endpoints s)"
    using assms(1) by (simp add: endpoints_hold_def)
  from list_all2_right [OF l assms(3)] obtain v where v: "v \<in> set (db_endpoints db)" "endpoint_holds env db v e" by blast
  have "distinct (map endpoint_row_key (db_endpoints db))"
    using checkpoint_endpoints_distinct [OF assms(2)] endpoints_hold_keys [OF l] by simp
  moreover have "endpoint_row_key v = endpoint_row_key r" using endpoint_holds_key [OF v(2)] assms(4,6) by simp
  ultimately have "v = r" using v(1) assms(5) by (auto simp: distinct_map inj_on_def)
  with v(2) show ?thesis by simp
qed

text \<open>A change of the rows of one endpoint.\<close>

lemma endpoints_hold_at:
  assumes "endpoints_hold env db s" "tables_ok db'" "db_endpoints db' = db_endpoints db"
    "w \<in> set (db_endpoints db)" "endpoint_row_key w = endpoint_key t"
    "distinct (map (\<lambda>e. endpoint_key (ep_identity e)) (sk_endpoints s))"
    and other: "\<And>i. i \<noteq> ew_endpoint_id w \<Longrightarrow> results_of db' i = results_of db i \<and> banners_of db' i = banners_of db i"
    and here: "\<And>e. e \<in> set (sk_endpoints s) \<Longrightarrow> endpoint_holds env db w e \<Longrightarrow> endpoint_holds env db' w (f e)"
  shows "list_all2 (endpoint_holds env db') (db_endpoints db')
    (map (\<lambda>e. if endpoint_key (ep_identity e) = endpoint_key t then f e else e) (sk_endpoints s))"
proof -
  have h: "list_all2 (endpoint_holds env db) (db_endpoints db) (sk_endpoints s)" "tables_ok db"
    using assms(1) by (simp_all add: endpoints_hold_def)
  have step: "endpoint_holds env db' v (if endpoint_key (ep_identity e) = endpoint_key t then f e else e)"
    if v: "v \<in> set (db_endpoints db)" "e \<in> set (sk_endpoints s)" "endpoint_holds env db v e" for v e
  proof (cases "endpoint_key (ep_identity e) = endpoint_key t")
    case True
    then have "endpoint_row_key v = endpoint_row_key w"
      using endpoint_holds_key [OF v(3)] assms(5) by simp
    moreover have "distinct (map endpoint_row_key (db_endpoints db))"
      using endpoints_hold_keys [OF h(1)] assms(6) by simp
    ultimately have "v = w" using v(1) assms(4) by (auto simp: distinct_map inj_on_def)
    with True here v show ?thesis by simp
  next
    case False
    then have "v \<noteq> w" using endpoint_holds_key [OF v(3)] assms(5) by auto
    then have "ew_endpoint_id v \<noteq> ew_endpoint_id w"
      using h(2) v(1) assms(4) by (auto simp: tables_ok_def distinct_map inj_on_def)
    with other [of "ew_endpoint_id v"] v(3) False show ?thesis by (simp add: endpoint_holds_def)
  qed
  show ?thesis
    unfolding assms(3) list_all2_map2 by (rule list.rel_mono_strong [OF h(1)]) (rule step)
qed

text \<open>The number of rows is the number of completed results.\<close>

lemma sum_bump:
  "distinct ids \<Longrightarrow> a \<in> set ids \<Longrightarrow>
   sum_list (map (\<lambda>i. if a = i then Suc (g i) else g i) ids) = Suc (sum_list (map g ids))"
proof (induction ids)
  case (Cons i ids)
  have "a \<notin> set ids \<Longrightarrow> sum_list (map (\<lambda>i. if a = i then Suc (g i) else g i) ids) = sum_list (map g ids)"
    by (intro arg_cong [of _ _ sum_list] map_cong) auto
  with Cons show ?case by auto
qed simp

lemma length_partition:
  assumes "distinct ids" "f ` set xs \<subseteq> set ids"
  shows "length xs = sum_list (map (\<lambda>i. length [x \<leftarrow> xs. f x = i]) ids)"
  using assms(2)
proof (induction xs)
  case (Cons x xs)
  have "(\<lambda>i. length [y \<leftarrow> x # xs. f y = i]) =
      (\<lambda>i. if f x = i then Suc (length [y \<leftarrow> xs. f y = i]) else length [y \<leftarrow> xs. f y = i])" by auto
  with Cons sum_bump [OF assms(1), of "f x"] show ?case by simp
qed simp

lemma count_rows:
  assumes "endpoints_hold env db s" "list_all wf_progress (sk_endpoints s)"
  shows "int (length (db_results db)) = count_completed s"
proof -
  have t: "tables_ok db" and l: "list_all2 (endpoint_holds env db) (db_endpoints db) (sk_endpoints s)"
    using assms(1) by (simp_all add: endpoints_hold_def)
  have len: "length (results_of db (ew_endpoint_id w)) = length (ep_completed_results e)"
    if "endpoint_holds env db w e" "wf_progress e" for w e
  proof -
    let ?rs = "ep_completed_results e" and ?row = "row_of env (ew_endpoint_id w)"
    have k: "distinct ?rs" "inj_on session_result_key (set ?rs)"
      using that(2) by (auto simp: wf_progress_def distinct_map)
    then have "inj_on ?row (set ?rs)" by (metis inj_on_def row_of_simps(2))
    then have "card (?row ` set ?rs) = length ?rs" using k(1) by (simp add: card_image distinct_card)
    moreover have "distinct (results_of db (ew_endpoint_id w))"
      using distinct_row_keys [OF t] by (simp add: distinct_map)
    ultimately show ?thesis using that(1) by (metis distinct_card endpoint_holds_def)
  qed
  have "map (\<lambda>w. length (results_of db (ew_endpoint_id w))) (db_endpoints db) =
      map (\<lambda>e. length (ep_completed_results e)) (sk_endpoints s)"
    using l assms(2) len by (induction rule: list_all2_induct) auto
  moreover have "length (db_results db) =
      sum_list (map (\<lambda>i. length (results_of db i)) (map ew_endpoint_id (db_endpoints db)))"
    unfolding results_of_def using t by (intro length_partition) (auto simp: tables_ok_def)
  ultimately show ?thesis by (simp add: count_completed_def comp_def)
qed

section \<open>\<open>append_results\<close>\<close>

lemma insert_results_ok:
  assumes "insert_results env allowed t i vs seen rows = Inr (rows', ds)" "wf_session_identity t"
    "distinct (map full_key rows)"
  shows "\<exists>rs. map_err (\<lambda>v. canonicalize_port_result env v t) vs = Inr rs \<and>
    list_all (wf_port_result t) rs \<and> rows' = rows @ map (row_of env i) rs \<and>
    distinct (map full_key rows') \<and> distinct (map session_result_key rs) \<and>
    session_result_key ` set rs \<inter> set seen = {} \<and> sr_port ` set rs \<subseteq> set allowed"
  using assms(1,3)
proof (induction vs arbitrary: seen rows rows' ds)
  case Nil
  then show ?case by simp
next
  case (Cons v vs)
  from Cons.prems(1) obtain r where r: "canonicalize_port_result env v t = Inr r" by (auto simp: run)
  have wf: "wf_port_result t r" by (rule canonicalize_ok [OF r assms(2)])
  from Cons.prems(1) obtain ds' where
    new: "session_result_key r \<notin> set seen" "sr_port r \<in> set allowed"
      "\<not> list_ex (same_result i (session_result_key r)) rows"
    and rest: "insert_results env allowed t i vs (session_result_key r # seen) (rows @ [row_of env i r]) = Inr (rows', ds')"
    by (auto simp: run r new_row_ok [OF wf] split: if_splits)
  have "distinct (map full_key (rows @ [row_of env i r]))"
    using Cons.prems(2) new(3) by (auto simp: full_key_def [abs_def] list_ex_iff same_result_def)
  from Cons.IH [OF rest this] obtain rs where
    "map_err (\<lambda>v. canonicalize_port_result env v t) vs = Inr rs" "list_all (wf_port_result t) rs"
    "rows' = (rows @ [row_of env i r]) @ map (row_of env i) rs" "distinct (map full_key rows')"
    "distinct (map session_result_key rs)" "session_result_key ` set rs \<inter> set (session_result_key r # seen) = {}"
    "sr_port ` set rs \<subseteq> set allowed" by blast
  with r wf new(1,2) show ?case by (intro exI [of _ "r # rs"]) auto
qed

definition add_results :: "scan_result list \<Rightarrow> endpoint_progress \<Rightarrow> endpoint_progress" where
  "add_results rs e = e\<lparr>ep_completed_results := sort_key session_result_key (ep_completed_results e @ rs),
     ep_pending_ports := [q \<leftarrow> ep_pending_ports e. q \<notin> sr_port ` set rs]\<rparr>"

definition at_endpoint ::
    "target_identity \<Rightarrow> (endpoint_progress \<Rightarrow> endpoint_progress) \<Rightarrow> endpoint_progress list \<Rightarrow> endpoint_progress list" where
  "at_endpoint t f es = map (\<lambda>e. if endpoint_key (ep_identity e) = endpoint_key t then f e else e) es"

text \<open>The checkpoint after an incremental commit.\<close>

definition advanced ::
    "target_identity \<Rightarrow> (endpoint_progress \<Rightarrow> endpoint_progress) \<Rightarrow> nat \<Rightarrow> string \<Rightarrow> session_checkpoint
     \<Rightarrow> session_checkpoint" where
  "advanced t f n now s = s\<lparr>sk_status := SS_RUNNING, sk_endpoints := at_endpoint t f (sk_endpoints s),
     sk_updated_at := now, sk_sequence := sk_sequence s + int n, sk_last_error := None\<rparr>"

lemma at_endpoint_keys: "(\<And>e. ep_identity (f e) = ep_identity e) \<Longrightarrow>
    map (\<lambda>e. g (ep_identity e)) (at_endpoint t f es) = map (\<lambda>e. g (ep_identity e)) es"
  by (simp add: at_endpoint_def)

lemma advanced_good:
  assumes "good_checkpoint scope env s" "in_plan_order s" "wf_timestamp env now"
    "times_ordered env (sk_created_at s) now" "\<And>e. ep_identity (f e) = ep_identity e"
    "\<And>e. e \<in> set (sk_endpoints s) \<Longrightarrow> endpoint_key (ep_identity e) = endpoint_key t \<Longrightarrow>
      wf_progress (f e) \<and> ports_accounted (sk_plan s) (f e)"
  shows "good_checkpoint scope env (advanced t f n now s)" "in_plan_order (advanced t f n now s)"
proof -
  let ?es = "at_endpoint t f (sk_endpoints s)"
  have w: "wf_checkpoint env s" using assms(1) by (simp add: good_checkpoint_def)
  have k: "map (\<lambda>e. endpoint_key (ep_identity e)) ?es = map (\<lambda>e. endpoint_key (ep_identity e)) (sk_endpoints s)"
    by (rule at_endpoint_keys [OF assms(5)])
  have "list_all wf_progress ?es \<and> list_all (ports_accounted (sk_plan s)) ?es"
    using w assms(6) by (auto simp: at_endpoint_def wf_checkpoint_def list_all_iff)
  moreover have "endpoints_match (sk_plan s) ?es"
    using w arg_cong [OF k, of set] map_eq_imp_length_eq [OF k] by (simp add: wf_checkpoint_def endpoints_match_def)
  moreover have "?es \<noteq> []" using w by (simp add: wf_checkpoint_def at_endpoint_def)
  ultimately show "good_checkpoint scope env (advanced t f n now s)"
    using assms(1,3,4) w by (simp add: good_checkpoint_def wf_checkpoint_def advanced_def status_rules_def opt_string_def)
  show "in_plan_order (advanced t f n now s)"
    using assms(2) at_endpoint_keys [OF assms(5), of "\<lambda>x. x" t "sk_endpoints s"]
    by (simp add: in_plan_order_def advanced_def comp_def)
qed

text \<open>What the tables represent after the state has advanced.\<close>

lemma advanced_stored:
  assumes "stored env db s" "db_state db = Some row" "history_ok db row"
    and adv: "advance_state env row now (sk_sequence s + int n) None ds bp ty payload db1 = Inr (db', completed)"
    and n: "0 < n" and pay: "\<And>d k. json_finite (payload d k)"
    and db1: "db_state db1 = db_state db" "db_history db1 = db_history db" "db_endpoints db1 = db_endpoints db"
      "tables_ok db1"
    and h: "list_all2 (endpoint_holds env db1) (db_endpoints db1) (at_endpoint t f (sk_endpoints s))"
    and wf: "list_all wf_progress (at_endpoint t f (sk_endpoints s))"
  shows "stored env db' (advanced t f n now s)" "completed = count_completed (advanced t f n now s)"
proof -
  let ?s = "advanced t f n now s"
  have row: "row_holds env row s" using assms(1,2) by (auto simp: stored_def)
  then have "sw_sequence row < sk_sequence s + int n" using n by (simp add: row_holds_def)
  note a = advance_state_ok [OF adv _ _ this pay]
  have "history_ok db1 row" using assms(3) db1(2) by (simp add: history_ok_def)
  with a(1) db1(1) assms(2) obtain row' where row': "db_state db' = Some row'" "history_ok db' row'"
    "row' = row\<lparr>sw_status := ''running'', sw_updated_at := now, sw_sequence := sk_sequence s + int n,
       sw_last_error := None, sw_checkpoint_sha256 := None, sw_state_digest := sw_state_digest row'\<rparr>" by auto
  have a2: "db_endpoints db' = db_endpoints db1" "db_results db' = db_results db1" "db_banners db' = db_banners db1"
    "completed = int (length (db_results db1))"
    using a(2-5) db1(1) assms(2) \<open>history_ok db1 row\<close> by simp_all
  have "row_holds env row' ?s"
    by (subst row'(3)) (use row in \<open>simp add: row_holds_def advanced_def session_status_value.simps\<close>)
  moreover have e: "endpoints_hold env db1 ?s" using db1(4) h by (simp add: endpoints_hold_def advanced_def)
  ultimately show "stored env db' ?s"
    using row'(1,2) endpoints_hold_cong [OF a2(1-3)] by (auto simp: stored_def)
  show "completed = count_completed ?s"
    using count_rows [OF e] wf by (simp add: a2(4) advanced_def)
qed

lemma endpoint_key_eq: "endpoint_key t = endpoint_key u \<longleftrightarrow>
    ti_requested t = ti_requested u \<and> ti_address t = ti_address u \<and> ti_family t = ti_family u"
  by (cases "ti_family t"; cases "ti_family u") (auto simp: endpoint_key_def address_family_value.simps)

lemma wf_port_result_key: "endpoint_key t = endpoint_key u \<Longrightarrow> wf_port_result t r = wf_port_result u r"
  by (simp add: wf_port_result_def endpoint_key_eq)

lemma add_results_wf:
  assumes "wf_progress e" "ports_accounted p e" "wf_plan p" "list_all (wf_port_result (ep_identity e)) rs"
    "distinct (map session_result_key (ep_completed_results e @ rs))" "sr_port ` set rs \<subseteq> set (sp_ports p)"
  shows "wf_progress (add_results rs e)" "ports_accounted p (add_results rs e)"
proof -
  have comp: "set (ep_completed_ports (add_results rs e)) = set (ep_completed_ports e) \<union> sr_port ` set rs"
    "set (ep_pending_ports (add_results rs e)) = set (ep_pending_ports e) - sr_port ` set rs"
    "set (ep_open_ports e) \<subseteq> set (ep_open_ports (add_results rs e))"
    by (auto simp: add_results_def ep_completed_ports_def ep_open_ports_def open_results_def)
  show "wf_progress (add_results rs e)"
    using assms(1,4,5) comp
    by (auto simp: wf_progress_def add_results_def port_list_def list_all_iff sorted_filter_mono)
  show "ports_accounted p (add_results rs e)"
    using assms(1,2,6) comp by (auto simp: ports_accounted_def wf_progress_def add_results_def)
qed

lemma find_endpoint_ok:
  assumes "find_endpoint t db = Inr w"
  shows "w \<in> set (db_endpoints db)" "endpoint_row_key w = endpoint_key t"
  using assms by (auto simp: find_endpoint_def find_Some_iff split: option.splits)

lemma append_tables_ok:
  assumes g: "good_checkpoint scope env s" "in_plan_order s" "stored env db s" "db_state db = Some row"
    and t: "wf_session_identity t" and now: "wf_timestamp env now" "times_ordered env (sk_created_at s) now"
    and app: "append_tables env (sk_plan s) t batch now None row db = Inr (db', cm)" and b: "batch \<noteq> []"
  shows "\<exists>rs. map_err (\<lambda>v. canonicalize_port_result env v t) batch = Inr rs \<and>
    good_checkpoint scope env (advanced t (add_results rs) (length batch) now s) \<and>
    in_plan_order (advanced t (add_results rs) (length batch) now s) \<and>
    stored env db' (advanced t (add_results rs) (length batch) now s) \<and>
    cm = incremental_commit row (sk_plan s) (sk_sequence s + int (length batch))
      (count_completed (advanced t (add_results rs) (length batch) now s))"
proof -
  let ?p = "sk_plan s"
  have w: "wf_checkpoint env s" "list_all wf_progress (sk_endpoints s)" "wf_plan ?p"
    "list_all (ports_accounted ?p) (sk_endpoints s)"
    using g(1) by (auto simp: good_checkpoint_def wf_checkpoint_def)
  from g(3,4) have st: "row_holds env row s" "history_ok db row" "endpoints_hold env db s" by (auto simp: stored_def)
  have tab: "tables_ok db" using st(3) by (simp add: endpoints_hold_def)
  have seq: "sw_sequence row = sk_sequence s" using st(1) by (simp add: row_holds_def)
  from app obtain r rows ds completed where r: "find_endpoint t db = Inr r"
    and ins: "insert_results env (sp_ports ?p) t (ew_endpoint_id r) batch [] (db_results db) = Inr (rows, ds)"
    and adv: "advance_state env row now (sk_sequence s + int (length batch)) None ds None
       ''result_batch_confirmed'' (\<lambda>digest completed. obj
         [(''completed_ports'', PInt completed), (''result_count'', PInt (int (length batch))),
          (''state_digest'', PStr digest)]) (db\<lparr>db_results := rows\<rparr>) = Inr (db', completed)"
    and cm: "cm = incremental_commit row ?p (sk_sequence s + int (length batch)) completed"
    by (auto simp: append_tables_def run Let_def seq)
  note r' = find_endpoint_ok [OF r]
  have dk: "distinct (map full_key (db_results db))" using tab by (simp add: tables_ok_def)
  from insert_results_ok [OF ins t dk] obtain rs where
    rs: "map_err (\<lambda>v. canonicalize_port_result env v t) batch = Inr rs" "list_all (wf_port_result t) rs"
      "rows = db_results db @ map (row_of env (ew_endpoint_id r)) rs" "distinct (map full_key rows)"
      "distinct (map session_result_key rs)" "sr_port ` set rs \<subseteq> set (sp_ports ?p)" by auto
  let ?db = "db\<lparr>db_results := rows\<rparr>" and ?f = "add_results rs"
  have tab': "tables_ok ?db" using tab rs(3,4) r'(1) by (auto simp: tables_ok_def)
  have fresh: "distinct (map session_result_key (ep_completed_results e @ rs))"
    if "endpoint_holds env db r e" "wf_progress e" for e
  proof -
    have "row_of env (ew_endpoint_id r) ` set (ep_completed_results e) \<subseteq> set (db_results db)"
      using that(1) by (auto simp: endpoint_holds_def results_of_def)
    then have "session_result_key x \<noteq> session_result_key y" if "x \<in> set (ep_completed_results e)" "y \<in> set rs" for x y
      using that rs(3,4) by (fastforce simp: full_key_def)
    then have "session_result_key ` set (ep_completed_results e) \<inter> session_result_key ` set rs = {}" by blast
    then show ?thesis using that(2) rs(5) by (simp add: wf_progress_def)
  qed
  have h: "list_all2 (endpoint_holds env ?db) (db_endpoints ?db) (at_endpoint t ?f (sk_endpoints s))"
    unfolding at_endpoint_def
  proof (rule endpoints_hold_at [OF st(3) tab' _ r' checkpoint_endpoints_distinct [OF w(1)]])
    show "results_of ?db i = results_of db i \<and> banners_of ?db i = banners_of db i" if "i \<noteq> ew_endpoint_id r" for i
      using that by (simp add: results_of_def banners_of_def rs(3))
    show "endpoint_holds env ?db r (add_results rs e)" if "endpoint_holds env db r e" for e
      using that by (auto simp: endpoint_holds_def results_of_def banners_of_def rs(3) add_results_def new_endpoint_row_def)
  qed simp
  have wf: "wf_progress (?f e) \<and> ports_accounted ?p (?f e)"
    if "e \<in> set (sk_endpoints s)" "endpoint_key (ep_identity e) = endpoint_key t" for e
  proof -
    have "endpoint_holds env db r e" "wf_progress e"
      using endpoint_row_for [OF st(3) w(1) that r'] w(2) that(1) by (simp_all add: list_all_iff)
    from fresh [OF this] have "distinct (map session_result_key (ep_completed_results e @ rs))" .
    moreover have "list_all (wf_port_result (ep_identity e)) rs"
      using rs(2) wf_port_result_key [OF that(2)] by (simp add: list_all_iff)
    ultimately show ?thesis using add_results_wf [OF _ _ w(3) _ _ rs(6)] w(2,4) that(1) by (auto simp: list_all_iff)
  qed
  have id: "ep_identity (?f e) = ep_identity e" for e by (simp add: add_results_def)
  note good = advanced_good [OF g(1,2) now id wf, where n = "length batch"]
  have "list_all wf_progress (at_endpoint t ?f (sk_endpoints s))"
    using w(2) wf by (auto simp: at_endpoint_def list_all_iff)
  note st' = advanced_stored [OF g(3,4) st(2) adv _ _ _ _ _ tab' h this]
  show ?thesis using rs(1) good st' b cm by (intro exI [of _ rs]) (simp add: obj_def)
qed

lemma incremental_run:
  assumes at: "v2_at scope env \<sigma> s" and env: "iso_ok env" "wf_timestamp env now"
    and tx: "transaction (\<lambda>\<sigma>. thenS (pureS (open_state env now (v2_db \<sigma>))) (\<lambda>row.
      thenS (plan_from_state scope env row) (\<lambda>p. on_tables (f p row))) \<sigma>) \<sigma> = (r, \<sigma>')"
  obtains (kept) "v2_at scope env \<sigma>' s" "\<forall>x. r \<noteq> Inr x"
  | (moved) row cm where "db_state (v2_db \<sigma>) = Some row" "f (sk_plan s) row (v2_db \<sigma>) = Inr (v2_db \<sigma>', cm)"
      "v2_cache \<sigma>' = Some (sk_plan s)" "\<forall>x. r = Inr x \<longrightarrow> x = cm" "times_ordered env (sk_created_at s) now"
      "\<not> is_terminal (sk_status s)"
proof -
  from at have h: "good_checkpoint scope env s" "stored env (v2_db \<sigma>) s"
    "v2_cache \<sigma> = None \<or> v2_cache \<sigma> = Some (sk_plan s)" by (simp_all add: v2_at_def)
  from h(2) obtain row where row: "db_state (v2_db \<sigma>) = Some row" "row_holds env row s" by (auto simp: stored_def)
  have w: "wf_checkpoint env s" using h(1) by (simp add: good_checkpoint_def)
  have body: "((\<exists>e. r0 = Inl e) \<and> (v2_cache \<tau>' = v2_cache \<sigma> \<or> v2_cache \<tau>' = Some (sk_plan s))) \<or>
      (\<exists>cm. f (sk_plan s) row (v2_db \<sigma>) = Inr (v2_db \<tau>', cm) \<and> r0 = Inr cm \<and> v2_cache \<tau>' = Some (sk_plan s) \<and>
        times_ordered env (sk_created_at s) now \<and> \<not> is_terminal (sk_status s))"
    if k: "v2_db \<tau> = v2_db \<sigma>" "v2_cache \<tau> = v2_cache \<sigma>"
      and b: "thenS (pureS (open_state env now (v2_db \<tau>))) (\<lambda>row.
        thenS (plan_from_state scope env row) (\<lambda>p. on_tables (f p row))) \<tau> = (r0, \<tau>')"
    for \<tau> r0 \<tau>'
  proof (cases "open_state env now (v2_db \<sigma>)")
    case (Inl x)
    with b k show ?thesis by (auto simp: thenS_def pureS_def)
  next
    case (Inr row')
    note o = open_state_ok [OF env row(2) w row(1) Inr]
    have "plan_from_state scope env row \<tau> = (Inr (sk_plan s), \<tau>\<lparr>v2_cache := Some (sk_plan s)\<rparr>)"
      using plan_from_state_ok [OF h(1) refl row(2)] h(3) k(2) by simp
    with b Inr o k have "on_tables (f (sk_plan s) row) (\<tau>\<lparr>v2_cache := Some (sk_plan s)\<rparr>) = (r0, \<tau>')"
      by (simp add: thenS_def pureS_def)
    with k o show ?thesis by (auto simp: on_tables_run split: sum.splits prod.splits)
  qed
  from tx show thesis
  proof (rule transaction_run)
    assume "v2_db \<sigma>' = v2_db \<sigma>" "v2_cache \<sigma>' = v2_cache \<sigma>" "\<forall>x. r \<noteq> Inr x"
    with at show ?thesis by (intro kept) (auto intro: v2_at_cong)
  next
    fix \<tau> r0 \<tau>'
    assume a: "v2_db \<tau> = v2_db \<sigma>" "v2_cache \<tau> = v2_cache \<sigma>" "thenS (pureS (open_state env now (v2_db \<tau>))) (\<lambda>row.
        thenS (plan_from_state scope env row) (\<lambda>p. on_tables (f p row))) \<tau> = (r0, \<tau>')"
      "v2_db \<sigma>' = v2_db \<sigma>" "v2_cache \<sigma>' = v2_cache \<tau>'" "\<forall>x. r \<noteq> Inr x"
    have "v2_cache \<tau>' = v2_cache \<sigma> \<or> v2_cache \<tau>' = Some (sk_plan s)"
      using body [OF a(1-3)] by auto
    with a at show ?thesis by (intro kept) (auto intro: v2_at_cong)
  next
    fix \<tau> x \<tau>'
    assume a: "v2_db \<tau> = v2_db \<sigma>" "v2_cache \<tau> = v2_cache \<sigma>" "thenS (pureS (open_state env now (v2_db \<tau>))) (\<lambda>row.
        thenS (plan_from_state scope env row) (\<lambda>p. on_tables (f p row))) \<tau> = (Inr x, \<tau>')"
      "v2_db \<sigma>' = v2_db \<tau>'" "v2_cache \<sigma>' = v2_cache \<tau>'" "\<forall>y. r = Inr y \<longrightarrow> y = x"
    from body [OF a(1-3)] a(4-6) row(1) show ?thesis by (intro moved [of row x]) auto
  qed
qed

text \<open>
  C4. An incremental commit refines the checkpoint. Appending a batch of results either leaves
  what the store holds as it was, and fails, or makes it hold the checkpoint in which exactly
  the results of the batch moved from pending to completed at their endpoint and the sequence
  advanced by their number; a load then returns that checkpoint, and the receipt counts its
  completed ports. No outcome of the transaction gives anything else.
\<close>

theorem append_results_refines:
  assumes "v2_at scope env \<sigma> s" "t \<in> set (sp_resolved_targets (sk_plan s))" "wf_timestamp env now"
    "append_results scope env profile t batch now ''running'' None \<sigma> = (r, \<sigma>')"
  shows "(v2_at scope env \<sigma>' s \<and> (\<forall>cm. r \<noteq> Inr cm)) \<or>
    (\<exists>rs. map_err (\<lambda>v. canonicalize_port_result env v t) batch = Inr rs \<and> \<not> is_terminal (sk_status s) \<and>
       v2_at scope env \<sigma>' (advanced t (add_results rs) (length batch) now s) \<and>
       fst (v2_load scope env (\<sigma>'\<lparr>v2_io := []\<rparr>)) = Inr (advanced t (add_results rs) (length batch) now s) \<and>
       (\<forall>cm. r = Inr cm \<longrightarrow> cm_sequence cm = sk_sequence s + int (length batch) \<and>
          cm_completed_ports cm = count_completed (advanced t (add_results rs) (length batch) now s)))"
proof -
  have g: "good_checkpoint scope env s" "in_plan_order s" "stored env (v2_db \<sigma>) s"
    using assms(1) by (simp_all add: v2_at_def)
  have iso: "iso_ok env" using g(1) by (simp add: good_checkpoint_def env_ok_def)
  have t: "wf_session_identity t"
    using g(1) assms(2) by (auto simp: good_checkpoint_def wf_checkpoint_def wf_plan_def list_all_iff)
  have kept: "v2_at scope env \<tau> s" if "v2_db \<tau> = v2_db \<sigma>" "v2_cache \<tau> = v2_cache \<sigma>" for \<tau>
    using assms(1) that by (auto intro: v2_at_cong)
  show ?thesis
  proof (cases "batch = [] \<or> result_batch_size profile < length batch")
    case True
    with assms(4) have "\<sigma>' = \<sigma> \<and> (\<exists>e. r = Inl e)"
      by (auto simp: append_results_def pureS_def split: if_splits)
    with assms(1) show ?thesis by auto
  next
    case False
    with assms(4) have "thenS (pureS (map_err (deterministic_json env) batch)) (\<lambda>_.
        thenS (tx_point SessionStoreV2Error) (\<lambda>_.
          transaction (\<lambda>\<sigma>. thenS (pureS (open_state env now (v2_db \<sigma>))) (\<lambda>row.
            thenS (plan_from_state scope env row) (\<lambda>p.
              on_tables (append_tables env p t batch now None row))) \<sigma>))) \<sigma> = (r, \<sigma>')"
      by (simp add: append_results_def)
    then consider e where "\<sigma>' = \<sigma>" "r = Inl e"
      | e where "tx_point SessionStoreV2Error \<sigma> = (Inl e, \<sigma>')" "r = Inl e"
      | u \<tau> where "tx_point SessionStoreV2Error \<sigma> = (Inr u, \<tau>)"
          "transaction (\<lambda>\<sigma>. thenS (pureS (open_state env now (v2_db \<sigma>))) (\<lambda>row.
            thenS (plan_from_state scope env row) (\<lambda>p.
              on_tables (append_tables env p t batch now None row))) \<sigma>) \<tau> = (r, \<sigma>')"
      by (auto simp: thenS_run pureS_def)
    then show ?thesis
    proof cases
      case 1
      with assms(1) show ?thesis by simp
    next
      case 2
      with tx_point_keeps [OF 2(1)] kept show ?thesis by auto
    next
      case 3
      note k = tx_point_keeps [OF 3(1)]
      from kept k have at: "v2_at scope env \<tau> s" by simp
      from at iso assms(3) 3(2) show ?thesis
      proof (rule incremental_run)
        fix row cm
        assume m: "db_state (v2_db \<tau>) = Some row" "append_tables env (sk_plan s) t batch now None row (v2_db \<tau>) = Inr (v2_db \<sigma>', cm)"
          "v2_cache \<sigma>' = Some (sk_plan s)" "\<forall>x. r = Inr x \<longrightarrow> x = cm" "times_ordered env (sk_created_at s) now"
          "\<not> is_terminal (sk_status s)"
        have "stored env (v2_db \<tau>) s" using at by (simp add: v2_at_def)
        from append_tables_ok [OF g(1,2) this m(1) t assms(3) m(5,2)] False obtain rs where
          rs: "map_err (\<lambda>v. canonicalize_port_result env v t) batch = Inr rs"
            "good_checkpoint scope env (advanced t (add_results rs) (length batch) now s)"
            "in_plan_order (advanced t (add_results rs) (length batch) now s)"
            "stored env (v2_db \<sigma>') (advanced t (add_results rs) (length batch) now s)"
            "cm = incremental_commit row (sk_plan s) (sk_sequence s + int (length batch))
               (count_completed (advanced t (add_results rs) (length batch) now s))" by auto
        have p: "sk_plan (advanced t (add_results rs) (length batch) now s) = sk_plan s" by (simp add: advanced_def)
        have "fst (v2_load scope env (\<sigma>'\<lparr>v2_io := []\<rparr>)) = Inr (advanced t (add_results rs) (length batch) now s)"
          using v2_load_healthy [OF rs(2), of "\<sigma>'\<lparr>v2_io := []\<rparr>"] rs(4) m(3) p by simp
        moreover have "v2_at scope env \<sigma>' (advanced t (add_results rs) (length batch) now s)"
          using rs(2-4) m(3) p by (simp add: v2_at_def)
        moreover have "cm_sequence cm = sk_sequence s + int (length batch) \<and>
          cm_completed_ports cm = count_completed (advanced t (add_results rs) (length batch) now s)"
          by (simp add: rs(5) incremental_commit_def)
        ultimately show ?thesis using rs(1) m(4,6) by blast
      qed auto
    qed
  qed
qed

section \<open>\<open>complete_banner\<close>\<close>

definition banner_text :: "string option \<Rightarrow> pyval" where
  "banner_text banner = (if banner = Some [] then PNone else str_or_none banner)"

definition with_banner :: "int \<Rightarrow> string option \<Rightarrow> endpoint_progress \<Rightarrow> endpoint_progress" where
  "with_banner port banner e = e\<lparr>
     ep_completed_results := map (set_banner port (banner_text banner)) (ep_completed_results e),
     ep_completed_banner_ports := insort port (ep_completed_banner_ports e)\<rparr>"

lemma set_banner_dict:
  assumes "scan_result_to_dict r = PDict d"
  shows "PDict (set_banner_field banner d) = scan_result_to_dict (r\<lparr>sr_banner := banner_text banner\<rparr>)"
proof -
  have d: "d = (case scan_result_to_dict r of PDict d \<Rightarrow> d | _ \<Rightarrow> [])" by (simp add: assms)
  show ?thesis
    unfolding d set_banner_field_def upsert_def scan_result_to_dict_def obj_def
    by (simp add: banner_text_def sr_reason_def)
qed

lemma set_banner_simps [simp]: "sr_port (set_banner p b r) = sr_port r" "sr_protocol (set_banner p b r) = sr_protocol r"
  "session_result_key (set_banner p b r) = session_result_key r" "sr_state (set_banner p b r) = sr_state r"
  by (simp_all add: set_banner_def session_result_key_def)

lemma with_banner_wf:
  assumes e: "wf_progress e" "ports_accounted p e" and b: "sp_banner_grab p" "port \<in> set (ep_open_ports e)"
    "port \<notin> set (ep_completed_banner_ports e)"
    and r: "\<And>r. r \<in> set (ep_completed_results e) \<Longrightarrow> wf_port_result (ep_identity e) (set_banner port (banner_text banner) r)"
  shows "wf_progress (with_banner port banner e)" "ports_accounted p (with_banner port banner e)"
proof -
  have o: "ep_open_ports (with_banner port banner e) = ep_open_ports e"
    "ep_completed_ports (with_banner port banner e) = ep_completed_ports e"
    using open_ports_set_banner by (simp_all add: with_banner_def ep_open_ports_def ep_completed_ports_def)
  obtain x where "x \<in> set (ep_completed_results e)" "sr_port x = port"
    using b(2) by (auto simp: ep_open_ports_def open_results_def)
  then have "1 \<le> port \<and> port \<le> 65535"
    using e(1) by (auto simp: wf_progress_def list_all_iff wf_port_result_def wf_scan_result_def)
  moreover have "port_list (ep_completed_banner_ports e)" using e(1) by (simp add: wf_progress_def)
  ultimately have "port_list (insort port (ep_completed_banner_ports e))"
    using b(3) by (auto simp: port_list_def sorted_insort distinct_insort set_insort_key)
  with e b o r show "wf_progress (with_banner port banner e)"
    by (auto simp: wf_progress_def with_banner_def list_all_iff set_insort_key comp_def)
  show "ports_accounted p (with_banner port banner e)"
    using e(2) b(1) o by (simp add: ports_accounted_def with_banner_def)
qed

lemma complete_tables_ok:
  assumes g: "good_checkpoint scope env s" "in_plan_order s" "stored env db s" "db_state db = Some row"
    and t: "wf_session_identity t" and now: "wf_timestamp env now" "times_ordered env (sk_created_at s) now"
    and grab: "sp_banner_grab (sk_plan s)"
    and opn: "\<And>e. e \<in> set (sk_endpoints s) \<Longrightarrow> endpoint_key (ep_identity e) = endpoint_key t \<Longrightarrow> port \<in> set (ep_open_ports e)"
    and app: "complete_tables env (sk_plan s) t port banner now row db = Inr (db', cm)"
  shows "good_checkpoint scope env (advanced t (with_banner port banner) 1 now s) \<and>
    in_plan_order (advanced t (with_banner port banner) 1 now s) \<and>
    stored env db' (advanced t (with_banner port banner) 1 now s) \<and>
    cm = incremental_commit row (sk_plan s) (sk_sequence s + 1) (count_completed (advanced t (with_banner port banner) 1 now s))"
proof -
  let ?p = "sk_plan s" and ?f = "with_banner port banner"
  have w: "wf_checkpoint env s" "list_all wf_progress (sk_endpoints s)" "env_ok env"
    "list_all (ports_accounted ?p) (sk_endpoints s)"
    using g(1) by (auto simp: good_checkpoint_def wf_checkpoint_def)
  from g(3,4) have st: "row_holds env row s" "history_ok db row" "endpoints_hold env db s" by (auto simp: stored_def)
  have tab: "tables_ok db" using st(3) by (simp add: endpoints_hold_def)
  have seq: "sw_sequence row = sk_sequence s" using st(1) by (simp add: row_holds_def)
  from app obtain r old d q new completed where r: "find_endpoint t db = Inr r"
    and old: "confirmed_row (ew_endpoint_id r) port db = Inr old"
    and d: "payload_of env old = Inr d"
    and q: "canonicalize_port_result env (PDict (set_banner_field banner d)) t = Inr q"
    and new: "new_result_row env (ew_endpoint_id r) q = Inr new"
    and fresh: "port \<notin> set (banners_of db (ew_endpoint_id r))"
    and adv: "advance_state env row now (sk_sequence s + 1) None [rw_sha256 new] (Some port) ''banner_confirmed''
      (\<lambda>digest completed. obj [(''completed_ports'', PInt completed), (''port'', PInt port),
         (''result_sha256'', PStr (rw_sha256 new))])
      (db\<lparr>db_results := map (replace_row (ew_endpoint_id r) port new) (db_results db),
          db_banners := db_banners db @ [(ew_endpoint_id r, port)]\<rparr>) = Inr (db', completed)"
    and cm: "cm = incremental_commit row ?p (sk_sequence s + 1) completed"
    by (auto simp: complete_tables_def run seq split: if_splits)
  let ?i = "ew_endpoint_id r"
  note r' = find_endpoint_ok [OF r]
  have here: "endpoint_holds env db r e" "wf_progress e" "ports_accounted ?p e" "wf_port_result (ep_identity e) = wf_port_result t"
    if "e \<in> set (sk_endpoints s)" "endpoint_key (ep_identity e) = endpoint_key t" for e
    using endpoint_row_for [OF st(3) w(1) that r'] w(2,4) that wf_port_result_key [OF that(2)] by (auto simp: list_all_iff fun_eq_iff)
  have old': "old \<in> set (db_results db)" "rw_endpoint_id old = ?i" "row_key old = (''tcp'', port)"
    using old by (auto simp: confirmed_row_def find_Some_iff same_result_def split: option.splits)
  have d': "json_loads (env_float env) (rw_json old) = Some (PDict d)"
    using d by (auto simp: payload_of_def split: option.splits pyval.splits)
  have banner: "x = y \<and> old = row_of env ?i x \<and> new = row_of env ?i (set_banner port (banner_text banner) x) \<and>
      wf_port_result t (set_banner port (banner_text banner) x)"
    if e: "e \<in> set (sk_endpoints s)" "endpoint_key (ep_identity e) = endpoint_key t" "x \<in> set (ep_completed_results e)"
      "sr_port x = port" "y \<in> set (ep_completed_results e)" "sr_port y = port" for e x y
  proof -
    have wx: "wf_port_result t x" "wf_port_result t y" using here [OF e(1,2)] e(3,5) by (auto simp: wf_progress_def list_all_iff)
    then have kx: "session_result_key x = (''tcp'', port)" "session_result_key y = (''tcp'', port)"
      using e(4,6) by (simp_all add: wf_port_result_def session_result_key_def)
    have "x = y" using kx here(2) [OF e(1,2)] e(3,5) by (auto simp: wf_progress_def distinct_map inj_on_def)
    have "row_of env ?i x \<in> set (db_results db)"
      using here(1) [OF e(1,2)] e(3) by (auto simp: endpoint_holds_def results_of_def)
    then have o: "old = row_of env ?i x"
      using old' kx(1) tab by (auto simp: tables_ok_def distinct_map inj_on_def full_key_def)
    have "repr_ok (env_float env) (env_repr env)" using w(3) by (simp add: env_ok_def)
    from json_loads_text [OF this json_port_result [OF wx(1)], of "[]"] d' o
    have "scan_result_to_dict x = PDict d" by (simp add: result_text_def)
    from set_banner_dict [OF this] q e(4) have c: "canonicalize_port_result env
        (scan_result_to_dict (set_banner port (banner_text banner) x)) t = Inr q" by (simp add: set_banner_def)
    from canonicalize_banner [OF t wx(1) set_banner_kept c] have "q = set_banner port (banner_text banner) x" .
    moreover have "wf_port_result t q" by (rule canonicalize_ok [OF q t])
    ultimately show ?thesis using new_row_ok [of t q env ?i] new o \<open>x = y\<close> by simp
  qed
  let ?db = "db\<lparr>db_results := map (replace_row ?i port new) (db_results db),
          db_banners := db_banners db @ [(?i, port)]\<rparr>"
  have rep: "rw_endpoint_id (replace_row ?i port new x) = rw_endpoint_id x" "row_key (replace_row ?i port new x) = row_key x" for x
    by (simp_all add: replace_row_def row_key_def)
  have keys: "map full_key (db_results ?db) = map full_key (db_results db)"
    "rw_endpoint_id ` set (db_results ?db) = rw_endpoint_id ` set (db_results db)"
    by (simp_all add: full_key_def rep image_image)
  have comp: "full_key \<circ> replace_row ?i port new = full_key"
    "rw_endpoint_id \<circ> replace_row ?i port new = rw_endpoint_id"
    by (simp_all add: fun_eq_iff full_key_def rep)
  have tab': "tables_ok ?db"
    using tab fresh by (simp add: tables_ok_def banners_of_mem comp image_comp)
  have h: "list_all2 (endpoint_holds env ?db) (db_endpoints ?db) (at_endpoint t ?f (sk_endpoints s))"
    unfolding at_endpoint_def
  proof (rule endpoints_hold_at [OF st(3) tab' _ r' checkpoint_endpoints_distinct [OF w(1)]])
    show "results_of ?db i = results_of db i \<and> banners_of ?db i = banners_of db i" if "i \<noteq> ?i" for i
    proof -
      have "[x \<leftarrow> map (replace_row ?i port new) ws. rw_endpoint_id x = i] = [x \<leftarrow> ws. rw_endpoint_id x = i]" for ws
        using that by (induction ws) (auto simp: rep, auto simp: replace_row_def same_result_def)
      then show ?thesis using that by (simp add: results_of_def banners_of_def)
    qed
    show "endpoint_holds env ?db r (?f e)"
      if e: "e \<in> set (sk_endpoints s)" "endpoint_holds env db r e" for e
    proof -
      have key: "endpoint_key (ep_identity e) = endpoint_key t" using endpoint_holds_key [OF e(2)] r'(2) by simp
      have img: "replace_row ?i port new w =
          row_of env ?i (set_banner port (banner_text banner) x)"
        if "x \<in> set (ep_completed_results e)" "w = row_of env ?i x" for x w
      proof (cases "sr_port x = port")
        case True
        have "wf_port_result t x" using here [OF e(1) key] that(1) by (auto simp: wf_progress_def list_all_iff)
        with True that banner [OF e(1) key that(1) True that(1) True] show ?thesis
          by (auto simp: replace_row_def same_result_def row_of_def row_key_def wf_port_result_def)
      next
        case False
        with that(2) show ?thesis by (simp add: replace_row_def same_result_def session_result_key_def set_banner_def)
      qed
      have "set (results_of ?db ?i) = replace_row ?i port new ` set (results_of db ?i)"
        by (auto simp: results_of_def rep)
      also have "\<dots> = row_of env ?i ` set (ep_completed_results (?f e))"
        using e(2) img by (auto simp: endpoint_holds_def with_banner_def image_image intro!: image_cong)
      finally show ?thesis
        using e(2) by (auto simp: endpoint_holds_def with_banner_def new_endpoint_row_def banners_of_mem set_insort_key
          banners_of_def)
    qed
  qed simp
  have wf: "wf_progress (?f e) \<and> ports_accounted ?p (?f e)"
    if e: "e \<in> set (sk_endpoints s)" "endpoint_key (ep_identity e) = endpoint_key t" for e
  proof -
    have "port \<notin> set (ep_completed_banner_ports e)"
      using fresh here(1) [OF e] by (simp add: endpoint_holds_def)
    moreover have "wf_port_result (ep_identity e) (set_banner port (banner_text banner) x)"
      if x: "x \<in> set (ep_completed_results e)" for x
    proof (cases "sr_port x = port")
      case True
      with banner [OF e x True x True] here(4) [OF e] show ?thesis by simp
    next
      case False
      with here(2) [OF e] x show ?thesis by (simp add: set_banner_def wf_progress_def list_all_iff)
    qed
    ultimately show ?thesis
      using with_banner_wf [OF here(2,3) [OF e] grab opn [OF e]] by simp
  qed
  have id: "ep_identity (?f e) = ep_identity e" for e by (simp add: with_banner_def)
  note good = advanced_good [OF g(1,2) now id wf, where n = 1]
  have "list_all wf_progress (at_endpoint t ?f (sk_endpoints s))"
    using w(2) wf by (auto simp: at_endpoint_def list_all_iff)
  note st' = advanced_stored [OF g(3,4) st(2), where n = 1 and db' = db' and completed = completed, simplified, OF adv _ _ _ _ tab' h this]
  show ?thesis using good st' cm by (simp add: obj_def)
qed


text \<open>
  C6. The confirmation of a banner refines the checkpoint too: for a port that is open at its
  endpoint it either fails and leaves what the store holds as it was, or makes it hold the
  checkpoint in which exactly that port's result has the banner, the port is marked complete and
  the sequence advanced by one. The accepted checkpoint is what a load then returns.
\<close>

theorem complete_banner_refines:
  assumes "v2_at scope env \<sigma> s" "t \<in> set (sp_resolved_targets (sk_plan s))" "wf_timestamp env now"
    "sp_banner_grab (sk_plan s)"
    "\<forall>e \<in> set (sk_endpoints s). endpoint_key (ep_identity e) = endpoint_key t \<longrightarrow> port \<in> set (ep_open_ports e)"
    "complete_banner scope env t port banner now \<sigma> = (r, \<sigma>')"
  shows "(v2_at scope env \<sigma>' s \<and> (\<forall>cm. r \<noteq> Inr cm)) \<or>
    (\<not> is_terminal (sk_status s) \<and>
       v2_at scope env \<sigma>' (advanced t (with_banner port banner) 1 now s) \<and>
       fst (v2_load scope env (\<sigma>'\<lparr>v2_io := []\<rparr>)) = Inr (advanced t (with_banner port banner) 1 now s) \<and>
       (\<forall>cm. r = Inr cm \<longrightarrow> cm_sequence cm = sk_sequence s + 1 \<and>
          cm_completed_ports cm = count_completed (advanced t (with_banner port banner) 1 now s)))"
proof -
  let ?s = "advanced t (with_banner port banner) 1 now s"
  have g: "good_checkpoint scope env s" "in_plan_order s" "stored env (v2_db \<sigma>) s"
    using assms(1) by (simp_all add: v2_at_def)
  have iso: "iso_ok env" using g(1) by (simp add: good_checkpoint_def env_ok_def)
  have t: "wf_session_identity t"
    using g(1) assms(2) by (auto simp: good_checkpoint_def wf_checkpoint_def wf_plan_def list_all_iff)
  have kept: "v2_at scope env \<tau> s" if "v2_db \<tau> = v2_db \<sigma>" "v2_cache \<tau> = v2_cache \<sigma>" for \<tau>
    using assms(1) that by (auto intro: v2_at_cong)
  from assms(6) consider e where "tx_point SessionStoreV2Error \<sigma> = (Inl e, \<sigma>')" "r = Inl e"
    | u \<tau> where "tx_point SessionStoreV2Error \<sigma> = (Inr u, \<tau>)"
        "transaction (\<lambda>\<sigma>. thenS (pureS (open_state env now (v2_db \<sigma>))) (\<lambda>row.
          thenS (plan_from_state scope env row) (\<lambda>p.
            on_tables (complete_tables env p t port banner now row))) \<sigma>) \<tau> = (r, \<sigma>')"
    by (auto simp: complete_banner_def thenS_run)
  then show ?thesis
  proof cases
    case 1
    with tx_point_keeps [OF 1(1)] kept show ?thesis by auto
  next
    case 2
    note k = tx_point_keeps [OF 2(1)]
    from kept k have at: "v2_at scope env \<tau> s" by simp
    from at iso assms(3) 2(2) show ?thesis
    proof (rule incremental_run)
      fix row cm
      assume m: "db_state (v2_db \<tau>) = Some row"
        "complete_tables env (sk_plan s) t port banner now row (v2_db \<tau>) = Inr (v2_db \<sigma>', cm)"
        "v2_cache \<sigma>' = Some (sk_plan s)" "\<forall>x. r = Inr x \<longrightarrow> x = cm" "times_ordered env (sk_created_at s) now"
        "\<not> is_terminal (sk_status s)"
      have "stored env (v2_db \<tau>) s" using at by (simp add: v2_at_def)
      from complete_tables_ok [OF g(1,2) this m(1) t assms(3) m(5) assms(4) _ m(2)] assms(5) have
        rs: "good_checkpoint scope env ?s" "in_plan_order ?s" "stored env (v2_db \<sigma>') ?s"
          "cm = incremental_commit row (sk_plan s) (sk_sequence s + 1) (count_completed ?s)" by blast+
      have p: "sk_plan ?s = sk_plan s" by (simp add: advanced_def)
      have "fst (v2_load scope env (\<sigma>'\<lparr>v2_io := []\<rparr>)) = Inr ?s"
        using v2_load_healthy [OF rs(1), of "\<sigma>'\<lparr>v2_io := []\<rparr>"] rs(3) m(3) p by simp
      moreover have "v2_at scope env \<sigma>' ?s" using rs(1-3) m(3) p by (simp add: v2_at_def)
      moreover have "cm_sequence cm = sk_sequence s + 1 \<and> cm_completed_ports cm = count_completed ?s"
        by (simp add: rs(4) incremental_commit_def)
      ultimately show ?thesis using m(4,6) by blast
    qed auto
  qed
qed

section \<open>A session without banners\<close>

definition sample_closed :: scan_result where
  "sample_closed =
     \<lparr>sr_port = 80, sr_is_open = PBool False, sr_service = PStr ''http'', sr_banner = PNone,
      sr_response_time = FFin (1 / 2), sr_protocol = ''tcp'', sr_state = PS_CLOSED,
      sr_target = PStr ''gw'', sr_address = PStr ''10.0.0.5'', sr_family = Some AF_IPV4,
      sr_host_state = HS_UP, sr_technique = ST_TCP_CONNECT,
      sr_evidence = \<lparr>ev_reason = RC_CONNECTION_REFUSED, ev_source = ''tcp_connect'',
        ev_detail = PNone, ev_errno = PNone\<rparr>, sr_contract_version = PInt 1\<rparr>"

lemma sample_v2_now: "wf_timestamp sample_v2_env ''2026-01-01T00:00:01Z''"
  using sample_bare_good_v2 by (simp add: good_v2_def good_checkpoint_def wf_checkpoint_def sample_bare_def sample_checkpoint_def)

lemma sample_bare_at:
  "\<exists>db. \<forall>io. v2_at require_single_target_plan sample_v2_env \<lparr>v2_db = db, v2_cache = None, v2_io = io\<rparr> sample_bare"
  using sample_bare_held by (blast intro: v2_holds_at)

theorem complete_banner_refines_witness:
  "\<exists>db. \<forall>io. \<exists>s \<in> {sample_bare,
       advanced sample_identity (with_banner 22 (Some ''SSH-2.0'')) 1 ''2026-01-01T00:00:01Z'' sample_bare}.
     fst (v2_load require_single_target_plan sample_v2_env
       ((snd (complete_banner require_single_target_plan sample_v2_env sample_identity 22 (Some ''SSH-2.0'')
         ''2026-01-01T00:00:01Z'' \<lparr>v2_db = db, v2_cache = None, v2_io = io\<rparr>))\<lparr>v2_io := []\<rparr>)) = Inr s"
proof -
  from sample_bare_at obtain db where db: "\<forall>io. v2_at require_single_target_plan sample_v2_env
      \<lparr>v2_db = db, v2_cache = None, v2_io = io\<rparr> sample_bare" ..
  let ?s' = "advanced sample_identity (with_banner 22 (Some ''SSH-2.0'')) 1 ''2026-01-01T00:00:01Z'' sample_bare"
  have "\<exists>s \<in> {sample_bare, ?s'}. fst (v2_load require_single_target_plan sample_v2_env
      ((snd (complete_banner require_single_target_plan sample_v2_env sample_identity 22 (Some ''SSH-2.0'')
         ''2026-01-01T00:00:01Z'' \<lparr>v2_db = db, v2_cache = None, v2_io = io\<rparr>))\<lparr>v2_io := []\<rparr>)) = Inr s" for io
  proof -
    obtain r \<sigma>' where r: "complete_banner require_single_target_plan sample_v2_env sample_identity 22 (Some ''SSH-2.0'')
        ''2026-01-01T00:00:01Z'' \<lparr>v2_db = db, v2_cache = None, v2_io = io\<rparr> = (r, \<sigma>')" by fastforce
    have h: "sample_identity \<in> set (sp_resolved_targets (sk_plan sample_bare))" "sp_banner_grab (sk_plan sample_bare)"
      "\<forall>e \<in> set (sk_endpoints sample_bare). endpoint_key (ep_identity e) = endpoint_key sample_identity \<longrightarrow>
         22 \<in> set (ep_open_ports e)"
      by code_simp+
    from complete_banner_refines [OF db [rule_format] h(1) sample_v2_now h(2,3) r] show ?thesis
      unfolding r snd_conv using v2_at_load by blast
  qed
  then show ?thesis by blast
qed

theorem append_results_refines_witness:
  "\<exists>db. \<forall>io. \<exists>s \<in> {sample_bare,
       advanced sample_identity (add_results [sample_closed]) 1 ''2026-01-01T00:00:01Z'' sample_bare}.
     fst (v2_load require_single_target_plan sample_v2_env
       ((snd (append_results require_single_target_plan sample_v2_env Strict sample_identity
         [scan_result_to_dict sample_closed] ''2026-01-01T00:00:01Z'' ''running'' None
         \<lparr>v2_db = db, v2_cache = None, v2_io = io\<rparr>))\<lparr>v2_io := []\<rparr>)) = Inr s"
proof -
  from sample_bare_at obtain db where db: "\<forall>io. v2_at require_single_target_plan sample_v2_env
      \<lparr>v2_db = db, v2_cache = None, v2_io = io\<rparr> sample_bare" ..
  let ?s' = "advanced sample_identity (add_results [sample_closed]) 1 ''2026-01-01T00:00:01Z'' sample_bare"
  have "\<exists>s \<in> {sample_bare, ?s'}. fst (v2_load require_single_target_plan sample_v2_env
      ((snd (append_results require_single_target_plan sample_v2_env Strict sample_identity
         [scan_result_to_dict sample_closed] ''2026-01-01T00:00:01Z'' ''running'' None
         \<lparr>v2_db = db, v2_cache = None, v2_io = io\<rparr>))\<lparr>v2_io := []\<rparr>)) = Inr s" for io
  proof -
    obtain r \<sigma>' where r: "append_results require_single_target_plan sample_v2_env Strict sample_identity
        [scan_result_to_dict sample_closed] ''2026-01-01T00:00:01Z'' ''running'' None
        \<lparr>v2_db = db, v2_cache = None, v2_io = io\<rparr> = (r, \<sigma>')" by fastforce
    have h: "sample_identity \<in> set (sp_resolved_targets (sk_plan sample_bare))" by code_simp
    have c: "map_err (\<lambda>v. canonicalize_port_result sample_v2_env v sample_identity) [scan_result_to_dict sample_closed] = Inr [sample_closed]"
      by code_simp
    from append_results_refines [OF db [rule_format] h sample_v2_now r] c show ?thesis
      unfolding r snd_conv using v2_at_load by (auto simp: One_nat_def)
  qed
  then show ?thesis by blast
qed

section \<open>Without failures\<close>

lemma open_state_healthy:
  assumes "iso_ok env" "wf_timestamp env now" "row_holds env row s" "wf_checkpoint env s" "db_state db = Some row"
    "\<not> is_terminal (sk_status s)" "times_ordered env (sk_updated_at s) now"
  shows "open_state env now db = Inr row"
proof -
  have ua: "sw_updated_at row = sk_updated_at s" "sw_status row = session_status_value (sk_status s)"
    using assms(3) by (simp_all add: row_holds_def)
  have "wf_timestamp env (sk_updated_at s)" using assms(4) by (simp add: wf_checkpoint_def)
  from wf_timestamp_utc [OF assms(1) this] wf_timestamp_utc [OF assms(1,2)] assms(7) show ?thesis
    using assms(6) ss.coerce_Inr [of "PStr (session_status_value (sk_status s))" "sk_status s"]
    by (auto simp: open_state_def assms(5) ua validated_utc_timestamp_def times_ordered_def)
qed

lemma insert_results_healthy:
  assumes "wf_session_identity t" "list_all (wf_port_result t) rs" "distinct (map session_result_key rs)"
    "session_result_key ` set rs \<inter> set seen = {}" "sr_port ` set rs \<subseteq> set allowed"
    "\<And>w. w \<in> set rows \<Longrightarrow> rw_endpoint_id w = i \<Longrightarrow> row_key w \<notin> session_result_key ` set rs"
  shows "\<exists>rows' ds. insert_results env allowed t i (map scan_result_to_dict rs) seen rows = Inr (rows', ds)"
  using assms(2-6)
proof (induction rs arbitrary: seen rows)
  case Nil
  then show ?case by simp
next
  case (Cons r rs)
  have r: "canonicalize_port_result env (scan_result_to_dict r) t = Inr r" "new_result_row env i r = Inr (row_of env i r)"
    using Cons.prems(1) assms(1) by (auto intro: canonicalize_id new_row_ok)
  have key: "row_key (row_of env i r) = session_result_key r"
    by (simp add: row_of_def row_key_def session_result_key_def)
  have "\<exists>rows' ds. insert_results env allowed t i (map scan_result_to_dict rs) (session_result_key r # seen)
      (rows @ [row_of env i r]) = Inr (rows', ds)"
  proof (intro Cons.IH)
    show "row_key w \<notin> session_result_key ` set rs"
      if "w \<in> set (rows @ [row_of env i r])" "rw_endpoint_id w = i" for w
      using that Cons.prems(2) Cons.prems(5) [of w] key by (cases "w = row_of env i r") (simp_all, blast?)
  qed (use Cons.prems in auto)
  moreover have "\<not> list_ex (same_result i (session_result_key r)) rows"
    using Cons.prems(5) by (auto simp: list_ex_iff same_result_def)
  ultimately show ?case using Cons.prems(3,4) r key by auto
qed

lemma advance_state_healthy:
  assumes "\<And>h. h \<in> set (db_history db) \<Longrightarrow> yw_sequence h < n" "- (2 ^ 63) \<le> n" "n < 2 ^ 63" "\<And>d k. json_finite (payload d k)"
  shows "\<exists>db' completed. advance_state env row now n err ds bp ty payload db = Inr (db', completed)"
proof -
  obtain digest where "state_digest env (sw_state_digest row) (sw_session_id row) n ''running'' now ds bp = Inr digest"
    by (cases bp) (auto simp: state_digest_def deterministic_json_def obj_def list_all_iff)
  moreover have "\<not> list_ex (same_generation n) (db_history db)"
    using assms(1) by (fastforce simp: list_ex_iff same_generation_def)
  ultimately show ?thesis
    using assms(2-4) by (simp add: advance_state_def bind_int_def insert_history_def update_state_def Let_def event_ok)
qed

text \<open>
  C27. Results that are still pending are never refused. Without failures a batch within the size of
  the profile, of canonical results for distinct pending ports of one endpoint, is committed for a
  session that is not over at a time that does not go back, and the receipt has the advanced
  sequence.
\<close>

theorem append_results_returns:
  assumes "v2_at scope env \<sigma> s" "v2_io \<sigma> = []" "\<not> is_terminal (sk_status s)"
    "wf_timestamp env now" "times_ordered env (sk_updated_at s) now" "sk_sequence s + int (length rs) < 2 ^ 63"
    "e \<in> set (sk_endpoints s)" "rs \<noteq> []" "length rs \<le> result_batch_size profile"
    "list_all (wf_port_result (ep_identity e)) rs" "distinct (map sr_port rs)" "sr_port ` set rs \<subseteq> set (ep_pending_ports e)"
  shows "\<exists>cm \<sigma>'. append_results scope env profile (ep_identity e) (map scan_result_to_dict rs) now ''running'' None \<sigma> = (Inr cm, \<sigma>') \<and>
    cm_sequence cm = sk_sequence s + int (length rs)"
proof -
  let ?t = "ep_identity e" and ?vs = "map scan_result_to_dict rs" and ?p = "sk_plan s"
  have g: "good_checkpoint scope env s" "stored env (v2_db \<sigma>) s" "v2_cache \<sigma> = None \<or> v2_cache \<sigma> = Some ?p"
    using assms(1) by (simp_all add: v2_at_def)
  have w: "iso_ok env" "wf_checkpoint env s" "wf_progress e" "ports_accounted ?p e"
    using g(1) assms(7) by (auto simp: good_checkpoint_def env_ok_def wf_checkpoint_def list_all_iff)
  have t: "wf_session_identity ?t" using w(3) by (simp add: wf_progress_def)
  obtain row where row: "db_state (v2_db \<sigma>) = Some row" "row_holds env row s" "history_ok (v2_db \<sigma>) row"
      "endpoints_hold env (v2_db \<sigma>) s" using g(2) by (auto simp: stored_def)
  have seq: "sw_sequence row = sk_sequence s" "0 \<le> sk_sequence s"
    using row(2) w(2) by (simp_all add: row_holds_def wf_checkpoint_def)
  have "list_all2 (endpoint_holds env (v2_db \<sigma>)) (db_endpoints (v2_db \<sigma>)) (sk_endpoints s)"
    using row(4) by (simp add: endpoints_hold_def)
  from list_all2_right [OF this assms(7)] obtain v where "v \<in> set (db_endpoints (v2_db \<sigma>))"
    "endpoint_row_key v = endpoint_key ?t" by (auto dest: endpoint_holds_key)
  then obtain r where r: "find_endpoint ?t (v2_db \<sigma>) = Inr r"
    by (cases "find (\<lambda>w. endpoint_row_key w = endpoint_key ?t) (db_endpoints (v2_db \<sigma>))")
      (auto simp: find_endpoint_def find_None_iff)
  let ?i = "ew_endpoint_id r"
  note here = endpoint_row_for [OF row(4) w(2) assms(7) refl find_endpoint_ok [OF r]]
  have keys: "session_result_key x = (''tcp'', sr_port x)" if "wf_port_result ?t x" for x
    using that by (simp add: wf_port_result_def session_result_key_def)
  have ins: "\<exists>rows ds. insert_results env (sp_ports ?p) ?t ?i ?vs [] (db_results (v2_db \<sigma>)) = Inr (rows, ds)"
  proof (rule insert_results_healthy [OF t assms(10)])
    have "map session_result_key rs = map (Pair ''tcp'') (map sr_port rs)"
      using assms(10) keys by (simp add: list_all_iff)
    then show "distinct (map session_result_key rs)" using assms(11) by (simp add: distinct_map inj_on_def del: map_map)
    show "sr_port ` set rs \<subseteq> set (sp_ports ?p)" using assms(12) w(4) by (auto simp: ports_accounted_def)
    show "row_key x \<notin> session_result_key ` set rs" if x: "x \<in> set (db_results (v2_db \<sigma>))" "rw_endpoint_id x = ?i" for x
    proof
      assume "row_key x \<in> session_result_key ` set rs"
      then obtain y where y: "y \<in> set rs" "row_key x = session_result_key y" by blast
      have "x \<in> row_of env ?i ` set (ep_completed_results e)"
        using x here by (auto simp: endpoint_holds_def results_of_def)
      then obtain z where z: "z \<in> set (ep_completed_results e)" "row_key x = session_result_key z"
        by (auto simp: row_of_def row_key_def session_result_key_def)
      then have "sr_port z = sr_port y" using y by (simp add: session_result_key_def)
      with y z(1) assms(12) w(3) show False
        by (auto simp: wf_progress_def ep_completed_ports_def)
    qed
  qed simp
  then obtain rows ds where rows: "insert_results env (sp_ports ?p) ?t ?i ?vs [] (db_results (v2_db \<sigma>)) = Inr (rows, ds)"
    by blast
  have hist: "yw_sequence h < sk_sequence s + int (length rs)" if "h \<in> set (db_history (v2_db \<sigma>))" for h
  proof -
    have "yw_sequence h \<le> sw_sequence row" using row(3) that by (simp add: history_ok_def)
    moreover have "0 < length rs" using assms(8) by simp
    ultimately show ?thesis using seq(1) by linarith
  qed
  let ?pay = "\<lambda>digest completed. obj [(''completed_ports'', PInt completed),
    (''result_count'', PInt (int (length rs))), (''state_digest'', PStr digest)]"
  have "\<exists>db' completed. advance_state env row now (sk_sequence s + int (length rs)) None ds None
      ''result_batch_confirmed'' ?pay ((v2_db \<sigma>)\<lparr>db_results := rows\<rparr>) = Inr (db', completed)"
    by (rule advance_state_healthy) (use hist seq assms(6) in \<open>simp_all add: obj_def\<close>)
  then obtain db' completed where adv: "advance_state env row now (sk_sequence s + int (length rs)) None ds None
      ''result_batch_confirmed'' ?pay ((v2_db \<sigma>)\<lparr>db_results := rows\<rparr>) = Inr (db', completed)" by blast
  let ?cm = "incremental_commit row ?p (sk_sequence s + int (length rs)) completed"
  have app: "append_tables env ?p ?t ?vs now None row (v2_db \<sigma>) = Inr (db', ?cm)"
    using adv by (simp add: append_tables_def r rows seq Let_def)
  have "open_state env now (v2_db \<sigma>) = Inr row"
    by (rule open_state_healthy [OF w(1) assms(4) row(2) w(2) row(1) assms(3,5)])
  moreover have "plan_from_state scope env row \<sigma> = (Inr ?p, \<sigma>\<lparr>v2_cache := Some ?p\<rparr>)"
    by (rule plan_from_state_ok [OF g(1) refl row(2) g(3)])
  ultimately have "transaction (\<lambda>\<sigma>. thenS (pureS (open_state env now (v2_db \<sigma>))) (\<lambda>row.
      thenS (plan_from_state scope env row) (\<lambda>p. on_tables (append_tables env p ?t ?vs now None row))) \<sigma>) \<sigma> =
      (Inr ?cm, \<sigma>\<lparr>v2_cache := Some ?p, v2_db := db'\<rparr>)"
    using assms(2) app by (intro transaction_healthy) (simp_all add: thenS_def pureS_def on_tables_def)
  moreover obtain texts where "map_err (deterministic_json env) ?vs = Inr texts"
  proof -
    have "\<exists>texts. map_err (deterministic_json env) (map scan_result_to_dict xs) = Inr texts"
      if "list_all (wf_port_result ?t) xs" for xs
      using that by (induction xs) (auto simp: deterministic_json_def json_value_finite [OF json_port_result])
    from this [OF assms(10)] that show thesis by blast
  qed
  ultimately show ?thesis
    using assms(2,8,9) by (auto simp: append_results_def thenS_def pureS_def incremental_commit_def)
qed

theorem append_results_returns_witness:
  "\<exists>db cm \<sigma>'. append_results require_single_target_plan sample_v2_env Strict sample_identity [scan_result_to_dict sample_closed]
     ''2026-01-01T00:00:01Z'' ''running'' None \<lparr>v2_db = db, v2_cache = None, v2_io = []\<rparr> = (Inr cm, \<sigma>') \<and> cm_sequence cm = 4"
proof -
  let ?e = "sample_progress\<lparr>ep_completed_banner_ports := []\<rparr>"
  from sample_bare_at obtain db where db: "v2_at require_single_target_plan sample_v2_env
      \<lparr>v2_db = db, v2_cache = None, v2_io = []\<rparr> sample_bare" by blast
  have s: "\<not> is_terminal (sk_status sample_bare)" "sk_sequence sample_bare = 3" "?e \<in> set (sk_endpoints sample_bare)"
    "sk_updated_at sample_bare = ''2026-01-01T00:00:01Z''" "ep_identity ?e = sample_identity"
    "80 \<in> set (ep_pending_ports ?e)" "sr_port sample_closed = 80"
    by (simp_all add: sample_bare_def sample_checkpoint_def sample_progress_def is_terminal_def sample_closed_def)
  have ts: "times_ordered sample_v2_env (sk_updated_at sample_bare) ''2026-01-01T00:00:01Z''"
    using wf_timestamp_utc [OF _ sample_v2_now] sample_v2_env_ok by (auto simp: s(4) times_ordered_def env_ok_def)
  have t: "wf_session_identity sample_identity"
    using sample_bare_wf by (auto simp: wf_checkpoint_def sample_bare_def wf_progress_def sample_progress_def)
  have "canonicalize_port_result sample_v2_env (scan_result_to_dict sample_closed) sample_identity = Inr sample_closed"
    by code_simp
  from canonicalize_ok [OF this t] have wf: "wf_port_result sample_identity sample_closed" .
  have b: "length [sample_closed] \<le> result_batch_size Strict" by (simp add: result_batch_size_def)
  from append_results_returns [OF db _ s(1) sample_v2_now ts _ s(3) _ b] wf s show ?thesis by fastforce
qed

end
