(* ===== verification/Session_Migration.thy ===== *)
theory Session_Migration
  imports Session_Increments Session_Batch
begin

text \<open>
  \<open>migrate_from_v1\<close> of \<open>src/session_store_v2.py\<close> and the constructor that calls it: the files of a
  generational store, its checkpoint imported into the tables, and the table of migrations.
\<close>

text \<open>The directory of the source, the store and the table \<open>migration\<close>.\<close>

record migration_state =
  mg_source :: store_state
  mg_store :: v2_state
  mg_migrations :: "(string \<times> string) list"

type_synonym 'a mg_action = "(migration_state, 'a) action"

definition on_source :: "(store_state, 'a) action \<Rightarrow> 'a mg_action" where
  "on_source m = (\<lambda>\<sigma>. case m (mg_source \<sigma>) of (r, \<tau>) \<Rightarrow> (r, \<sigma>\<lparr>mg_source := \<tau>\<rparr>))"

definition on_v2 :: "'a v2_action \<Rightarrow> 'a mg_action" where
  "on_v2 m = (\<lambda>\<sigma>. case m (mg_store \<sigma>) of (r, \<tau>) \<Rightarrow> (r, \<sigma>\<lparr>mg_store := \<tau>\<rparr>))"

section \<open>The files of the source\<close>

definition source_file :: "nat \<Rightarrow> string \<Rightarrow> (store_state, string) action" where
  "source_file maximum name = (\<lambda>\<sigma>.
     case st_dir \<sigma> name of
       Some (Regular content) \<Rightarrow>
         (case next_io \<sigma> of
            (Io_error _, \<tau>) \<Rightarrow> (Inl OSError, \<tau>)
          | (Io_kill _, \<tau>) \<Rightarrow> (Inl Killed, \<tau>)
          | (_, \<tau>) \<Rightarrow>
              if maximum < length content then (Inl SessionStoreV2IntegrityError, \<tau>)
              else (Inr content, \<tau>))
     | _ \<Rightarrow> (Inl SessionStoreV2IntegrityError, \<sigma>))"

definition source_pointer :: "session_env \<Rightarrow> string \<Rightarrow> exc + store_pointer" where
  "source_pointer env content =
     reraise (\<lambda>e. e = SessionCheckpointIntegrityError) SessionStoreV2IntegrityError
       (bindE (decode_or_integrity env content) (store_pointer_from_json env))"

text \<open>The pointer and the names and digests of the three files.\<close>

definition source_v1_manifest ::
    "session_env \<Rightarrow> (store_state, store_pointer \<times> (string \<times> string) list) action" where
  "source_v1_manifest env =
     thenS (source_file max_pointer_bytes current_pointer_name) (\<lambda>content.
     thenS (pureS (source_pointer env content)) (\<lambda>p.
     thenS (source_file max_document_bytes current_pointer_name) (\<lambda>current.
     thenS (source_file max_document_bytes (pt_checkpoint_file p)) (\<lambda>checkpoint.
     thenS (source_file max_document_bytes (pt_manifest_file p)) (\<lambda>manifest.
       pureS (
         if env_sha256 env checkpoint \<noteq> pt_checkpoint_sha256 p
         then Inl SessionStoreV2IntegrityError
         else if env_sha256 env manifest \<noteq> pt_manifest_sha256 p
         then Inl SessionStoreV2IntegrityError
         else Inr (p, [(current_pointer_name, env_sha256 env current),
           (pt_checkpoint_file p, env_sha256 env checkpoint),
           (pt_manifest_file p, env_sha256 env manifest)])))))))"

text \<open>\<open>except Exception\<close>: anything but the end of the process.\<close>

definition or_else :: "('s, 'a) action \<Rightarrow> ('s, 'a) action \<Rightarrow> ('s, 'a) action" where
  "or_else m n = (\<lambda>\<sigma>.
     case m \<sigma> of
       (Inr x, \<tau>) \<Rightarrow> (Inr x, \<tau>)
     | (Inl e, \<tau>) \<Rightarrow> if e \<in> {Killed, KeyboardInterrupt} then (Inl e, \<tau>) else n \<tau>)"

definition load_v1 :: "session_env \<Rightarrow> (store_state, session_checkpoint) action" where
  "load_v1 env =
     or_else (load_checkpoint require_single_target_plan env)
       (or_else (batch_load env) (pureS (Inl SessionStoreV2IntegrityError)))"

section \<open>Migration\<close>

definition migration_document ::
    "session_env \<Rightarrow> string \<Rightarrow> store_pointer \<Rightarrow> (string \<times> string) list \<Rightarrow> exc + string" where
  "migration_document env origin p hashes = deterministic_json env (obj
     [(''files'', obj (map (\<lambda>(name, digest). (name, PStr digest)) hashes)),
      (''plan_fingerprint'', PStr (pt_plan_fingerprint p)),
      (''record_type'', PStr ''session_store_v1_source_manifest''),
      (''sequence'', PInt (pt_sequence p)),
      (''session_id'', PStr (pt_session_id p)),
      (''source_root'', PStr origin),
      (''store_version'', PInt 1)])"

definition commit_migrations :: "(string \<times> string) list \<Rightarrow> unit mg_action" where
  "commit_migrations rows = (\<lambda>\<sigma>.
     case next_tx (mg_store \<sigma>) of
       (Tx_ok, \<tau>) \<Rightarrow> (Inr (), \<sigma>\<lparr>mg_store := \<tau>, mg_migrations := rows\<rparr>)
     | (Tx_error, \<tau>) \<Rightarrow> (Inl DatabaseError, \<sigma>\<lparr>mg_store := \<tau>\<rparr>)
     | (Tx_kill durable, \<tau>) \<Rightarrow>
         (Inl Killed, \<sigma>\<lparr>mg_store := \<tau>, mg_migrations := if durable then rows else mg_migrations \<sigma>\<rparr>))"

definition closing :: "'a mg_action \<Rightarrow> 'a mg_action" where
  "closing m = (\<lambda>\<sigma>.
     case m \<sigma> of
       (r, \<tau>) \<Rightarrow>
         if r = Inl Killed then (r, \<tau>)
         else (case on_v2 (tx_point SessionStoreV2Error) \<tau> of
                 (Inl e, \<tau>') \<Rightarrow> (Inl e, \<tau>')
               | (Inr _, \<tau>') \<Rightarrow> (r, \<tau>')))"

text \<open>\<open>ON CONFLICT DO NOTHING\<close>: an earlier row of the same source stays.\<close>

definition insert_migration :: "string \<Rightarrow> string \<Rightarrow> unit mg_action" where
  "insert_migration origin digest = (\<lambda>\<sigma>.
     case map_of (mg_migrations \<sigma>) origin of
       None \<Rightarrow> commit_migrations (mg_migrations \<sigma> @ [(origin, digest)]) \<sigma>
     | Some known \<Rightarrow>
         if known \<noteq> digest then (Inl SessionStoreV2Error, \<sigma>)
         else commit_migrations (mg_migrations \<sigma>) \<sigma>)"

definition record_migration :: "string \<Rightarrow> string \<Rightarrow> unit mg_action" where
  "record_migration origin digest =
     thenS (on_v2 (tx_point DatabaseError)) (\<lambda>_.
       closing (thenS (on_v2 (tx_point DatabaseError)) (\<lambda>_. insert_migration origin digest)))"

definition migrate_from_v1 :: "plan_scope \<Rightarrow> session_env \<Rightarrow> string \<Rightarrow> store_commit mg_action" where
  "migrate_from_v1 scope env origin =
     thenS (on_source (source_v1_manifest env)) (\<lambda>(p, hashes).
     thenS (on_source (load_v1 env)) (\<lambda>s.
     thenS (pureS (scope (sk_plan s))) (\<lambda>_.
     thenS (on_v2 (v2_persist scope env s)) (\<lambda>receipt.
     thenS (pureS (migration_document env origin p hashes)) (\<lambda>document.
     thenS (record_migration origin (v2_sha env document)) (\<lambda>_.
       pureS (Inr receipt)))))))"

text \<open>The constructor over a database that exists.\<close>

definition open_store :: "plan_scope \<Rightarrow> session_env \<Rightarrow> string \<Rightarrow> bool \<Rightarrow> unit mg_action" where
  "open_store scope env origin migrate_v1 =
     thenS (on_v2 (tx_point SessionStoreV2Error)) (\<lambda>_ \<sigma>.
       if migrate_v1 \<and> has_checkpoint (mg_source \<sigma>)
       then thenS (migrate_from_v1 scope env origin) (\<lambda>_. pureS (Inr ())) \<sigma>
       else (Inr (), \<sigma>))"

section \<open>What a migration reads\<close>

lemma on_source_run: "on_source m \<sigma> = (r, \<sigma>') \<longleftrightarrow> (\<exists>\<tau>. m (mg_source \<sigma>) = (r, \<tau>) \<and> \<sigma>' = \<sigma>\<lparr>mg_source := \<tau>\<rparr>)"
  by (auto simp: on_source_def split: prod.splits)

lemma on_v2_run: "on_v2 m \<sigma> = (r, \<sigma>') \<longleftrightarrow> (\<exists>\<tau>. m (mg_store \<sigma>) = (r, \<tau>) \<and> \<sigma>' = \<sigma>\<lparr>mg_store := \<tau>\<rparr>)"
  by (auto simp: on_v2_def split: prod.splits)

lemma source_file_run:
  "source_file maximum name \<sigma> = (r, \<tau>) \<Longrightarrow> st_dir \<tau> = st_dir \<sigma> \<and> (r = Inr content \<longrightarrow> st_dir \<sigma> name = Some (Regular content))"
  by (auto simp: source_file_def next_io_def split: option.splits entry.splits list.splits prod.splits
      io_outcome.splits if_splits)

lemma source_v1_manifest_run:
  assumes "source_v1_manifest env \<sigma> = (r, \<tau>)"
  shows "st_dir \<tau> = st_dir \<sigma>" "r = Inr (p, hashes) \<Longrightarrow> pointer_in env (st_dir \<sigma>) p"
proof -
  have "st_dir \<tau> = st_dir \<sigma> \<and> (r = Inr (p, hashes) \<longrightarrow> pointer_in env (st_dir \<sigma>) p)"
    using assms
    by (auto simp: source_v1_manifest_def thenS_run pureS_def source_pointer_def pointer_in_def reraise_Inr
        split: if_splits dest!: source_file_run)
  then show "st_dir \<tau> = st_dir \<sigma>" "r = Inr (p, hashes) \<Longrightarrow> pointer_in env (st_dir \<sigma>) p" by simp_all
qed

lemma or_else_run:
  "or_else m n \<sigma> = (r, \<sigma>') \<longleftrightarrow>
     (m \<sigma> = (r, \<sigma>') \<and> (\<forall>e. r = Inl e \<longrightarrow> e = Killed \<or> e = KeyboardInterrupt)) \<or>
     (\<exists>e \<tau>. m \<sigma> = (Inl e, \<tau>) \<and> e \<noteq> Killed \<and> e \<noteq> KeyboardInterrupt \<and> n \<tau> = (r, \<sigma>'))"
  by (auto simp: or_else_def split: prod.splits sum.splits)

lemma confirmed_any_scope: "confirmed scope env d s \<Longrightarrow> confirmed scope' env d t \<Longrightarrow> s = t"
  unfolding confirmed_def check_generation_def by (auto simp: bindE_Inr dest: pointer_in_unique)

lemma load_v1_run:
  assumes "load_v1 env \<sigma> = (r, \<tau>)" "confirmed scope env (st_dir \<sigma>) s"
  shows "st_dir \<tau> = st_dir \<sigma>" "r = Inr t \<Longrightarrow> t = s"
proof -
  have "st_dir \<tau> = st_dir \<sigma> \<and> (r = Inr t \<longrightarrow> t = s)"
    using assms(1) confirmed_any_scope [OF assms(2)]
    by (fastforce simp: load_v1_def batch_load_def or_else_run pureS_def dest!: load_checkpoint_run)
  then show "st_dir \<tau> = st_dir \<sigma>" "r = Inr t \<Longrightarrow> t = s" by simp_all
qed

definition same_session_state :: "migration_state \<Rightarrow> migration_state \<Rightarrow> bool" where
  "same_session_state \<sigma> \<tau> \<longleftrightarrow>
     mg_source \<tau> = mg_source \<sigma> \<and> v2_db (mg_store \<tau>) = v2_db (mg_store \<sigma>) \<and>
     v2_cache (mg_store \<tau>) = v2_cache (mg_store \<sigma>)"

lemma tx_keeps_session: "on_v2 (tx_point e) \<sigma> = (r, \<tau>) \<Longrightarrow> same_session_state \<sigma> \<tau> \<and> mg_migrations \<tau> = mg_migrations \<sigma>"
  by (auto simp: on_v2_run same_session_state_def dest: tx_point_keeps)

lemma insert_migration_run:
  "insert_migration origin digest \<sigma> = (r, \<tau>) \<Longrightarrow>
   same_session_state \<sigma> \<tau> \<and> (r = Inr () \<longrightarrow> map_of (mg_migrations \<tau>) origin = Some digest)"
  by (auto simp: insert_migration_def commit_migrations_def next_tx_def same_session_state_def map_add_Some_iff
      split: option.splits if_splits tx_outcome.splits list.splits)

lemma closing_run:
  "closing m \<sigma> = (r, \<sigma>') \<Longrightarrow>
   \<exists>x \<tau>. m \<sigma> = (x, \<tau>) \<and> same_session_state \<tau> \<sigma>' \<and> mg_migrations \<sigma>' = mg_migrations \<tau> \<and> (\<forall>y. r = Inr y \<longrightarrow> x = Inr y)"
  by (auto simp: closing_def same_session_state_def split: prod.splits sum.splits if_splits dest!: tx_keeps_session)

lemma record_migration_keeps:
  assumes "record_migration origin digest \<sigma> = (r, \<sigma>')"
  shows "same_session_state \<sigma> \<sigma>'" "r = Inr () \<Longrightarrow> map_of (mg_migrations \<sigma>') origin = Some digest"
proof -
  have "same_session_state \<sigma> \<sigma>' \<and> (r = Inr () \<longrightarrow> map_of (mg_migrations \<sigma>') origin = Some digest)"
    using assms unfolding record_migration_def thenS_run [of "on_v2 (tx_point DatabaseError)"]
  proof (elim disjE exE conjE)
    fix e
    assume "on_v2 (tx_point DatabaseError) \<sigma> = (Inl e, \<sigma>')" "r = Inl e"
    then show ?thesis by (auto dest: tx_keeps_session)
  next
    fix u \<tau>
    assume a: "on_v2 (tx_point DatabaseError) \<sigma> = (Inr u, \<tau>)"
      "closing (thenS (on_v2 (tx_point DatabaseError)) (\<lambda>_. insert_migration origin digest)) \<tau> = (r, \<sigma>')"
    from closing_run [OF a(2)] obtain x \<tau>1 where
      c: "thenS (on_v2 (tx_point DatabaseError)) (\<lambda>_. insert_migration origin digest) \<tau> = (x, \<tau>1)"
        "same_session_state \<tau>1 \<sigma>'" "mg_migrations \<sigma>' = mg_migrations \<tau>1" "\<forall>y. r = Inr y \<longrightarrow> x = Inr y" by blast
    from c(1) have "same_session_state \<tau> \<tau>1 \<and> (x = Inr () \<longrightarrow> map_of (mg_migrations \<tau>1) origin = Some digest)"
      unfolding thenS_run
    proof (elim disjE exE conjE)
      fix e
      assume "on_v2 (tx_point DatabaseError) \<tau> = (Inl e, \<tau>1)" "x = Inl e"
      then show ?thesis by (auto dest: tx_keeps_session)
    next
      fix u \<tau>2
      assume "on_v2 (tx_point DatabaseError) \<tau> = (Inr u, \<tau>2)" "insert_migration origin digest \<tau>2 = (x, \<tau>1)"
      from tx_keeps_session [OF this(1)] insert_migration_run [OF this(2)] show ?thesis
        by (simp add: same_session_state_def)
    qed
    with c tx_keeps_session [OF a(1)] show ?thesis by (simp add: same_session_state_def)
  qed
  then show "same_session_state \<sigma> \<sigma>'" "r = Inr () \<Longrightarrow> map_of (mg_migrations \<sigma>') origin = Some digest" by simp_all
qed

text \<open>A checkpoint that is behind the one stored is refused.\<close>

lemma persist_behind:
  assumes "stored env (v2_db \<sigma>) t" "sk_sequence s < sk_sequence t" "v2_persist scope env s \<sigma> = (r, \<sigma>')"
  shows "(\<forall>x. r \<noteq> Inr x) \<and> v2_db \<sigma>' = v2_db \<sigma>"
proof -
  from assms(1) obtain row where row: "db_state (v2_db \<sigma>) = Some row" "row_holds env row t" by (auto simp: stored_def)
  have "check_transition env sha s row = Inl SessionStoreV2Error" for sha
    using row(2) assms(2) by (simp add: check_transition_def row_holds_def)
  then have no: "persist_tables env sha s (v2_db \<sigma>) = Inl SessionStoreV2Error" for sha
    by (simp add: persist_tables_def row(1))
  have tx: "v2_db \<tau>' = v2_db \<sigma> \<and> (\<forall>x. y \<noteq> Inr x)"
    if k: "v2_db \<tau> = v2_db \<sigma>" and b: "transaction (on_tables (persist_tables env sha s)) \<tau> = (y, \<tau>')" for sha \<tau> y \<tau>'
    using b by (rule transaction_run) (use k no in \<open>auto simp: on_tables_run\<close>)
  show ?thesis
  proof (cases "scope (sk_plan s)")
    case (Inl e)
    with assms(3) show ?thesis by (auto simp: v2_persist_def thenS_def pureS_def)
  next
    case (Inr u)
    show ?thesis
    proof (cases "checkpoint_to_json env s")
      case (Inl e)
      with assms(3) \<open>scope _ = _\<close> show ?thesis by (auto simp: v2_persist_def thenS_def pureS_def cache_plan_def)
    next
      case (Inr d)
      obtain rest where "thenS (tx_point SessionStoreV2Error) (\<lambda>_. thenS (transaction
          (on_tables (persist_tables env (v2_sha env d) s))) rest) (\<sigma>\<lparr>v2_cache := Some (sk_plan s)\<rparr>) = (r, \<sigma>')"
        using assms(3) Inr \<open>scope _ = _\<close> by (simp add: v2_persist_def thenS_def pureS_def cache_plan_def Let_def)
      then consider e where "tx_point SessionStoreV2Error (\<sigma>\<lparr>v2_cache := Some (sk_plan s)\<rparr>) = (Inl e, \<sigma>')" "r = Inl e"
        | u \<tau> y \<tau>' where "tx_point SessionStoreV2Error (\<sigma>\<lparr>v2_cache := Some (sk_plan s)\<rparr>) = (Inr u, \<tau>)"
            "transaction (on_tables (persist_tables env (v2_sha env d) s)) \<tau> = (y, \<tau>')"
            "(\<forall>x. y \<noteq> Inr x) \<longrightarrow> (\<exists>e. y = Inl e \<and> r = Inl e \<and> \<sigma>' = \<tau>')"
        unfolding thenS_run by blast
      then show ?thesis
      proof cases
        case 1
        with tx_point_keeps [OF 1(1)] show ?thesis by simp
      next
        case 2
        from tx_point_keeps [OF 2(1)] tx [OF _ 2(2)] 2(3) show ?thesis by auto
      qed
    qed
  qed
qed

lemma migrate_run:
  assumes "migrate_from_v1 scope env origin \<sigma> = (r, \<sigma>')" "confirmed sc env (st_dir (mg_source \<sigma>)) s"
  obtains (stopped) "st_dir (mg_source \<sigma>') = st_dir (mg_source \<sigma>)" "mg_store \<sigma>' = mg_store \<sigma>" "\<forall>x. r \<noteq> Inr x"
  | (persisted) y v where "v2_persist scope env s (mg_store \<sigma>) = (y, v)"
      "st_dir (mg_source \<sigma>') = st_dir (mg_source \<sigma>)" "v2_db (mg_store \<sigma>') = v2_db v" "v2_cache (mg_store \<sigma>') = v2_cache v"
      "\<forall>x. r = Inr x \<longrightarrow> y = Inr x \<and> (\<exists>digest. map_of (mg_migrations \<sigma>') origin = Some digest)"
proof -
  define rest where "rest = (\<lambda>p hashes (receipt :: store_commit). thenS (pureS (migration_document env origin p hashes)) (\<lambda>document.
     thenS (record_migration origin (v2_sha env document)) (\<lambda>_. pureS (Inr receipt))))"
  have m: "migrate_from_v1 scope env origin = thenS (on_source (source_v1_manifest env)) (\<lambda>(p, hashes).
     thenS (on_source (load_v1 env)) (\<lambda>s. thenS (pureS (scope (sk_plan s))) (\<lambda>_.
     thenS (on_v2 (v2_persist scope env s)) (rest p hashes))))"
    by (simp add: migrate_from_v1_def rest_def)
  from assms(1) [unfolded m thenS_run [of "on_source (source_v1_manifest env)"]] show thesis
  proof (elim disjE exE conjE)
    fix e
    assume a: "on_source (source_v1_manifest env) \<sigma> = (Inl e, \<sigma>')" "r = Inl e"
    then show thesis by (intro stopped) (auto simp: on_source_run dest: source_v1_manifest_run)
  next
    fix x \<tau>
    assume a: "on_source (source_v1_manifest env) \<sigma> = (Inr x, \<tau>)"
      "(case x of (p, hashes) \<Rightarrow> thenS (on_source (load_v1 env)) (\<lambda>s. thenS (pureS (scope (sk_plan s))) (\<lambda>_.
         thenS (on_v2 (v2_persist scope env s)) (rest p hashes)))) \<tau> = (r, \<sigma>')"
    obtain p hashes where x: "x = (p, hashes)" by (cases x)
    from a(1) have \<tau>: "st_dir (mg_source \<tau>) = st_dir (mg_source \<sigma>)" "mg_store \<tau> = mg_store \<sigma>"
      by (auto simp: on_source_run dest: source_v1_manifest_run)
    from a(2) [unfolded x prod.case thenS_run [of "on_source (load_v1 env)"]] show thesis
    proof (elim disjE exE conjE)
      fix e
      assume "on_source (load_v1 env) \<tau> = (Inl e, \<sigma>')" "r = Inl e"
      with \<tau> assms(2) show thesis by (intro stopped) (auto simp: on_source_run dest: load_v1_run)
    next
      fix t \<tau>1
      assume b: "on_source (load_v1 env) \<tau> = (Inr t, \<tau>1)"
        "thenS (pureS (scope (sk_plan t))) (\<lambda>_. thenS (on_v2 (v2_persist scope env t)) (rest p hashes)) \<tau>1 = (r, \<sigma>')"
      from b(1) \<tau> assms(2) have \<tau>1: "t = s" "st_dir (mg_source \<tau>1) = st_dir (mg_source \<sigma>)" "mg_store \<tau>1 = mg_store \<sigma>"
        by (auto simp: on_source_run dest: load_v1_run)
      show thesis
      proof (cases "scope (sk_plan s)")
        case (Inl e)
        with b(2) \<tau>1 show thesis by (intro stopped) (auto simp: thenS_def pureS_def)
      next
        case (Inr u)
        with b(2) \<tau>1 have "thenS (on_v2 (v2_persist scope env s)) (rest p hashes) \<tau>1 = (r, \<sigma>')"
          by (simp add: thenS_def pureS_def)
        then show thesis unfolding thenS_run
        proof (elim disjE exE conjE)
          fix e
          assume "on_v2 (v2_persist scope env s) \<tau>1 = (Inl e, \<sigma>')" "r = Inl e"
          with \<tau>1 show thesis by (auto simp: on_v2_run intro: persisted)
        next
          fix receipt \<tau>2
          assume c: "on_v2 (v2_persist scope env s) \<tau>1 = (Inr receipt, \<tau>2)" "rest p hashes receipt \<tau>2 = (r, \<sigma>')"
          then obtain v where v: "v2_persist scope env s (mg_store \<sigma>) = (Inr receipt, v)" "mg_store \<tau>2 = v"
            "mg_source \<tau>2 = mg_source \<tau>1" using \<tau>1(3) by (auto simp: on_v2_run)
          have "same_session_state \<tau>2 \<sigma>' \<and> (\<forall>x. r = Inr x \<longrightarrow> x = receipt \<and> (\<exists>digest. map_of (mg_migrations \<sigma>') origin = Some digest))"
          proof (cases "migration_document env origin p hashes")
            case (Inl e)
            with c(2) show ?thesis by (auto simp: rest_def thenS_def pureS_def same_session_state_def)
          next
            case (Inr d)
            with c(2) have "thenS (record_migration origin (v2_sha env d)) (\<lambda>_. pureS (Inr receipt)) \<tau>2 = (r, \<sigma>')"
              by (simp add: rest_def thenS_def pureS_def)
            then obtain y \<tau>3 where "record_migration origin (v2_sha env d) \<tau>2 = (y, \<tau>3)"
              "(y = Inr () \<and> r = Inr receipt \<and> \<sigma>' = \<tau>3) \<or> (\<exists>e. r = Inl e \<and> \<sigma>' = \<tau>3)"
              by (auto simp: thenS_run pureS_def)
            with record_migration_keeps [OF this(1)] show ?thesis by auto
          qed
          with v \<tau>1 show thesis by (intro persisted [OF v(1)]) (auto simp: same_session_state_def)
        qed
      qed
    qed
  qed
qed

section \<open>Without failures\<close>

lemma write_endpoint_state: "write_endpoint env e db = Inr db' \<Longrightarrow> db_state db' = db_state db"
  by (auto simp: write_endpoint_def Let_def run split: option.splits if_splits)

lemma write_endpoints_state: "write_endpoints env es db = Inr db' \<Longrightarrow> db_state db' = db_state db"
  by (induction es arbitrary: db) (auto simp: run dest: write_endpoint_state)

lemma persist_tables_confirms:
  assumes "persist_tables env sha s empty_database = Inr (db', same)"
  shows "\<exists>row. db_state db' = Some row \<and> sw_checkpoint_sha256 row = Some sha"
proof -
  have e: "db_state empty_database = None" by (simp add: empty_database_def)
  from assms obtain db1 where i: "insert_session env sha s empty_database = Inr db1"
    and c: "confirm_checkpoint env sha s db1 = Inr db'"
    by (auto simp: persist_tables_def e run)
  from i have "\<exists>row. db_state db1 = Some row" by (auto simp: insert_session_def run)
  with c show ?thesis
    by (auto simp: confirm_checkpoint_def run Let_def insert_event_def update_state_def split: if_splits
        dest!: write_endpoints_state)
qed

lemma persist_into_empty:
  assumes g: "good_v2 scope env p c D s" and io: "v2_io \<sigma> = []" and n: "sk_sequence s < 2 ^ 63"
    and e: "v2_db \<sigma> = empty_database"
  obtains db row where "v2_persist scope env s \<sigma> =
      (Inr (checkpoint_commit env (v2_sha env (checkpoint_text_of env s)) s), \<sigma>\<lparr>v2_cache := Some p, v2_db := db\<rparr>)"
    "stored env db s" "db_state db = Some row" "sw_checkpoint_sha256 row = Some (v2_sha env (checkpoint_text_of env s))"
proof -
  let ?sha = "v2_sha env (checkpoint_text_of env s)"
  note gs = good_v2_endpoints [OF g]
  have gc: "good_checkpoint scope env s" "sk_plan s = p" using g by (simp_all add: good_v2_def)
  obtain db where db: "persist_tables env ?sha s (v2_db \<sigma>) = Inr (db, False)"
    using persist_first(1) [OF good_v2_shape [OF g] n] e by auto
  with e have st: "stored env db s" using persist_first(2) [OF good_v2_shape [OF g], of db False] by simp
  obtain row where row: "db_state db = Some row" "sw_checkpoint_sha256 row = Some ?sha"
    using persist_tables_confirms db e by metis
  let ?\<tau> = "\<sigma>\<lparr>v2_cache := Some p, v2_db := db\<rparr>"
  have "transaction (on_tables (persist_tables env ?sha s)) (\<sigma>\<lparr>v2_cache := Some p\<rparr>) = (Inr False, ?\<tau>)"
    by (rule transaction_healthy) (simp_all add: io on_tables_def db)
  moreover have "v2_load scope env ?\<tau> = (Inr s, ?\<tau>)"
    using v2_load_healthy [OF gc(1), of ?\<tau>] st io gc(2) by simp
  ultimately have "v2_persist scope env s \<sigma> = (Inr (checkpoint_commit env ?sha s), ?\<tau>)"
    using io checkpoint_to_json_of [OF gs(1)] gs(7) gc(2)
    by (simp add: v2_persist_def thenS_def pureS_def cache_plan_def Let_def)
  from that [OF this st row] show thesis .
qed

lemma persist_again:
  assumes g: "good_v2 scope env p c D s" and io: "v2_io \<sigma> = []" and st: "stored env (v2_db \<sigma>) s"
    and row: "db_state (v2_db \<sigma>) = Some row" "sw_checkpoint_sha256 row = Some (v2_sha env (checkpoint_text_of env s))"
  shows "v2_persist scope env s \<sigma> =
    (Inr (checkpoint_commit env (v2_sha env (checkpoint_text_of env s)) s), \<sigma>\<lparr>v2_cache := Some p\<rparr>)"
proof -
  let ?sha = "v2_sha env (checkpoint_text_of env s)"
  note gs = good_v2_endpoints [OF g]
  have p: "sk_plan s = p" using g by (simp add: good_v2_def)
  have "row_holds env row s" using st row(1) by (simp add: stored_def)
  then have "persist_tables env ?sha s (v2_db \<sigma>) = Inr (v2_db \<sigma>, True)"
    using row by (simp add: persist_tables_def check_transition_def row_holds_def)
  then have "transaction (on_tables (persist_tables env ?sha s)) (\<sigma>\<lparr>v2_cache := Some p\<rparr>) = (Inr True, \<sigma>\<lparr>v2_cache := Some p\<rparr>)"
    by (intro transaction_healthy) (simp_all add: io on_tables_def)
  then show ?thesis
    using io checkpoint_to_json_of [OF gs(1)] gs(7) p
    by (simp add: v2_persist_def thenS_def pureS_def cache_plan_def Let_def)
qed

lemma source_file_healthy:
  "st_io \<sigma> = [] \<Longrightarrow> st_dir \<sigma> name = Some (Regular content) \<Longrightarrow> length content \<le> maximum \<Longrightarrow>
   source_file maximum name \<sigma> = (Inr content, \<sigma>)"
  by (simp add: source_file_def next_io_def)

lemma source_v1_manifest_healthy:
  assumes "confirmed sc env (st_dir \<sigma>) s" "in_limits env (st_dir \<sigma>)" "st_io \<sigma> = []"
  obtains p hashes where "source_v1_manifest env \<sigma> = (Inr (p, hashes), \<sigma>)"
proof -
  from assms(1) obtain p content cb mb where p: "st_dir \<sigma> current_pointer_name = Some (Regular content)"
      "bindE (decode_or_integrity env content) (store_pointer_from_json env) = Inr p"
    and f: "st_dir \<sigma> (pt_checkpoint_file p) = Some (Regular cb)"
      "st_dir \<sigma> (pt_manifest_file p) = Some (Regular mb)" "check_generation sc env p cb mb = Inr s"
    by (auto simp: confirmed_def pointer_in_def)
  then have "pointer_in env (st_dir \<sigma>) p" by (auto simp: pointer_in_def)
  then have "length content \<le> max_pointer_bytes" "length cb \<le> max_document_bytes" "length mb \<le> max_document_bytes"
    using assms(2) p(1) f(1,2) by (auto simp: in_limits_def sized_def)
  moreover from this(1) have "length content \<le> max_document_bytes" by (simp add: max_pointer_bytes_def max_document_bytes_def)
  ultimately have "source_file max_pointer_bytes current_pointer_name \<sigma> = (Inr content, \<sigma>)"
    "source_file max_document_bytes current_pointer_name \<sigma> = (Inr content, \<sigma>)"
    "source_file max_document_bytes (pt_checkpoint_file p) \<sigma> = (Inr cb, \<sigma>)"
    "source_file max_document_bytes (pt_manifest_file p) \<sigma> = (Inr mb, \<sigma>)"
    using p(1) f(1,2) assms(3) by (simp_all add: source_file_healthy)
  moreover have "source_pointer env content = Inr p" using p(2) by (simp add: source_pointer_def)
  moreover have "env_sha256 env cb = pt_checkpoint_sha256 p" "env_sha256 env mb = pt_manifest_sha256 p"
    using f(3) by (auto simp: check_generation_def run integrity_def split: if_splits)
  ultimately show thesis by (intro that) (simp add: source_v1_manifest_def thenS_def pureS_def)
qed

lemma migration_document_ok: "\<exists>d. migration_document env origin p hashes = Inr d"
  by (auto simp: migration_document_def deterministic_json_def obj_def list_all_iff)

lemma record_migration_healthy:
  assumes "v2_io (mg_store \<sigma>) = []" "map_of (mg_migrations \<sigma>) origin \<in> {None, Some digest}"
  shows "record_migration origin digest \<sigma> = (Inr (), \<sigma>\<lparr>mg_migrations :=
    (if map_of (mg_migrations \<sigma>) origin = None then mg_migrations \<sigma> @ [(origin, digest)] else mg_migrations \<sigma>)\<rparr>)"
  using assms
  by (auto simp: record_migration_def thenS_def on_v2_def closing_def insert_migration_def commit_migrations_def next_tx_def)

section \<open>Properties\<close>

text \<open>
  C7. A migration never writes to its source and imports exactly the checkpoint that the source
  confirms: whatever fails, the files of the source stay as they are, what the database held is
  kept or followed by that checkpoint, and when the migration returns the database holds it, a
  load gives it back and the source is recorded.
\<close>

theorem migration_faithful:
  assumes "confirmed sc env (st_dir (mg_source \<sigma>)) s" "good_v2 scope env p c D s"
    "v2_usable scope env p c D (mg_store \<sigma>)" "migrate_from_v1 scope env origin \<sigma> = (r, \<sigma>')"
  shows "st_dir (mg_source \<sigma>') = st_dir (mg_source \<sigma>) \<and>
    (\<forall>j. v2_holds scope env p c D (mg_store \<sigma>) j \<longrightarrow>
       v2_holds scope env p c D (mg_store \<sigma>') j \<or> v2_holds scope env p c D (mg_store \<sigma>') s \<and> v2_follows j s) \<and>
    (\<forall>cm. r = Inr cm \<longrightarrow>
       v2_holds scope env p c D (mg_store \<sigma>') s \<and>
       fst (v2_load scope env ((mg_store \<sigma>')\<lparr>v2_io := []\<rparr>)) = Inr s \<and>
       (\<exists>digest. map_of (mg_migrations \<sigma>') origin = Some digest))"
  using assms(4,1)
proof (cases rule: migrate_run)
  case stopped
  then show ?thesis by simp
next
  case (persisted y v)
  have h: "v2_holds scope env p c D (mg_store \<sigma>') k \<longleftrightarrow> v2_holds scope env p c D v k" for k
    using persisted(3,4) by (simp add: v2_holds_def)
  have "v2_holds scope env p c D v j \<or> v2_holds scope env p c D v s \<and> v2_follows j s"
    if "v2_holds scope env p c D (mg_store \<sigma>) j" for j
    using v2.put_atomic [OF assms(2) persisted(1) that] by blast
  moreover have "v2_holds scope env p c D v s" if "r = Inr cm" for cm
    using v2.put_holds [OF assms(3,2)] persisted(1,5) that by blast
  moreover have "fst (v2_load scope env ((mg_store \<sigma>')\<lparr>v2_io := []\<rparr>)) = Inr s" if "v2_holds scope env p c D v s"
    using v2_holds_at [of scope env p c D "mg_store \<sigma>'" s] h that by (blast intro: v2_at_load)
  ultimately show ?thesis using persisted(2,5) h by blast
qed

text \<open>
  C8. A session that was migrated cannot be opened again with migration once it has advanced:
  the checkpoint of the source, which stays as it was, is then behind the one stored, the
  migration refuses it and the constructor fails, whatever else happens; the tables are left
  alone.
\<close>

theorem migrated_session_cannot_reopen:
  assumes "confirmed sc env (st_dir (mg_source \<sigma>)) s" "stored env (v2_db (mg_store \<sigma>)) t"
    "sk_sequence s < sk_sequence t" "open_store scope env origin True \<sigma> = (r, \<sigma>')"
  shows "(\<exists>e. r = Inl e) \<and> v2_db (mg_store \<sigma>') = v2_db (mg_store \<sigma>)"
proof -
  from assms(4) [unfolded open_store_def thenS_run [of "on_v2 (tx_point SessionStoreV2Error)"]] show ?thesis
  proof (elim disjE exE conjE)
    fix e
    assume "on_v2 (tx_point SessionStoreV2Error) \<sigma> = (Inl e, \<sigma>')" "r = Inl e"
    then show ?thesis by (auto dest: tx_keeps_session simp: same_session_state_def)
  next
    fix u \<tau>
    assume a: "on_v2 (tx_point SessionStoreV2Error) \<sigma> = (Inr u, \<tau>)"
      "(if True \<and> has_checkpoint (mg_source \<tau>) then thenS (migrate_from_v1 scope env origin) (\<lambda>_. pureS (Inr ())) \<tau>
        else (Inr (), \<tau>)) = (r, \<sigma>')"
    from tx_keeps_session [OF a(1)] have k: "mg_source \<tau> = mg_source \<sigma>" "v2_db (mg_store \<tau>) = v2_db (mg_store \<sigma>)"
      by (simp_all add: same_session_state_def)
    have "has_checkpoint (mg_source \<tau>)"
      using assms(1) by (auto simp: has_checkpoint_def k confirmed_def pointer_in_def path_exists_def)
    with a(2) obtain y \<tau>1 where m: "migrate_from_v1 scope env origin \<tau> = (y, \<tau>1)"
      "(\<forall>x. y \<noteq> Inr x) \<longrightarrow> (\<exists>e. r = Inl e) \<and> \<sigma>' = \<tau>1"
      by (cases "migrate_from_v1 scope env origin \<tau>") (auto simp: thenS_run pureS_def split: sum.splits)
    have "confirmed sc env (st_dir (mg_source \<tau>)) s" using assms(1) k by simp
    with m(1) have "(\<forall>x. y \<noteq> Inr x) \<and> v2_db (mg_store \<tau>1) = v2_db (mg_store \<tau>)"
    proof (cases rule: migrate_run)
      case stopped
      then show ?thesis by simp
    next
      case (persisted y' v)
      have "stored env (v2_db (mg_store \<tau>)) t" using assms(2) k by simp
      from persist_behind [OF this assms(3) persisted(1)] persisted(3,5) show ?thesis by auto
    qed
    with m(2) k show ?thesis by auto
  qed
qed

text \<open>
  C28. Without failures a migration can be repeated: from a confirmed source within the size
  limits and an empty database it returns the receipt of the source's checkpoint, and a second
  migration of the same source returns the same receipt and changes nothing.
\<close>

theorem migration_repeatable:
  assumes "confirmed require_single_target_plan env d s" "in_limits env d" "good_v2 scope env p c D s"
    "sk_sequence s < 2 ^ 63" "map_of rows origin = None"
  shows "\<exists>cm \<sigma>. migrate_from_v1 scope env origin \<lparr>mg_source = \<lparr>st_dir = d, st_io = []\<rparr>,
        mg_store = \<lparr>v2_db = empty_database, v2_cache = None, v2_io = []\<rparr>, mg_migrations = rows\<rparr> = (Inr cm, \<sigma>) \<and>
      cm_session_id cm = sk_session_id s \<and> cm_sequence cm = sk_sequence s \<and> cm_completed_ports cm = count_completed s \<and>
      migrate_from_v1 scope env origin \<sigma> = (Inr cm, \<sigma>)"
proof -
  let ?src = "\<lparr>st_dir = d, st_io = []\<rparr>" and ?v = "\<lparr>v2_db = empty_database, v2_cache = None, v2_io = []\<rparr>"
  let ?cm = "checkpoint_commit env (v2_sha env (checkpoint_text_of env s)) s"
  have sp: "scope (sk_plan s) = Inr ()" using good_v2_endpoints(7) [OF assms(3)] assms(3) by (simp add: good_v2_def)
  obtain q hashes where m: "source_v1_manifest env ?src = (Inr (q, hashes), ?src)"
    by (rule source_v1_manifest_healthy [of require_single_target_plan env ?src s]) (use assms(1,2) in simp_all)
  obtain doc where doc: "migration_document env origin q hashes = Inr doc" using migration_document_ok by blast
  have "load_checkpoint require_single_target_plan env ?src = (Inr s, ?src)"
    using assms(1,2) by (intro load_checkpoint_healthy) simp_all
  then have l: "load_v1 env ?src = (Inr s, ?src)" by (simp add: load_v1_def or_else_def)
  obtain db row where v: "v2_persist scope env s ?v = (Inr ?cm, ?v\<lparr>v2_cache := Some p, v2_db := db\<rparr>)"
    "stored env db s" "db_state db = Some row" "sw_checkpoint_sha256 row = Some (v2_sha env (checkpoint_text_of env s))"
    using persist_into_empty [OF assms(3) _ assms(4), of ?v] by auto
  let ?w = "\<lparr>v2_db = db, v2_cache = Some p, v2_io = []\<rparr>"
  have w: "v2_persist scope env s ?w = (Inr ?cm, ?w)"
    using persist_again [OF assms(3), of ?w] v(2-4) by simp
  let ?rows = "rows @ [(origin, v2_sha env doc)]"
  let ?\<sigma> = "\<lparr>mg_source = ?src, mg_store = ?w, mg_migrations = ?rows\<rparr>"
  have new: "map_of ?rows origin = Some (v2_sha env doc)" using assms(5) by (simp add: map_add_def)
  have "migrate_from_v1 scope env origin \<lparr>mg_source = ?src, mg_store = ?v, mg_migrations = rows\<rparr> = (Inr ?cm, ?\<sigma>)"
    using assms(5)
    by (simp add: migrate_from_v1_def thenS_def pureS_def on_source_def on_v2_def m l sp v(1) doc record_migration_healthy)
  moreover have "migrate_from_v1 scope env origin ?\<sigma> = (Inr ?cm, ?\<sigma>)"
    using new
    by (simp add: migrate_from_v1_def thenS_def pureS_def on_source_def on_v2_def m l sp w doc record_migration_healthy)
  ultimately show ?thesis by (intro exI conjI) (simp_all add: checkpoint_commit_def)
qed

section \<open>Samples\<close>


lemma sample_v1_dir:
  "\<exists>d. confirmed require_single_target_plan sample_v2_env d sample_checkpoint"
proof -
  have good: "good_checkpoint require_single_target_plan sample_v2_env sample_checkpoint"
    using sample_good_v2(1) by (simp add: good_v2_def)
  have "free_for sample_v2_env sample_checkpoint (\<lambda>_. None)" by (simp add: free_for_def path_exists_def)
  from persist_healthy [OF good this] v1.put_holds [OF TrueI good] show ?thesis by (metis prod.collapse)
qed

theorem migrated_session_cannot_reopen_witness:
  "\<exists>d db. \<forall>io io'. \<exists>e.
     fst (open_store require_single_target_plan sample_v2_env ''/s'' True
       \<lparr>mg_source = \<lparr>st_dir = d, st_io = io\<rparr>, mg_store = \<lparr>v2_db = db, v2_cache = None, v2_io = io'\<rparr>,
        mg_migrations = []\<rparr>) = Inl e"
proof -
  obtain d where d: "confirmed require_single_target_plan sample_v2_env d sample_checkpoint" using sample_v1_dir ..
  have "sk_sequence sample_later < 2 ^ 63" by (simp add: sample_later_def)
  from persist_first(1) [OF good_v2_shape [OF sample_good_v2(2)] this] persist_first(2) [OF good_v2_shape [OF sample_good_v2(2)]] obtain db where
    db: "stored sample_v2_env db sample_later" by blast
  have less: "sk_sequence sample_checkpoint < sk_sequence sample_later" by (simp add: sample_later_def sample_checkpoint_def)
  have "\<exists>e. fst (open_store require_single_target_plan sample_v2_env ''/s'' True
       \<lparr>mg_source = \<lparr>st_dir = d, st_io = io\<rparr>, mg_store = \<lparr>v2_db = db, v2_cache = None, v2_io = io'\<rparr>,
        mg_migrations = []\<rparr>) = Inl e" for io io'
    using migrated_session_cannot_reopen [of require_single_target_plan sample_v2_env
      "\<lparr>mg_source = \<lparr>st_dir = d, st_io = io\<rparr>, mg_store = \<lparr>v2_db = db, v2_cache = None, v2_io = io'\<rparr>, mg_migrations = []\<rparr>"
      sample_checkpoint sample_later require_single_target_plan "''/s''"] d db less by (metis migration_state.select_convs(1,2)
        prod.collapse store_state.select_convs(1) v2_state.select_convs(1))
  then show ?thesis by blast
qed

theorem migration_faithful_witness:
  "\<exists>d. \<forall>io io'. \<exists>r \<sigma>.
     migrate_from_v1 require_single_target_plan sample_v2_env ''/s''
       \<lparr>mg_source = \<lparr>st_dir = d, st_io = io\<rparr>, mg_store = empty_v2 io', mg_migrations = []\<rparr> = (r, \<sigma>) \<and>
     st_dir (mg_source \<sigma>) = d \<and>
     ((\<exists>e. r = Inl e) \<or>
      fst (v2_load require_single_target_plan sample_v2_env ((mg_store \<sigma>)\<lparr>v2_io := []\<rparr>)) = Inr sample_checkpoint)"
proof -
  obtain d where d: "confirmed require_single_target_plan sample_v2_env d sample_checkpoint" using sample_v1_dir ..
  have "\<exists>r \<sigma>. migrate_from_v1 require_single_target_plan sample_v2_env ''/s''
       \<lparr>mg_source = \<lparr>st_dir = d, st_io = io\<rparr>, mg_store = empty_v2 io', mg_migrations = []\<rparr> = (r, \<sigma>) \<and>
     st_dir (mg_source \<sigma>) = d \<and>
     ((\<exists>e. r = Inl e) \<or>
      fst (v2_load require_single_target_plan sample_v2_env ((mg_store \<sigma>)\<lparr>v2_io := []\<rparr>)) = Inr sample_checkpoint)" for io io'
  proof -
    obtain r \<sigma> where r: "migrate_from_v1 require_single_target_plan sample_v2_env ''/s''
       \<lparr>mg_source = \<lparr>st_dir = d, st_io = io\<rparr>, mg_store = empty_v2 io', mg_migrations = []\<rparr> = (r, \<sigma>)"
      by (rule prod.exhaust)
    have u: "v2_usable require_single_target_plan sample_v2_env sample_plan (sk_created_at sample_checkpoint) sample_texts (empty_v2 io')"
      by (simp add: v2_usable_def empty_v2_def)
    have "st_dir (mg_source \<sigma>) = d \<and> (\<forall>cm. r = Inr cm \<longrightarrow>
        fst (v2_load require_single_target_plan sample_v2_env ((mg_store \<sigma>)\<lparr>v2_io := []\<rparr>)) = Inr sample_checkpoint)"
      using migration_faithful [OF _ sample_good_v2(1) _ r] d u by simp
    with r show ?thesis by (cases r) auto
  qed
  then show ?thesis by blast
qed

text \<open>A session that has scanned nothing yet.\<close>

definition sample_fresh :: session_checkpoint where
  "sample_fresh = sample_checkpoint\<lparr>sk_endpoints := [sample_progress\<lparr>ep_completed_results := [],
     ep_completed_banner_ports := [], ep_pending_ports := [22, 80]\<rparr>]\<rparr>"

lemma sample_fresh_good: "good_checkpoint require_single_target_plan sample_env sample_fresh"
proof -
  have "session_checkpoint_from_dict sample_env (session_checkpoint_to_dict sample_fresh) = Inr sample_fresh" by code_simp
  then have "wf_checkpoint sample_env sample_fresh" by (rule checkpoint_accepted_wf [OF sample_iso_ok])
  moreover have "require_single_target_plan (sk_plan sample_fresh) = Inr ()" by code_simp
  ultimately show ?thesis by (simp add: good_checkpoint_def sample_env_ok)
qed

lemma sample_fresh_good_v2:
  "good_v2 require_single_target_plan sample_env sample_plan (sk_created_at sample_fresh)
     {checkpoint_text_of sample_env sample_fresh} sample_fresh"
  using sample_fresh_good
  by (simp add: good_v2_def texts_of_def) (simp add: sample_fresh_def sample_checkpoint_def in_plan_order_def
    sample_plan_def sample_progress_def)

lemma sample_fresh_dir:
  "\<exists>d. confirmed require_single_target_plan sample_env d sample_fresh \<and> in_limits sample_env d"
proof -
  have "length (checkpoint_bytes sample_env sample_fresh) < 3000" by code_simp
  moreover have "length (manifest_bytes sample_env sample_fresh) < 3000" by code_simp
  moreover have "length (pointer_bytes sample_env sample_fresh) < 3000" by code_simp
  ultimately have small: "small_generation sample_env sample_fresh"
    by (simp add: small_generation_def max_document_bytes_def max_pointer_bytes_def)
  let ?d = "(\<lambda>_. None)(name_of ''checkpoint'' sample_fresh \<mapsto> Regular (checkpoint_bytes sample_env sample_fresh),
        name_of ''manifest'' sample_fresh \<mapsto> Regular (manifest_bytes sample_env sample_fresh),
        current_pointer_name \<mapsto> Regular (pointer_bytes sample_env sample_fresh))"
  have "confirmed require_single_target_plan sample_env ?d sample_fresh" "in_limits sample_env ?d"
    by (rule generation_in_limits [OF sample_fresh_good small];
      simp add: not_sym [OF name_of_distinct(1)] not_sym [OF name_of_distinct(2)] not_sym [OF name_of_distinct(3)])+
  then show ?thesis by blast
qed

theorem migration_repeatable_witness:
  "\<exists>d cm \<sigma>. migrate_from_v1 require_single_target_plan sample_env ''/s'' \<lparr>mg_source = \<lparr>st_dir = d, st_io = []\<rparr>,
        mg_store = \<lparr>v2_db = empty_database, v2_cache = None, v2_io = []\<rparr>, mg_migrations = []\<rparr> = (Inr cm, \<sigma>) \<and>
      cm_sequence cm = 3 \<and> migrate_from_v1 require_single_target_plan sample_env ''/s'' \<sigma> = (Inr cm, \<sigma>)"
proof -
  obtain d where d: "confirmed require_single_target_plan sample_env d sample_fresh" "in_limits sample_env d"
    using sample_fresh_dir by blast
  have n: "sk_sequence sample_fresh = 3" by (simp add: sample_fresh_def sample_checkpoint_def)
  have "map_of [] ''/s'' = (None :: string option)" by simp
  from migration_repeatable [OF d sample_fresh_good_v2 _ this] n show ?thesis by auto
qed

end
