(* ===== verification/Spec2Isabelle.thy ===== *)
theory Spec2Isabelle
  imports Contracts Scan_Results Scanner Targets Json_Text Session_Validators Session_Contracts
    Session_Checkpoint Checkpoint_Store Session_Runner Native_Events Long_Running Native_Bridges
    Orchestrator Orchestrator_Batch Session_Pool Session_Migration
begin

text \<open>
  CicadaPort, a port scanner in Python with native engines in Rust and Go: a model of its core
  and the theorems that make it correct.

  \<^bold>\<open>The program.\<close> A scan request names a target and ports. The orchestrator
  (\<open>src/orchestrator.py\<close>) checks it, resolves the target, has the Rust engine scan the ports through a
  bridge (\<open>src/bridge_rust.py\<close>) and the Go engine read banners (\<open>src/bridge_go.py\<close>), collects the
  results in a scanner (\<open>src/scanner.py\<close>), and reports. Several targets (\<open>src/targets.py\<close>,
  \<open>src/network.py\<close>) make a batch with a pool of workers. Records cross the process boundary under
  versioned contracts (\<open>src/contracts.py\<close>) and, for native scans, an event channel
  (\<open>src/native_events.py\<close>). A scan can be a session (\<open>src/session.py\<close>): its plan and progress are
  documents that a store confirms one after the other, in a directory of immutable generations
  with a pointer (\<open>src/session_runtime.py\<close>) or in SQLite (\<open>src/session_store_v2.py\<close>), so that a run
  that is cancelled, fails or dies can be resumed, for one target (\<open>src/session_runtime.py\<close>) or many
  (\<open>src/session_batch.py\<close>). A harness (\<open>src/long_running_operation.py\<close> over \<open>src/resilience.py\<close>,
  \<open>src/resource_budget.py\<close>, \<open>src/failure_injection.py\<close>) drives synthetic long runs.

  \<^bold>\<open>Conventions.\<close> A function that may raise is a function into \<open>exc + 'a\<close>, \<open>Inl\<close> the exception class.
  Stateful code is an action, a function from a state to a result and the next state, composed by
  \<open>thenS\<close>. What the outside world does (I\<open>/\<close>O outcomes, clocks, processes, cancellations, the order in
  which threads act) is data: a script or a record of functions that the definitions take, over
  which the theorems quantify. Integers of Python are \<open>int\<close>, its strings lists of characters below
  256. SHA-256, ISO 8601 times, UTF-8, the text of floats and \<open>getaddrinfo\<close> are parameters; what is
  relied on of the first four is \<open>env_ok\<close>, and a sample environment satisfies it.

  \<^bold>\<open>The theories.\<close>
  \<^item> \<open>Cp_Prelude\<close>: exceptions, \<open>bindE\<close>, \<open>map_err\<close> and the rules \<open>run\<close> that take successful runs apart.
    \<open>Py_Values\<close>: JSON-like values and the string operations of Python. \<open>Ip_Addresses\<close>: the part of
    \<open>ipaddress\<close> in use, with parsing and printing proved inverse. \<open>Json_Text\<close>: deterministic JSON
    texts and the reader of \<open>json.loads\<close> (fuel \<open>2 * length + 1\<close>, which reading back any printed value
    never exhausts: \<open>json_loads_text\<close>).
  \<^item> \<open>Contracts\<close>, \<open>Scan_Results\<close>: the enumerations and records of \<open>src/contracts.py\<close> and \<open>ScanResult\<close>, with
    constructor, \<open>to_dict\<close> and \<open>from_dict\<close> of each. The locales \<open>str_enum\<close> and \<open>wire_record\<close> state what
    such a type promises (what is accepted is well formed and reads back as written) and are
    interpreted for every enumeration and record. \<open>Scan_Results\<close> also has the verdict of a TCP or UDP
    probe for each outcome of its socket calls.
  \<^item> \<open>Scanner\<close>: the state of \<open>PortScanner\<close>, the loop over finished probes as a list of events, and the
    external scan as a step relation with its invariant.
  \<^item> \<open>Targets\<close>: \<open>TargetParser\<close>, \<open>TargetResolver\<close>, port ranges and host validation; expansion is proved
    exact for blocks and ranges, parsing sound for every form of exclusions.
  \<^item> \<open>Native_Events\<close>: the event record, the protocol of the stream as a state machine, equal to a
    positional specification, and \<open>finish\<close>.
  \<^item> \<open>Native_Bridges\<close>: requests to the engines, validation of every record, the loop over the output
    with cancellation and callback, and what makes a run complete.
  \<^item> \<open>Orchestrator\<close>, \<open>Orchestrator_Batch\<close>: the conversion of engine results, \<open>scan_with_rust\<close>, banners,
    the run of a resolved target with its events, report names (the search for a free number ends
    because finitely many names are taken), \<open>run\<close> and \<open>run_many\<close>. The interleaving of the workers of a
    batch is a list of inputs in the order in which they happen; the announcement of a failed
    target is computed and made in two inputs, because the code releases its lock between them.
  \<^item> \<open>Resilience\<close>, \<open>Long_Running\<close>: budgets, failure plans, counters, recovery decisions, stability, and
    the whole run of the harness.
  \<^item> \<open>Session_Validators\<close>, \<open>Session_Contracts\<close>, \<open>Session_Checkpoint\<close>: the documents \<open>ScanPlan\<close>,
    \<open>EndpointProgress\<close>, \<open>SessionCheckpoint\<close>, \<open>SessionManifest\<close> with every rule of their constructors.
  \<^item> \<open>Checkpoint_Store\<close>: the generational store under every script of I\<open>/\<close>O errors, races and crashes. The
    locale \<open>atomic_store\<close> is the contract of a store (at most one record is held; a write changes
    nothing or puts a legal successor in place); it is interpreted for this store (\<open>v1\<close>) and, in
    \<open>Session_Store_V2\<close>, for the transactional one (\<open>v2\<close>), and both crash consistency theorems are its
    lemma \<open>put_all_prefix\<close> on them.
  \<^item> \<open>Session_Runner\<close>: creation, run and resume of a session with one target, verified with triples for
    actions that may raise. \<open>Session_Batch\<close>, \<open>Session_Pool\<close>: the same with many endpoints and a pool of
    workers under every schedule; what is known of each endpoint while its worker is in a phase is an
    invariant that each atomic step keeps.
  \<^item> \<open>Session_Database\<close>, \<open>Session_Tables\<close>, \<open>Session_Store_V2\<close>, \<open>Session_Increments\<close>, \<open>Session_Migration\<close>: the
    tables of the SQLite store, the relation that says which checkpoint they hold, \<open>persist\<close> and
    \<open>load\<close>, the incremental \<open>append_results\<close> and \<open>complete_banner\<close> as refinements of the change they
    make to the checkpoint, and the migration of a generational store.

  \<^bold>\<open>What the theorems show.\<close> Documents and records: what a constructor accepts is well formed, reads back
  as written, and its JSON text is written and read without loss. Scanning: a scan that returns has
  exactly one well-formed result per requested port, in order, whatever the engine writes and
  however probes interleave; a failed one leaves nothing behind. Batches: every target is accounted
  for, the outcome is independent of the schedule, workers and reports stay within their bounds.
  Sessions: no confirmed result is lost or changed, except by the banner it still lacked, under any
  failure, crash and schedule; a store holds a prefix of what was persisted and loads exactly it;
  without failures the operations succeed. Harness: every run returns within its budget. Defects that
  modelling showed are theorems too: a generation left behind blocks its session, a migrated session
  cannot be reopened with migration, the announced progress of a batch can go back.

  \<^bold>\<open>What is idealised.\<close> Floats that are read and printed are exact rationals; \<open>repr_ok\<close> asks for the
  round trip that CPython has for doubles. Strings stay below U\<open>+\<close>0100, so that JSON escapes above
  it do not occur; the digit limit of \<open>int\<close> and the recursion limit are not modelled. The JSON decoder
  of the Rust bridge is a parameter whose every failure is the \<open>RuntimeError\<close> that the bridge makes of
  \<open>JSONDecodeError\<close>; other exceptions of \<open>json.loads\<close> are left out. What the native processes write is
  arbitrary, not a function of the request. Subscribers to the orchestrator's events do not raise and
  its replacement hooks are not used; events carry no message and data. In the generational store another
  process may link a generation (a race) but does not replace the pointer, and nothing is lost after
  \<open>fsync\<close>; temporary files, the creation and the permissions of directories are left out. The
  transactions of SQLite are atomic and durable at \<open>COMMIT\<close>; the power loss that
  \<open>synchronous=NORMAL\<close> admits, the session's own clock columns, the creation, protection, audit and WAL
  checkpoint of the database file and \<open>export_bundle\<close> are left out; the reader of result rows refuses
  repeated keys and NaN, which the plain \<open>json.loads\<close> of that file would accept in rows that were
  tampered with. An interruption of the coordinating thread of a batch session is left out.

  \<^bold>\<open>What is not modelled.\<close> The branches of the session runners that use the transactional store directly
  (\<open>_complete_scan_phase\<close> with its buffer, \<open>_execute_endpoint_v2\<close>); the Python fallbacks for scanning
  and banners of the orchestrator and explicit output paths; the command lines, the dashboard, the
  formatting of reports, configuration, observability and the plans of the installation lifecycle,
  which none of the modelled parts depends on.
\<close>

end
